(* ===== verification/Ach_Prelude.thy ===== *)
theory Ach_Prelude
  imports Main "HOL-Library.Word"
begin

unbundle bit_operations_syntax

text \<open>
  The vocabulary the component theories share: the outcome of a C call (it returns, it blocks, or
  it faults), bounds-checked memory copies, the machine-integer facts that turn \<open>size_t\<close>
  arithmetic into arithmetic on \<open>nat\<close>, and the facts on positions of a ring.
\<close>

section \<open>Fact collections\<close>

named_theorems outcome_simps \<open>evaluation of sequenced C calls\<close>
named_theorems size_t_simps \<open>reading size\_t arithmetic as arithmetic on nat\<close>
named_theorems ring_simps \<open>positions in a ring\<close>

section \<open>Machine integers\<close>

type_synonym size_t = "64 word"
type_synonym uint64 = "64 word"
type_synonym uint32 = "32 word"
type_synonym byte = "8 word"

lemma unat_size_t_of_nat: "n < 2 ^ 64 \<Longrightarrow> unat (of_nat n :: size_t) = n"
  by (simp add: unsigned_of_nat take_bit_nat_eq_self)

lemma of_nat_unat_size_t [simp]: "of_nat (unat a) = (a :: size_t)"
  by (simp add: word_unat_eq_iff unsigned_of_nat)

lemma unat_add_no_wrap [size_t_simps]:
  fixes a b :: size_t
  assumes "unat a + unat b < 2 ^ 64"
  shows "unat (a + b) = unat a + unat b"
  using assms by (simp add: unat_word_ariths)

lemma unat_add_1 [size_t_simps]:
  fixes a :: size_t
  assumes "unat a + 1 < 2 ^ 64"
  shows "unat (a + 1) = unat a + 1"
  using assms by (simp add: unat_word_ariths)

lemma unat_sub_no_wrap [size_t_simps]:
  fixes a b :: size_t
  assumes "unat b \<le> unat a"
  shows "unat (a - b) = unat a - unat b"
  using assms by (simp add: unat_sub word_le_nat_alt)

lemma unat_mod_nat [size_t_simps]:
  fixes a b :: size_t
  shows "unat (a mod b) = unat a mod unat b"
  by (simp add: unat_mod)

lemma size_t_less [size_t_simps]:
  fixes a b :: size_t
  shows "a < b \<longleftrightarrow> unat a < unat b"
  by (simp add: word_less_nat_alt)

lemma size_t_le [size_t_simps]:
  fixes a b :: size_t
  shows "a \<le> b \<longleftrightarrow> unat a \<le> unat b"
  by (simp add: word_le_nat_alt)

lemma size_t_eq:
  fixes a b :: size_t
  shows "a = b \<longleftrightarrow> unat a = unat b"
  by (simp add: word_unat_eq_iff)

lemma size_t_eq_0 [size_t_simps]:
  fixes a :: size_t
  shows "a = 0 \<longleftrightarrow> unat a = 0"
  by (simp add: unat_eq_0)

lemma size_t_bound:
  fixes a :: size_t
  shows "unat a < 18446744073709551616"
  using unsigned_less [of a, where 'a = nat] by simp

section \<open>Outcomes of C calls\<close>

text \<open>
  A call returns a value, waits for ever in the environment it is given, or faults: an
  \<open>assert\<close> fires (the numbers are lines of the source), memory outside an object is accessed,
  a division by zero traps, or a pointer that has wrapped around overwrites another part of the object
  it points into.
\<close>

datatype c_fault = Assert_failed nat | Out_of_bounds | Div_by_zero | Unmapped | Overwritten

datatype 'a outcome = Ret 'a | Blocked | Fault c_fault

primrec and_then :: "'a outcome \<Rightarrow> ('a \<Rightarrow> 'b outcome) \<Rightarrow> 'b outcome" where
  "and_then (Ret x) f = f x"
| "and_then Blocked f = Blocked"
| "and_then (Fault e) f = Fault e"

definition c_assert :: "nat \<Rightarrow> bool \<Rightarrow> unit outcome" where
  "c_assert line b = (if b then Ret () else Fault (Assert_failed line))"

definition c_mod :: "size_t \<Rightarrow> size_t \<Rightarrow> size_t outcome" where
  "c_mod a b = (if b = 0 then Fault Div_by_zero else Ret (a mod b))"

definition c_div :: "size_t \<Rightarrow> size_t \<Rightarrow> size_t outcome" where
  "c_div a b = (if b = 0 then Fault Div_by_zero else Ret (a div b))"

declare and_then.simps [outcome_simps]

lemma and_then_cong [fundef_cong]:
  assumes "m = m'" and "\<And>x. m' = Ret x \<Longrightarrow> f x = g x"
  shows "and_then m f = and_then m' g"
  using assms by (cases m') auto

lemma and_then_assoc: "and_then (and_then m f) g = and_then m (\<lambda>x. and_then (f x) g)"
  by (cases m) auto

lemma and_then_Ret_iff [outcome_simps]:
  "and_then m f = Ret y \<longleftrightarrow> (\<exists>x. m = Ret x \<and> f x = Ret y)"
  by (cases m) auto

lemma c_assert_True [simp, outcome_simps]: "c_assert n True = Ret ()"
  by (simp add: c_assert_def)

lemma c_assert_Ret_iff [outcome_simps]: "c_assert n b = Ret u \<longleftrightarrow> b"
  by (simp add: c_assert_def)

lemma c_mod_Ret [outcome_simps]: "b \<noteq> 0 \<Longrightarrow> c_mod a b = Ret (a mod b)"
  by (simp add: c_mod_def)

lemma c_mod_Ret_iff [outcome_simps]: "c_mod a b = Ret r \<longleftrightarrow> b \<noteq> 0 \<and> r = a mod b"
  by (auto simp: c_mod_def)

section \<open>Memory\<close>

text \<open>\<open>memcpy(dst + d, src + s, n)\<close>, faulting when either range leaves its object.\<close>

definition memcpy :: "byte list \<Rightarrow> nat \<Rightarrow> byte list \<Rightarrow> nat \<Rightarrow> nat \<Rightarrow> byte list outcome" where
  "memcpy dst d src s n =
     (if d + n \<le> length dst \<and> s + n \<le> length src
      then Ret (take d dst @ take n (drop s src) @ drop (d + n) dst)
      else Fault Out_of_bounds)"

definition at :: "'a list \<Rightarrow> size_t \<Rightarrow> 'a outcome" where
  "at xs i = (if unat i < length xs then Ret (xs ! unat i) else Fault Out_of_bounds)"

lemma at_Ret [outcome_simps]: "unat i < length xs \<Longrightarrow> at xs i = Ret (xs ! unat i)"
  by (simp add: at_def)

lemma at_Ret_iff [outcome_simps]: "at xs i = Ret x \<longleftrightarrow> unat i < length xs \<and> x = xs ! unat i"
  by (auto simp: at_def)

lemma memcpy_Ret [outcome_simps]:
  "d + n \<le> length dst \<Longrightarrow> s + n \<le> length src \<Longrightarrow>
   memcpy dst d src s n = Ret (take d dst @ take n (drop s src) @ drop (d + n) dst)"
  by (simp add: memcpy_def)

lemma nth_memcpy:
  assumes "d + n \<le> length dst" "s + n \<le> length src" "k < length dst"
  shows "(take d dst @ take n (drop s src) @ drop (d + n) dst) ! k
         = (if d \<le> k \<and> k < d + n then src ! (s + (k - d)) else dst ! k)"
  using assms by (auto simp: nth_append)

section \<open>Positions in a ring\<close>

lemma ring_pos_inj:
  fixes h :: nat
  assumes "i < n" "j < n" "(h + i) mod n = (h + j) mod n"
  shows "i = j"
proof -
  have False if "i < j" "j < n" "(h + i) mod n = (h + j) mod n" for i j
  proof -
    from that(1,3) have "n dvd (h + j) - (h + i)"
      by (metis add_le_mono1 add.commute less_imp_le mod_eq_dvd_iff_nat)
    then have "n \<le> j - i" using that(1) by (simp add: dvd_imp_le)
    with that(2) show False by simp
  qed
  from this [of i j] this [of j i] assms show ?thesis
    by (metis linorder_neqE_nat)
qed

lemma mod_add_cancel_left_iff [ring_simps]:
  fixes h :: nat
  assumes "i < n" "j < n"
  shows "(h + i) mod n = (h + j) mod n \<longleftrightarrow> i = j"
  using ring_pos_inj [OF assms] by blast

lemma ring_step [ring_simps]:
  fixes h :: nat
  assumes "0 < n"
  shows "((h + k) mod n + j) mod n = (h + k + j) mod n"
  by (simp add: mod_add_left_eq)

lemma ring_full_turn [ring_simps]:
  fixes h :: nat
  assumes "h < n"
  shows "(h + n) mod n = h"
  using assms by simp

lemma mod_add_less_2:
  fixes d :: nat
  assumes "d < n" "i < n"
  shows "(d + i) mod n = (if d + i < n then d + i else d + i - n)"
  using assms by (simp add: mod_if)

lemma map_upt_shift: "map f [Suc m..<Suc n] = map (\<lambda>k. f (Suc k)) [m..<n]"
  by (induction n) auto

lemma map_upt_Cons: "m < n \<Longrightarrow> map f [m..<n] = f m # map f [Suc m..<n]"
  by (simp add: upt_conv_Cons)

section \<open>Decimal numbers\<close>

definition digit :: "nat \<Rightarrow> char" where
  "digit d = char_of (48 + d)"

fun show_nat :: "nat \<Rightarrow> string" where
  "show_nat n = (if n < 10 then [digit n] else show_nat (n div 10) @ [digit (n mod 10)])"

declare show_nat.simps [simp del]

definition show_int :: "int \<Rightarrow> string" where
  "show_int i = (if i < 0 then CHR ''-'' # show_nat (nat (- i)) else show_nat (nat i))"

lemma length_show_nat: "n < 10 ^ k \<Longrightarrow> 0 < k \<Longrightarrow> length (show_nat n) \<le> k"
proof (induction n arbitrary: k rule: show_nat.induct)
  case (1 n)
  show ?case
  proof (cases "n < 10")
    case True
    with 1(3) show ?thesis by (subst show_nat.simps) simp
  next
    case False
    with 1(2) have "k \<noteq> 1" by (cases "k = 1") auto
    with 1(3) obtain j where j: "k = Suc j" "0 < j" by (cases k) auto
    with 1(2) have "n div 10 < 10 ^ j" by (simp add: less_mult_imp_div_less mult.commute)
    with 1(1) [OF False this j(2)] j False show ?thesis by (subst show_nat.simps) simp
  qed
qed

text \<open>Zero-padded to a width, as \<open>%03d\<close> prints.\<close>

definition show_nat_width :: "nat \<Rightarrow> nat \<Rightarrow> string" where
  "show_nat_width w n = replicate (w - length (show_nat n)) (CHR ''0'') @ show_nat n"

section \<open>Comparison of strings without regard to case\<close>

definition tolower :: "char \<Rightarrow> char" where
  "tolower c = (if (65 :: nat) \<le> of_char c \<and> of_char c \<le> (90 :: nat) then char_of (of_char c + 32 :: nat) else c)"

definition strcaseeq :: "string \<Rightarrow> string \<Rightarrow> bool" where
  "strcaseeq a b = (map tolower a = map tolower b)"

end
