(* ===== verification/Ach_Types.thy ===== *)
theory Ach_Types
  imports Ach_Prelude
begin

text \<open>
  The data of \<^verbatim>\<open>include/ach.h\<close>: status codes, option flags, the shared-memory header with
  its index and data sections, the channel handle, the attribute structs, and the byte layout the
  \<^verbatim>\<open>ACH_SHM_*\<close> macros compute.  Sections of the mapped block that the C code reaches by
  pointer arithmetic (guards, index array, data array) are fields of the header record; the
  layout definitions give their byte offsets.
\<close>

section \<open>Status codes\<close>

datatype ach_status_t =
    ACH_OK | ACH_OVERFLOW | ACH_INVALID_NAME | ACH_BAD_SHM_FILE | ACH_FAILED_SYSCALL
  | ACH_STALE_FRAMES | ACH_MISSED_FRAME | ACH_TIMEOUT | ACH_EEXIST | ACH_ENOENT | ACH_CLOSED
  | ACH_BUG | ACH_EINVAL | ACH_CORRUPT | ACH_BAD_HEADER | ACH_EACCES | ACH_CANCELED

definition all_ach_status :: "ach_status_t list" where
  "all_ach_status =
     [ACH_OK, ACH_OVERFLOW, ACH_INVALID_NAME, ACH_BAD_SHM_FILE, ACH_FAILED_SYSCALL,
      ACH_STALE_FRAMES, ACH_MISSED_FRAME, ACH_TIMEOUT, ACH_EEXIST, ACH_ENOENT, ACH_CLOSED,
      ACH_BUG, ACH_EINVAL, ACH_CORRUPT, ACH_BAD_HEADER, ACH_EACCES, ACH_CANCELED]"

fun ach_status_code :: "ach_status_t \<Rightarrow> int" where
  "ach_status_code ACH_OK = 0"
| "ach_status_code ACH_OVERFLOW = 1"
| "ach_status_code ACH_INVALID_NAME = 2"
| "ach_status_code ACH_BAD_SHM_FILE = 3"
| "ach_status_code ACH_FAILED_SYSCALL = 4"
| "ach_status_code ACH_STALE_FRAMES = 5"
| "ach_status_code ACH_MISSED_FRAME = 6"
| "ach_status_code ACH_TIMEOUT = 7"
| "ach_status_code ACH_EEXIST = 8"
| "ach_status_code ACH_ENOENT = 9"
| "ach_status_code ACH_CLOSED = 10"
| "ach_status_code ACH_BUG = 11"
| "ach_status_code ACH_EINVAL = 12"
| "ach_status_code ACH_CORRUPT = 13"
| "ach_status_code ACH_BAD_HEADER = 14"
| "ach_status_code ACH_EACCES = 15"
| "ach_status_code ACH_CANCELED = 16"

text \<open>
  An \<open>enum ach_status\<close> object can hold any \<open>int\<close> (a peer sends one as text), so the
  printing function takes the integer, as the \<open>switch\<close> of the source does.
\<close>

definition ach_result_to_string :: "int \<Rightarrow> string" where
  "ach_result_to_string result =
     (if result = ach_status_code ACH_OK then ''ACH_OK''
      else if result = ach_status_code ACH_OVERFLOW then ''ACH_OVERFLOW''
      else if result = ach_status_code ACH_INVALID_NAME then ''ACH_INVALID_NAME''
      else if result = ach_status_code ACH_BAD_SHM_FILE then ''ACH_BAD_SHM_FILE''
      else if result = ach_status_code ACH_FAILED_SYSCALL then ''ACH_FAILED_SYSCALL''
      else if result = ach_status_code ACH_STALE_FRAMES then ''ACH_STALE_FRAMES''
      else if result = ach_status_code ACH_MISSED_FRAME then ''ACH_MISSED_FRAME''
      else if result = ach_status_code ACH_TIMEOUT then ''ACH_TIMEOUT''
      else if result = ach_status_code ACH_CLOSED then ''ACH_CLOSED''
      else if result = ach_status_code ACH_EEXIST then ''ACH_EEXIST''
      else if result = ach_status_code ACH_ENOENT then ''ACH_ENOENT''
      else if result = ach_status_code ACH_BUG then ''ACH_BUG''
      else if result = ach_status_code ACH_EINVAL then ''ACH_EINVAL''
      else if result = ach_status_code ACH_CORRUPT then ''ACH_CORRUPT''
      else if result = ach_status_code ACH_BAD_HEADER then ''ACH_BAD_HEADER''
      else if result = ach_status_code ACH_EACCES then ''ACH_EACCES''
      else if result = ach_status_code ACH_CANCELED then ''ACH_CANCELED''
      else ''UNKNOWN'')"

section \<open>Constants and option flags\<close>

definition ACH_CHAN_NAME_MAX :: nat where "ACH_CHAN_NAME_MAX = 64"
definition ACH_CHAN_NAME_PREFIX :: string where "ACH_CHAN_NAME_PREFIX = ''/achshm-''"
definition ACH_INTR_RETRY :: nat where "ACH_INTR_RETRY = 8"
definition ACH_SHM_MAGIC_NUM :: uint32 where "ACH_SHM_MAGIC_NUM = 0xb07511f3"
definition ACH_SHM_GUARD_HEADER_NUM :: uint64 where
  "ACH_SHM_GUARD_HEADER_NUM = 0x1A2A3A4A5A6A7A8A"
definition ACH_SHM_GUARD_INDEX_NUM :: uint64 where
  "ACH_SHM_GUARD_INDEX_NUM = 0x1B2B3B4B5B6B7B8B"
definition ACH_SHM_GUARD_DATA_NUM :: uint64 where
  "ACH_SHM_GUARD_DATA_NUM = 0x1C2C3C4C5C6C7C8C"
definition ACH_DEFAULT_FRAME_COUNT :: int where "ACH_DEFAULT_FRAME_COUNT = 16"
definition ACH_DEFAULT_FRAME_SIZE :: int where "ACH_DEFAULT_FRAME_SIZE = 512"

definition ACH_O_WAIT :: uint32 where "ACH_O_WAIT = 1"
definition ACH_O_LAST :: uint32 where "ACH_O_LAST = 2"
definition ACH_O_COPY :: uint32 where "ACH_O_COPY = 4"

definition o_wait :: "uint32 \<Rightarrow> bool" where "o_wait options = (options AND ACH_O_WAIT \<noteq> 0)"
definition o_last :: "uint32 \<Rightarrow> bool" where "o_last options = (options AND ACH_O_LAST \<noteq> 0)"
definition o_copy :: "uint32 \<Rightarrow> bool" where "o_copy options = (options AND ACH_O_COPY \<noteq> 0)"

section \<open>Synchronisation objects\<close>

type_synonym tid = nat

text \<open>
  The states of the process-shared mutex as the code configures it (robust and error checking):
  zeroed memory, free, held, held by a thread that died, taken over from a dead owner but not yet
  marked consistent, and lost for good.  A condition variable counts the broadcasts it has seen.
\<close>

datatype mutex_state =
    M_uninit | M_free | M_held tid | M_owner_dead | M_inconsistent tid | M_not_recoverable

datatype cond_state = C_uninit | C_ready nat

section \<open>Shared memory\<close>

record ach_index_t =
  idx_size :: size_t
  idx_offset :: size_t
  idx_seq_num :: uint64

definition zero_index :: ach_index_t where
  "zero_index = \<lparr>idx_size = 0, idx_offset = 0, idx_seq_num = 0\<rparr>"

record ach_header_t =
  magic :: uint32
  hdr_len :: size_t
  hdr_name :: string
  index_cnt :: size_t
  data_size :: size_t
  data_head :: size_t
  data_free :: size_t
  index_head :: size_t
  index_free :: size_t
  mutex :: mutex_state
  cond :: cond_state
  dirty :: int
  last_seq :: uint64
  guard_header :: uint64
  shm_index :: "ach_index_t list"
  guard_index :: uint64
  shm_data :: "byte list"
  guard_data :: uint64

section \<open>Handles and attributes\<close>

text \<open>A pointer to a mapped block is the number of the block; \<open>None\<close> is \<open>NULL\<close>.\<close>

type_synonym shm_ptr = "nat option"

record ach_attr_t =
  map_anon :: bool
  attr_shm :: shm_ptr

record ach_create_attr_t =
  c_map_anon :: bool
  c_shm :: shm_ptr
  c_truncate :: bool
  c_set_clock :: bool
  c_clock :: int

record ach_cancel_attr_t =
  async_unsafe :: bool

record ach_channel_t =
  ch_shm :: shm_ptr
  ch_len :: size_t
  ch_fd :: int
  ch_seq_num :: uint64
  ch_next_index :: size_t
  ch_attr :: ach_attr_t
  ch_cancel :: bool

definition ach_attr_init :: ach_attr_t where
  "ach_attr_init = \<lparr>map_anon = False, attr_shm = None\<rparr>"

definition ach_create_attr_init :: ach_create_attr_t where
  "ach_create_attr_init =
     \<lparr>c_map_anon = False, c_shm = None, c_truncate = False, c_set_clock = False, c_clock = 0\<rparr>"

definition ach_cancel_attr_init :: ach_cancel_attr_t where
  "ach_cancel_attr_init = \<lparr>async_unsafe = False\<rparr>"

section \<open>Byte layout\<close>

text \<open>
  Sizes on 64-bit Linux: the header struct is 320 bytes (magic, length, 65 bytes of name, the
  128-byte union, a 40-byte mutex, a 48-byte condition variable, the dirty flag and the last
  sequence number, with their padding); an index entry is three 8-byte words.
\<close>

definition sizeof_ach_header_t :: size_t where "sizeof_ach_header_t = 320"
definition sizeof_ach_index_t :: size_t where "sizeof_ach_index_t = 24"
definition sizeof_uint64 :: size_t where "sizeof_uint64 = 8"

definition ACH_SHM_GUARD_HEADER :: size_t where
  "ACH_SHM_GUARD_HEADER = sizeof_ach_header_t"

definition ACH_SHM_INDEX :: size_t where
  "ACH_SHM_INDEX = ACH_SHM_GUARD_HEADER + sizeof_uint64"

definition ACH_SHM_GUARD_INDEX :: "ach_header_t \<Rightarrow> size_t" where
  "ACH_SHM_GUARD_INDEX shm = ACH_SHM_INDEX + index_cnt shm * sizeof_ach_index_t"

definition ACH_SHM_DATA :: "ach_header_t \<Rightarrow> size_t" where
  "ACH_SHM_DATA shm = ACH_SHM_GUARD_INDEX shm + sizeof_uint64"

definition ACH_SHM_GUARD_DATA :: "ach_header_t \<Rightarrow> size_t" where
  "ACH_SHM_GUARD_DATA shm = ACH_SHM_DATA shm + data_size shm"

lemmas layout_defs =
  sizeof_ach_header_t_def sizeof_ach_index_t_def sizeof_uint64_def ACH_SHM_GUARD_HEADER_def
  ACH_SHM_INDEX_def ACH_SHM_GUARD_INDEX_def ACH_SHM_DATA_def ACH_SHM_GUARD_DATA_def

section \<open>Facts\<close>

lemma ach_status_code_inj: "ach_status_code a = ach_status_code b \<Longrightarrow> a = b"
  by (cases a; cases b; simp)

lemma ach_result_to_string_code:
  "ach_result_to_string (ach_status_code s) = ach_result_to_string (ach_status_code t) \<Longrightarrow> s = t"
  by (cases s; cases t; simp add: ach_result_to_string_def)

lemma all_ach_status_complete: "s \<in> set all_ach_status"
  by (cases s) (simp_all add: all_ach_status_def)

lemma option_flags:
  "o_wait 0 = False" "o_last 0 = False" "o_copy 0 = False"
  "o_wait (ACH_O_WAIT OR ACH_O_LAST) = True" "o_last (ACH_O_WAIT OR ACH_O_LAST) = True"
  "o_wait ACH_O_WAIT = True" "o_last ACH_O_WAIT = False" "o_copy ACH_O_WAIT = False"
  by (simp_all add: o_wait_def o_last_def o_copy_def ACH_O_WAIT_def ACH_O_LAST_def ACH_O_COPY_def)

end
