(* ===== verification/Ach_Sync.thy ===== *)
theory Ach_Sync
  imports Ach_Types
begin

text \<open>
  The lock layer of \<^verbatim>\<open>src/ach.c\<close>: \<^verbatim>\<open>check_lock\<close>, \<^verbatim>\<open>chan_lock\<close>,
  \<^verbatim>\<open>rdlock\<close>, \<^verbatim>\<open>unrdlock\<close>, \<^verbatim>\<open>wrlock\<close> and \<^verbatim>\<open>unwrlock\<close>, over a
  model of the pthread calls they make on a robust, error-checking mutex and a condition variable.
  What happens while a thread sleeps on the condition variable is an explicit list of wake-ups.
\<close>

section \<open>The pthread calls\<close>

datatype errno = EOK | ETIMEDOUT | ENOTRECOVERABLE | EOWNERDEAD | EINTR | EEXIST | ENOENT | EACCES
  | EINVAL | EPERM | EBADF | EDEADLK | EAGAIN | E_other nat

text \<open>\<open>pthread_mutex_lock\<close>; a thread that finds the mutex held by another one waits.\<close>

fun pthread_mutex_lock :: "tid \<Rightarrow> mutex_state \<Rightarrow> (errno \<times> mutex_state) outcome" where
  "pthread_mutex_lock t M_uninit = Ret (EINVAL, M_uninit)"
| "pthread_mutex_lock t M_free = Ret (EOK, M_held t)"
| "pthread_mutex_lock t (M_held u) =
     (if u = t then Ret (EDEADLK, M_held u) else Blocked)"
| "pthread_mutex_lock t M_owner_dead = Ret (EOWNERDEAD, M_inconsistent t)"
| "pthread_mutex_lock t (M_inconsistent u) =
     (if u = t then Ret (EDEADLK, M_inconsistent u) else Blocked)"
| "pthread_mutex_lock t M_not_recoverable = Ret (ENOTRECOVERABLE, M_not_recoverable)"

fun pthread_mutex_unlock :: "tid \<Rightarrow> mutex_state \<Rightarrow> errno \<times> mutex_state" where
  "pthread_mutex_unlock t (M_held u) = (if u = t then (EOK, M_free) else (EPERM, M_held u))"
| "pthread_mutex_unlock t (M_inconsistent u) =
     (if u = t then (EOK, M_not_recoverable) else (EPERM, M_inconsistent u))"
| "pthread_mutex_unlock t m = (EPERM, m)"

fun pthread_mutex_consistent :: "tid \<Rightarrow> mutex_state \<Rightarrow> mutex_state" where
  "pthread_mutex_consistent t (M_inconsistent u) =
     (if u = t then M_held t else M_inconsistent u)"
| "pthread_mutex_consistent t m = m"

fun pthread_cond_broadcast :: "cond_state \<Rightarrow> errno \<times> cond_state" where
  "pthread_cond_broadcast (C_ready n) = (EOK, C_ready (Suc n))"
| "pthread_cond_broadcast C_uninit = (EINVAL, C_uninit)"

text \<open>
  One return from \<open>pthread_cond_wait\<close>: its result, what the other processes have made of the
  shared memory meanwhile, and whether the handle was cancelled.  The wait releases the mutex and
  takes it again before it returns, unless the mutex can no longer be taken.  Without a deadline
  the call never times out.
\<close>

record wake =
  wake_ret :: errno
  wake_shm :: ach_header_t
  wake_cancel :: bool

definition cond_wait_result :: "(int \<times> int) option \<Rightarrow> errno \<Rightarrow> errno" where
  "cond_wait_result abstime e = (if abstime = None \<and> e = ETIMEDOUT then EOK else e)"

definition retake_mutex :: "tid \<Rightarrow> errno \<Rightarrow> mutex_state" where
  "retake_mutex t e =
     (if e = EOWNERDEAD then M_inconsistent t
      else if e = ENOTRECOVERABLE then M_not_recoverable else M_held t)"

section \<open>Lock operations of ach.c\<close>

definition unlock_mutex :: "tid \<Rightarrow> ach_header_t \<Rightarrow> errno \<times> ach_header_t" where
  "unlock_mutex t shm =
     (let (e, m) = pthread_mutex_unlock t (mutex shm) in (e, shm\<lparr>mutex := m\<rparr>))"

definition check_dirty :: "tid \<Rightarrow> ach_header_t \<Rightarrow> ach_status_t \<times> ach_header_t" where
  "check_dirty t shm =
     (if dirty shm \<noteq> 0 then (ACH_CORRUPT, snd (unlock_mutex t shm)) else (ACH_OK, shm))"

definition check_lock ::
  "errno \<Rightarrow> tid \<Rightarrow> ach_header_t \<Rightarrow> bool \<Rightarrow> ach_status_t \<times> ach_header_t" where
  "check_lock lock_result t shm is_cond_check =
     (case lock_result of
        ETIMEDOUT \<Rightarrow>
          (ACH_TIMEOUT, if is_cond_check then snd (unlock_mutex t shm) else shm)
      | ENOTRECOVERABLE \<Rightarrow> (ACH_CORRUPT, shm)
      | EOWNERDEAD \<Rightarrow>
          check_dirty t (shm\<lparr>mutex := pthread_mutex_consistent t (mutex shm)\<rparr>)
      | EOK \<Rightarrow> check_dirty t shm
      | _ \<Rightarrow>
          (ACH_FAILED_SYSCALL, if is_cond_check then snd (unlock_mutex t shm) else shm))"

definition chan_lock :: "tid \<Rightarrow> ach_header_t \<Rightarrow> (ach_status_t \<times> ach_header_t) outcome" where
  "chan_lock t shm =
     and_then (pthread_mutex_lock t (mutex shm))
       (\<lambda>(i, m). Ret (check_lock i t (shm\<lparr>mutex := m\<rparr>) False))"

text \<open>The waiting loop of \<^verbatim>\<open>rdlock\<close>; with no wake-up left the caller sleeps on.\<close>

fun rdlock_loop ::
  "tid \<Rightarrow> ach_channel_t \<Rightarrow> ach_header_t \<Rightarrow> bool \<Rightarrow> (int \<times> int) option \<Rightarrow> wake list \<Rightarrow>
   (ach_status_t \<times> ach_channel_t \<times> ach_header_t) outcome" where
  "rdlock_loop t chan shm wait abstime wakes =
     (if ch_cancel chan then Ret (ACH_CANCELED, chan, snd (unlock_mutex t shm))
      else if \<not> wait then Ret (ACH_OK, chan, shm)
      else if ch_seq_num chan \<noteq> last_seq shm then Ret (ACH_OK, chan, shm)
      else (case wakes of
              [] \<Rightarrow> Blocked
            | w # ws \<Rightarrow>
                (let i = cond_wait_result abstime (wake_ret w);
                     chan' = chan\<lparr>ch_cancel := wake_cancel w\<rparr>;
                     shm' = (wake_shm w)\<lparr>mutex := retake_mutex t i\<rparr>;
                     (c, shm'') = check_lock i t shm' True
                 in if c \<noteq> ACH_OK \<and> c \<noteq> ACH_BUG then Ret (c, chan', shm'')
                    else rdlock_loop t chan' shm'' wait abstime ws)))"

declare rdlock_loop.simps [simp del]

definition rdlock ::
  "tid \<Rightarrow> ach_channel_t \<Rightarrow> ach_header_t \<Rightarrow> bool \<Rightarrow> (int \<times> int) option \<Rightarrow> wake list \<Rightarrow>
   (ach_status_t \<times> ach_channel_t \<times> ach_header_t) outcome" where
  "rdlock t chan shm wait abstime wakes =
     and_then (chan_lock t shm)
       (\<lambda>(r, shm). if r \<noteq> ACH_OK then Ret (r, chan, shm)
                   else rdlock_loop t chan shm wait abstime wakes)"

definition unrdlock :: "tid \<Rightarrow> ach_header_t \<Rightarrow> (ach_status_t \<times> ach_header_t) outcome" where
  "unrdlock t shm =
     and_then (c_assert 375 (dirty shm = 0))
       (\<lambda>_. let (e, shm') = unlock_mutex t shm
            in Ret (if e \<noteq> EOK then ACH_FAILED_SYSCALL else ACH_OK, shm'))"

definition wrlock :: "tid \<Rightarrow> ach_header_t \<Rightarrow> (ach_status_t \<times> ach_header_t) outcome" where
  "wrlock t shm =
     and_then (chan_lock t shm)
       (\<lambda>(r, shm). if r \<noteq> ACH_OK then Ret (r, shm)
                   else and_then (c_assert 386 (dirty shm = 0))
                          (\<lambda>_. Ret (r, shm\<lparr>dirty := 1\<rparr>)))"

definition unwrlock :: "tid \<Rightarrow> ach_header_t \<Rightarrow> (ach_status_t \<times> ach_header_t) outcome" where
  "unwrlock t shm =
     and_then (c_assert 395 (dirty shm = 1))
       (\<lambda>_. let (e, shm') = unlock_mutex t (shm\<lparr>dirty := 0\<rparr>)
            in if e \<noteq> EOK then Ret (ACH_FAILED_SYSCALL, shm')
               else let (e', c) = pthread_cond_broadcast (cond shm')
                    in Ret (if e' \<noteq> EOK then ACH_FAILED_SYSCALL else ACH_OK, shm'\<lparr>cond := c\<rparr>))"

section \<open>Lock discipline\<close>

text \<open>The thread that holds the mutex of a block, consistent or not.\<close>

definition holder :: "ach_header_t \<Rightarrow> tid option" where
  "holder shm = (case mutex shm of M_held t \<Rightarrow> Some t | M_inconsistent t \<Rightarrow> Some t | _ \<Rightarrow> None)"

text \<open>No writer is inside and the synchronisation objects are in working order.\<close>

definition sync_ready :: "ach_header_t \<Rightarrow> bool" where
  "sync_ready shm \<longleftrightarrow> mutex shm = M_free \<and> dirty shm = 0 \<and> cond shm \<noteq> C_uninit"

definition bcasts :: "ach_header_t \<Rightarrow> nat" where
  "bcasts shm = (case cond shm of C_ready n \<Rightarrow> n | C_uninit \<Rightarrow> 0)"

lemmas lock_defs =
  chan_lock_def check_lock_def check_dirty_def unlock_mutex_def holder_def

lemma chan_lock_ready:
  "sync_ready shm \<Longrightarrow> chan_lock t shm = Ret (ACH_OK, shm\<lparr>mutex := M_held t\<rparr>)"
  by (simp add: lock_defs sync_ready_def)

lemma check_lock_not_bug: "fst (check_lock e t shm c) \<noteq> ACH_BUG"
  by (cases e) (simp_all add: check_lock_def check_dirty_def)

lemma chan_lock_holder:
  assumes "holder shm \<noteq> Some t" and "chan_lock t shm = Ret (r, shm')"
  shows "(r = ACH_OK \<longrightarrow> mutex shm' = M_held t \<and> dirty shm' = 0) \<and>
         (r \<noteq> ACH_OK \<longrightarrow> holder shm' \<noteq> Some t)"
  using assms by (cases "mutex shm") (auto simp: lock_defs split: if_splits)

lemma check_lock_cond_holder:
  assumes "mutex shm = retake_mutex t e" and "check_lock e t shm True = (r, shm')"
  shows "(r = ACH_OK \<longrightarrow> mutex shm' = M_held t \<and> dirty shm' = 0) \<and>
         (r \<noteq> ACH_OK \<longrightarrow> holder shm' \<noteq> Some t)"
  using assms by (cases e) (auto simp: lock_defs retake_mutex_def split: if_splits)

lemma unlock_mutex_held:
  "mutex shm = M_held t \<Longrightarrow> unlock_mutex t shm = (EOK, shm\<lparr>mutex := M_free\<rparr>)"
  by (simp add: unlock_mutex_def)

text \<open>One round of the waiting loop, and how the loop ends without waiting.\<close>

lemma rdlock_loop_done:
  "ch_cancel chan \<or> \<not> w \<or> ch_seq_num chan \<noteq> last_seq shm \<Longrightarrow>
   rdlock_loop t chan shm w ab wakes =
     (if ch_cancel chan then Ret (ACH_CANCELED, chan, snd (unlock_mutex t shm))
      else Ret (ACH_OK, chan, shm))"
  by (auto simp: rdlock_loop.simps [of t chan])

lemma rdlock_loop_Nil:
  "\<not> (ch_cancel chan \<or> \<not> w \<or> ch_seq_num chan \<noteq> last_seq shm) \<Longrightarrow>
   rdlock_loop t chan shm w ab [] = Blocked"
  by (simp add: rdlock_loop.simps [of t chan])

lemma rdlock_loop_Cons:
  assumes "\<not> (ch_cancel chan \<or> \<not> w \<or> ch_seq_num chan \<noteq> last_seq shm)"
    and "check_lock (cond_wait_result ab (wake_ret wk)) t
           ((wake_shm wk)\<lparr>mutex := retake_mutex t (cond_wait_result ab (wake_ret wk))\<rparr>) True = (c, shm2)"
  shows "rdlock_loop t chan shm w ab (wk # ws) =
     (if c \<noteq> ACH_OK then Ret (c, chan\<lparr>ch_cancel := wake_cancel wk\<rparr>, shm2)
      else rdlock_loop t (chan\<lparr>ch_cancel := wake_cancel wk\<rparr>) shm2 w ab ws)"
proof -
  have "c \<noteq> ACH_BUG" using check_lock_not_bug assms(2) by (metis fst_conv)
  with assms show ?thesis by (simp add: rdlock_loop.simps [of t chan] Let_def)
qed

lemma rdlock_loop_holder:
  assumes "mutex shm = M_held t" "dirty shm = 0"
    and "rdlock_loop t chan shm w ab wakes = Ret (r, chan', shm')"
  shows "(r = ACH_OK \<longrightarrow> mutex shm' = M_held t \<and> dirty shm' = 0 \<and> \<not> ch_cancel chan' \<and>
            (w \<longrightarrow> ch_seq_num chan' \<noteq> last_seq shm')) \<and>
         (r \<noteq> ACH_OK \<longrightarrow> holder shm' \<noteq> Some t)"
  using assms
proof (induction wakes arbitrary: chan shm)
  case Nil
  then show ?case
    by (cases "ch_cancel chan \<or> \<not> w \<or> ch_seq_num chan \<noteq> last_seq shm")
       (auto simp: rdlock_loop_done rdlock_loop_Nil unlock_mutex_held holder_def split: if_splits)
next
  case (Cons wk ws)
  show ?case
  proof (cases "ch_cancel chan \<or> \<not> w \<or> ch_seq_num chan \<noteq> last_seq shm")
    case True
    with Cons.prems show ?thesis
      by (auto simp: rdlock_loop_done unlock_mutex_held holder_def split: if_splits)
  next
    case False
    let ?i = "cond_wait_result ab (wake_ret wk)"
    let ?shm1 = "(wake_shm wk)\<lparr>mutex := retake_mutex t ?i\<rparr>"
    obtain c shm2 where cl: "check_lock ?i t ?shm1 True = (c, shm2)" by fastforce
    have cond: "(c = ACH_OK \<longrightarrow> mutex shm2 = M_held t \<and> dirty shm2 = 0) \<and>
                (c \<noteq> ACH_OK \<longrightarrow> holder shm2 \<noteq> Some t)"
      using check_lock_cond_holder [OF _ cl] by simp
    with Cons.IH [of shm2 "chan\<lparr>ch_cancel := wake_cancel wk\<rparr>"] Cons.prems(3)
      rdlock_loop_Cons [OF False cl]
    show ?thesis by (cases "c = ACH_OK") simp_all
  qed
qed

text \<open>The statuses the lock layer can return.\<close>

definition lock_status :: "ach_status_t \<Rightarrow> bool" where
  "lock_status r \<longleftrightarrow> r \<in> {ACH_OK, ACH_TIMEOUT, ACH_CORRUPT, ACH_FAILED_SYSCALL, ACH_CANCELED}"

lemma check_lock_status: "lock_status (fst (check_lock e t shm c))"
  by (cases e) (simp_all add: check_lock_def check_dirty_def lock_status_def)

lemma rdlock_loop_status:
  "rdlock_loop t chan shm w ab wakes = Ret (r, chan', shm') \<Longrightarrow> lock_status r"
proof (induction wakes arbitrary: chan shm)
  case Nil
  then show ?case
    by (cases "ch_cancel chan \<or> \<not> w \<or> ch_seq_num chan \<noteq> last_seq shm")
       (auto simp: rdlock_loop_done rdlock_loop_Nil lock_status_def split: if_splits)
next
  case (Cons wk ws)
  show ?case
  proof (cases "ch_cancel chan \<or> \<not> w \<or> ch_seq_num chan \<noteq> last_seq shm")
    case True
    with Cons.prems show ?thesis by (auto simp: rdlock_loop_done lock_status_def split: if_splits)
  next
    case False
    let ?i = "cond_wait_result ab (wake_ret wk)"
    obtain c shm2 where cl: "check_lock ?i t ((wake_shm wk)\<lparr>mutex := retake_mutex t ?i\<rparr>) True = (c, shm2)"
      by fastforce
    then have "lock_status c" by (metis check_lock_status fst_conv)
    with Cons.IH [of "chan\<lparr>ch_cancel := wake_cancel wk\<rparr>" shm2] Cons.prems
      rdlock_loop_Cons [OF False cl]
    show ?thesis by (cases "c = ACH_OK") simp_all
  qed
qed

lemma chan_lock_status: "chan_lock t shm = Ret (r, shm') \<Longrightarrow> lock_status r"
  using check_lock_status
  by (auto simp: chan_lock_def and_then_Ret_iff) (metis fst_conv)

lemma rdlock_status: "rdlock t chan shm w ab wakes = Ret (r, chan', shm') \<Longrightarrow> lock_status r"
  by (auto simp: rdlock_def and_then_Ret_iff split: if_splits
      dest: chan_lock_status rdlock_loop_status)

lemma rdlock_ready_nowait:
  "sync_ready shm \<Longrightarrow> \<not> ch_cancel chan \<Longrightarrow> \<not> w \<or> ch_seq_num chan \<noteq> last_seq shm \<Longrightarrow>
   rdlock t chan shm w ab wakes = Ret (ACH_OK, chan, shm\<lparr>mutex := M_held t\<rparr>)"
  by (auto simp: rdlock_def chan_lock_ready rdlock_loop.simps [of t chan])

lemma wrlock_ready:
  "sync_ready shm \<Longrightarrow> wrlock t shm = Ret (ACH_OK, shm\<lparr>mutex := M_held t, dirty := 1\<rparr>)"
  by (simp add: wrlock_def chan_lock_ready) (simp add: sync_ready_def)

lemma unrdlock_held:
  "mutex shm = M_held t \<Longrightarrow> dirty shm = 0 \<Longrightarrow> unrdlock t shm = Ret (ACH_OK, shm\<lparr>mutex := M_free\<rparr>)"
  by (simp add: unrdlock_def unlock_mutex_held)

lemma unwrlock_held:
  "mutex shm = M_held t \<Longrightarrow> dirty shm = 1 \<Longrightarrow> cond shm = C_ready n \<Longrightarrow>
   unwrlock t shm = Ret (ACH_OK, shm\<lparr>mutex := M_free, dirty := 0, cond := C_ready (Suc n)\<rparr>)"
  by (simp add: unwrlock_def unlock_mutex_def)

end
