(* ===== verification/Ach_Channel.thy ===== *)
theory Ach_Channel
  imports Ach_Sync
begin

text \<open>
  The channel operations of \<^verbatim>\<open>src/ach.c\<close> on one block of shared memory:
  \<^verbatim>\<open>check_guards\<close>, \<^verbatim>\<open>ach_get_from_offset\<close>, \<^verbatim>\<open>ach_get\<close>,
  \<^verbatim>\<open>ach_flush\<close>, \<^verbatim>\<open>free_index\<close> and \<^verbatim>\<open>ach_put\<close>.  Each takes the calling
  thread, the handle and the block the handle points to, and returns the updated ones.  Every
  \<open>assert\<close>, array access, \<^verbatim>\<open>memcpy\<close> and division of the source is checked.
\<close>

section \<open>Initialising a block\<close>

text \<open>
  \<^verbatim>\<open>ach_create\<close> zeroes the block, initialises the synchronisation objects, sets the
  counts and marks the sections with guard words.  The positions of the guards are computed by pointer
  arithmetic, which wraps around at \<open>2 ^ 64\<close>.  A guard beyond the block is a fault, and so is one that
  wraps around into what lies before it; otherwise the sections of the zeroed memory are what is between
  the guards, which may be less than the counts say.
\<close>

definition in_block :: "size_t \<Rightarrow> size_t \<Rightarrow> bool" where
  "in_block len p \<longleftrightarrow> unat p + unat sizeof_uint64 \<le> unat len"

definition zero_block :: "size_t \<Rightarrow> ach_header_t" where
  "zero_block len =
     \<lparr>magic = 0, hdr_len = len, hdr_name = [], index_cnt = 0, data_size = 0, data_head = 0,
      data_free = 0, index_head = 0, index_free = 0, mutex = M_uninit, cond = C_uninit, dirty = 0,
      last_seq = 0, guard_header = 0, shm_index = [], guard_index = 0, shm_data = [],
      guard_data = 0\<rparr>"

definition block_len :: "size_t \<Rightarrow> size_t \<Rightarrow> size_t" where
  "block_len frame_cnt frame_size =
     sizeof_ach_header_t + frame_cnt * sizeof_ach_index_t + frame_cnt * frame_size
       + 3 * sizeof_uint64"

definition init_counts ::
  "ach_header_t \<Rightarrow> string \<Rightarrow> size_t \<Rightarrow> size_t \<Rightarrow> size_t \<Rightarrow> ach_header_t outcome" where
  "init_counts shm channel_name frame_cnt frame_size len =
     (let shm = shm\<lparr>hdr_name := take ACH_CHAN_NAME_MAX channel_name,
                    index_cnt := frame_cnt, index_head := 0, index_free := frame_cnt,
                    data_head := 0, data_free := frame_cnt * frame_size,
                    data_size := frame_cnt * frame_size\<rparr>
      in and_then (c_assert 597 (sizeof_ach_header_t + index_free shm * sizeof_ach_index_t
                                  + data_free shm + 3 * sizeof_uint64 = len)) (\<lambda>_.
         if \<not> (in_block len ACH_SHM_GUARD_HEADER \<and> in_block len (ACH_SHM_GUARD_INDEX shm) \<and>
                in_block len (ACH_SHM_GUARD_DATA shm))
         then Fault Out_of_bounds
         else if \<not> (ACH_SHM_INDEX \<le> ACH_SHM_GUARD_INDEX shm \<and> ACH_SHM_DATA shm \<le> ACH_SHM_GUARD_DATA shm)
         then Fault Overwritten
         else Ret (shm\<lparr>shm_index := replicate (unat (frame_cnt * sizeof_ach_index_t) div unat sizeof_ach_index_t) zero_index,
                       shm_data := replicate (unat (data_size shm)) 0,
                       guard_header := ACH_SHM_GUARD_HEADER_NUM,
                       guard_index := ACH_SHM_GUARD_INDEX_NUM,
                       guard_data := ACH_SHM_GUARD_DATA_NUM,
                       magic := ACH_SHM_MAGIC_NUM\<rparr>)))"

section \<open>Index positions and guards\<close>

definition oldest_index_i :: "ach_header_t \<Rightarrow> size_t outcome" where
  "oldest_index_i shm = c_mod (index_head shm + index_free shm) (index_cnt shm)"

definition last_index_i :: "ach_header_t \<Rightarrow> size_t outcome" where
  "last_index_i shm = c_mod (index_head shm + index_cnt shm - 1) (index_cnt shm)"

definition check_guards :: "ach_header_t \<Rightarrow> ach_status_t" where
  "check_guards shm =
     (if ACH_SHM_MAGIC_NUM \<noteq> magic shm \<or>
         ACH_SHM_GUARD_HEADER_NUM \<noteq> guard_header shm \<or>
         ACH_SHM_GUARD_INDEX_NUM \<noteq> guard_index shm \<or>
         ACH_SHM_GUARD_DATA_NUM \<noteq> guard_data shm
      then ACH_CORRUPT else ACH_OK)"

section \<open>Reading\<close>

text \<open>
  What a call of \<^verbatim>\<open>ach_get\<close> leaves behind: its status, the handle, the block, the caller's
  buffer and the variable \<^verbatim>\<open>*frame_size\<close>.
\<close>

record get_result =
  g_status :: ach_status_t
  g_chan :: ach_channel_t
  g_shm :: ach_header_t
  g_buf :: "byte list"
  g_frame_size :: size_t

definition copy_out ::
  "ach_header_t \<Rightarrow> ach_index_t \<Rightarrow> byte list \<Rightarrow> byte list outcome" where
  "copy_out shm idx buf =
     (if idx_offset idx + idx_size idx < data_size shm
      then memcpy buf 0 (shm_data shm) (unat (idx_offset idx)) (unat (idx_size idx))
      else (let end_cnt = data_size shm - idx_offset idx
            in and_then (memcpy buf 0 (shm_data shm) (unat (idx_offset idx)) (unat end_cnt))
                 (\<lambda>buf. memcpy buf (unat end_cnt) (shm_data shm) 0
                          (unat (idx_size idx - end_cnt)))))"

definition ach_get_from_offset ::
  "ach_channel_t \<Rightarrow> ach_header_t \<Rightarrow> size_t \<Rightarrow> byte list \<Rightarrow> size_t \<Rightarrow> size_t \<Rightarrow> get_result outcome"
  where
  "ach_get_from_offset chan shm index_offset buf bufsize frame_size =
     and_then (c_assert 701 (index_offset < index_cnt shm)) (\<lambda>_.
     and_then (at (shm_index shm) index_offset) (\<lambda>idx.
     and_then (c_assert 704 (idx_seq_num idx \<noteq> 0)) (\<lambda>_.
     and_then (c_assert 705 (idx_offset idx < data_size shm)) (\<lambda>_.
     if ch_seq_num chan > idx_seq_num idx
     then Ret \<lparr>g_status = ACH_BUG, g_chan = chan, g_shm = shm, g_buf = buf,
               g_frame_size = frame_size\<rparr>
     else if idx_size idx > bufsize
     then Ret \<lparr>g_status = ACH_OVERFLOW, g_chan = chan, g_shm = shm, g_buf = buf,
               g_frame_size = idx_size idx\<rparr>
     else and_then (copy_out shm idx buf) (\<lambda>buf.
          and_then (c_mod (index_offset + 1) (index_cnt shm)) (\<lambda>next.
          Ret \<lparr>g_status = ACH_OK,
               g_chan = chan\<lparr>ch_seq_num := idx_seq_num idx, ch_next_index := next\<rparr>,
               g_shm = shm, g_buf = buf, g_frame_size = idx_size idx\<rparr>))))))"

text \<open>The choice of the index entry to read.\<close>

definition choose_index ::
  "ach_channel_t \<Rightarrow> ach_header_t \<Rightarrow> uint32 \<Rightarrow> size_t outcome" where
  "choose_index chan shm options =
     (if o_last options then last_index_i shm
      else and_then (at (shm_index shm) (ch_next_index chan)) (\<lambda>idx.
           if idx_seq_num idx = ch_seq_num chan + 1 then Ret (ch_next_index chan)
           else if ch_seq_num chan = last_seq shm
           then and_then (c_assert 786 (o_copy options)) (\<lambda>_. last_index_i shm)
           else oldest_index_i shm))"

text \<open>The part of \<^verbatim>\<open>ach_get\<close> between taking and releasing the lock.\<close>

definition get_locked ::
  "ach_channel_t \<Rightarrow> ach_header_t \<Rightarrow> byte list \<Rightarrow> size_t \<Rightarrow> size_t \<Rightarrow> uint32 \<Rightarrow>
   (get_result \<times> bool) outcome" where
  "get_locked chan shm buf bufsize frame_size options =
     and_then (c_assert 762 (ch_seq_num chan \<le> last_seq shm)) (\<lambda>_.
     if (ch_seq_num chan = last_seq shm \<and> \<not> o_copy options) \<or> last_seq shm = 0
     then and_then (c_assert 770 (\<not> o_wait options)) (\<lambda>_.
          Ret (\<lparr>g_status = ACH_STALE_FRAMES, g_chan = chan, g_shm = shm, g_buf = buf,
                g_frame_size = frame_size\<rparr>, False))
     else and_then (choose_index chan shm options) (\<lambda>read_index.
          and_then (at (shm_index shm) read_index) (\<lambda>idx.
          let missed_frame = (idx_seq_num idx > ch_seq_num chan + 1)
          in and_then (ach_get_from_offset chan shm read_index buf bufsize frame_size) (\<lambda>g.
             and_then (c_assert 800 (idx_seq_num idx > 0)) (\<lambda>_.
             Ret (g, missed_frame))))))"

definition ach_get ::
  "tid \<Rightarrow> ach_channel_t \<Rightarrow> ach_header_t \<Rightarrow> byte list \<Rightarrow> size_t \<Rightarrow> size_t \<Rightarrow>
   (int \<times> int) option \<Rightarrow> uint32 \<Rightarrow> wake list \<Rightarrow> get_result outcome" where
  "ach_get t chan shm buf bufsize frame_size abstime options wakes =
     (if check_guards shm \<noteq> ACH_OK
      then Ret \<lparr>g_status = check_guards shm, g_chan = chan, g_shm = shm, g_buf = buf,
                g_frame_size = frame_size\<rparr>
      else and_then (rdlock t chan shm (o_wait options) abstime wakes) (\<lambda>(r, chan, shm).
           if r \<noteq> ACH_OK
           then Ret \<lparr>g_status = r, g_chan = chan, g_shm = shm, g_buf = buf,
                     g_frame_size = frame_size\<rparr>
           else and_then (get_locked chan shm buf bufsize frame_size options) (\<lambda>(g, missed_frame).
                and_then (unrdlock t (g_shm g)) (\<lambda>(r, shm).
                Ret (g\<lparr>g_shm := shm,
                       g_status := (if r \<noteq> ACH_OK then r
                                    else if g_status g = ACH_OK \<and> missed_frame
                                    then ACH_MISSED_FRAME else g_status g)\<rparr>)))))"

definition ach_flush ::
  "tid \<Rightarrow> ach_channel_t \<Rightarrow> ach_header_t \<Rightarrow> (ach_status_t \<times> ach_channel_t \<times> ach_header_t) outcome"
  where
  "ach_flush t chan shm =
     and_then (rdlock t chan shm False None []) (\<lambda>(r, chan, shm).
     if r \<noteq> ACH_OK then Ret (r, chan, shm)
     else let chan = chan\<lparr>ch_seq_num := last_seq shm, ch_next_index := index_head shm\<rparr>
          in and_then (unrdlock t shm) (\<lambda>(r, shm). Ret (r, chan, shm)))"

section \<open>Writing\<close>

definition free_index :: "ach_header_t \<Rightarrow> size_t \<Rightarrow> ach_header_t outcome" where
  "free_index shm i =
     and_then (at (shm_index shm) i) (\<lambda>idx.
     and_then (c_assert 919 (idx_seq_num idx \<noteq> 0)) (\<lambda>_.
     and_then (c_assert 920 (idx_size idx \<noteq> 0)) (\<lambda>_.
     and_then (c_assert 921 (index_free shm < index_cnt shm)) (\<lambda>_.
     Ret (shm\<lparr>data_free := data_free shm + idx_size idx,
              index_free := index_free shm + 1,
              shm_index := (shm_index shm)[unat i := zero_index]\<rparr>)))))"

lemma free_index_measure:
  assumes "free_index shm i = Ret shm'"
  shows "index_cnt shm' = index_cnt shm"
    and "unat (index_cnt shm) - unat (index_free shm') < unat (index_cnt shm) - unat (index_free shm)"
proof -
  have lt: "index_free shm < index_cnt shm"
    and eq: "index_cnt shm' = index_cnt shm" "index_free shm' = index_free shm + 1"
    using assms by (auto simp: free_index_def outcome_simps)
  show "index_cnt shm' = index_cnt shm" by (rule eq)
  have "unat (index_free shm) + 1 < 2 ^ 64"
    using lt size_t_bound [of "index_cnt shm"] unfolding size_t_less by simp
  with lt eq show "unat (index_cnt shm) - unat (index_free shm') <
      unat (index_cnt shm) - unat (index_free shm)"
    by (simp add: size_t_simps)
qed

text \<open>
  The loop that clears overlapping entries.  It ends because every round uses up one of the index
  entries that are not free.
\<close>

function clear_overlap :: "ach_header_t \<Rightarrow> size_t \<Rightarrow> size_t \<Rightarrow> ach_header_t outcome" where
  "clear_overlap shm len i =
     (if data_free shm < len
      then and_then (c_assert 968 (i \<noteq> index_head shm)) (\<lambda>_.
           and_then (free_index shm i) (\<lambda>shm'.
           and_then (c_mod (i + 1) (index_cnt shm')) (\<lambda>i'.
           clear_overlap shm' len i')))
      else Ret shm)"
  by pat_completeness auto
termination
  by (relation "measure (\<lambda>(shm, len, i). unat (index_cnt shm) - unat (index_free shm))")
     (auto simp: free_index_measure)

declare clear_overlap.simps [simp del]

definition put_reserve :: "ach_header_t \<Rightarrow> size_t \<Rightarrow> ach_header_t outcome" where
  "put_reserve shm len =
     and_then (if index_free shm = 0 then free_index shm (index_head shm)
               else and_then (at (shm_index shm) (index_head shm)) (\<lambda>idx.
                    and_then (c_assert 959 (idx_seq_num idx = 0)) (\<lambda>_. Ret shm))) (\<lambda>shm.
     and_then (c_assert 961 (index_free shm > 0)) (\<lambda>_.
     and_then (c_mod (index_head shm + index_free shm) (index_cnt shm)) (\<lambda>i.
     and_then (clear_overlap shm len i) (\<lambda>shm.
     and_then (c_assert 972 (data_free shm \<ge> len)) (\<lambda>_. Ret shm)))))"

definition put_copy :: "ach_header_t \<Rightarrow> byte list \<Rightarrow> size_t \<Rightarrow> ach_header_t outcome" where
  "put_copy shm buf len =
     (if data_size shm - data_head shm \<ge> len
      then and_then (memcpy (shm_data shm) (unat (data_head shm)) buf 0 (unat len))
             (\<lambda>d. Ret (shm\<lparr>shm_data := d\<rparr>))
      else (let end_cnt = data_size shm - data_head shm
            in and_then (memcpy (shm_data shm) (unat (data_head shm)) buf 0 (unat end_cnt)) (\<lambda>d.
               and_then (memcpy d 0 buf (unat end_cnt) (unat (len - end_cnt))) (\<lambda>d.
               Ret (shm\<lparr>shm_data := d\<rparr>)))))"

text \<open>
  The new counts.  The entry written is the one \<^verbatim>\<open>index_head\<close> named when the pointer
  \<^verbatim>\<open>idx\<close> was computed; nothing in between changes \<^verbatim>\<open>index_head\<close>.
\<close>

definition put_commit :: "ach_header_t \<Rightarrow> size_t \<Rightarrow> ach_header_t outcome" where
  "put_commit shm len =
     and_then (at (shm_index shm) (index_head shm)) (\<lambda>_.
     let seq = last_seq shm + 1;
         entry = \<lparr>idx_size = len, idx_offset = data_head shm, idx_seq_num = seq\<rparr>
     in and_then (c_mod (data_head shm + len) (data_size shm)) (\<lambda>dh.
        and_then (c_mod (index_head shm + 1) (index_cnt shm)) (\<lambda>ih.
        let shm = shm\<lparr>last_seq := seq,
                      shm_index := (shm_index shm)[unat (index_head shm) := entry],
                      data_head := dh, data_free := data_free shm - len,
                      index_head := ih, index_free := index_free shm - 1\<rparr>
        in and_then (c_assert 996 (index_free shm \<le> index_cnt shm)) (\<lambda>_.
           and_then (c_assert 997 (data_free shm \<le> data_size shm)) (\<lambda>_.
           and_then (c_assert 998 (last_seq shm > 0)) (\<lambda>_. Ret shm))))))"

text \<open>
  As in the source, the status of \<^verbatim>\<open>wrlock\<close> is dropped: the body runs whether or not the
  lock was taken.
\<close>

definition ach_put ::
  "tid \<Rightarrow> ach_channel_t \<Rightarrow> ach_header_t \<Rightarrow> byte list option \<Rightarrow> size_t \<Rightarrow>
   (ach_status_t \<times> ach_header_t) outcome" where
  "ach_put t chan shm buf len =
     (case buf of
        None \<Rightarrow> Ret (ACH_EINVAL, shm)
      | Some src \<Rightarrow>
          if len = 0 \<or> ch_shm chan = None then Ret (ACH_EINVAL, shm)
          else if check_guards shm \<noteq> ACH_OK then Ret (check_guards shm, shm)
          else if data_size shm < len then Ret (ACH_OVERFLOW, shm)
          else if len > data_size shm then Ret (ACH_OVERFLOW, shm)
          else and_then (wrlock t shm) (\<lambda>(_, shm).
               and_then (put_reserve shm len) (\<lambda>shm.
               and_then (put_copy shm src len) (\<lambda>shm.
               and_then (put_commit shm len) (\<lambda>shm.
               unwrlock t shm)))))"

end
