(* ===== verification/Ach_Ring.thy ===== *)
theory Ach_Ring
  imports Ach_Channel
begin

text \<open>
  What the shared block means: the queue of frames it holds, oldest first, and the invariant that
  ties the index and data rings together.  The steps of \<^verbatim>\<open>ach_put\<close> are shown to act on
  that queue: freeing an index entry drops the oldest frame, the copy leaves every stored frame
  alone, and the commit appends the new frame.
\<close>

declare upt_Suc [simp del]

section \<open>The stored frames\<close>

abbreviation icnt :: "ach_header_t \<Rightarrow> nat" where "icnt shm \<equiv> unat (index_cnt shm)"
abbreviation ihead :: "ach_header_t \<Rightarrow> nat" where "ihead shm \<equiv> unat (index_head shm)"
abbreviation ifree :: "ach_header_t \<Rightarrow> nat" where "ifree shm \<equiv> unat (index_free shm)"
abbreviation dsize :: "ach_header_t \<Rightarrow> nat" where "dsize shm \<equiv> unat (data_size shm)"
abbreviation dhead :: "ach_header_t \<Rightarrow> nat" where "dhead shm \<equiv> unat (data_head shm)"
abbreviation dfree :: "ach_header_t \<Rightarrow> nat" where "dfree shm \<equiv> unat (data_free shm)"
abbreviation lseq :: "ach_header_t \<Rightarrow> nat" where "lseq shm \<equiv> unat (last_seq shm)"
abbreviation esize :: "ach_index_t \<Rightarrow> nat" where "esize e \<equiv> unat (idx_size e)"

definition slot :: "ach_header_t \<Rightarrow> nat \<Rightarrow> nat" where
  "slot shm j = (ihead shm + ifree shm + j) mod icnt shm"

definition entries :: "ach_header_t \<Rightarrow> ach_index_t list" where
  "entries shm = map (\<lambda>j. shm_index shm ! slot shm j) [0..<icnt shm - ifree shm]"

definition ring_read :: "byte list \<Rightarrow> nat \<Rightarrow> nat \<Rightarrow> byte list" where
  "ring_read d off len = map (\<lambda>k. d ! ((off + k) mod length d)) [0..<len]"

type_synonym frame = "nat \<times> byte list"

definition frame_of :: "byte list \<Rightarrow> ach_index_t \<Rightarrow> frame" where
  "frame_of d e = (unat (idx_seq_num e), ring_read d (unat (idx_offset e)) (esize e))"

definition frames :: "ach_header_t \<Rightarrow> frame list" where
  "frames shm = map (frame_of (shm_data shm)) (entries shm)"

section \<open>The invariant\<close>

fun offsets_from :: "nat \<Rightarrow> nat \<Rightarrow> ach_index_t list \<Rightarrow> bool" where
  "offsets_from D p [] = True"
| "offsets_from D p (e # es) =
     (unat (idx_offset e) = p mod D \<and> offsets_from D (p + esize e) es)"

definition total_size :: "ach_index_t list \<Rightarrow> nat" where
  "total_size es = sum_list (map esize es)"

definition dims_ok :: "ach_header_t \<Rightarrow> bool" where
  "dims_ok shm \<longleftrightarrow>
     length (shm_index shm) = icnt shm \<and> length (shm_data shm) = dsize shm \<and>
     0 < icnt shm \<and> 0 < dsize shm \<and> icnt shm < 2 ^ 63 \<and> dsize shm < 2 ^ 63 \<and>
     ihead shm < icnt shm \<and> ifree shm \<le> icnt shm \<and> dhead shm < dsize shm"

definition ring_inv :: "ach_header_t \<Rightarrow> bool" where
  "ring_inv shm \<longleftrightarrow>
     dims_ok shm \<and>
     list_all (\<lambda>k. shm_index shm ! ((ihead shm + k) mod icnt shm) = zero_index) [0..<ifree shm] \<and>
     ihead shm = lseq shm mod icnt shm \<and>
     icnt shm - ifree shm \<le> lseq shm \<and>
     map (\<lambda>e. unat (idx_seq_num e)) (entries shm)
       = [lseq shm + 1 - (icnt shm - ifree shm)..<lseq shm + 1] \<and>
     list_all (\<lambda>e. 0 < esize e) (entries shm) \<and>
     offsets_from (dsize shm) (dhead shm + dfree shm) (entries shm) \<and>
     total_size (entries shm) + dfree shm = dsize shm"

text \<open>The invariant of a block at rest: a block that was ever written holds the newest frame.\<close>

definition shm_inv :: "ach_header_t \<Rightarrow> bool" where
  "shm_inv shm \<longleftrightarrow>
     ring_inv shm \<and> check_guards shm = ACH_OK \<and> (last_seq shm \<noteq> 0 \<longrightarrow> ifree shm < icnt shm)"

lemma ring_invD:
  assumes "ring_inv shm"
  shows "length (shm_index shm) = icnt shm" "length (shm_data shm) = dsize shm"
    "0 < icnt shm" "0 < dsize shm" "icnt shm < 2 ^ 63" "dsize shm < 2 ^ 63"
    "ihead shm < icnt shm" "ifree shm \<le> icnt shm" "dhead shm < dsize shm"
    "ihead shm = lseq shm mod icnt shm" "icnt shm - ifree shm \<le> lseq shm"
    "list_all (\<lambda>e. 0 < esize e) (entries shm)"
    "offsets_from (dsize shm) (dhead shm + dfree shm) (entries shm)"
    "total_size (entries shm) + dfree shm = dsize shm"
  using assms by (simp_all add: ring_inv_def dims_ok_def)

lemma ring_inv_seqs:
  "ring_inv shm \<Longrightarrow> map (\<lambda>e. unat (idx_seq_num e)) (entries shm)
     = [lseq shm + 1 - (icnt shm - ifree shm)..<lseq shm + 1]"
  by (simp add: ring_inv_def)

lemma ring_inv_zero:
  "ring_inv shm \<Longrightarrow> k < ifree shm \<Longrightarrow>
   shm_index shm ! ((ihead shm + k) mod icnt shm) = zero_index"
  unfolding ring_inv_def list_all_iff set_upt atLeast0LessThan lessThan_def by blast

lemma length_entries [simp]: "length (entries shm) = icnt shm - ifree shm"
  by (simp add: entries_def)

lemma length_frames [simp]: "length (frames shm) = icnt shm - ifree shm"
  by (simp add: frames_def)

lemma length_ring_read [simp]: "length (ring_read d off len) = len"
  by (simp add: ring_read_def)

lemma ring_read_mod [simp]: "ring_read d (off mod length d) len = ring_read d off len"
  by (simp add: ring_read_def mod_add_left_eq)

lemma offsets_from_append:
  "offsets_from D p (es @ fs) \<longleftrightarrow> offsets_from D p es \<and> offsets_from D (p + total_size es) fs"
  by (induction es arbitrary: p) (auto simp: total_size_def add.assoc)

lemma total_size_append [simp]: "total_size (es @ fs) = total_size es + total_size fs"
  by (simp add: total_size_def)

lemma total_size_Cons [simp]: "total_size (e # es) = esize e + total_size es"
  by (simp add: total_size_def)

lemma total_size_Nil [simp]: "total_size [] = 0"
  by (simp add: total_size_def)

lemma slot_less: "0 < icnt shm \<Longrightarrow> slot shm j < icnt shm"
  by (simp add: slot_def)

lemma entries_Cons:
  assumes "ifree shm < icnt shm"
  shows "entries shm = shm_index shm ! slot shm 0
          # map (\<lambda>j. shm_index shm ! slot shm (Suc j)) [0..<icnt shm - ifree shm - 1]"
proof -
  obtain m where m: "icnt shm - ifree shm = Suc m" using assms by (metis Suc_diff_Suc)
  have "[0..<Suc m] = 0 # map Suc [0..<m]" by (simp add: upt_conv_Cons map_Suc_upt)
  then show ?thesis by (simp add: entries_def m)
qed

section \<open>Freeing an entry drops the oldest frame\<close>

lemma oldest_index:
  assumes "ring_inv shm"
  shows "oldest_index_i shm = Ret ((index_head shm + index_free shm) mod index_cnt shm)"
    and "unat ((index_head shm + index_free shm) mod index_cnt shm) = slot shm 0"
proof -
  have d: "0 < icnt shm" "icnt shm < 2 ^ 63" "ihead shm < icnt shm" "ifree shm \<le> icnt shm"
    using assms by (auto simp: ring_inv_def dims_ok_def)
  then have nz: "index_cnt shm \<noteq> 0" by (auto simp: size_t_eq_0)
  show "oldest_index_i shm = Ret ((index_head shm + index_free shm) mod index_cnt shm)"
    using nz by (simp add: oldest_index_i_def c_mod_Ret)
  have "ihead shm + ifree shm < 2 ^ 64" using d by simp
  then show "unat ((index_head shm + index_free shm) mod index_cnt shm) = slot shm 0"
    by (simp add: slot_def size_t_simps)
qed

text \<open>The block after the entry in slot 0 is freed, and what changes with it.\<close>

definition drop_oldest :: "ach_header_t \<Rightarrow> ach_header_t" where
  "drop_oldest shm =
     shm\<lparr>data_free := data_free shm + idx_size (shm_index shm ! slot shm 0),
         index_free := index_free shm + 1,
         shm_index := (shm_index shm)[slot shm 0 := zero_index]\<rparr>"

lemma drop_oldest_same [simp]:
  "index_cnt (drop_oldest shm) = index_cnt shm" "index_head (drop_oldest shm) = index_head shm"
  "data_head (drop_oldest shm) = data_head shm" "data_size (drop_oldest shm) = data_size shm"
  "last_seq (drop_oldest shm) = last_seq shm" "shm_data (drop_oldest shm) = shm_data shm"
  "mutex (drop_oldest shm) = mutex shm" "cond (drop_oldest shm) = cond shm"
  "dirty (drop_oldest shm) = dirty shm" "check_guards (drop_oldest shm) = check_guards shm"
  "length (shm_index (drop_oldest shm)) = length (shm_index shm)"
  by (simp_all add: drop_oldest_def check_guards_def)

lemma slot_Suc_neq: "ifree shm + Suc j < icnt shm \<Longrightarrow> slot shm (Suc j) \<noteq> slot shm 0"
  using ring_pos_inj [of "Suc j" "icnt shm" 0 "ihead shm + ifree shm"] by (auto simp: slot_def)

lemma hd_entries: "ifree shm < icnt shm \<Longrightarrow> hd (entries shm) = shm_index shm ! slot shm 0"
  by (simp add: entries_Cons)

lemma drop_oldest_free:
  assumes inv: "ring_inv shm" and used: "ifree shm < icnt shm"
  shows "ifree (drop_oldest shm) = ifree shm + 1"
    and "dfree (drop_oldest shm) = dfree shm + esize (hd (entries shm))"
proof -
  have n: "icnt shm < 2 ^ 63" "dsize shm < 2 ^ 63"
    and tot: "total_size (entries shm) + dfree shm = dsize shm"
    using inv by (auto simp: ring_inv_def dims_ok_def)
  have "esize (shm_index shm ! slot shm 0) \<le> total_size (entries shm)"
    by (simp add: entries_Cons [OF used])
  with n tot used show "ifree (drop_oldest shm) = ifree shm + 1"
    "dfree (drop_oldest shm) = dfree shm + esize (hd (entries shm))"
    by (simp_all add: drop_oldest_def size_t_simps hd_entries)
qed

lemma drop_oldest_entries:
  assumes inv: "ring_inv shm" and used: "ifree shm < icnt shm"
  shows "entries (drop_oldest shm) = tl (entries shm)"
proof -
  have "slot (drop_oldest shm) j = slot shm (Suc j)" for j
    by (simp add: slot_def drop_oldest_free [OF inv used])
  moreover have "shm_index (drop_oldest shm) ! slot shm (Suc j) = shm_index shm ! slot shm (Suc j)"
    if "j < icnt shm - (ifree shm + 1)" for j
  proof -
    have "ifree shm + Suc j < icnt shm" using that by simp
    from slot_Suc_neq [OF this] show ?thesis by (simp add: drop_oldest_def)
  qed
  ultimately show ?thesis
    by (simp add: entries_Cons [OF used]) (simp add: entries_def drop_oldest_free [OF inv used])
qed

lemma drop_oldest_zero:
  assumes inv: "ring_inv shm" and used: "ifree shm < icnt shm" and k: "k < ifree shm + 1"
  shows "shm_index (drop_oldest shm) ! ((ihead shm + k) mod icnt shm) = zero_index"
proof (cases "k = ifree shm")
  case True
  then show ?thesis
    using inv by (simp add: drop_oldest_def slot_def ring_inv_def dims_ok_def)
next
  case False
  with k have lt: "k < ifree shm" by simp
  then have "(ihead shm + k) mod icnt shm \<noteq> slot shm 0"
    using used ring_pos_inj [of k "icnt shm" "ifree shm" "ihead shm"] by (auto simp: slot_def)
  then show ?thesis
    using ring_inv_zero [OF inv lt] by (simp add: drop_oldest_def)
qed

lemma drop_oldest_inv:
  assumes inv: "ring_inv shm" and used: "ifree shm < icnt shm"
  shows "ring_inv (drop_oldest shm)"
proof -
  obtain e es where ent: "entries shm = e # es" by (simp add: entries_Cons [OF used])
  note f = drop_oldest_free [OF inv used] and t = drop_oldest_entries [OF inv used]
  let ?m = "lseq shm + 1 - (icnt shm - ifree shm)"
  have le: "icnt shm - ifree shm \<le> lseq shm" using inv by (simp add: ring_inv_def)
  then have m: "lseq shm + 1 - (icnt shm - (ifree shm + 1)) = Suc ?m" using used by simp
  have "map (\<lambda>e. unat (idx_seq_num e)) (e # es) = ?m # [Suc ?m..<lseq shm + 1]"
    using inv used by (simp add: ring_inv_def ent upt_conv_Cons)
  then have seqs: "map (\<lambda>e. unat (idx_seq_num e)) es = [Suc ?m..<lseq shm + 1]" by simp
  show ?thesis
    using inv drop_oldest_zero [OF inv used] used le seqs
    unfolding ring_inv_def t f drop_oldest_same m
    by (auto simp: ent dims_ok_def f list_all_iff add.assoc)
qed

lemma hd_entries_used:
  assumes inv: "ring_inv shm" and used: "ifree shm < icnt shm"
  shows "0 < esize (hd (entries shm))"
    and "unat (idx_seq_num (hd (entries shm))) = lseq shm + 1 - (icnt shm - ifree shm)"
proof -
  have ne: "entries shm \<noteq> []" by (simp add: entries_Cons [OF used])
  then show "0 < esize (hd (entries shm))"
    using ring_invD(12) [OF inv] by (simp add: list_all_iff)
  have "unat (idx_seq_num (hd (entries shm))) = hd (map (\<lambda>e. unat (idx_seq_num e)) (entries shm))"
    using ne by (simp add: hd_map)
  also have "\<dots> = lseq shm + 1 - (icnt shm - ifree shm)"
    unfolding ring_inv_seqs [OF inv] using used ring_invD(11) [OF inv] by simp
  finally show "unat (idx_seq_num (hd (entries shm))) = lseq shm + 1 - (icnt shm - ifree shm)" .
qed

lemma free_index_oldest:
  assumes inv: "ring_inv shm" and used: "ifree shm < icnt shm" and i: "unat i = slot shm 0"
  shows "free_index shm i = Ret (drop_oldest shm)"
proof -
  have "slot shm 0 < length (shm_index shm)"
    using ring_invD(1,3) [OF inv] slot_less [of shm 0] by simp
  then show ?thesis
    using used hd_entries_used [OF inv used] ring_invD(11) [OF inv]
    by (simp add: free_index_def drop_oldest_def i outcome_simps size_t_less size_t_eq_0
        hd_entries [OF used])
qed

section \<open>Making room\<close>

text \<open>
  The abstract channel: frames are dropped from the old end until the new one fits, and it goes to
  the other end.
\<close>

definition frames_size :: "frame list \<Rightarrow> nat" where
  "frames_size fs = sum_list (map (length \<circ> snd) fs)"

fun make_room :: "nat \<Rightarrow> nat \<Rightarrow> frame list \<Rightarrow> frame list" where
  "make_room D len [] = []"
| "make_room D len (f # fs) =
     (if D < frames_size (f # fs) + len then make_room D len fs else f # fs)"

definition spec_put :: "nat \<Rightarrow> nat \<Rightarrow> nat \<Rightarrow> byte list \<Rightarrow> frame list \<Rightarrow> frame list" where
  "spec_put n D seq msg fs =
     make_room D (length msg) (if length fs = n then tl fs else fs) @ [(seq, msg)]"

lemma make_room_fits: "frames_size fs + len \<le> D \<Longrightarrow> make_room D len fs = fs"
  by (cases fs) auto

lemma frames_size_frames: "frames_size (frames shm) = total_size (entries shm)"
  by (simp add: frames_size_def frames_def total_size_def frame_of_def comp_def)

lemma frames_drop_oldest:
  "ring_inv shm \<Longrightarrow> ifree shm < icnt shm \<Longrightarrow> frames (drop_oldest shm) = tl (frames shm)"
  by (simp add: frames_def drop_oldest_entries map_tl)

lemma dfree_frames: "ring_inv shm \<Longrightarrow> dfree shm = dsize shm - frames_size (frames shm)"
  using ring_invD(14) [of shm] by (simp add: frames_size_frames)

text \<open>Two blocks that differ only in what freeing entries changes.\<close>

definition freed_only :: "ach_header_t \<Rightarrow> ach_header_t \<Rightarrow> bool" where
  "freed_only shm shm' \<longleftrightarrow>
     shm' = shm\<lparr>data_free := data_free shm', index_free := index_free shm',
                shm_index := shm_index shm'\<rparr>"

lemma freed_only_refl [simp]: "freed_only shm shm"
  by (simp add: freed_only_def)

lemma freed_only_drop_oldest [simp]: "freed_only shm (drop_oldest shm)"
  by (simp add: freed_only_def drop_oldest_def)

lemma freed_onlyD:
  assumes "freed_only shm shm'"
  shows "index_cnt shm' = index_cnt shm" "index_head shm' = index_head shm"
    "data_head shm' = data_head shm" "data_size shm' = data_size shm"
    "last_seq shm' = last_seq shm" "shm_data shm' = shm_data shm"
    "mutex shm' = mutex shm" "cond shm' = cond shm" "dirty shm' = dirty shm"
    "check_guards shm' = check_guards shm"
  by (subst assms [unfolded freed_only_def], simp add: check_guards_def)+

lemma freed_only_trans:
  assumes "freed_only a b" "freed_only b c"
  shows "freed_only a c"
proof -
  have "c = b\<lparr>data_free := data_free c, index_free := index_free c, shm_index := shm_index c\<rparr>"
    using assms(2) by (simp only: freed_only_def)
  also have "\<dots> = a\<lparr>data_free := data_free c, index_free := index_free c, shm_index := shm_index c\<rparr>"
    by (subst assms(1) [unfolded freed_only_def]) simp
  finally show ?thesis by (simp only: freed_only_def)
qed

lemma slot_drop_oldest:
  assumes inv: "ring_inv shm" and used: "ifree shm < icnt shm" and i: "unat i = slot shm 0"
  shows "unat ((i + 1) mod index_cnt shm) = slot (drop_oldest shm) 0"
proof -
  have lt: "slot shm 0 < icnt shm" by (rule slot_less) (rule ring_invD(3) [OF inv])
  then have "unat i + 1 < 2 ^ 64" using i ring_invD(5) [OF inv] by simp
  then have "unat ((i + 1) mod index_cnt shm) = (slot shm 0 + 1) mod icnt shm"
    using i by (simp add: size_t_simps)
  also have "\<dots> = slot (drop_oldest shm) 0"
    by (simp add: slot_def drop_oldest_free [OF inv used] mod_Suc_eq)
  finally show ?thesis .
qed

lemma slot_0_not_head:
  assumes "ring_inv shm" "0 < ifree shm" "ifree shm < icnt shm"
  shows "slot shm 0 \<noteq> ihead shm"
  using assms(2,3) ring_pos_inj [of "ifree shm" "icnt shm" 0 "ihead shm"] ring_invD(7) [OF assms(1)]
  by (auto simp: slot_def)

lemma clear_overlap_correct:
  assumes "ring_inv shm" "0 < ifree shm" "unat len \<le> dsize shm" "unat i = slot shm 0"
  shows "\<exists>shm'. clear_overlap shm len i = Ret shm' \<and> ring_inv shm' \<and> freed_only shm shm' \<and>
           0 < ifree shm' \<and> unat len \<le> dfree shm' \<and>
           frames shm' = make_room (dsize shm) (unat len) (frames shm)"
  using assms
proof (induction shm len i rule: clear_overlap.induct)
  case (1 shm len i)
  note inv = "1.prems"(1)
  show ?case
  proof (cases "dfree shm < unat len")
    case False
    then have "frames_size (frames shm) + unat len \<le> dsize shm"
      using ring_invD(14) [OF inv] by (simp add: frames_size_frames)
    with False "1.prems" show ?thesis
      by (simp add: clear_overlap.simps [of shm len i] size_t_less make_room_fits)
  next
    case True
    have used: "ifree shm < icnt shm"
    proof (rule ccontr)
      assume "\<not> ifree shm < icnt shm"
      then have "entries shm = []" by (simp add: entries_def)
      with ring_invD(14) [OF inv] True "1.prems"(3) show False by simp
    qed
    let ?shm = "drop_oldest shm"
    have head: "i \<noteq> index_head shm"
      using slot_0_not_head [OF inv "1.prems"(2) used] "1.prems"(4) by auto
    have cnt: "index_cnt shm \<noteq> 0" using ring_invD(3) [OF inv] by (auto simp: size_t_eq_0)
    note free = free_index_oldest [OF inv used "1.prems"(4)]
    have step: "clear_overlap shm len i = clear_overlap ?shm len ((i + 1) mod index_cnt shm)"
      using True head cnt
      by (simp add: clear_overlap.simps [of shm len i] size_t_less free c_mod_Ret)
    have "frames shm = hd (frames shm) # tl (frames shm)"
      using used by (metis length_frames list.collapse list.size(3) zero_less_diff less_irrefl)
    moreover have "dsize shm < frames_size (frames shm) + unat len"
      using True ring_invD(14) [OF inv] by (simp add: frames_size_frames)
    ultimately have room: "make_room (dsize shm) (unat len) (frames shm) =
        make_room (dsize shm) (unat len) (frames ?shm)"
      by (metis frames_drop_oldest [OF inv used] make_room.simps(2))
    have "\<exists>shm'. clear_overlap ?shm len ((i + 1) mod index_cnt shm) = Ret shm' \<and> ring_inv shm' \<and>
       freed_only ?shm shm' \<and> 0 < ifree shm' \<and> unat len \<le> dfree shm' \<and>
       frames shm' = make_room (dsize ?shm) (unat len) (frames ?shm)"
      using True head cnt free "1.prems"(3) drop_oldest_free [OF inv used]
        drop_oldest_inv [OF inv used] slot_drop_oldest [OF inv used "1.prems"(4)]
      by (intro "1.IH" [where x = "()"]) (simp_all add: size_t_less c_mod_Ret)
    then show ?thesis
      unfolding step room using freed_only_trans [OF freed_only_drop_oldest] by auto
  qed
qed

text \<open>The first step of \<^verbatim>\<open>ach_put\<close>: an index entry is free at the head.\<close>

definition head_freed :: "ach_header_t \<Rightarrow> ach_header_t" where
  "head_freed shm = (if index_free shm = 0 then drop_oldest shm else shm)"

lemma head_freed_step:
  assumes inv: "ring_inv shm"
  shows "(if index_free shm = 0 then free_index shm (index_head shm)
          else and_then (at (shm_index shm) (index_head shm)) (\<lambda>idx.
               and_then (c_assert 959 (idx_seq_num idx = 0)) (\<lambda>_. Ret shm))) = Ret (head_freed shm)"
proof (cases "index_free shm = 0")
  case True
  with ring_invD(3,7) [OF inv] show ?thesis
    by (auto simp: head_freed_def slot_def intro!: free_index_oldest [OF inv])
next
  case False
  have head: "ihead shm < length (shm_index shm)" using ring_invD(1,7) [OF inv] by simp
  have "shm_index shm ! ihead shm = zero_index"
    using False ring_inv_zero [OF inv, of 0] ring_invD(7) [OF inv] by (simp add: unat_gt_0)
  with False head show ?thesis by (simp add: head_freed_def at_Ret zero_index_def)
qed

lemma head_freed_correct:
  assumes inv: "ring_inv shm"
  shows "ring_inv (head_freed shm) \<and> freed_only shm (head_freed shm) \<and> 0 < ifree (head_freed shm) \<and>
         frames (head_freed shm) =
           (if length (frames shm) = icnt shm then tl (frames shm) else frames shm)"
proof (cases "ifree shm = 0")
  case True
  then have used: "ifree shm < icnt shm" using ring_invD(3) [OF inv] by simp
  from True have "head_freed shm = drop_oldest shm" by (simp add: head_freed_def unat_eq_0)
  with drop_oldest_inv [OF inv used] drop_oldest_free [OF inv used] frames_drop_oldest [OF inv used]
  show ?thesis using True by simp
next
  case False
  then have "head_freed shm = shm" by (auto simp: head_freed_def)
  moreover have "icnt shm - ifree shm \<noteq> icnt shm" using False ring_invD(3) [OF inv] by linarith
  ultimately show ?thesis using False inv by simp
qed

lemma put_reserve_correct:
  assumes inv: "ring_inv shm" and len: "unat len \<le> dsize shm"
  shows "\<exists>shm'. put_reserve shm len = Ret shm' \<and> ring_inv shm' \<and> freed_only shm shm' \<and>
           0 < ifree shm' \<and> unat len \<le> dfree shm' \<and>
           frames shm' = make_room (dsize shm) (unat len)
             (if length (frames shm) = icnt shm then tl (frames shm) else frames shm)"
proof -
  define shm1 where "shm1 = head_freed shm"
  note first = head_freed_step [OF inv, folded shm1_def]
  have inv1: "ring_inv shm1" and fr1: "freed_only shm shm1" and pos1: "0 < ifree shm1"
    and frames1: "frames shm1 =
        (if length (frames shm) = icnt shm then tl (frames shm) else frames shm)"
    using head_freed_correct [OF inv] by (simp_all add: shm1_def)
  note same = freed_onlyD [OF fr1]
  have "index_cnt shm1 \<noteq> 0" using ring_invD(3) [OF inv1] by (auto simp: size_t_eq_0)
  then have i: "c_mod (index_head shm1 + index_free shm1) (index_cnt shm1) =
      Ret ((index_head shm1 + index_free shm1) mod index_cnt shm1)"
    by (simp add: c_mod_Ret)
  obtain shm2 where "clear_overlap shm1 len ((index_head shm1 + index_free shm1) mod index_cnt shm1)
      = Ret shm2" "ring_inv shm2" "freed_only shm1 shm2" "0 < ifree shm2" "unat len \<le> dfree shm2"
      "frames shm2 = make_room (dsize shm1) (unat len) (frames shm1)"
    using clear_overlap_correct [OF inv1 pos1 _ oldest_index(2) [OF inv1], of len] len same by auto
  with first i pos1 freed_only_trans [OF fr1] frames1 same(4) show ?thesis
    by (simp add: put_reserve_def size_t_less size_t_le)
qed

section \<open>Copying the data\<close>

definition ring_write :: "byte list \<Rightarrow> nat \<Rightarrow> byte list \<Rightarrow> byte list" where
  "ring_write d p msg =
     map (\<lambda>q. let k = (q + length d - p) mod length d
              in if k < length msg then msg ! k else d ! q) [0..<length d]"

lemma length_ring_write [simp]: "length (ring_write d p msg) = length d"
  by (simp add: ring_write_def)

lemma ring_back: "p < n \<Longrightarrow> m < n \<Longrightarrow> ((p + m) mod n + n - p) mod n = (m::nat)"
  by (auto simp: mod_add_less_2)

lemma ring_dist:
  fixes p :: nat
  assumes "p \<le> n" "q < n"
  shows "(q + n - p) mod n = (if p \<le> q then q - p else q + n - p)"
proof (cases "p \<le> q")
  case True
  then have eq: "q + n - p = (q - p) + n" by simp
  have "(q + n - p) mod n = (q - p) mod n" unfolding eq by (rule mod_add_self2)
  then show ?thesis using True assms by simp
qed (use assms in simp)

lemma nth_ring_write:
  assumes "p < length d" "m < length d"
  shows "ring_write d p msg ! ((p + m) mod length d) =
         (if m < length msg then msg ! m else d ! ((p + m) mod length d))"
proof -
  have "0 < length d" using assms(1) by linarith
  then have "(p + m) mod length d < length d" by simp
  then show ?thesis by (simp add: ring_write_def Let_def ring_back [OF assms])
qed

lemma ring_write_eq_simple:
  assumes "p + n \<le> length d" "n \<le> length buf"
  shows "take p d @ take n buf @ drop (p + n) d = ring_write d p (take n buf)"
proof (rule nth_equalityI)
  show "length (take p d @ take n buf @ drop (p + n) d) = length (ring_write d p (take n buf))"
    using assms by simp
next
  fix q assume "q < length (take p d @ take n buf @ drop (p + n) d)"
  then have q: "q < length d" using assms by simp
  have "(q + length d - p) mod length d = (if p \<le> q then q - p else q + length d - p)"
    using q assms by (intro ring_dist) simp_all
  with q assms show "(take p d @ take n buf @ drop (p + n) d) ! q = ring_write d p (take n buf) ! q"
    by (auto simp: ring_write_def nth_append Let_def)
qed

lemma ring_write_eq_wrap:
  assumes "p < length d" "length d < p + n" "n \<le> length d" "n \<le> length buf"
  defines "e \<equiv> length d - p"
  shows "take (n - e) (drop e buf) @ drop (n - e) (take p d @ take e buf) =
         ring_write d p (take n buf)"
proof (rule nth_equalityI)
  show "length (take (n - e) (drop e buf) @ drop (n - e) (take p d @ take e buf)) =
      length (ring_write d p (take n buf))"
    using assms by simp
next
  fix q assume "q < length (take (n - e) (drop e buf) @ drop (n - e) (take p d @ take e buf))"
  then have q: "q < length d" using assms by simp
  have "(q + length d - p) mod length d = (if p \<le> q then q - p else q + length d - p)"
    using q assms by (intro ring_dist) simp_all
  with q assms show "(take (n - e) (drop e buf) @ drop (n - e) (take p d @ take e buf)) ! q =
      ring_write d p (take n buf) ! q"
    by (auto simp: ring_write_def nth_append Let_def add.commute)
qed

lemma put_copy_correct:
  assumes inv: "ring_inv shm" and len: "unat len \<le> dsize shm" and buf: "unat len \<le> length buf"
  shows "put_copy shm buf len =
    Ret (shm\<lparr>shm_data := ring_write (shm_data shm) (dhead shm) (take (unat len) buf)\<rparr>)"
proof -
  let ?d = "shm_data shm" and ?p = "dhead shm" and ?n = "unat len"
  have d: "length ?d = dsize shm" "?p < dsize shm" using ring_invD(2,9) [OF inv] by auto
  have e: "unat (data_size shm - data_head shm) = dsize shm - ?p"
    using d by (simp add: size_t_simps)
  show ?thesis
  proof (cases "?n \<le> dsize shm - ?p")
    case True
    then have "?p + ?n \<le> length ?d" using d by simp
    with True ring_write_eq_simple [OF this buf] show ?thesis
      using buf by (simp add: put_copy_def size_t_le e memcpy_Ret)
  next
    case False
    let ?e = "dsize shm - ?p"
    have le: "unat (len - (data_size shm - data_head shm)) = ?n - ?e"
      using False by (subst unat_sub_no_wrap) (simp_all add: e)
    have "take (?n - ?e) (drop ?e buf) @ drop (?n - ?e) (take ?p ?d @ take ?e buf) =
        ring_write ?d ?p (take ?n buf)"
      using ring_write_eq_wrap [of ?p ?d ?n buf] False d len buf by simp
    with False d len buf show ?thesis
      by (simp add: put_copy_def size_t_le e le memcpy_Ret Let_def)
  qed
qed

lemma ring_read_new:
  assumes "p < length d" "length msg \<le> length d"
  shows "ring_read (ring_write d p msg) p (length msg) = msg"
  using assms by (intro nth_equalityI) (simp_all add: ring_read_def nth_ring_write)

lemma ring_read_old:
  assumes "p < length d" "length msg \<le> a" "a + n \<le> length d"
  shows "ring_read (ring_write d p msg) (p + a) n = ring_read d (p + a) n"
proof -
  have "ring_write d p msg ! ((p + a + k) mod length d) = d ! ((p + a + k) mod length d)"
    if "k < n" for k
    using nth_ring_write [of p d "a + k" msg] assms that by (simp add: add.assoc)
  then show ?thesis by (simp add: ring_read_def)
qed

lemma frames_ring_write:
  assumes "p < length d" "length msg \<le> a" "a + total_size es \<le> length d"
    and "offsets_from (length d) (p + a) es"
  shows "map (frame_of (ring_write d p msg)) es = map (frame_of d) es"
  using assms
proof (induction es arbitrary: a)
  case Nil
  then show ?case by simp
next
  case (Cons e es)
  have off: "unat (idx_offset e) = (p + a) mod length d" using Cons.prems(4) by simp
  have "ring_read (ring_write d p msg) ((p + a) mod length (ring_write d p msg)) (esize e) =
      ring_read d ((p + a) mod length d) (esize e)"
    using ring_read_old [of p d msg a "esize e"] Cons.prems(1-3) by (simp del: length_ring_write)
  then have "frame_of (ring_write d p msg) e = frame_of d e" by (simp add: frame_of_def off)
  moreover have "map (frame_of (ring_write d p msg)) es = map (frame_of d) es"
    using Cons.IH [of "a + esize e"] Cons.prems by (simp add: add.assoc)
  ultimately show ?case by simp
qed

section \<open>Committing the frame\<close>

definition append_entry :: "ach_header_t \<Rightarrow> size_t \<Rightarrow> ach_header_t" where
  "append_entry shm len =
     shm\<lparr>last_seq := last_seq shm + 1,
         shm_index := (shm_index shm)[ihead shm :=
           \<lparr>idx_size = len, idx_offset = data_head shm, idx_seq_num = last_seq shm + 1\<rparr>],
         data_head := (data_head shm + len) mod data_size shm, data_free := data_free shm - len,
         index_head := (index_head shm + 1) mod index_cnt shm, index_free := index_free shm - 1\<rparr>"

text \<open>A block with room for one more frame of \<open>len\<close> bytes.\<close>

definition can_append :: "ach_header_t \<Rightarrow> size_t \<Rightarrow> bool" where
  "can_append shm len \<longleftrightarrow>
     ring_inv shm \<and> 0 < ifree shm \<and> 0 < unat len \<and> unat len \<le> dfree shm \<and> lseq shm + 1 < 2 ^ 64"

lemma append_entry_same [simp]:
  "index_cnt (append_entry shm len) = index_cnt shm"
  "data_size (append_entry shm len) = data_size shm"
  "shm_data (append_entry shm len) = shm_data shm" "mutex (append_entry shm len) = mutex shm"
  "cond (append_entry shm len) = cond shm" "dirty (append_entry shm len) = dirty shm"
  "check_guards (append_entry shm len) = check_guards shm"
  "length (shm_index (append_entry shm len)) = length (shm_index shm)"
  by (simp_all add: append_entry_def check_guards_def)

lemma append_entry_counts:
  assumes "can_append shm len"
  shows "lseq (append_entry shm len) = lseq shm + 1"
    "ifree (append_entry shm len) = ifree shm - 1"
    "ihead (append_entry shm len) = (ihead shm + 1) mod icnt shm"
    "dfree (append_entry shm len) = dfree shm - unat len"
    "dhead (append_entry shm len) = (dhead shm + unat len) mod dsize shm"
proof -
  have inv: "ring_inv shm" using assms by (simp add: can_append_def)
  have "dfree shm \<le> dsize shm" using ring_invD(14) [OF inv] by linarith
  then have "dhead shm + unat len < 2 ^ 64" "ihead shm + 1 < 2 ^ 64"
    using assms ring_invD(5,6,7,9) [OF inv] by (simp_all add: can_append_def)
  with assms show "lseq (append_entry shm len) = lseq shm + 1"
    "ifree (append_entry shm len) = ifree shm - 1"
    "ihead (append_entry shm len) = (ihead shm + 1) mod icnt shm"
    "dfree (append_entry shm len) = dfree shm - unat len"
    "dhead (append_entry shm len) = (dhead shm + unat len) mod dsize shm"
    by (simp_all add: append_entry_def can_append_def size_t_simps)
qed

lemma ring_shift:
  assumes "0 < f"
  shows "((h + 1) mod n + (f - 1) + j) mod n = (h + f + j) mod (n::nat)"
proof -
  have "((h + 1) mod n + (f - 1 + j)) mod n = ((h + 1) + (f - 1 + j)) mod n"
    by (rule mod_add_left_eq)
  moreover have "(h + 1) + (f - 1 + j) = h + f + j" using assms by simp
  ultimately show ?thesis by (simp only: add.assoc)
qed

lemma slot_append_entry: "can_append shm len \<Longrightarrow> slot (append_entry shm len) j = slot shm j"
  unfolding slot_def append_entry_same append_entry_counts
  by (rule ring_shift) (simp add: can_append_def)

lemma entries_append_entry:
  assumes ca: "can_append shm len"
  shows "entries (append_entry shm len) = entries shm @
    [\<lparr>idx_size = len, idx_offset = data_head shm, idx_seq_num = last_seq shm + 1\<rparr>]"
proof -
  let ?u = "icnt shm - ifree shm"
  have inv: "ring_inv shm" and f: "0 < ifree shm" using ca by (simp_all add: can_append_def)
  have u: "icnt shm - (ifree shm - 1) = Suc ?u" using f ring_invD(8) [OF inv] by simp
  have last: "slot shm ?u = ihead shm" using ring_invD(7,8) [OF inv] by (simp add: slot_def)
  have ne: "slot shm j \<noteq> ihead shm" if "j < ?u" for j
  proof -
    have "ifree shm + j < icnt shm" using that by simp
    then show ?thesis
      using f ring_pos_inj [of "ifree shm + j" "icnt shm" 0 "ihead shm"] ring_invD(7) [OF inv]
      by (auto simp: slot_def add.assoc)
  qed
  have "shm_index (append_entry shm len) ! slot shm j = shm_index shm ! slot shm j"
    if "j < ?u" for j using ne [OF that] by (simp add: append_entry_def)
  moreover have "shm_index (append_entry shm len) ! ihead shm =
      \<lparr>idx_size = len, idx_offset = data_head shm, idx_seq_num = last_seq shm + 1\<rparr>"
    using ring_invD(1,7) [OF inv] by (simp add: append_entry_def)
  ultimately show ?thesis
    unfolding entries_def append_entry_same append_entry_counts [OF ca] u
      slot_append_entry [OF ca] upt_Suc
    by (simp add: last)
qed

lemma append_entry_zero:
  assumes ca: "can_append shm len" and k: "k < ifree shm - 1"
  shows "shm_index (append_entry shm len) ! (((ihead shm + 1) mod icnt shm + k) mod icnt shm)
    = zero_index"
proof -
  have inv: "ring_inv shm" using ca by (simp add: can_append_def)
  have pos: "((ihead shm + 1) mod icnt shm + k) mod icnt shm = (ihead shm + Suc k) mod icnt shm"
    by (simp add: mod_add_left_eq mod_Suc_eq)
  have "Suc k < icnt shm" using k ring_invD(8) [OF inv] by linarith
  then have "(ihead shm + Suc k) mod icnt shm \<noteq> ihead shm"
    using ring_pos_inj [of "Suc k" "icnt shm" 0 "ihead shm"] ring_invD(7) [OF inv] by auto
  then show ?thesis
    unfolding pos using ring_inv_zero [OF inv, of "Suc k"] k by (simp add: append_entry_def)
qed

lemma offsets_from_cong:
  "p mod D = q mod D \<Longrightarrow> offsets_from D p es = offsets_from D q es"
proof (induction es arbitrary: p q)
  case (Cons e es)
  from Cons.prems have "(p + esize e) mod D = (q + esize e) mod D" by (rule mod_add_cong) simp
  from Cons.IH [OF this] Cons.prems show ?case by simp
qed simp

lemma append_entry_offsets:
  assumes ca: "can_append shm len"
  shows "offsets_from (dsize shm) (dhead (append_entry shm len) + dfree (append_entry shm len))
    (entries (append_entry shm len))"
proof -
  let ?p = "dhead (append_entry shm len) + dfree (append_entry shm len)"
  let ?q = "dhead shm + dfree shm" and ?D = "dsize shm" and ?t = "total_size (entries shm)"
  have inv: "ring_inv shm" and len: "unat len \<le> dfree shm" using ca by (simp_all add: can_append_def)
  have pq: "?p mod ?D = ?q mod ?D"
    using len unfolding append_entry_counts [OF ca] mod_add_left_eq by simp
  then have old: "offsets_from ?D ?p (entries shm)"
    using offsets_from_cong [OF pq, of "entries shm"] ring_invD(13) [OF inv] by simp
  have "(?p + ?t) mod ?D = (?q + ?t) mod ?D" using pq by (rule mod_add_cong) simp
  also have "?q + ?t = dhead shm + ?D" using ring_invD(14) [OF inv] by simp
  also have "(dhead shm + ?D) mod ?D = dhead shm" using ring_invD(9) [OF inv] by simp
  finally have new: "(?p + ?t) mod ?D = dhead shm" .
  show ?thesis
    unfolding entries_append_entry [OF ca] offsets_from_append by (simp add: old new)
qed

lemma append_entry_inv:
  assumes ca: "can_append shm len"
  shows "ring_inv (append_entry shm len)"
proof -
  have inv: "ring_inv shm" and f: "0 < ifree shm" "0 < unat len" "unat len \<le> dfree shm"
    "lseq shm + 1 < 2 ^ 64" using ca by (simp_all add: can_append_def)
  note c = append_entry_counts [OF ca] and e = entries_append_entry [OF ca]
  have u: "icnt shm - (ifree shm - 1) = Suc (icnt shm - ifree shm)"
    using f(1) ring_invD(8) [OF inv] by simp
  have s: "unat (last_seq shm + 1) = lseq shm + 1" using f(4) by (simp add: size_t_simps)
  have "map (\<lambda>e. unat (idx_seq_num e)) (entries (append_entry shm len))
      = [lseq shm + 1 + 1 - Suc (icnt shm - ifree shm)..<lseq shm + 1 + 1]"
    using ring_invD(11) [OF inv] by (simp add: e s ring_inv_seqs [OF inv] upt_Suc)
  moreover have "(ihead shm + 1) mod icnt shm = (lseq shm + 1) mod icnt shm"
    by (subst ring_invD(10) [OF inv]) (rule mod_add_left_eq)
  ultimately show ?thesis
    unfolding ring_inv_def dims_ok_def append_entry_same c u
    using ring_invD [OF inv] f append_entry_zero [OF ca] append_entry_offsets [OF ca]
    by (simp add: list_all_iff e c)
qed

lemma put_commit_correct:
  assumes ca: "can_append shm len"
  shows "put_commit shm len = Ret (append_entry shm len)"
proof -
  have inv: "ring_inv shm" and f: "unat len \<le> dfree shm" using ca by (simp_all add: can_append_def)
  note c = append_entry_counts [OF ca]
  have nz: "index_cnt shm \<noteq> 0" "data_size shm \<noteq> 0"
    using ring_invD(3,4) [OF inv] by (auto simp: size_t_eq_0)
  have asserts: "index_free (append_entry shm len) \<le> index_cnt shm"
    "data_free (append_entry shm len) \<le> data_size shm" "0 < last_seq (append_entry shm len)"
    using ring_invD(8,14) [OF inv] unfolding size_t_le size_t_less by (simp_all add: c)
  then show ?thesis
    using nz ring_invD(1,7) [OF inv]
    by (simp add: put_commit_def at_Ret c_mod_Ret Let_def append_entry_def)
qed


end
