(* ===== verification/Ach_Put.thy ===== *)
theory Ach_Put
  imports Ach_Ring "HOL-Library.Sublist"
begin

text \<open>
  Correctness of \<^verbatim>\<open>ach_put\<close>.  On a block at rest a call with valid arguments takes the
  lock, runs without a fault, acts on the stored frames as \<open>spec_put\<close> does, and leaves the
  block at rest again with the readers woken.  The contract of a channel seen by its writers is the
  locale \<open>frame_log\<close>; what follows from it for any sequence of writes is proved there once.
\<close>

declare upt_Suc [simp del]

section \<open>The queue a channel promises\<close>

text \<open>
  The longest run of the newest frames that fits in \<open>n\<close> index entries and \<open>D\<close> bytes.
\<close>

fun keep :: "nat \<Rightarrow> nat \<Rightarrow> frame list \<Rightarrow> frame list" where
  "keep n D [] = []"
| "keep n D (f # fs) =
     (if length (f # fs) \<le> n \<and> frames_size (f # fs) \<le> D then f # fs else keep n D fs)"

definition fits :: "nat \<Rightarrow> nat \<Rightarrow> frame list \<Rightarrow> bool" where
  "fits n D fs \<longleftrightarrow> length fs \<le> n \<and> frames_size fs \<le> D"

lemma frames_size_simps [simp]:
  "frames_size [] = 0" "frames_size (f # fs) = length (snd f) + frames_size fs"
  "frames_size (fs @ gs) = frames_size fs + frames_size gs"
  by (simp_all add: frames_size_def)

lemma keep_fits: "fits n D (keep n D fs)"
  by (induction fs) (auto simp: fits_def)

lemma keep_id: "fits n D fs \<Longrightarrow> keep n D fs = fs"
  by (cases fs) (auto simp: fits_def)

lemma keep_suffix: "suffix (keep n D fs) fs"
  by (induction fs) (auto simp: suffix_ConsI)

lemma keep_longest: "suffix gs fs \<Longrightarrow> fits n D gs \<Longrightarrow> suffix gs (keep n D fs)"
  by (induction fs) (auto simp: suffix_Cons fits_def)

lemma keep_append: "keep n D (keep n D xs @ ys) = keep n D (xs @ ys)"
  by (induction xs) auto

lemma make_room_keep:
  "fits n D fs \<Longrightarrow> length fs < n \<Longrightarrow> length m \<le> D \<Longrightarrow>
   make_room D (length m) fs @ [(q, m)] = keep n D (fs @ [(q, m)])"
  by (induction fs) (auto simp: fits_def)

lemma spec_put_keep:
  assumes "fits n D fs" "0 < n" "length m \<le> D"
  shows "spec_put n D q m fs = keep n D (fs @ [(q, m)])"
proof (cases "length fs = n")
  case True
  then obtain f gs where "fs = f # gs" using assms(2) by (cases fs) auto
  with True assms make_room_keep [of n D gs m q] show ?thesis
    by (simp add: spec_put_def fits_def)
next
  case False
  with assms make_room_keep [of n D fs m q] show ?thesis by (simp add: spec_put_def fits_def)
qed

text \<open>The frames a sequence of messages becomes when the newest frame so far has number \<open>q\<close>.\<close>

fun number :: "nat \<Rightarrow> byte list list \<Rightarrow> frame list" where
  "number q [] = []"
| "number q (m # ms) = (q + 1, m) # number (q + 1) ms"

lemma number_length [simp]: "length (number q ms) = length ms"
  by (induction ms arbitrary: q) auto

lemma number_snd [simp]: "map snd (number q ms) = ms"
  by (induction ms arbitrary: q) auto

lemma frames_size_number [simp]: "frames_size (number q ms) = length (concat ms)"
  by (induction ms arbitrary: q) auto

section \<open>The contract of a channel\<close>

text \<open>
  A store of frames with \<open>cnt\<close> entries and \<open>cap\<close> bytes.  Writing a message that is not
  empty and not larger than the store succeeds, gives it the next sequence number and keeps as many
  of the newest frames as fit.
\<close>

locale frame_log =
  fixes inv :: "'s \<Rightarrow> bool" and view :: "'s \<Rightarrow> frame list" and cnt cap newest :: "'s \<Rightarrow> nat"
    and put :: "byte list \<Rightarrow> 's \<Rightarrow> 's option"
  assumes put_law: "\<lbrakk>inv s; m \<noteq> []; length m \<le> cap s; newest s + 1 < 2 ^ 64\<rbrakk> \<Longrightarrow>
      \<exists>s'. put m s = Some s' \<and> inv s' \<and> cnt s' = cnt s \<and> cap s' = cap s \<and>
           newest s' = newest s + 1 \<and> view s' = keep (cnt s) (cap s) (view s @ [(newest s + 1, m)])"
    and view_fits: "inv s \<Longrightarrow> fits (cnt s) (cap s) (view s)"
begin

fun put_all :: "byte list list \<Rightarrow> 's \<Rightarrow> 's option" where
  "put_all [] s = Some s"
| "put_all (m # ms) s = Option.bind (put m s) (put_all ms)"

lemma put_all_view:
  assumes "inv s" "\<forall>m\<in>set ms. m \<noteq> [] \<and> length m \<le> cap s" "newest s + length ms < 2 ^ 64"
  shows "\<exists>s'. put_all ms s = Some s' \<and> inv s' \<and> cnt s' = cnt s \<and> cap s' = cap s \<and>
           newest s' = newest s + length ms \<and>
           view s' = keep (cnt s) (cap s) (view s @ number (newest s) ms)"
  using assms
proof (induction ms arbitrary: s)
  case Nil
  then show ?case by (simp add: keep_id view_fits)
next
  case (Cons m ms)
  obtain s1 where s1: "put m s = Some s1" "inv s1" "cnt s1 = cnt s" "cap s1 = cap s"
    "newest s1 = newest s + 1" "view s1 = keep (cnt s) (cap s) (view s @ [(newest s + 1, m)])"
    using put_law [of s m] Cons.prems by auto
  with Cons.IH [of s1] Cons.prems show ?case by (auto simp: keep_append)
qed

lemma put_all_lossless:
  assumes "inv s" "\<forall>m\<in>set ms. m \<noteq> []" "newest s + length ms < 2 ^ 64"
    and "length (view s) + length ms \<le> cnt s" "frames_size (view s) + length (concat ms) \<le> cap s"
  shows "\<exists>s'. put_all ms s = Some s' \<and> inv s' \<and> view s' = view s @ number (newest s) ms"
proof -
  have "length m \<le> length (concat ms)" if "m \<in> set ms" for m
    using that by (induction ms) auto
  then have "\<forall>m\<in>set ms. m \<noteq> [] \<and> length m \<le> cap s" using assms(2,5) by fastforce
  from put_all_view [OF assms(1) this assms(3)] show ?thesis
    using assms(4,5) by (auto simp: keep_id fits_def)
qed

end

section \<open>Fields the lock layer writes\<close>

lemma slot_sync [simp]:
  "slot (shm\<lparr>mutex := m\<rparr>) j = slot shm j" "slot (shm\<lparr>dirty := b\<rparr>) j = slot shm j"
  "slot (shm\<lparr>cond := c\<rparr>) j = slot shm j" "slot (shm\<lparr>shm_data := d\<rparr>) j = slot shm j"
  by (simp_all add: slot_def)

lemma entries_sync [simp]:
  "entries (shm\<lparr>mutex := m\<rparr>) = entries shm" "entries (shm\<lparr>dirty := b\<rparr>) = entries shm"
  "entries (shm\<lparr>cond := c\<rparr>) = entries shm" "entries (shm\<lparr>shm_data := d\<rparr>) = entries shm"
  by (simp_all add: entries_def)

lemma frames_sync [simp]:
  "frames (shm\<lparr>mutex := m\<rparr>) = frames shm" "frames (shm\<lparr>dirty := b\<rparr>) = frames shm"
  "frames (shm\<lparr>cond := c\<rparr>) = frames shm"
  by (simp_all add: frames_def)

lemma ring_inv_sync [simp]:
  "ring_inv (shm\<lparr>mutex := m\<rparr>) = ring_inv shm" "ring_inv (shm\<lparr>dirty := b\<rparr>) = ring_inv shm"
  "ring_inv (shm\<lparr>cond := c\<rparr>) = ring_inv shm"
  by (simp_all add: ring_inv_def dims_ok_def)

lemma ring_inv_data:
  "length d = length (shm_data shm) \<Longrightarrow> ring_inv (shm\<lparr>shm_data := d\<rparr>) = ring_inv shm"
  by (simp add: ring_inv_def dims_ok_def)

lemma check_guards_sync [simp]:
  "check_guards (shm\<lparr>mutex := m\<rparr>) = check_guards shm"
  "check_guards (shm\<lparr>dirty := b\<rparr>) = check_guards shm"
  "check_guards (shm\<lparr>cond := c\<rparr>) = check_guards shm"
  "check_guards (shm\<lparr>shm_data := d\<rparr>) = check_guards shm"
  by (simp_all add: check_guards_def)

text \<open>A block nobody is using: the rings are in order and the lock is free.\<close>

definition at_rest :: "ach_header_t \<Rightarrow> bool" where
  "at_rest shm \<longleftrightarrow> shm_inv shm \<and> sync_ready shm"

section \<open>A new block\<close>

text \<open>A block as \<^verbatim>\<open>ach_create\<close> leaves it.\<close>

definition fresh_block :: "string \<Rightarrow> size_t \<Rightarrow> size_t \<Rightarrow> ach_header_t" where
  "fresh_block name frame_cnt frame_size =
     (zero_block (block_len frame_cnt frame_size))
       \<lparr>hdr_name := take ACH_CHAN_NAME_MAX name, index_cnt := frame_cnt, index_free := frame_cnt,
        data_free := frame_cnt * frame_size, data_size := frame_cnt * frame_size,
        mutex := M_free, cond := C_ready 0,
        shm_index := replicate (unat frame_cnt) zero_index,
        shm_data := replicate (unat (frame_cnt * frame_size)) 0,
        guard_header := ACH_SHM_GUARD_HEADER_NUM, guard_index := ACH_SHM_GUARD_INDEX_NUM,
        guard_data := ACH_SHM_GUARD_DATA_NUM, magic := ACH_SHM_MAGIC_NUM\<rparr>"

text \<open>The sizes \<^verbatim>\<open>ach_create\<close> is meant for: at least one byte, and no overflow.\<close>

definition sizes_ok :: "size_t \<Rightarrow> size_t \<Rightarrow> bool" where
  "sizes_ok frame_cnt frame_size \<longleftrightarrow>
     0 < unat frame_cnt \<and> 0 < unat frame_size \<and>
     344 + unat frame_cnt * 24 + unat frame_cnt * unat frame_size < 2 ^ 63"

text \<open>A handle as \<^verbatim>\<open>ach_open\<close> leaves it.\<close>

definition fresh_handle :: "nat \<Rightarrow> size_t \<Rightarrow> int \<Rightarrow> ach_attr_t \<Rightarrow> ach_channel_t" where
  "fresh_handle k len fd attr =
     \<lparr>ch_shm = Some k, ch_len = len, ch_fd = fd, ch_seq_num = 0, ch_next_index = 1, ch_attr = attr,
      ch_cancel = False\<rparr>"

lemma unat_mult_no_wrap:
  fixes a b :: size_t
  assumes "unat a * unat b < 2 ^ 64"
  shows "unat (a * b) = unat a * unat b"
  using assms by (simp add: unat_word_ariths)

lemma sizes_ok_unat:
  assumes "sizes_ok n s"
  shows "unat (n * s) = unat n * unat s" "unat (n * 24) = unat n * 24"
    "unat (block_len n s) = 344 + unat n * 24 + unat n * unat s"
proof -
  have b: "344 + unat n * 24 + unat n * unat s < 2 ^ 63" using assms by (simp add: sizes_ok_def)
  show m: "unat (n * s) = unat n * unat s" by (rule unat_mult_no_wrap) (use b in simp)
  show k: "unat (n * 24) = unat n * 24"
    using unat_mult_no_wrap [of n 24] b by simp
  have "unat (320 + n * 24 :: size_t) = 320 + unat n * 24"
    using b k unat_add_no_wrap [of "320 :: size_t" "n * 24"] by simp
  moreover from this have "unat (320 + n * 24 + n * s) = 320 + unat n * 24 + unat n * unat s"
    using b m unat_add_no_wrap [of "320 + n * 24" "n * s"] by simp
  ultimately show "unat (block_len n s) = 344 + unat n * 24 + unat n * unat s"
    using b unat_add_no_wrap [of "320 + n * 24 + n * s" 24] by (simp add: block_len_def layout_defs)
qed

text \<open>
  The guards are in place as soon as the wrapped sizes of the sections add up without wrapping again; the
  index has the entries that its wrapped size has room for.
\<close>

definition wrapped_block :: "string \<Rightarrow> size_t \<Rightarrow> size_t \<Rightarrow> ach_header_t" where
  "wrapped_block name n s = (fresh_block name n s)\<lparr>shm_index := replicate (unat (n * 24) div 24) zero_index\<rparr>"

lemma section_ends:
  assumes "344 + unat (n * 24) + unat d < 2 ^ 64"
  shows "unat (328 + n * 24 :: size_t) = 328 + unat (n * 24)" "unat (336 + n * 24 :: size_t) = 336 + unat (n * 24)"
    "unat (336 + n * 24 + d) = 336 + unat (n * 24) + unat d" "unat (320 + n * 24 + d) = 320 + unat (n * 24) + unat d"
    "unat (344 + n * 24 + d) = 344 + unat (n * 24) + unat d"
proof -
  have c: "unat (c + n * 24) = unat c + unat (n * 24)" "unat (c + n * 24 + d) = unat c + unat (n * 24) + unat d"
    if "unat c \<le> 344" for c :: size_t
  proof -
    show 1: "unat (c + n * 24) = unat c + unat (n * 24)" using that assms by (intro unat_add_no_wrap) simp
    show "unat (c + n * 24 + d) = unat c + unat (n * 24) + unat d"
      using that assms unat_add_no_wrap [of "c + n * 24" d] by (simp add: 1)
  qed
  show "unat (328 + n * 24 :: size_t) = 328 + unat (n * 24)" "unat (336 + n * 24 :: size_t) = 336 + unat (n * 24)"
    "unat (336 + n * 24 + d) = 336 + unat (n * 24) + unat d" "unat (320 + n * 24 + d) = 320 + unat (n * 24) + unat d"
    "unat (344 + n * 24 + d) = 344 + unat (n * 24) + unat d"
    using c(1) [of 328] c(1) [of 336] c(2) [of 336] c(2) [of 320] c(2) [of 344] by simp_all
qed

lemma block_len_wrapped:
  assumes "344 + unat (n * 24) + unat (n * s) < 2 ^ 64"
  shows "unat (block_len n s) = 344 + unat (n * 24) + unat (n * s)"
proof -
  have "block_len n s = 344 + n * 24 + n * s" by (simp add: block_len_def layout_defs)
  then show ?thesis using section_ends(5) [OF assms] by simp
qed

lemma init_counts_wrapped:
  assumes "344 + unat (n * 24) + unat (n * s) < 2 ^ 64"
  shows "init_counts ((zero_block (block_len n s))\<lparr>cond := C_ready 0, mutex := M_free\<rparr>) name n s
           (block_len n s) = Ret (wrapped_block name n s)"
proof -
  note e = section_ends [OF assms] and l = block_len_wrapped [OF assms]
  have g: "in_block (block_len n s) 320" "in_block (block_len n s) (328 + n * 24)" "in_block (block_len n s) (336 + n * 24 + n * s)"
    using e l by (simp_all add: in_block_def sizeof_uint64_def)
  have o: "(328 :: size_t) \<le> 328 + n * 24" "336 + n * 24 \<le> 336 + n * 24 + n * s" using e by (simp_all add: word_le_nat_alt)
  have "block_len n s = 344 + n * 24 + n * s" by (simp add: block_len_def layout_defs)
  then show ?thesis using g o
    by (simp add: init_counts_def wrapped_block_def fresh_block_def zero_block_def layout_defs Let_def)
qed

lemma wrapped_block_ok: "sizes_ok n s \<Longrightarrow> wrapped_block name n s = fresh_block name n s"
  using sizes_ok_unat(2) [of n s] by (simp add: wrapped_block_def) (simp add: fresh_block_def)

lemma init_counts_fresh:
  assumes "sizes_ok n s"
  shows "init_counts ((zero_block (block_len n s))\<lparr>cond := C_ready 0, mutex := M_free\<rparr>) name n s
           (block_len n s) = Ret (fresh_block name n s)"
proof -
  have "344 + unat (n * 24) + unat (n * s) < 2 ^ 64" using sizes_ok_unat(1,2) [OF assms] assms by (simp add: sizes_ok_def)
  then show ?thesis using init_counts_wrapped [of n s name] wrapped_block_ok [OF assms] by simp
qed

lemma fresh_block_at_rest:
  assumes "sizes_ok n s"
  shows "at_rest (fresh_block name n s)" "frames (fresh_block name n s) = []"
    "lseq (fresh_block name n s) = 0" "icnt (fresh_block name n s) = unat n"
    "dsize (fresh_block name n s) = unat n * unat s"
proof -
  have e: "entries (fresh_block name n s) = []" by (simp add: entries_def fresh_block_def)
  then show "frames (fresh_block name n s) = []" by (simp add: frames_def)
  show "at_rest (fresh_block name n s)"
    using assms sizes_ok_unat [OF assms] e
    by (simp add: at_rest_def shm_inv_def ring_inv_def dims_ok_def sync_ready_def list_all_iff
        check_guards_def sizes_ok_def) (simp add: fresh_block_def zero_block_def)
  show "lseq (fresh_block name n s) = 0" "icnt (fresh_block name n s) = unat n"
    "dsize (fresh_block name n s) = unat n * unat s"
    using sizes_ok_unat [OF assms] by (simp_all add: fresh_block_def zero_block_def)
qed

section \<open>One write\<close>

lemma frames_fits: "ring_inv shm \<Longrightarrow> fits (icnt shm) (dsize shm) (frames shm)"
  using ring_invD(14) [of shm] by (simp add: fits_def frames_size_frames)

text \<open>The body of \<^verbatim>\<open>ach_put\<close> between taking and releasing the lock.\<close>

lemma put_body_correct:
  assumes inv: "ring_inv shm" and len: "0 < unat len" "unat len \<le> dsize shm"
    and buf: "unat len \<le> length buf" and seq: "lseq shm + 1 < 2 ^ 64"
  shows "\<exists>shm'. and_then (put_reserve shm len) (\<lambda>shm. and_then (put_copy shm buf len) (\<lambda>shm.
            put_commit shm len)) = Ret shm' \<and> ring_inv shm' \<and> index_cnt shm' = index_cnt shm \<and>
          data_size shm' = data_size shm \<and> lseq shm' = lseq shm + 1 \<and> mutex shm' = mutex shm \<and>
          cond shm' = cond shm \<and> dirty shm' = dirty shm \<and> check_guards shm' = check_guards shm \<and>
          ifree shm' < icnt shm' \<and>
          frames shm' = spec_put (icnt shm) (dsize shm) (lseq shm + 1) (take (unat len) buf) (frames shm)"
proof -
  obtain shm1 where res: "put_reserve shm len = Ret shm1" and inv1: "ring_inv shm1"
    and fr: "freed_only shm shm1" and f1: "0 < ifree shm1" and d1: "unat len \<le> dfree shm1"
    and frames1: "frames shm1 = make_room (dsize shm) (unat len)
             (if length (frames shm) = icnt shm then tl (frames shm) else frames shm)"
    using put_reserve_correct [OF inv len(2)] by blast
  note same = freed_onlyD [OF fr]
  define d where "d = ring_write (shm_data shm1) (dhead shm1) (take (unat len) buf)"
  define shm2 where "shm2 = shm1\<lparr>shm_data := d\<rparr>"
  have dsz: "length (shm_data shm1) = dsize shm1" "dhead shm1 < dsize shm1"
    using ring_invD(2,9) [OF inv1] by auto
  have copy: "put_copy shm1 buf len = Ret shm2"
    using put_copy_correct [OF inv1 _ buf] len same by (simp add: shm2_def d_def)
  have ca: "can_append shm2 len"
    using inv1 f1 d1 len(1) seq same by (simp add: can_append_def shm2_def ring_inv_data d_def)
  have "map (frame_of d) (entries shm1) = map (frame_of (shm_data shm1)) (entries shm1)"
    unfolding d_def using dsz d1 buf ring_invD(13,14) [OF inv1]
    by (intro frames_ring_write [where a = "dfree shm1"]) simp_all
  then have old: "map (frame_of d) (entries shm2) = frames shm1" by (simp add: frames_def shm2_def)
  have new: "ring_read d (dhead shm1) (unat len) = take (unat len) buf"
    using ring_read_new [of "dhead shm1" "shm_data shm1" "take (unat len) buf"] dsz len buf same
    by (simp add: d_def)
  have "unat (last_seq shm2 + 1) = lseq shm + 1" using seq same by (simp add: shm2_def size_t_simps)
  then have "frames (append_entry shm2 len) = frames shm1 @ [(lseq shm + 1, take (unat len) buf)]"
    using old new unfolding frames_def append_entry_same entries_append_entry [OF ca]
    by (simp add: frame_of_def) (simp add: shm2_def)
  then have fin: "frames (append_entry shm2 len) =
      spec_put (icnt shm) (dsize shm) (lseq shm + 1) (take (unat len) buf) (frames shm)"
    using frames1 buf by (simp add: spec_put_def)
  have "ifree shm2 \<le> icnt shm2" "0 < ifree shm2"
    using ca ring_invD(8) [of shm2] by (auto simp: can_append_def)
  then show ?thesis
    using res copy put_commit_correct [OF ca] append_entry_inv [OF ca] append_entry_counts [OF ca] fin same
    by (simp add: shm2_def)
qed

lemma ach_put_correct:
  assumes rest: "at_rest shm" and len: "0 < unat len" "unat len \<le> dsize shm"
    and buf: "unat len \<le> length buf" and seq: "lseq shm + 1 < 2 ^ 64" and ch: "ch_shm chan \<noteq> None"
  shows "\<exists>shm'. ach_put t chan shm (Some buf) len = Ret (ACH_OK, shm') \<and> at_rest shm' \<and>
           index_cnt shm' = index_cnt shm \<and> data_size shm' = data_size shm \<and>
           lseq shm' = lseq shm + 1 \<and> bcasts shm' = bcasts shm + 1 \<and>
           frames shm' = spec_put (icnt shm) (dsize shm) (lseq shm + 1) (take (unat len) buf) (frames shm)"
proof -
  let ?s = "shm\<lparr>mutex := M_held t, dirty := 1\<rparr>"
  have inv: "ring_inv shm" "check_guards shm = ACH_OK" and ready: "sync_ready shm"
    using rest by (simp_all add: at_rest_def shm_inv_def)
  obtain n where n: "cond shm = C_ready n" using ready by (cases "cond shm") (auto simp: sync_ready_def)
  obtain s' where body: "and_then (put_reserve ?s len) (\<lambda>shm. and_then (put_copy shm buf len) (\<lambda>shm.
        put_commit shm len)) = Ret s'"
    and s': "ring_inv s'" "index_cnt s' = index_cnt shm" "data_size s' = data_size shm"
      "lseq s' = lseq shm + 1" "mutex s' = M_held t" "cond s' = C_ready n" "dirty s' = 1"
      "check_guards s' = ACH_OK" "ifree s' < icnt s'"
      "frames s' = spec_put (icnt shm) (dsize shm) (lseq shm + 1) (take (unat len) buf) (frames shm)"
    using put_body_correct [of ?s len buf] len buf seq inv n by auto
  define shm' where "shm' = s'\<lparr>mutex := M_free, dirty := 0, cond := C_ready (Suc n)\<rparr>"
  have "ach_put t chan shm (Some buf) len = and_then (and_then (put_reserve ?s len) (\<lambda>shm.
        and_then (put_copy shm buf len) (\<lambda>shm. put_commit shm len))) (unwrlock t)"
    using len ch inv wrlock_ready [OF ready, of t]
    by (auto simp: ach_put_def size_t_less size_t_eq_0 and_then_assoc)
  also have "\<dots> = Ret (ACH_OK, shm')"
    unfolding body by (simp add: unwrlock_held [OF s'(5,7,6)] shm'_def)
  finally show ?thesis
    using s' by (auto simp: shm'_def at_rest_def shm_inv_def sync_ready_def bcasts_def n)
qed

text \<open>The calls that end before the lock is taken.\<close>

lemma ach_put_rejected:
  assumes "buf = None \<or> len = 0 \<or> ch_shm chan = None \<or> check_guards shm \<noteq> ACH_OK \<or>
           dsize shm < unat len"
  shows "ach_put t chan shm buf len =
    Ret (if buf = None \<or> len = 0 \<or> ch_shm chan = None then ACH_EINVAL
         else if check_guards shm \<noteq> ACH_OK then ACH_CORRUPT else ACH_OVERFLOW, shm)"
proof -
  have "check_guards shm = ACH_OK \<or> check_guards shm = ACH_CORRUPT" by (simp add: check_guards_def)
  then show ?thesis
    using assms by (cases buf) (auto simp: ach_put_def size_t_less)
qed

lemma ach_put_refusal:
  assumes "ach_put t chan shm buf len = Ret (r, shm')" "r = ACH_EINVAL \<or> r = ACH_OVERFLOW"
  shows "shm' = shm"
proof (cases "buf = None \<or> len = 0 \<or> ch_shm chan = None \<or> check_guards shm \<noteq> ACH_OK \<or>
           dsize shm < unat len")
  case True
  from ach_put_rejected [OF this] assms(1) show ?thesis by simp
next
  case False
  then obtain src s where "unwrlock t s = Ret (r, shm')"
    using assms(1) by (auto simp: ach_put_def size_t_less and_then_Ret_iff)
  then have "r = ACH_OK \<or> r = ACH_FAILED_SYSCALL"
    by (auto simp: unwrlock_def and_then_Ret_iff Let_def split: prod.splits if_splits)
  with assms(2) show ?thesis by auto
qed

lemma ach_put_keep:
  assumes "at_rest shm" "0 < unat len" "unat len \<le> dsize shm" "unat len \<le> length buf"
    and "lseq shm + 1 < 2 ^ 64" "ch_shm chan \<noteq> None"
  shows "\<exists>shm'. ach_put t chan shm (Some buf) len = Ret (ACH_OK, shm') \<and> at_rest shm' \<and>
           frames shm' = keep (icnt shm) (dsize shm) (frames shm @ [(lseq shm + 1, take (unat len) buf)]) \<and>
           index_cnt shm' = index_cnt shm \<and> data_size shm' = data_size shm \<and>
           lseq shm' = lseq shm + 1 \<and> bcasts shm' = bcasts shm + 1"
proof -
  have inv: "ring_inv shm" using assms(1) by (simp add: at_rest_def shm_inv_def)
  have "length (take (unat len) buf) \<le> dsize shm" using assms(3,4) by simp
  note keep = spec_put_keep [OF frames_fits [OF inv] ring_invD(3) [OF inv] this]
  show ?thesis using ach_put_correct [OF assms] unfolding keep by blast
qed

text \<open>A handle as a writer of whole messages, and the contract it meets.\<close>

definition log_put ::
  "tid \<Rightarrow> nat \<Rightarrow> ach_channel_t \<Rightarrow> byte list \<Rightarrow> ach_header_t \<Rightarrow> ach_header_t option" where
  "log_put t k chan m shm =
     (case ach_put t (chan\<lparr>ch_shm := Some k\<rparr>) shm (Some m) (of_nat (length m)) of
        Ret (ACH_OK, shm') \<Rightarrow> Some shm'
      | _ \<Rightarrow> None)"

lemma log_put_correct:
  assumes rest: "at_rest shm" and m: "m \<noteq> []" "length m \<le> dsize shm" and seq: "lseq shm + 1 < 2 ^ 64"
  shows "\<exists>shm'. log_put t k chan m shm = Some shm' \<and> at_rest shm' \<and> icnt shm' = icnt shm \<and>
     dsize shm' = dsize shm \<and> lseq shm' = lseq shm + 1 \<and>
     frames shm' = keep (icnt shm) (dsize shm) (frames shm @ [(lseq shm + 1, m)])"
proof -
  have inv: "ring_inv shm" using rest by (simp add: at_rest_def shm_inv_def)
  have len: "unat (of_nat (length m) :: size_t) = length m"
    using m(2) ring_invD(6) [OF inv] by (simp add: unat_size_t_of_nat)
  show ?thesis
    using ach_put_correct [OF rest, of "of_nat (length m)" m "chan\<lparr>ch_shm := Some k\<rparr>" t] m seq len
      spec_put_keep [OF frames_fits [OF inv] ring_invD(3) [OF inv], of m]
    by (auto simp: log_put_def)
qed

interpretation channel: frame_log at_rest frames icnt dsize lseq "log_put t k chan" for t k chan
proof unfold_locales
  show "at_rest shm \<Longrightarrow> fits (icnt shm) (dsize shm) (frames shm)" for shm
    by (rule frames_fits) (simp add: at_rest_def shm_inv_def)
qed (rule log_put_correct)

section \<open>Properties\<close>

text \<open>
  C1. Refinement of a write.  On a block at rest, a call of \<^verbatim>\<open>ach_put\<close> with a message of
  1 to \<^verbatim>\<open>data_size\<close> bytes returns \<^verbatim>\<open>ACH_OK\<close>: no \<open>assert\<close> fires, no access
  leaves its array and the clearing loop ends.  The stored frames become the longest run of newest
  frames, the new one included, that fits the index and the data section; the new frame has the next
  sequence number.  The block is at rest again and the waiting readers have been woken once.
\<close>

theorem ach_put_refines:
  assumes "at_rest shm" "0 < unat len" "unat len \<le> dsize shm" "unat len \<le> length buf"
    and "lseq shm + 1 < 2 ^ 64" "ch_shm chan \<noteq> None"
  shows "\<exists>shm'. ach_put t chan shm (Some buf) len = Ret (ACH_OK, shm') \<and> at_rest shm' \<and>
           frames shm' = keep (icnt shm) (dsize shm) (frames shm @ [(lseq shm + 1, take (unat len) buf)]) \<and>
           index_cnt shm' = index_cnt shm \<and> data_size shm' = data_size shm \<and>
           lseq shm' = lseq shm + 1 \<and> bcasts shm' = bcasts shm + 1"
  by (rule ach_put_keep [OF assms])

lemma small_block:
  "at_rest (fresh_block ''a'' 2 4)" "frames (fresh_block ''a'' 2 4) = []"
  "lseq (fresh_block ''a'' 2 4) = 0" "icnt (fresh_block ''a'' 2 4) = 2"
  "dsize (fresh_block ''a'' 2 4) = 8"
  using fresh_block_at_rest [of 2 4 "''a''"] by (simp_all add: sizes_ok_def)

lemma fresh_handle_shm: "ch_shm (fresh_handle k len fd attr) = Some k"
  by (simp add: fresh_handle_def)

theorem ach_put_refines_witness:
  "\<exists>shm'. ach_put 7 (fresh_handle 0 400 3 ach_attr_init) (fresh_block ''a'' 2 4) (Some [1, 2, 3]) 3
       = Ret (ACH_OK, shm') \<and> frames shm' = [(1, [1, 2, 3])]"
  using ach_put_refines [OF small_block(1), of 3 "[1, 2, 3]" "fresh_handle 0 400 3 ach_attr_init" 7]
  by (auto simp: small_block fresh_handle_shm)

text \<open>
  C4. History of a channel.  Write any sequence of messages, each of 1 to \<open>n * s\<close> bytes, into a
  channel created with \<open>n\<close> frames of \<open>s\<close> bytes, using \<^verbatim>\<open>ach_put\<close>.  Every write
  succeeds, and at the end the channel holds exactly the longest run of the newest messages that has
  at most \<open>n\<close> messages and \<open>n * s\<close> bytes, in the order written and numbered from 1.
\<close>

theorem put_history:
  assumes "sizes_ok n s" "\<forall>m\<in>set ms. m \<noteq> [] \<and> length m \<le> unat n * unat s" "length ms < 2 ^ 64"
  shows "\<exists>shm'. channel.put_all t k chan ms (fresh_block name n s) = Some shm' \<and> at_rest shm' \<and>
           frames shm' = keep (unat n) (unat n * unat s) (number 0 ms)"
  using channel.put_all_view [of "fresh_block name n s" ms, where t = t and k = k and chan = chan]
    fresh_block_at_rest [OF assms(1)] assms(2,3)
  by auto

theorem put_history_witness:
  "\<exists>shm'. channel.put_all 7 0 (fresh_handle 0 400 3 ach_attr_init) [[1, 2, 3], [4, 5, 6], [7, 8]]
       (fresh_block ''a'' 2 4) = Some shm' \<and> frames shm' = [(2, [4, 5, 6]), (3, [7, 8])]"
  using put_history [of 2 4 "[[1, 2, 3], [4, 5, 6], [7, 8]]" 7 0 "fresh_handle 0 400 3 ach_attr_init" "''a''"]
  by (auto simp: sizes_ok_def)

text \<open>
  C35. Rejected writes.  A missing buffer or handle mapping or an empty message gives
  \<^verbatim>\<open>ACH_EINVAL\<close>, a damaged guard word \<^verbatim>\<open>ACH_CORRUPT\<close>, a message larger than the
  data section \<^verbatim>\<open>ACH_OVERFLOW\<close>; in each case the block is untouched and the lock is not
  taken.
\<close>

theorem ach_put_rejects:
  assumes "buf = None \<or> len = 0 \<or> ch_shm chan = None \<or> check_guards shm \<noteq> ACH_OK \<or>
           dsize shm < unat len"
  shows "ach_put t chan shm buf len =
    Ret (if buf = None \<or> len = 0 \<or> ch_shm chan = None then ACH_EINVAL
         else if check_guards shm \<noteq> ACH_OK then ACH_CORRUPT else ACH_OVERFLOW, shm)"
  by (rule ach_put_rejected [OF assms])

theorem ach_put_rejects_witness:
  "ach_put 7 (fresh_handle 0 400 3 ach_attr_init) (fresh_block ''a'' 2 4) (Some [1]) 9
     = Ret (ACH_OVERFLOW, fresh_block ''a'' 2 4)"
  using ach_put_rejects [of "Some [1]" 9 "fresh_handle 0 400 3 ach_attr_init" "fresh_block ''a'' 2 4" 7]
    small_block(1) by (simp add: small_block fresh_handle_shm at_rest_def shm_inv_def)

text \<open>
  C37. A write to a channel marked dirty.  \<^verbatim>\<open>ach_put\<close> drops the status of
  \<^verbatim>\<open>wrlock\<close>, so when the dirty flag says that a writer died half way, the lock is refused
  with \<^verbatim>\<open>ACH_CORRUPT\<close> but the body runs all the same, without the mutex: the message is
  stored, the flag that marked the damage is cleared, no reader is woken, and the caller is told
  \<^verbatim>\<open>ACH_FAILED_SYSCALL\<close>.
\<close>

theorem ach_put_without_lock:
  assumes "shm_inv shm" "mutex shm = M_free" "dirty shm = 1"
    and "0 < unat len" "unat len \<le> dsize shm" "unat len \<le> length buf"
    and "lseq shm + 1 < 2 ^ 64" "ch_shm chan \<noteq> None"
  shows "wrlock t shm = Ret (ACH_CORRUPT, shm) \<and>
         (\<exists>shm'. ach_put t chan shm (Some buf) len = Ret (ACH_FAILED_SYSCALL, shm') \<and>
            dirty shm' = 0 \<and> bcasts shm' = bcasts shm \<and>
            frames shm' = keep (icnt shm) (dsize shm) (frames shm @ [(lseq shm + 1, take (unat len) buf)]))"
proof
  have inv: "ring_inv shm" "check_guards shm = ACH_OK" using assms(1) by (simp_all add: shm_inv_def)
  show lock: "wrlock t shm = Ret (ACH_CORRUPT, shm)"
    using assms(2,3) by (simp add: wrlock_def lock_defs)
  obtain s' where body: "and_then (put_reserve shm len) (\<lambda>shm. and_then (put_copy shm buf len) (\<lambda>shm.
        put_commit shm len)) = Ret s'" and s': "mutex s' = M_free" "cond s' = cond shm" "dirty s' = 1"
    and fr: "frames s' = spec_put (icnt shm) (dsize shm) (lseq shm + 1) (take (unat len) buf) (frames shm)"
    using put_body_correct [OF inv(1) assms(4-7)] assms(2,3) by auto
  have "ach_put t chan shm (Some buf) len = and_then (and_then (put_reserve shm len) (\<lambda>shm.
        and_then (put_copy shm buf len) (\<lambda>shm. put_commit shm len))) (unwrlock t)"
    using assms(4,5,8) inv lock by (auto simp: ach_put_def size_t_less size_t_eq_0 and_then_assoc)
  also have "\<dots> = Ret (ACH_FAILED_SYSCALL, s'\<lparr>dirty := 0\<rparr>)"
    unfolding body using s' by (simp add: unwrlock_def unlock_mutex_def)
  finally show "\<exists>shm'. ach_put t chan shm (Some buf) len = Ret (ACH_FAILED_SYSCALL, shm') \<and>
      dirty shm' = 0 \<and> bcasts shm' = bcasts shm \<and>
      frames shm' = keep (icnt shm) (dsize shm) (frames shm @ [(lseq shm + 1, take (unat len) buf)])"
    using fr s'(2) assms(5,6) spec_put_keep [OF frames_fits [OF inv(1)] ring_invD(3) [OF inv(1)]]
    by (simp add: bcasts_def)
qed

theorem ach_put_without_lock_witness:
  "wrlock 7 ((fresh_block ''a'' 2 4)\<lparr>dirty := 1\<rparr>) = Ret (ACH_CORRUPT, (fresh_block ''a'' 2 4)\<lparr>dirty := 1\<rparr>) \<and>
   (\<exists>shm'. ach_put 7 (fresh_handle 0 400 3 ach_attr_init) ((fresh_block ''a'' 2 4)\<lparr>dirty := 1\<rparr>)
       (Some [1, 2]) 2 = Ret (ACH_FAILED_SYSCALL, shm') \<and> dirty shm' = 0 \<and> frames shm' = [(1, [1, 2])])"
proof -
  let ?s = "(fresh_block ''a'' 2 4)\<lparr>dirty := 1\<rparr>"
  have "shm_inv ?s" "mutex ?s = M_free"
    using small_block(1) by (simp_all add: at_rest_def shm_inv_def sync_ready_def)
  from ach_put_without_lock [OF this, of 2 "[1, 2]" "fresh_handle 0 400 3 ach_attr_init" 7]
  show ?thesis by (auto simp: small_block fresh_handle_shm)
qed

end
