(* ===== verification/Ach_Get.thy ===== *)
theory Ach_Get
  imports Ach_Put
begin

text \<open>
  Correctness of \<^verbatim>\<open>ach_get\<close> and \<^verbatim>\<open>ach_flush\<close>: which of the stored frames a
  reader is handed, what its handle remembers, and what happens to the lock on every path.
\<close>

declare upt_Suc [simp del]

section \<open>Where a frame is stored\<close>

abbreviation used :: "ach_header_t \<Rightarrow> nat" where "used shm \<equiv> icnt shm - ifree shm"

text \<open>The number of the \<open>j\<close>-th stored frame, and the slot that a number determines.\<close>

lemma nth_entries: "j < used shm \<Longrightarrow> entries shm ! j = shm_index shm ! slot shm j"
  by (simp add: entries_def)

lemma entry_seq:
  assumes inv: "ring_inv shm" and j: "j < used shm"
  shows "unat (idx_seq_num (entries shm ! j)) = lseq shm + 1 - used shm + j"
proof -
  have "unat (idx_seq_num (entries shm ! j)) = map (\<lambda>e. unat (idx_seq_num e)) (entries shm) ! j"
    using j by simp
  also have "\<dots> = lseq shm + 1 - used shm + j"
    unfolding ring_inv_seqs [OF inv] using j ring_invD(11) [OF inv] by simp
  finally show ?thesis .
qed

lemma frame_seq:
  "ring_inv shm \<Longrightarrow> j < used shm \<Longrightarrow> fst (frames shm ! j) = lseq shm + 1 - used shm + j"
  using entry_seq [of shm j] by (simp add: frames_def frame_of_def)

lemma map_fst_frames: "ring_inv shm \<Longrightarrow> map fst (frames shm) = [lseq shm + 1 - used shm..<lseq shm + 1]"
  using ring_inv_seqs [of shm] by (simp add: frames_def frame_of_def comp_def)

lemma slot_of_seq:
  assumes inv: "ring_inv shm" and j: "j < used shm"
  shows "slot shm j = (lseq shm - used shm + j) mod icnt shm"
proof -
  have "ihead shm + ifree shm + j = lseq shm mod icnt shm + (ifree shm + j)"
    by (subst ring_invD(10) [OF inv]) simp
  then have "slot shm j = (lseq shm mod icnt shm + (ifree shm + j)) mod icnt shm"
    by (simp only: slot_def)
  also have "\<dots> = (lseq shm + (ifree shm + j)) mod icnt shm" by (rule mod_add_left_eq)
  also have "lseq shm + (ifree shm + j) = (lseq shm - used shm + j) + icnt shm"
    using ring_invD(8,11) [OF inv] by simp
  also have "\<dots> mod icnt shm = (lseq shm - used shm + j) mod icnt shm" by (rule mod_add_self2)
  finally show ?thesis .
qed

lemma slot_cases:
  assumes inv: "ring_inv shm" and i: "i < icnt shm"
  obtains (Free) k where "k < ifree shm" "i = (ihead shm + k) mod icnt shm"
    "shm_index shm ! i = zero_index"
  | (Used) j where "j < used shm" "i = slot shm j"
proof -
  have h: "ihead shm < icnt shm" "ifree shm \<le> icnt shm" using ring_invD(7,8) [OF inv] by auto
  define k where "k = (i + icnt shm - ihead shm) mod icnt shm"
  have k: "k < icnt shm" using i by (simp add: k_def)
  have i_eq: "i = (ihead shm + k) mod icnt shm"
    using h i ring_dist [of "ihead shm" "icnt shm" i] by (auto simp: k_def mod_add_less_2)
  show thesis
  proof (cases "k < ifree shm")
    case True
    with ring_inv_zero [OF inv True] i_eq show thesis by (intro Free) simp_all
  next
    case False
    then have "i = slot shm (k - ifree shm)" using i_eq by (simp add: slot_def)
    moreover have "k - ifree shm < used shm" using False k h by simp
    ultimately show thesis by (intro Used)
  qed
qed

text \<open>An entry carries a number that fits its position, or is free.\<close>

lemma entry_at:
  assumes inv: "ring_inv shm" and i: "i < icnt shm" and q: "unat (idx_seq_num (shm_index shm ! i)) = Suc p"
  shows "i = p mod icnt shm" "p < lseq shm" "lseq shm - used shm \<le> p"
    "i = slot shm (p + used shm - lseq shm)"
proof -
  from inv i have "i = p mod icnt shm \<and> p < lseq shm \<and> lseq shm - used shm \<le> p \<and>
      i = slot shm (p + used shm - lseq shm)"
  proof (cases rule: slot_cases)
    case (Free k)
    with q show ?thesis by (simp add: zero_index_def)
  next
    case (Used j)
    have "Suc p = lseq shm + 1 - used shm + j"
      using q entry_seq [OF inv Used(1)] nth_entries [OF Used(1)] Used(2) by simp
    moreover have "used shm \<le> lseq shm" by (rule ring_invD(11) [OF inv])
    ultimately have "p = lseq shm - used shm + j" "j = p + used shm - lseq shm"
      using Used(1) by simp_all
    moreover have "p mod icnt shm = slot shm j"
      unfolding slot_of_seq [OF inv Used(1)] by (simp only: \<open>p = lseq shm - used shm + j\<close>)
    ultimately show ?thesis using Used ring_invD(11) [OF inv] by (metis add_less_cancel_left
        le_add1 le_add_diff_inverse2)
  qed
  then show "i = p mod icnt shm" "p < lseq shm" "lseq shm - used shm \<le> p"
    "i = slot shm (p + used shm - lseq shm)" by auto
qed

lemma entry_of_seq:
  assumes inv: "ring_inv shm" and p: "p < lseq shm" "lseq shm - used shm \<le> p"
  shows "slot shm (p + used shm - lseq shm) = p mod icnt shm"
    "unat (idx_seq_num (shm_index shm ! (p mod icnt shm))) = Suc p"
proof -
  define j where "j = p + used shm - lseq shm"
  have le: "used shm \<le> lseq shm" by (rule ring_invD(11) [OF inv])
  have j: "j < used shm" "lseq shm - used shm + j = p" using p le by (auto simp: j_def)
  show s: "slot shm (p + used shm - lseq shm) = p mod icnt shm"
    using slot_of_seq [OF inv j(1)] j(2) by (simp add: j_def)
  show "unat (idx_seq_num (shm_index shm ! (p mod icnt shm))) = Suc p"
    using entry_seq [OF inv j(1)] nth_entries [OF j(1)] s j(2) le unfolding j_def [symmetric] by simp
qed

section \<open>Which frame a reader is handed\<close>

text \<open>
  A reader that has seen the frames up to \<open>seen\<close> is handed the oldest stored frame it has not
  seen, or the newest one when it asks for that or has seen them all.
\<close>

definition pick_frame :: "bool \<Rightarrow> nat \<Rightarrow> frame list \<Rightarrow> frame" where
  "pick_frame latest seen fs =
     (case filter (\<lambda>f. seen < fst f) fs of
        [] \<Rightarrow> last fs
      | f # _ \<Rightarrow> if latest then last fs else f)"

lemma filter_numbered:
  "map fst fs = [a..<a + length fs] \<Longrightarrow> filter (\<lambda>f. s < fst f) fs = drop (Suc s - a) fs"
proof (induction fs arbitrary: a)
  case (Cons f fs)
  have hd: "fst f = a" and tl: "map fst fs = [Suc a..<Suc a + length fs]"
    using Cons.prems by (simp_all add: upt_conv_Cons)
  show ?case
  proof (cases "s < a")
    case True
    then have "Suc s - Suc a = 0" by simp
    with Cons.IH [OF tl] True hd show ?thesis by simp
  next
    case False
    then have "Suc s - a = Suc (Suc s - Suc a)" by simp
    with Cons.IH [OF tl] False hd show ?thesis by simp
  qed
qed simp

definition pick_pos :: "bool \<Rightarrow> nat \<Rightarrow> ach_header_t \<Rightarrow> nat" where
  "pick_pos latest seen shm =
     (if latest \<or> lseq shm \<le> seen then used shm - 1 else seen - (lseq shm - used shm))"

lemma pick_pos_less: "0 < used shm \<Longrightarrow> used shm \<le> lseq shm \<Longrightarrow> pick_pos latest seen shm < used shm"
  by (auto simp: pick_pos_def)

lemma pick_frame_pos:
  assumes inv: "ring_inv shm" and u: "0 < used shm"
  shows "pick_frame latest seen (frames shm) = frames shm ! pick_pos latest seen shm"
proof -
  let ?fs = "frames shm" and ?a = "lseq shm + 1 - used shm"
  have le: "used shm \<le> lseq shm" by (rule ring_invD(11) [OF inv])
  have "map fst ?fs = [?a..<?a + length ?fs]" using map_fst_frames [OF inv] le by simp
  then have flt: "filter (\<lambda>f. seen < fst f) ?fs = drop (Suc seen - ?a) ?fs" by (rule filter_numbered)
  have last: "last ?fs = ?fs ! (used shm - 1)"
    using u by (subst last_conv_nth) (auto simp flip: length_0_conv)
  have pos: "Suc seen - ?a = seen - (lseq shm - used shm)" using le by simp
  show ?thesis
  proof (cases "lseq shm \<le> seen")
    case True
    then have "drop (seen - (lseq shm - used shm)) ?fs = []" using le by simp
    with True last show ?thesis unfolding pick_frame_def flt pos by (simp add: pick_pos_def)
  next
    case False
    then have "seen - (lseq shm - used shm) < length ?fs" using u le by auto
    with False last show ?thesis
      unfolding pick_frame_def flt pos by (simp add: pick_pos_def flip: Cons_nth_drop_Suc)
  qed
qed

section \<open>Handles\<close>

text \<open>
  A handle that \<^verbatim>\<open>ach_open\<close> set up, or that was last used to read or flush this block.
\<close>

definition chan_ok :: "ach_channel_t \<Rightarrow> ach_header_t \<Rightarrow> bool" where
  "chan_ok chan shm \<longleftrightarrow>
     ch_seq_num chan \<le> last_seq shm \<and> ch_next_index chan < index_cnt shm \<and>
     (unat (ch_next_index chan) = unat (ch_seq_num chan) mod icnt shm \<or>
      ch_seq_num chan = 0 \<and> ch_next_index chan = 1)"

abbreviation cseq :: "ach_channel_t \<Rightarrow> nat" where "cseq chan \<equiv> unat (ch_seq_num chan)"

text \<open>The entry a handle points at is the next frame exactly when that frame is stored.\<close>

lemma next_index_hit:
  assumes inv: "ring_inv shm" and ok: "chan_ok chan shm"
    and hit: "unat (idx_seq_num (shm_index shm ! unat (ch_next_index chan))) = Suc (cseq chan)"
  shows "unat (ch_next_index chan) = slot shm (pick_pos False (cseq chan) shm)"
proof -
  have i: "unat (ch_next_index chan) < icnt shm" using ok by (simp add: chan_ok_def size_t_less)
  note e = entry_at [OF inv i hit]
  have "pick_pos False (cseq chan) shm = cseq chan + used shm - lseq shm"
    using ring_invD(11) [OF inv] e(2) by (simp add: pick_pos_def)
  then show ?thesis using e(4) by (simp only:)
qed

lemma next_index_miss:
  assumes inv: "ring_inv shm" and ok: "chan_ok chan shm" and lt: "cseq chan < lseq shm"
    and u: "0 < used shm"
    and miss: "unat (idx_seq_num (shm_index shm ! unat (ch_next_index chan))) \<noteq> Suc (cseq chan)"
  shows "pick_pos False (cseq chan) shm = 0"
proof (cases "lseq shm - used shm \<le> cseq chan")
  case True
  have "unat (ch_next_index chan) \<noteq> cseq chan mod icnt shm"
    using entry_of_seq(2) [OF inv lt True] miss by metis
  then have "cseq chan = 0" using ok by (auto simp: chan_ok_def)
  then show ?thesis using lt by (simp add: pick_pos_def)
qed (use lt in \<open>simp add: pick_pos_def\<close>)

lemma last_index:
  assumes inv: "ring_inv shm" and u: "0 < used shm"
  shows "\<exists>i. last_index_i shm = Ret i \<and> unat i = slot shm (used shm - 1)"
proof -
  have d: "0 < icnt shm" "icnt shm < 2 ^ 63" "ihead shm < icnt shm" "ifree shm \<le> icnt shm"
    using ring_invD(3,5,7,8) [OF inv] by auto
  have nz: "index_cnt shm \<noteq> 0" using d(1) by (auto simp: size_t_eq_0)
  have s: "unat (index_head shm + index_cnt shm) = ihead shm + icnt shm"
    using d by (intro unat_add_no_wrap) simp
  have "unat (index_head shm + index_cnt shm - 1) = ihead shm + icnt shm - 1"
    using d by (subst unat_sub_no_wrap) (simp_all add: s)
  moreover have "ihead shm + icnt shm - 1 = ihead shm + ifree shm + (used shm - 1)"
    using d u by simp
  ultimately have "unat ((index_head shm + index_cnt shm - 1) mod index_cnt shm) =
      slot shm (used shm - 1)"
    by (simp only: slot_def unat_mod_nat)
  with nz show ?thesis by (simp add: last_index_i_def c_mod_Ret)
qed

lemma choose_index_correct:
  assumes inv: "ring_inv shm" and u: "0 < used shm" and ok: "chan_ok chan shm"
    and seq: "lseq shm + 1 < 2 ^ 64" and fresh: "ch_seq_num chan = last_seq shm \<longrightarrow> o_copy options"
  shows "\<exists>i. choose_index chan shm options = Ret i \<and>
             unat i = slot shm (pick_pos (o_last options) (cseq chan) shm)"
proof (cases "o_last options")
  case True
  with last_index [OF inv u] show ?thesis by (simp add: choose_index_def pick_pos_def)
next
  case False
  let ?e = "shm_index shm ! unat (ch_next_index chan)"
  have i: "unat (ch_next_index chan) < length (shm_index shm)"
    using ok ring_invD(1) [OF inv] by (simp add: chan_ok_def size_t_less)
  have le: "cseq chan \<le> lseq shm" using ok by (simp add: chan_ok_def size_t_le)
  have "unat (ch_seq_num chan + 1) = Suc (cseq chan)" using le seq by (simp add: size_t_simps)
  then have hit: "idx_seq_num ?e = ch_seq_num chan + 1 \<longleftrightarrow> unat (idx_seq_num ?e) = Suc (cseq chan)"
    by (simp add: size_t_eq)
  show ?thesis
  proof (cases "unat (idx_seq_num ?e) = Suc (cseq chan)")
    case True
    with False i hit next_index_hit [OF inv ok True] show ?thesis
      by (simp add: choose_index_def at_Ret)
  next
    case miss: False
    show ?thesis
    proof (cases "ch_seq_num chan = last_seq shm")
      case True
      with False i hit miss fresh last_index [OF inv u] show ?thesis
        by (simp add: choose_index_def at_Ret pick_pos_def)
    next
      case ne: False
      then have "cseq chan < lseq shm" using le by (simp add: size_t_eq)
      with False i hit miss ne next_index_miss [OF inv ok _ u miss] oldest_index [OF inv]
      show ?thesis by (simp add: choose_index_def at_Ret)
    qed
  qed
qed

section \<open>Copying a frame out\<close>

lemma offsets_from_less:
  "0 < D \<Longrightarrow> offsets_from D p es \<Longrightarrow> e \<in> set es \<Longrightarrow> unat (idx_offset e) < D"
  by (induction es arbitrary: p) auto

lemma entry_bounds:
  assumes inv: "ring_inv shm" and e: "e \<in> set (entries shm)"
  shows "unat (idx_offset e) < dsize shm" "esize e \<le> dsize shm"
proof -
  show "unat (idx_offset e) < dsize shm"
    using ring_invD(4,13) [OF inv] e by (blast intro: offsets_from_less)
  have "esize e \<le> total_size (entries shm)"
    using e unfolding total_size_def by (simp add: member_le_sum_list)
  then show "esize e \<le> dsize shm" using ring_invD(14) [OF inv] by linarith
qed

lemma ring_read_simple:
  "off + n \<le> length d \<Longrightarrow> ring_read d off n = take n (drop off d)"
  by (rule nth_equalityI) (simp_all add: ring_read_def)

lemma ring_read_wrap:
  assumes "off < length d" "length d \<le> off + n" "n \<le> length d"
  shows "ring_read d off n = drop off d @ take (n - (length d - off)) d"
proof (rule nth_equalityI)
  fix k assume "k < length (ring_read d off n)"
  then have k: "k < n" by simp
  show "ring_read d off n ! k = (drop off d @ take (n - (length d - off)) d) ! k"
  proof (cases "off + k < length d")
    case True
    then have "k < length d - off" by simp
    with True k assms show ?thesis by (simp add: ring_read_def nth_append)
  next
    case False
    then have "(off + k) mod length d = k - (length d - off)"
      using k assms by (subst mod_add_less_2) simp_all
    moreover have "\<not> k < length d - off" using False by simp
    ultimately show ?thesis using k assms by (simp add: ring_read_def nth_append)
  qed
qed (use assms in simp)

lemma copy_out_correct:
  assumes inv: "ring_inv shm" and e: "e \<in> set (entries shm)" and buf: "esize e \<le> length buf"
  shows "copy_out shm e buf = Ret (snd (frame_of (shm_data shm) e) @ drop (esize e) buf)"
proof -
  let ?d = "shm_data shm" and ?o = "unat (idx_offset e)" and ?n = "esize e"
  note b = entry_bounds [OF inv e]
  have d: "length ?d = dsize shm" "dsize shm < 2 ^ 63" using ring_invD(2,6) [OF inv] by auto
  have sum: "unat (idx_offset e + idx_size e) = ?o + ?n"
    using b d by (intro unat_add_no_wrap) simp
  show ?thesis
  proof (cases "?o + ?n < dsize shm")
    case True
    with buf d sum show ?thesis
      by (simp add: copy_out_def frame_of_def size_t_less ring_read_simple memcpy_Ret)
  next
    case False
    let ?c = "data_size shm - idx_offset e"
    have c: "unat ?c = dsize shm - ?o" using b by (intro unat_sub_no_wrap) simp
    have r: "unat (idx_size e - ?c) = ?n - (dsize shm - ?o)"
      using False b by (subst unat_sub_no_wrap) (simp_all add: c)
    show ?thesis
      using False b buf d sum c r ring_read_wrap [of ?o ?d ?n]
      by (simp add: copy_out_def frame_of_def size_t_less memcpy_Ret Let_def)
  qed
qed

section \<open>The specification of a read\<close>

text \<open>
  Nothing new: \<^verbatim>\<open>ACH_STALE_FRAMES\<close>.  A frame that does not fit: its size is reported and the
  handle stays where it is.  Otherwise the frame is copied, the handle has seen it, and the status
  tells whether frames were skipped.
\<close>

definition spec_get ::
  "ach_channel_t \<Rightarrow> ach_header_t \<Rightarrow> byte list \<Rightarrow> size_t \<Rightarrow> size_t \<Rightarrow> uint32 \<Rightarrow> get_result" where
  "spec_get chan shm buf bufsize frame_size options =
     (if frames shm = [] \<or> (cseq chan = lseq shm \<and> \<not> o_copy options)
      then \<lparr>g_status = ACH_STALE_FRAMES, g_chan = chan, g_shm = shm, g_buf = buf,
            g_frame_size = frame_size\<rparr>
      else let (q, m) = pick_frame (o_last options) (cseq chan) (frames shm)
           in if unat bufsize < length m
              then \<lparr>g_status = ACH_OVERFLOW, g_chan = chan, g_shm = shm, g_buf = buf,
                    g_frame_size = of_nat (length m)\<rparr>
              else \<lparr>g_status = (if cseq chan + 1 < q then ACH_MISSED_FRAME else ACH_OK),
                    g_chan = chan\<lparr>ch_seq_num := of_nat q, ch_next_index := of_nat (q mod icnt shm)\<rparr>,
                    g_shm = shm, g_buf = m @ drop (length m) buf,
                    g_frame_size = of_nat (length m)\<rparr>)"

lemma used_pos: "shm_inv shm \<Longrightarrow> last_seq shm \<noteq> 0 \<Longrightarrow> 0 < used shm"
  by (simp add: shm_inv_def)

lemma frames_empty_iff:
  assumes "shm_inv shm"
  shows "frames shm = [] \<longleftrightarrow> last_seq shm = 0"
proof -
  have "used shm \<le> lseq shm" using assms ring_invD(11) by (simp add: shm_inv_def)
  moreover have "frames shm = [] \<longleftrightarrow> used shm = 0" by (metis length_frames length_0_conv)
  ultimately show ?thesis
    using used_pos [OF assms] by (cases "last_seq shm = 0") simp_all
qed

lemma chan_ok_le: "chan_ok chan shm \<Longrightarrow> cseq chan \<le> lseq shm"
  by (simp add: chan_ok_def size_t_le)

text \<open>The frame at a position that is not older than the handle, read through the code.\<close>

lemma get_from_offset_correct:
  assumes inv: "ring_inv shm" and j: "j < used shm" and i: "unat i = slot shm j"
    and new: "cseq chan \<le> fst (frames shm ! j)" and buf: "unat bufsize \<le> length buf"
  shows "ach_get_from_offset chan shm i buf bufsize fsz =
    (let (q, m) = frames shm ! j
     in if unat bufsize < length m
        then Ret \<lparr>g_status = ACH_OVERFLOW, g_chan = chan, g_shm = shm, g_buf = buf,
                  g_frame_size = of_nat (length m)\<rparr>
        else Ret \<lparr>g_status = ACH_OK,
                  g_chan = chan\<lparr>ch_seq_num := of_nat q, ch_next_index := of_nat (q mod icnt shm)\<rparr>,
                  g_shm = shm, g_buf = m @ drop (length m) buf, g_frame_size = of_nat (length m)\<rparr>)"
proof -
  let ?e = "entries shm ! j"
  have mem: "?e \<in> set (entries shm)" using j by simp
  have fr: "frames shm ! j = (unat (idx_seq_num ?e), snd (frame_of (shm_data shm) ?e))"
    using j by (simp add: frames_def frame_of_def)
  have len: "length (snd (frame_of (shm_data shm) ?e)) = esize ?e" by (simp add: frame_of_def)
  have seq: "unat (idx_seq_num ?e) = Suc (lseq shm - used shm + j)"
    using entry_seq [OF inv j] ring_invD(11) [OF inv] by simp
  have lt: "slot shm j < icnt shm" by (rule slot_less) (rule ring_invD(3) [OF inv])
  have at: "at (shm_index shm) i = Ret ?e"
    using lt i ring_invD(1) [OF inv] nth_entries [OF j] by (simp add: at_Ret)
  have nz: "index_cnt shm \<noteq> 0" using lt by auto
  have "unat ((i + 1) mod index_cnt shm) = (slot shm j + 1) mod icnt shm"
    using lt i ring_invD(5) [OF inv] by (simp add: size_t_simps)
  also have "\<dots> = unat (idx_seq_num ?e) mod icnt shm"
    unfolding slot_of_seq [OF inv j] seq by (simp add: mod_Suc_eq)
  finally have next': "(i + 1) mod index_cnt shm = of_nat (unat (idx_seq_num ?e) mod icnt shm)"
    by (metis of_nat_unat_size_t)
  have asserts: "i < index_cnt shm" "idx_seq_num ?e \<noteq> 0" "idx_offset ?e < data_size shm"
    "\<not> idx_seq_num ?e < ch_seq_num chan"
    using lt i seq entry_bounds [OF inv mem] new
    by (auto simp: size_t_less size_t_eq_0 fr simp del: unat_eq_0)
  show ?thesis
    using asserts copy_out_correct [OF inv mem] buf nz
    by (simp add: ach_get_from_offset_def at next' fr len size_t_less c_mod_Ret)
qed

lemma get_locked_correct:
  assumes inv: "shm_inv shm" and ok: "chan_ok chan shm" and seq: "lseq shm + 1 < 2 ^ 64"
    and buf: "unat bufsize \<le> length buf" and wait: "o_wait options \<Longrightarrow> cseq chan \<noteq> lseq shm"
  shows "\<exists>g missed. get_locked chan shm buf bufsize fsz options = Ret (g, missed) \<and>
           g\<lparr>g_status := (if g_status g = ACH_OK \<and> missed then ACH_MISSED_FRAME else g_status g)\<rparr> =
           spec_get chan shm buf bufsize fsz options"
proof (cases "frames shm = [] \<or> (cseq chan = lseq shm \<and> \<not> o_copy options)")
  case True
  then have stale: "(ch_seq_num chan = last_seq shm \<and> \<not> o_copy options) \<or> last_seq shm = 0"
    using frames_empty_iff [OF inv] by (auto simp: size_t_eq)
  have "\<not> o_wait options"
    using True wait chan_ok_le [OF ok] frames_empty_iff [OF inv] by auto
  with stale True ok show ?thesis by (simp add: get_locked_def spec_get_def chan_ok_def) blast
next
  case False
  then have ne: "\<not> ((ch_seq_num chan = last_seq shm \<and> \<not> o_copy options) \<or> last_seq shm = 0)"
    using frames_empty_iff [OF inv] by (auto simp: size_t_eq)
  have ring: "ring_inv shm" and u: "0 < used shm"
    using inv ne used_pos [OF inv] by (simp_all add: shm_inv_def)
  define j where "j = pick_pos (o_last options) (cseq chan) shm"
  have le: "used shm \<le> lseq shm" by (rule ring_invD(11) [OF ring])
  have j: "j < used shm" using pick_pos_less [OF u le] by (simp add: j_def)
  obtain i where i: "choose_index chan shm options = Ret i" "unat i = slot shm j"
    using choose_index_correct [OF ring u ok seq, of options] ne by (auto simp: j_def)
  have pick: "pick_frame (o_last options) (cseq chan) (frames shm) = frames shm ! j"
    using pick_frame_pos [OF ring u] by (simp add: j_def)
  have new: "cseq chan \<le> fst (frames shm ! j)"
    using frame_seq [OF ring j] chan_ok_le [OF ok] u le by (auto simp: j_def pick_pos_def)
  have "slot shm j < icnt shm" by (rule slot_less) (rule ring_invD(3) [OF ring])
  then have at: "at (shm_index shm) i = Ret (entries shm ! j)"
    using i ring_invD(1) [OF ring] nth_entries [OF j] by (simp add: at_Ret)
  have qj: "fst (frames shm ! j) = unat (idx_seq_num (entries shm ! j))"
    using j by (simp add: frames_def frame_of_def)
  have "unat (ch_seq_num chan + 1) = cseq chan + 1"
    using chan_ok_le [OF ok] seq by (simp add: size_t_simps)
  then have missed: "idx_seq_num (entries shm ! j) > ch_seq_num chan + 1 \<longleftrightarrow>
      cseq chan + 1 < fst (frames shm ! j)" by (simp add: size_t_less qj)
  have pos: "idx_seq_num (entries shm ! j) > 0"
    using frame_seq [OF ring j] le qj by (simp add: size_t_less)
  have "ch_seq_num chan \<le> last_seq shm" using ok by (simp add: chan_ok_def)
  then have code: "get_locked chan shm buf bufsize fsz options =
      and_then (ach_get_from_offset chan shm i buf bufsize fsz)
        (\<lambda>g. Ret (g, cseq chan + 1 < fst (frames shm ! j)))"
    unfolding get_locked_def missed [symmetric] if_not_P [OF ne]
    using i(1) at pos by (simp add: Let_def)
  obtain q m where qm: "frames shm ! j = (q, m)" by fastforce
  show ?thesis
    unfolding code spec_get_def pick get_from_offset_correct [OF ring j i(2) new buf] qm
    using False by (cases "unat bufsize < length m") simp_all
qed

lemma ach_get_correct:
  assumes rest: "at_rest shm" and ok: "chan_ok chan shm" and seq: "lseq shm + 1 < 2 ^ 64"
    and buf: "unat bufsize \<le> length buf" and live: "\<not> ch_cancel chan"
    and wait: "\<not> o_wait options \<or> cseq chan \<noteq> lseq shm"
  shows "ach_get t chan shm buf bufsize fsz abstime options wakes =
         Ret (spec_get chan shm buf bufsize fsz options)"
proof -
  let ?s = "shm\<lparr>mutex := M_held t\<rparr>"
  have inv: "shm_inv shm" "check_guards shm = ACH_OK" and ready: "sync_ready shm"
    using rest by (simp_all add: at_rest_def shm_inv_def)
  have inv': "shm_inv ?s" "chan_ok chan ?s" using inv ok by (simp_all add: shm_inv_def chan_ok_def)
  obtain g missed where g: "get_locked chan ?s buf bufsize fsz options = Ret (g, missed)"
    "g\<lparr>g_status := (if g_status g = ACH_OK \<and> missed then ACH_MISSED_FRAME else g_status g)\<rparr> =
       spec_get chan ?s buf bufsize fsz options"
    using get_locked_correct [OF inv' _ buf, of options fsz] seq wait by auto
  have spec: "spec_get chan ?s buf bufsize fsz options =
      (spec_get chan shm buf bufsize fsz options)\<lparr>g_shm := ?s\<rparr>"
    by (simp add: spec_get_def Let_def split: prod.split)
  have sh: "g_shm (spec_get chan ?s buf bufsize fsz options) = ?s"
    "g_shm (spec_get chan shm buf bufsize fsz options) = shm"
    by (simp_all add: spec_get_def Let_def split: prod.split)
  have gs: "g_shm g = ?s" using arg_cong [OF g(2), of g_shm] sh by simp
  have free: "?s\<lparr>mutex := M_free\<rparr> = shm" "dirty shm = 0" using ready by (simp_all add: sync_ready_def)
  have "ach_get t chan shm buf bufsize fsz abstime options wakes =
     Ret ((g\<lparr>g_status := (if g_status g = ACH_OK \<and> missed then ACH_MISSED_FRAME else g_status g)\<rparr>)
            \<lparr>g_shm := shm\<rparr>)"
    using inv(2) rdlock_ready_nowait [OF ready live, of "o_wait options"] wait g(1) gs free
    by (simp add: ach_get_def unrdlock_held size_t_eq)
  also have "\<dots> = Ret (spec_get chan shm buf bufsize fsz options)"
    unfolding g(2) spec using sh(2) by (simp add: get_result.equality)
  finally show ?thesis .
qed

section \<open>What a handle keeps\<close>

lemma pick_frame_mem: "fs \<noteq> [] \<Longrightarrow> pick_frame latest seen fs \<in> set fs"
  by (auto simp: pick_frame_def dest!: Cons_eq_filterD [OF sym] split: list.split)

lemma frames_seq_range:
  assumes "ring_inv shm" "(q, m) \<in> set (frames shm)"
  shows "0 < q" "q \<le> lseq shm"
proof -
  have "q \<in> set (map fst (frames shm))" using assms(2) by force
  then show "0 < q" "q \<le> lseq shm"
    unfolding map_fst_frames [OF assms(1)] using ring_invD(11) [OF assms(1)] by auto
qed

lemma spec_get_chan_ok:
  assumes inv: "shm_inv shm" and ok: "chan_ok chan shm"
  shows "chan_ok (g_chan (spec_get chan shm buf bufsize fsz options)) shm"
proof (cases "frames shm = []")
  case True
  then show ?thesis using ok by (simp add: spec_get_def)
next
  case False
  obtain q m where qm: "pick_frame (o_last options) (cseq chan) (frames shm) = (q, m)" by fastforce
  have ring: "ring_inv shm" using inv by (simp add: shm_inv_def)
  have q: "q \<le> lseq shm" using pick_frame_mem [OF False] frames_seq_range [OF ring] qm by metis
  have "q < 2 ^ 64" using q size_t_bound [of "last_seq shm"] by simp
  moreover have "q mod icnt shm < icnt shm" using ring_invD(3) [OF ring] by simp
  moreover from this have "q mod icnt shm < 2 ^ 64" using ring_invD(5) [OF ring] by simp
  ultimately show ?thesis
    using ok qm q by (simp add: spec_get_def chan_ok_def size_t_le size_t_less unat_size_t_of_nat)
qed

text \<open>A write does not disturb the readers' handles.\<close>

lemma chan_ok_mono:
  "chan_ok chan shm \<Longrightarrow> index_cnt shm' = index_cnt shm \<Longrightarrow> lseq shm \<le> lseq shm' \<Longrightarrow> chan_ok chan shm'"
  by (auto simp: chan_ok_def size_t_le)

lemma ach_flush_correct:
  assumes rest: "at_rest shm" and live: "\<not> ch_cancel chan"
  shows "ach_flush t chan shm =
    Ret (ACH_OK, chan\<lparr>ch_seq_num := last_seq shm, ch_next_index := index_head shm\<rparr>, shm)"
proof -
  have ready: "sync_ready shm" using rest by (simp add: at_rest_def)
  then have "shm\<lparr>mutex := M_free\<rparr> = shm" "dirty shm = 0" by (simp_all add: sync_ready_def)
  then show ?thesis
    using rdlock_ready_nowait [OF ready live, of False]
    by (simp add: ach_flush_def Let_def unrdlock_held)
qed

lemma ach_flush_chan_ok:
  assumes "ring_inv shm"
  shows "chan_ok (chan\<lparr>ch_seq_num := last_seq shm, ch_next_index := index_head shm\<rparr>) shm"
  using ring_invD(7,10) [OF assms] by (simp add: chan_ok_def size_t_less)

section \<open>The lock on every path\<close>

text \<open>
  Whatever the block holds and whatever happens while the caller sleeps, a read that returns has
  given the mutex back; and one that waited never reports that there was nothing new.
\<close>

lemma rdlock_holder:
  assumes "holder shm \<noteq> Some t" "rdlock t chan shm w ab wakes = Ret (r, chan', shm')"
  shows "(r = ACH_OK \<longrightarrow> mutex shm' = M_held t \<and> dirty shm' = 0 \<and> \<not> ch_cancel chan' \<and>
            (w \<longrightarrow> ch_seq_num chan' \<noteq> last_seq shm')) \<and>
         (r \<noteq> ACH_OK \<longrightarrow> holder shm' \<noteq> Some t)"
proof -
  obtain r1 shm1 where c: "chan_lock t shm = Ret (r1, shm1)"
    and l: "if r1 \<noteq> ACH_OK then Ret (r1, chan, shm1) = Ret (r, chan', shm')
            else rdlock_loop t chan shm1 w ab wakes = Ret (r, chan', shm')"
    using assms(2) by (auto simp: rdlock_def and_then_Ret_iff split: prod.splits if_splits)
  show ?thesis
    using chan_lock_holder [OF assms(1) c] rdlock_loop_holder [of shm1 t chan w ab wakes r chan' shm'] l
    by (auto split: if_splits)
qed

lemma get_from_offset_shm:
  "ach_get_from_offset chan shm i buf bufsize fsz = Ret g \<Longrightarrow> g_shm g = shm"
  by (auto simp: ach_get_from_offset_def outcome_simps split: if_splits)

lemma get_from_offset_not_stale:
  "ach_get_from_offset chan shm i buf bufsize fsz = Ret g \<Longrightarrow>
   g_status g = ACH_OK \<or> g_status g = ACH_OVERFLOW \<or> g_status g = ACH_BUG"
  by (auto simp: ach_get_from_offset_def outcome_simps split: if_splits)

lemma get_locked_shm: "get_locked chan shm buf bufsize fsz options = Ret (g, missed) \<Longrightarrow> g_shm g = shm"
  by (auto simp: get_locked_def outcome_simps Let_def get_from_offset_shm split: if_splits)

lemma get_locked_stale:
  "get_locked chan shm buf bufsize fsz options = Ret (g, missed) \<Longrightarrow> g_status g = ACH_STALE_FRAMES \<Longrightarrow>
   \<not> o_wait options"
  by (auto simp: get_locked_def outcome_simps Let_def split: if_splits
      dest!: get_from_offset_not_stale)

text \<open>The paths through \<^verbatim>\<open>ach_get\<close>.\<close>

lemma ach_get_cases:
  assumes get: "ach_get t chan shm buf bufsize fsz abstime options wakes = Ret g"
  obtains (Corrupt) "check_guards shm \<noteq> ACH_OK" "g_status g = check_guards shm" "g_shm g = shm"
  | (No_lock) r chan' shm' where "rdlock t chan shm (o_wait options) abstime wakes = Ret (r, chan', shm')"
      "r \<noteq> ACH_OK" "g_status g = r" "g_shm g = shm'"
  | (Locked) chan' shm' g' missed r shm'' where
      "rdlock t chan shm (o_wait options) abstime wakes = Ret (ACH_OK, chan', shm')"
      "get_locked chan' shm' buf bufsize fsz options = Ret (g', missed)"
      "unrdlock t shm' = Ret (r, shm'')" "g_shm g = shm''"
      "g_status g = (if r \<noteq> ACH_OK then r else if g_status g' = ACH_OK \<and> missed
                     then ACH_MISSED_FRAME else g_status g')"
proof (cases "check_guards shm \<noteq> ACH_OK")
  case True
  with get Corrupt show thesis by (auto simp: ach_get_def)
next
  case False
  then obtain r chan' shm' where
    rd: "rdlock t chan shm (o_wait options) abstime wakes = Ret (r, chan', shm')"
    using get by (auto simp: ach_get_def and_then_Ret_iff)
  show thesis
  proof (cases "r = ACH_OK")
    case ok: True
    obtain g' missed where g': "get_locked chan' shm' buf bufsize fsz options = Ret (g', missed)"
      using get False rd ok by (auto simp: ach_get_def and_then_Ret_iff)
    note sh = get_locked_shm [OF g']
    obtain r' shm'' where un: "unrdlock t shm' = Ret (r', shm'')"
      using get False rd ok g' sh by (auto simp: ach_get_def and_then_Ret_iff)
    have "g = g'\<lparr>g_shm := shm'', g_status := (if r' \<noteq> ACH_OK then r' else if g_status g' = ACH_OK \<and>
        missed then ACH_MISSED_FRAME else g_status g')\<rparr>"
      using get False rd ok g' sh un by (simp add: ach_get_def)
    then show thesis using rd ok by (intro Locked [OF _ g' un]) simp_all
  next
    case bad: False
    have "g = \<lparr>g_status = r, g_chan = chan', g_shm = shm', g_buf = buf, g_frame_size = fsz\<rparr>"
      using get False rd bad by (simp add: ach_get_def)
    then show thesis using bad by (intro No_lock [OF rd]) simp_all
  qed
qed

lemma ach_get_unlocks:
  assumes "holder shm \<noteq> Some t"
    and "ach_get t chan shm buf bufsize fsz abstime options wakes = Ret g"
  shows "holder (g_shm g) \<noteq> Some t"
  using assms(2)
proof (cases rule: ach_get_cases)
  case (No_lock r chan' shm')
  then show ?thesis using rdlock_holder [OF assms(1) No_lock(1)] by simp
next
  case (Locked chan' shm' g' missed r shm'')
  have "unrdlock t shm' = Ret (ACH_OK, shm'\<lparr>mutex := M_free\<rparr>)"
    using rdlock_holder [OF assms(1) Locked(1)] by (simp add: unrdlock_held)
  then have "g_shm g = shm'\<lparr>mutex := M_free\<rparr>" using Locked(3,4) by simp
  then show ?thesis by (simp add: holder_def)
qed (use assms(1) in simp)

lemma ach_get_waited:
  assumes "ach_get t chan shm buf bufsize fsz abstime options wakes = Ret g" "o_wait options"
  shows "g_status g \<noteq> ACH_STALE_FRAMES"
  using assms(1)
proof (cases rule: ach_get_cases)
  case Corrupt
  then show ?thesis by (simp add: check_guards_def split: if_splits)
next
  case (No_lock r chan' shm')
  then show ?thesis using rdlock_status [OF No_lock(1)] by (auto simp: lock_status_def)
next
  case (Locked chan' shm' g' missed r shm'')
  have "r = ACH_OK \<or> r = ACH_FAILED_SYSCALL"
    using Locked(3) by (auto simp: unrdlock_def and_then_Ret_iff split: prod.splits if_splits)
  then show ?thesis using Locked(5) get_locked_stale [OF Locked(2)] assms(2) by auto
qed

text \<open>
  A reader that waits: wake-ups that bring nothing new are slept through, and the first one after a
  write lets the reader go on with the block as the writer left it.
\<close>

definition idle_wake :: "ach_channel_t \<Rightarrow> wake \<Rightarrow> bool" where
  "idle_wake chan w \<longleftrightarrow>
     wake_ret w = EOK \<and> \<not> wake_cancel w \<and> dirty (wake_shm w) = 0 \<and>
     last_seq (wake_shm w) = ch_seq_num chan"

definition news_wake :: "ach_channel_t \<Rightarrow> wake \<Rightarrow> bool" where
  "news_wake chan w \<longleftrightarrow>
     wake_ret w = EOK \<and> \<not> wake_cancel w \<and> dirty (wake_shm w) = 0 \<and>
     last_seq (wake_shm w) \<noteq> ch_seq_num chan"

lemma rdlock_loop_wake:
  assumes "\<not> ch_cancel chan" "ch_seq_num chan = last_seq shm"
    and "wake_ret w = EOK" "\<not> wake_cancel w" "dirty (wake_shm w) = 0"
  shows "rdlock_loop t chan shm True ab (w # ws) =
         rdlock_loop t chan ((wake_shm w)\<lparr>mutex := M_held t\<rparr>) True ab ws"
proof -
  let ?i = "cond_wait_result ab (wake_ret w)"
  have "check_lock ?i t ((wake_shm w)\<lparr>mutex := retake_mutex t ?i\<rparr>) True =
      (ACH_OK, (wake_shm w)\<lparr>mutex := M_held t\<rparr>)"
    using assms(3,5) by (simp add: check_lock_def check_dirty_def cond_wait_result_def retake_mutex_def)
  moreover have "chan\<lparr>ch_cancel := wake_cancel w\<rparr> = chan" using assms(1,4) by simp
  ultimately show ?thesis using rdlock_loop_Cons [of chan True shm ab w t] assms(1,2) by simp
qed

lemma rdlock_loop_wakes:
  assumes "\<not> ch_cancel chan" "ch_seq_num chan = last_seq shm" "list_all (idle_wake chan) ws"
    and "news_wake chan w"
  shows "rdlock_loop t chan shm True ab (ws @ w # vs) =
         Ret (ACH_OK, chan, (wake_shm w)\<lparr>mutex := M_held t\<rparr>)"
  using assms(2,3)
proof (induction ws arbitrary: shm)
  case Nil
  with assms(1,4) show ?case
    by (auto simp: news_wake_def rdlock_loop_wake rdlock_loop_done)
next
  case (Cons v ws)
  with Cons.IH [of "(wake_shm v)\<lparr>mutex := M_held t\<rparr>"] assms(1) show ?case
    by (simp add: rdlock_loop_wake idle_wake_def)
qed

lemma ach_get_wait_correct:
  assumes rest: "at_rest shm" and live: "\<not> ch_cancel chan" and old: "ch_seq_num chan = last_seq shm"
    and idle: "list_all (idle_wake chan) ws" and news: "news_wake chan w"
    and rest': "at_rest (wake_shm w)" and ok: "chan_ok chan (wake_shm w)"
    and seq: "lseq (wake_shm w) + 1 < 2 ^ 64" and buf: "unat bufsize \<le> length buf"
    and opt: "o_wait options"
  shows "ach_get t chan shm buf bufsize fsz abstime options (ws @ w # vs) =
         Ret (spec_get chan (wake_shm w) buf bufsize fsz options)"
proof -
  let ?r = "Ret (ACH_OK, chan, (wake_shm w)\<lparr>mutex := M_held t\<rparr>)"
  have ready: "sync_ready shm" "sync_ready (wake_shm w)" and g: "check_guards shm = ACH_OK"
    "check_guards (wake_shm w) = ACH_OK"
    using rest rest' by (simp_all add: at_rest_def shm_inv_def)
  have ne: "ch_seq_num chan \<noteq> last_seq (wake_shm w)" using news by (auto simp: news_wake_def)
  have "rdlock t chan shm True abstime (ws @ w # vs) = ?r"
    using chan_lock_ready [OF ready(1), of t] old live idle news
    by (simp add: rdlock_def rdlock_loop_wakes)
  moreover have "rdlock t chan (wake_shm w) True abstime vs = ?r"
    by (rule rdlock_ready_nowait [OF ready(2) live]) (simp add: ne)
  ultimately have "ach_get t chan shm buf bufsize fsz abstime options (ws @ w # vs) =
      ach_get t chan (wake_shm w) buf bufsize fsz abstime options vs"
    using g opt by (simp add: ach_get_def)
  also have "\<dots> = Ret (spec_get chan (wake_shm w) buf bufsize fsz options)"
    using ne by (intro ach_get_correct [OF rest' ok seq buf live]) (simp add: size_t_eq)
  finally show ?thesis .
qed

section \<open>Properties\<close>

text \<open>
  C2. Refinement of a read.  On a block at rest and with a handle in order,
  \<^verbatim>\<open>ach_get\<close> that need not wait does what \<open>spec_get\<close> says: it hands out the oldest
  stored frame the handle has not seen (the newest with \<^verbatim>\<open>ACH_O_LAST\<close>, or with
  \<^verbatim>\<open>ACH_O_COPY\<close> when all are seen), reports skipped frames, an empty channel and a short
  buffer, and writes nothing to the block; the handle stays in order.  No \<open>assert\<close> fires and no
  access leaves its array.
\<close>

theorem ach_get_refines:
  assumes "at_rest shm" "chan_ok chan shm" "lseq shm + 1 < 2 ^ 64" "unat bufsize \<le> length buf"
    and "\<not> ch_cancel chan" "\<not> o_wait options \<or> cseq chan \<noteq> lseq shm"
  shows "ach_get t chan shm buf bufsize fsz abstime options wakes =
           Ret (spec_get chan shm buf bufsize fsz options) \<and>
         chan_ok (g_chan (spec_get chan shm buf bufsize fsz options)) shm"
  using ach_get_correct [OF assms] spec_get_chan_ok [OF _ assms(2)] assms(1) by (simp add: at_rest_def)

lemma fresh_handle_ok:
  "1 < icnt shm \<Longrightarrow> chan_ok (fresh_handle k len fd attr) shm"
  by (simp add: chan_ok_def fresh_handle_def size_t_less)

text \<open>A block of two entries and eight bytes after one write of three bytes.\<close>

definition written_block :: ach_header_t where
  "written_block = (fresh_block ''a'' 2 4)\<lparr>last_seq := 1, index_head := 1, index_free := 1,
     data_head := 3, data_free := 5,
     shm_index := [\<lparr>idx_size = 3, idx_offset = 0, idx_seq_num = 1\<rparr>, zero_index],
     shm_data := [1, 2, 3, 0, 0, 0, 0, 0], cond := C_ready 1\<rparr>"

lemma written_block_fields:
  "index_cnt written_block = 2" "index_head written_block = 1" "index_free written_block = 1"
  "data_size written_block = 8" "data_head written_block = 3" "data_free written_block = 5"
  "last_seq written_block = 1" "shm_data written_block = [1, 2, 3, 0, 0, 0, 0, 0]"
  "shm_index written_block = [\<lparr>idx_size = 3, idx_offset = 0, idx_seq_num = 1\<rparr>, zero_index]"
  "mutex written_block = M_free" "dirty written_block = 0" "cond written_block = C_ready 1"
  "check_guards written_block = ACH_OK"
  by (simp_all add: written_block_def fresh_block_def zero_block_def check_guards_def)

lemma written_block_entries:
  "entries written_block = [\<lparr>idx_size = 3, idx_offset = 0, idx_seq_num = 1\<rparr>]"
  by (simp add: entries_def slot_def written_block_fields upt_rec)

lemma written_block_frames: "frames written_block = [(1, [1, 2, 3])]"
  by (simp add: frames_def frame_of_def ring_read_def written_block_entries written_block_fields upt_rec)

lemma written_block_at_rest: "at_rest written_block"
  unfolding at_rest_def shm_inv_def ring_inv_def dims_ok_def sync_ready_def written_block_entries
  by (simp add: written_block_fields upt_rec)

lemma spec_get_written:
  "spec_get (fresh_handle 0 400 3 ach_attr_init) written_block [0, 0, 0, 9] 4 5 ACH_O_WAIT =
   \<lparr>g_status = ACH_OK,
        g_chan = (fresh_handle 0 400 3 ach_attr_init)\<lparr>ch_seq_num := 1, ch_next_index := 1\<rparr>,
        g_shm = written_block, g_buf = [1, 2, 3, 9], g_frame_size = 3\<rparr>"
  by (simp add: spec_get_def written_block_frames written_block_fields option_flags pick_frame_def)
     (simp add: fresh_handle_def written_block_fields)

theorem ach_get_refines_witness:
  "ach_get 7 (fresh_handle 0 400 3 ach_attr_init) written_block [0, 0, 0, 9] 4 5 None ACH_O_WAIT [] =
   Ret \<lparr>g_status = ACH_OK,
        g_chan = (fresh_handle 0 400 3 ach_attr_init)\<lparr>ch_seq_num := 1, ch_next_index := 1\<rparr>,
        g_shm = written_block, g_buf = [1, 2, 3, 9], g_frame_size = 3\<rparr>"
  using ach_get_refines [OF written_block_at_rest fresh_handle_ok, of 4 "[0, 0, 0, 9]" 0 400 3
      ach_attr_init ACH_O_WAIT 7 5 None "[]"]
  by (simp add: written_block_fields option_flags spec_get_written) (simp add: fresh_handle_def)

text \<open>
  C5. Waiting.  With \<^verbatim>\<open>ACH_O_WAIT\<close> and nothing new, the reader sleeps through any number of
  wake-ups that bring no frame, and at the first wake-up after a write it reads from the block as
  that writer left it, as a read that did not wait would.
\<close>

theorem ach_get_waits:
  assumes "at_rest shm" "\<not> ch_cancel chan" "ch_seq_num chan = last_seq shm"
    and "list_all (idle_wake chan) ws" "news_wake chan w" "at_rest (wake_shm w)"
    and "chan_ok chan (wake_shm w)" "lseq (wake_shm w) + 1 < 2 ^ 64" "unat bufsize \<le> length buf"
    and "o_wait options"
  shows "ach_get t chan shm buf bufsize fsz abstime options (ws @ w # vs) =
         Ret (spec_get chan (wake_shm w) buf bufsize fsz options)"
  by (rule ach_get_wait_correct [OF assms])

theorem ach_get_waits_witness:
  "ach_get 7 (fresh_handle 0 400 3 ach_attr_init) (fresh_block ''a'' 2 4) [0, 0, 0, 9] 4 5 None ACH_O_WAIT
     [\<lparr>wake_ret = EOK, wake_shm = fresh_block ''a'' 2 4, wake_cancel = False\<rparr>,
      \<lparr>wake_ret = EOK, wake_shm = written_block, wake_cancel = False\<rparr>] =
   Ret \<lparr>g_status = ACH_OK,
        g_chan = (fresh_handle 0 400 3 ach_attr_init)\<lparr>ch_seq_num := 1, ch_next_index := 1\<rparr>,
        g_shm = written_block, g_buf = [1, 2, 3, 9], g_frame_size = 3\<rparr>"
proof -
  let ?c = "fresh_handle 0 400 3 ach_attr_init" and ?b = "fresh_block ''a'' 2 4"
  let ?w = "\<lparr>wake_ret = EOK, wake_shm = ?b, wake_cancel = False\<rparr>"
  let ?v = "\<lparr>wake_ret = EOK, wake_shm = written_block, wake_cancel = False\<rparr>"
  have c: "ch_seq_num ?c = 0" "\<not> ch_cancel ?c" by (simp_all add: fresh_handle_def)
  have b: "last_seq ?b = 0" "dirty ?b = 0" by (simp_all add: fresh_block_def zero_block_def)
  have "ach_get 7 ?c ?b [0, 0, 0, 9] 4 5 None ACH_O_WAIT ([?w] @ ?v # []) =
      Ret (spec_get ?c (wake_shm ?v) [0, 0, 0, 9] 4 5 ACH_O_WAIT)"
    by (rule ach_get_waits [OF small_block(1)])
      (simp_all add: c b idle_wake_def news_wake_def written_block_fields written_block_at_rest
        fresh_handle_ok option_flags)
  then show ?thesis by (simp add: spec_get_written)
qed

text \<open>
  C6. The lock after a read.  Whatever the block holds, whatever the options are and whatever the
  other processes do while the caller sleeps (a timeout, a dead owner, an unrecoverable mutex, a
  cancellation), a call of \<^verbatim>\<open>ach_get\<close> that returns leaves the calling thread without the
  mutex.
\<close>

theorem ach_get_releases_lock:
  assumes "holder shm \<noteq> Some t" "ach_get t chan shm buf bufsize fsz abstime options wakes = Ret g"
  shows "holder (g_shm g) \<noteq> Some t"
  by (rule ach_get_unlocks [OF assms])

theorem ach_get_releases_lock_witness:
  "holder (g_shm \<lparr>g_status = ACH_TIMEOUT, g_chan = fresh_handle 0 400 3 ach_attr_init,
     g_shm = written_block, g_buf = [], g_frame_size = 0\<rparr>) \<noteq> Some 7"
proof (rule ach_get_releases_lock)
  show "holder (fresh_block ''a'' 2 4) \<noteq> Some 7"
    by (simp add: holder_def fresh_block_def zero_block_def)
  show "ach_get 7 (fresh_handle 0 400 3 ach_attr_init) (fresh_block ''a'' 2 4) [] 0 0 (Some (1, 0))
     ACH_O_WAIT [\<lparr>wake_ret = ETIMEDOUT, wake_shm = written_block, wake_cancel = False\<rparr>] =
     Ret \<lparr>g_status = ACH_TIMEOUT, g_chan = fresh_handle 0 400 3 ach_attr_init,
       g_shm = written_block, g_buf = [], g_frame_size = 0\<rparr>"
    by (simp add: ach_get_def rdlock_def lock_defs rdlock_loop.simps check_guards_def fresh_block_def
        zero_block_def fresh_handle_def option_flags cond_wait_result_def retake_mutex_def
        written_block_def)
qed

end
