(* ===== verification/Ach_Session.thy ===== *)
theory Ach_Session
  imports Ach_Get
begin

text \<open>
  One channel in use: any number of handles write, read and flush in any order.  The lock makes each
  of the calls a step of its own, so a run of the system is a sequence of whole calls of
  \<^verbatim>\<open>ach_put\<close>, \<^verbatim>\<open>ach_get\<close> and \<^verbatim>\<open>ach_flush\<close>.  The state also records
  the messages written so far and what each handle has been handed.
\<close>

declare upt_Suc [simp del]

section \<open>Runs\<close>

record session =
  s_shm :: ach_header_t
  s_handles :: "nat \<Rightarrow> ach_channel_t"
  s_written :: "byte list list"
  s_got :: "nat \<Rightarrow> frame list"

text \<open>What a read that returned \<^verbatim>\<open>ACH_OK\<close> or \<^verbatim>\<open>ACH_MISSED_FRAME\<close> delivered.\<close>

definition delivered :: "get_result \<Rightarrow> frame list" where
  "delivered g =
     (if g_status g = ACH_OK \<or> g_status g = ACH_MISSED_FRAME
      then [(unat (ch_seq_num (g_chan g)), take (unat (g_frame_size g)) (g_buf g))] else [])"

inductive session_step :: "session \<Rightarrow> session \<Rightarrow> bool" where
  a_write: "\<lbrakk>length m < 2 ^ 64; lseq (s_shm s) + 1 < 2 ^ 64;
     ach_put t (s_handles s h) (s_shm s) (Some m) (of_nat (length m)) = Ret (ACH_OK, shm')\<rbrakk> \<Longrightarrow>
   session_step s (s\<lparr>s_shm := shm', s_written := s_written s @ [m]\<rparr>)"
| a_refusal: "ach_put t (s_handles s h) (s_shm s) b len = Ret (r, shm') \<Longrightarrow>
     r = ACH_EINVAL \<or> r = ACH_OVERFLOW \<Longrightarrow> session_step s (s\<lparr>s_shm := shm'\<rparr>)"
| a_read: "\<lbrakk>\<not> o_wait options \<or> ch_seq_num (s_handles s h) \<noteq> last_seq (s_shm s); \<not> o_copy options;
     unat bufsize \<le> length buf; lseq (s_shm s) + 1 < 2 ^ 64;
     ach_get t (s_handles s h) (s_shm s) buf bufsize fsz abstime options wakes = Ret g\<rbrakk> \<Longrightarrow>
   session_step s (s\<lparr>s_shm := g_shm g, s_handles := (s_handles s)(h := g_chan g),
                     s_got := (s_got s)(h := s_got s h @ delivered g)\<rparr>)"
| a_flush: "ach_flush t (s_handles s h) (s_shm s) = Ret (r, chan', shm') \<Longrightarrow>
   session_step s (s\<lparr>s_shm := shm', s_handles := (s_handles s)(h := chan')\<rparr>)"

text \<open>A new channel of \<open>n\<close> frames of \<open>s\<close> bytes, with handles just opened.\<close>

definition session_start :: "size_t \<Rightarrow> size_t \<Rightarrow> session \<Rightarrow> bool" where
  "session_start n b s \<longleftrightarrow>
     (\<exists>name. s_shm s = fresh_block name n b) \<and>
     (\<forall>h. \<exists>k len fd attr. s_handles s h = fresh_handle k len fd attr) \<and>
     s_written s = [] \<and> s_got s = (\<lambda>_. [])"

inductive session_reach :: "size_t \<Rightarrow> size_t \<Rightarrow> session \<Rightarrow> bool" for n b where
  init: "session_start n b s \<Longrightarrow> session_reach n b s"
| next_step: "session_reach n b s \<Longrightarrow> session_step s s' \<Longrightarrow> session_reach n b s'"

section \<open>The invariant\<close>

text \<open>The \<open>q\<close>-th message written, counted from 1.\<close>

definition written_as :: "byte list list \<Rightarrow> frame \<Rightarrow> bool" where
  "written_as ms f \<longleftrightarrow> 0 < fst f \<and> fst f \<le> length ms \<and> ms ! (fst f - 1) = snd f"

definition got_ok :: "byte list list \<Rightarrow> nat \<Rightarrow> frame list \<Rightarrow> bool" where
  "got_ok ms seen fs \<longleftrightarrow>
     sorted_wrt (<) (map fst fs) \<and> (\<forall>f\<in>set fs. fst f \<le> seen \<and> written_as ms f)"

definition session_inv :: "size_t \<Rightarrow> size_t \<Rightarrow> session \<Rightarrow> bool" where
  "session_inv n b s \<longleftrightarrow>
     at_rest (s_shm s) \<and> icnt (s_shm s) = unat n \<and> dsize (s_shm s) = unat n * unat b \<and>
     lseq (s_shm s) = length (s_written s) \<and>
     frames (s_shm s) = keep (unat n) (unat n * unat b) (number 0 (s_written s)) \<and>
     (\<forall>h. chan_ok (s_handles s h) (s_shm s) \<and> \<not> ch_cancel (s_handles s h) \<and>
          ch_shm (s_handles s h) \<noteq> None \<and>
          got_ok (s_written s) (cseq (s_handles s h)) (s_got s h))"

lemma number_mem: "f \<in> set (number q ms) \<Longrightarrow> q < fst f \<and> fst f \<le> q + length ms \<and> ms ! (fst f - q - 1) = snd f"
proof (induction ms arbitrary: q)
  case (Cons m ms)
  show ?case
  proof (cases "f = (q + 1, m)")
    case False
    with Cons.prems have "f \<in> set (number (q + 1) ms)" by simp
    from Cons.IH [OF this] have h: "q + 1 < fst f" "fst f \<le> q + 1 + length ms"
      "ms ! (fst f - (q + 1) - 1) = snd f" by simp_all
    from h(1) have "fst f - q - 1 = Suc (fst f - (q + 1) - 1)" by simp
    with h show ?thesis by simp
  qed simp
qed simp

lemma number_append: "number q (ms @ [m]) = number q ms @ [(q + length ms + 1, m)]"
  by (induction ms arbitrary: q) auto

lemma stored_written: "f \<in> set (keep n D (number 0 ms)) \<Longrightarrow> written_as ms f"
  using number_mem [of f 0 ms] set_mono_suffix [OF keep_suffix] by (fastforce simp: written_as_def)

lemma written_as_append: "written_as ms f \<Longrightarrow> written_as (ms @ ns) f"
  by (auto simp: written_as_def nth_append)

lemma got_ok_append: "got_ok ms seen fs \<Longrightarrow> seen \<le> seen' \<Longrightarrow> got_ok (ms @ ns) seen' fs"
  by (fastforce simp: got_ok_def intro: written_as_append)

lemma got_ok_deliver:
  "got_ok ms seen fs \<Longrightarrow> seen < fst f \<Longrightarrow> written_as ms f \<Longrightarrow> got_ok ms (fst f) (fs @ [f])"
  by (fastforce simp: got_ok_def sorted_wrt_append)

section \<open>Each call keeps it\<close>

lemma pick_frame_new:
  assumes inv: "ring_inv shm" and u: "0 < used shm" and seen: "seen < lseq shm"
  shows "seen < fst (pick_frame latest seen (frames shm))"
proof -
  have le: "used shm \<le> lseq shm" by (rule ring_invD(11) [OF inv])
  show ?thesis
    unfolding pick_frame_pos [OF inv u] frame_seq [OF inv pick_pos_less [OF u le]]
    using seen le u by (auto simp: pick_pos_def)
qed

lemma frame_length: "ring_inv shm \<Longrightarrow> (q, m) \<in> set (frames shm) \<Longrightarrow> length m \<le> dsize shm"
  using entry_bounds(2) [of shm] by (auto simp: frames_def frame_of_def)

lemma spec_get_delivers:
  assumes rest: "at_rest shm" and ok: "chan_ok chan shm" and copy: "\<not> o_copy options"
    and g: "g = spec_get chan shm buf bufsize fsz options"
  shows "(delivered g = [] \<and> g_chan g = chan) \<or>
         (\<exists>f\<in>set (frames shm). delivered g = [f] \<and> cseq chan < fst f \<and> cseq (g_chan g) = fst f \<and>
            ch_shm (g_chan g) = ch_shm chan \<and> ch_cancel (g_chan g) = ch_cancel chan)"
proof (cases "frames shm = [] \<or> cseq chan = lseq shm")
  case True
  then show ?thesis using copy by (auto simp: g spec_get_def delivered_def)
next
  case False
  have inv: "shm_inv shm" and ring: "ring_inv shm" using rest by (simp_all add: at_rest_def shm_inv_def)
  obtain q m where qm: "pick_frame (o_last options) (cseq chan) (frames shm) = (q, m)" by fastforce
  have u: "0 < used shm" using False by (metis length_frames length_greater_0_conv)
  have mem: "(q, m) \<in> set (frames shm)" using pick_frame_mem [of "frames shm"] False qm by metis
  have "cseq chan < q"
    using pick_frame_new [OF ring u, of "cseq chan" "o_last options"] qm False chan_ok_le [OF ok] by simp
  moreover have "q < 2 ^ 64"
    using frames_seq_range [OF ring mem] size_t_bound [of "last_seq shm"] by simp
  moreover have "length m < 2 ^ 64" using frame_length [OF ring mem] ring_invD(6) [OF ring] by simp
  ultimately show ?thesis
    using False qm mem
    by (auto simp: g spec_get_def delivered_def unat_size_t_of_nat intro!: bexI [of _ "(q, m)"])
qed

lemma session_inv_start:
  assumes "sizes_ok n b" "1 < unat n" "session_start n b s"
  shows "session_inv n b s"
proof -
  obtain name where shm: "s_shm s = fresh_block name n b" using assms(3) by (auto simp: session_start_def)
  note fresh = fresh_block_at_rest [OF assms(1), of name]
  have "chan_ok (s_handles s h) (s_shm s) \<and> \<not> ch_cancel (s_handles s h) \<and> ch_shm (s_handles s h) \<noteq> None" for h
  proof -
    have "\<forall>h. \<exists>k len fd attr. s_handles s h = fresh_handle k len fd attr"
      using assms(3) by (simp add: session_start_def)
    then obtain k len fd attr where "s_handles s h = fresh_handle k len fd attr" by blast
    then show ?thesis
      using fresh_handle_ok [of "s_shm s"] assms(2) by (simp add: shm fresh) (simp add: fresh_handle_def)
  qed
  then show ?thesis
    using assms(3) by (simp add: session_inv_def shm fresh) (simp add: session_start_def got_ok_def)
qed

lemma session_inv_write:
  assumes inv: "session_inv n b s" and m: "length m < 2 ^ 64" and seq: "lseq (s_shm s) + 1 < 2 ^ 64"
    and put: "ach_put t (s_handles s h) (s_shm s) (Some m) (of_nat (length m)) = Ret (ACH_OK, shm')"
  shows "session_inv n b (s\<lparr>s_shm := shm', s_written := s_written s @ [m]\<rparr>)"
proof -
  let ?len = "of_nat (length m) :: size_t"
  have len: "unat ?len = length m" by (rule unat_size_t_of_nat [OF m])
  have rest: "at_rest (s_shm s)" and ch: "ch_shm (s_handles s h) \<noteq> None"
    using inv by (auto simp: session_inv_def)
  have "\<not> (?len = 0 \<or> dsize (s_shm s) < unat ?len)"
    using put ach_put_rejected [of "Some m" ?len "s_handles s h" "s_shm s" t] by (auto split: if_splits)
  then have ok: "0 < unat ?len" "unat ?len \<le> dsize (s_shm s)" "unat ?len \<le> length m"
    using len by (auto simp: size_t_eq_0)
  have ring: "ring_inv (s_shm s)" using rest by (simp add: at_rest_def shm_inv_def)
  obtain shm1 where "ach_put t (s_handles s h) (s_shm s) (Some m) ?len = Ret (ACH_OK, shm1)"
    and s1: "at_rest shm1" "index_cnt shm1 = index_cnt (s_shm s)" "data_size shm1 = data_size (s_shm s)"
      "lseq shm1 = lseq (s_shm s) + 1"
    and fr: "frames shm1 = spec_put (icnt (s_shm s)) (dsize (s_shm s)) (lseq (s_shm s) + 1)
        (take (unat ?len) m) (frames (s_shm s))"
    using ach_put_correct [OF rest ok seq ch, of t] by blast
  then have shm': "shm' = shm1" using put by simp
  have old: "icnt (s_shm s) = unat n" "dsize (s_shm s) = unat n * unat b"
    "lseq (s_shm s) = length (s_written s)"
    "frames (s_shm s) = keep (unat n) (unat n * unat b) (number 0 (s_written s))"
    using inv by (simp_all add: session_inv_def)
  have "take (unat ?len) m = m" "length m \<le> dsize (s_shm s)" using ok len by simp_all
  then have "frames shm1 = keep (icnt (s_shm s)) (dsize (s_shm s))
      (frames (s_shm s) @ [(lseq (s_shm s) + 1, m)])"
    using fr spec_put_keep [OF frames_fits [OF ring] ring_invD(3) [OF ring], of m] by simp
  also have "\<dots> = keep (unat n) (unat n * unat b) (number 0 (s_written s @ [m]))"
    unfolding old number_append keep_append by simp
  finally have "frames shm1 = keep (unat n) (unat n * unat b) (number 0 (s_written s @ [m]))" .
  moreover have "chan_ok (s_handles s k) shm1" for k
  proof (rule chan_ok_mono [OF _ s1(2)])
    show "chan_ok (s_handles s k) (s_shm s)" using inv by (simp add: session_inv_def)
  qed (simp add: s1(4))
  moreover have "got_ok (s_written s @ [m]) (cseq (s_handles s k)) (s_got s k)" for k
    using inv by (auto simp: session_inv_def intro: got_ok_append)
  moreover have "icnt shm1 = unat n" "dsize shm1 = unat n * unat b" "lseq shm1 = length (s_written s) + 1"
    using old s1(2-4) by simp_all
  moreover have "\<forall>k. \<not> ch_cancel (s_handles s k) \<and> ch_shm (s_handles s k) \<noteq> None"
    using inv by (simp add: session_inv_def)
  ultimately show ?thesis
    using s1(1) unfolding session_inv_def shm' by simp
qed

lemma session_inv_read:
  assumes inv: "session_inv n b s" and copy: "\<not> o_copy options"
    and wait: "\<not> o_wait options \<or> ch_seq_num (s_handles s h) \<noteq> last_seq (s_shm s)"
    and buf: "unat bufsize \<le> length buf" and seq: "lseq (s_shm s) + 1 < 2 ^ 64"
    and get: "ach_get t (s_handles s h) (s_shm s) buf bufsize fsz abstime options wakes = Ret g"
  shows "session_inv n b (s\<lparr>s_shm := g_shm g, s_handles := (s_handles s)(h := g_chan g),
           s_got := (s_got s)(h := s_got s h @ delivered g)\<rparr>)"
proof -
  have rest: "at_rest (s_shm s)" and ok: "chan_ok (s_handles s h) (s_shm s)"
    and live: "\<not> ch_cancel (s_handles s h)" "ch_shm (s_handles s h) \<noteq> None"
    and got: "got_ok (s_written s) (cseq (s_handles s h)) (s_got s h)"
    using inv by (auto simp: session_inv_def)
  have g: "g = spec_get (s_handles s h) (s_shm s) buf bufsize fsz options"
    using get ach_get_correct [OF rest ok seq buf live(1), of options t fsz abstime wakes] wait
    by (simp add: size_t_eq)
  have shm: "g_shm g = s_shm s" by (simp add: g spec_get_def Let_def split: prod.split)
  have ok': "chan_ok (g_chan g) (s_shm s)"
    unfolding g using spec_get_chan_ok [OF _ ok] rest by (simp add: at_rest_def)
  have "written_as (s_written s) f" if "f \<in> set (frames (s_shm s))" for f
    using that inv stored_written by (simp add: session_inv_def)
  then have "\<not> ch_cancel (g_chan g) \<and> ch_shm (g_chan g) \<noteq> None \<and>
      got_ok (s_written s) (cseq (g_chan g)) (s_got s h @ delivered g)"
    using spec_get_delivers [OF rest ok copy g] got live got_ok_deliver by force
  with inv ok' show ?thesis by (simp add: session_inv_def shm)
qed

lemma session_inv_flush:
  assumes inv: "session_inv n b s"
    and flush: "ach_flush t (s_handles s h) (s_shm s) = Ret (r, chan', shm')"
  shows "session_inv n b (s\<lparr>s_shm := shm', s_handles := (s_handles s)(h := chan')\<rparr>)"
proof -
  have rest: "at_rest (s_shm s)" and ok: "chan_ok (s_handles s h) (s_shm s)"
    and live: "\<not> ch_cancel (s_handles s h)" "ch_shm (s_handles s h) \<noteq> None"
    and got: "got_ok (s_written s) (cseq (s_handles s h)) (s_got s h)"
    using inv by (auto simp: session_inv_def)
  have ring: "ring_inv (s_shm s)" using rest by (simp add: at_rest_def shm_inv_def)
  have c: "chan' = (s_handles s h)\<lparr>ch_seq_num := last_seq (s_shm s), ch_next_index := index_head (s_shm s)\<rparr>"
    "shm' = s_shm s"
    using flush ach_flush_correct [OF rest live(1), of t] by auto
  have "got_ok (s_written s) (cseq chan') (s_got s h)"
    using got_ok_append [OF got, of "lseq (s_shm s)" "[]"] chan_ok_le [OF ok] by (simp add: c)
  with inv live ach_flush_chan_ok [OF ring, of "s_handles s h"] show ?thesis
    by (simp add: session_inv_def c)
qed

lemma session_reach_inv:
  assumes "session_reach n b s" "sizes_ok n b" "1 < unat n"
  shows "session_inv n b s"
  using assms(1)
proof (induction rule: session_reach.induct)
  case (init s)
  then show ?case by (rule session_inv_start [OF assms(2,3)])
next
  case (next_step s s')
  from next_step.hyps(2) show ?case
  proof (cases rule: session_step.cases)
    case (a_refusal t h buf len r shm')
    then have "shm' = s_shm s" by (intro ach_put_refusal)
    with a_refusal(1) next_step.IH show ?thesis by simp
  qed (use next_step.IH session_inv_write session_inv_read session_inv_flush in simp_all)
qed

section \<open>Properties\<close>

text \<open>
  C3. Delivery.  Take a channel created with at least two frames and any interleaving of complete
  writes, reads (waiting or not, oldest or newest first) and flushes by any number of threads and
  handles.  What a handle has been handed is a list of messages exactly as they were written, each
  under its own sequence number, with strictly increasing numbers: nothing is torn, invented,
  reordered or handed out twice.  The channel holds the longest run of newest messages that fits.
\<close>

theorem session_delivery:
  assumes "session_reach n b s" "sizes_ok n b" "1 < unat n"
  shows "sorted_wrt (<) (map fst (s_got s h)) \<and>
         (\<forall>q m. (q, m) \<in> set (s_got s h) \<longrightarrow>
            1 \<le> q \<and> q \<le> length (s_written s) \<and> m = s_written s ! (q - 1)) \<and>
         frames (s_shm s) = keep (unat n) (unat n * unat b) (number 0 (s_written s))"
proof -
  have "session_inv n b s" by (rule session_reach_inv [OF assms])
  then have g: "got_ok (s_written s) (cseq (s_handles s h)) (s_got s h)"
    and f: "frames (s_shm s) = keep (unat n) (unat n * unat b) (number 0 (s_written s))"
    by (simp_all add: session_inv_def)
  from g have "1 \<le> q \<and> q \<le> length (s_written s) \<and> m = s_written s ! (q - 1)"
    if "(q, m) \<in> set (s_got s h)" for q m
    using that by (fastforce simp: got_ok_def written_as_def)
  with g f show ?thesis by (simp add: got_ok_def)
qed

text \<open>A run of three states: a new channel, a write, a read.\<close>

lemma put_written_block:
  "ach_put 7 (fresh_handle 0 400 3 ach_attr_init) (fresh_block ''a'' 2 4) (Some [1, 2, 3]) 3 =
   Ret (ACH_OK, written_block)"
  by (simp add: ach_put_def check_guards_def wrlock_def lock_defs put_reserve_def put_copy_def
      put_commit_def clear_overlap.simps unwrlock_def at_def memcpy_def c_mod_def fresh_block_def
      zero_block_def fresh_handle_def written_block_def zero_index_def Let_def c_assert_def)
     (simp add: eval_nat_numeral)

definition run_1 :: session where
  "run_1 = \<lparr>s_shm = fresh_block ''a'' 2 4, s_handles = (\<lambda>_. fresh_handle 0 400 3 ach_attr_init),
            s_written = [], s_got = (\<lambda>_. [])\<rparr>"

definition run_2 :: session where
  "run_2 = run_1\<lparr>s_shm := written_block, s_written := [[1, 2, 3]]\<rparr>"

definition run_3 :: session where
  "run_3 = run_2\<lparr>s_shm := written_block, s_handles := (s_handles run_2)
     (4 := (fresh_handle 0 400 3 ach_attr_init)\<lparr>ch_seq_num := 1, ch_next_index := 1\<rparr>),
     s_got := (s_got run_2)(4 := [(1, [1, 2, 3])])\<rparr>"

lemma run_3_reached: "session_reach 2 4 run_3"
proof -
  have "session_start 2 4 run_1" by (auto simp: session_start_def run_1_def)
  then have "session_reach 2 4 run_1" by (rule session_reach.init)
  moreover have "session_step run_1 run_2"
    using a_write [of "[1, 2, 3]" run_1 7 0 written_block] put_written_block
    by (simp add: run_2_def run_1_def small_block)
  ultimately have r2: "session_reach 2 4 run_2" by (rule session_reach.next_step)
  have h: "s_handles run_2 4 = fresh_handle 0 400 3 ach_attr_init" "s_shm run_2 = written_block"
    "s_got run_2 4 = []" by (simp_all add: run_2_def run_1_def)
  let ?g = "spec_get (fresh_handle 0 400 3 ach_attr_init) written_block [0, 0, 0, 9] 4 5 ACH_O_WAIT"
  have c: "ch_seq_num (fresh_handle 0 400 3 ach_attr_init) = 0"
    "\<not> ch_cancel (fresh_handle 0 400 3 ach_attr_init)" by (simp_all add: fresh_handle_def)
  have get: "ach_get 7 (s_handles run_2 4) (s_shm run_2) [0, 0, 0, 9] 4 5 None ACH_O_WAIT [] = Ret ?g"
    unfolding h by (rule ach_get_correct [OF written_block_at_rest fresh_handle_ok])
      (simp_all add: written_block_fields c)
  have "session_step run_2 run_3"
    using a_read [OF _ _ _ _ get] h c
    by (simp add: written_block_fields option_flags spec_get_written delivered_def run_3_def)
  with r2 show ?thesis by (rule session_reach.next_step)
qed

theorem session_delivery_witness:
  "s_got run_3 4 = [(1, [1, 2, 3])] \<and> sorted_wrt (<) (map fst (s_got run_3 4)) \<and>
   s_written run_3 ! 0 = [1, 2, 3] \<and> frames (s_shm run_3) = keep 2 8 [(1, [1, 2, 3])]"
proof -
  have "s_written run_3 = [[1, 2, 3]]" "s_got run_3 4 = [(1, [1, 2, 3])]"
    by (simp_all add: run_3_def run_2_def)
  with session_delivery [OF run_3_reached, of 4] show ?thesis by (simp add: sizes_ok_def)
qed

text \<open>
  C7. Order without gaps.  A read without \<^verbatim>\<open>ACH_O_COPY\<close> that returns
  \<^verbatim>\<open>ACH_OK\<close> hands out the frame right after the last one the handle saw; when frames
  were overwritten or skipped in between, the status is \<^verbatim>\<open>ACH_MISSED_FRAME\<close> and the
  number jumps forward.
\<close>

theorem ach_get_in_order:
  assumes "at_rest shm" "chan_ok chan shm" "lseq shm + 1 < 2 ^ 64" "unat bufsize \<le> length buf"
    and "\<not> ch_cancel chan" "\<not> o_wait options \<or> cseq chan \<noteq> lseq shm" "\<not> o_copy options"
    and "ach_get t chan shm buf bufsize fsz abstime options wakes = Ret g"
  shows "(g_status g = ACH_OK \<longrightarrow> cseq (g_chan g) = cseq chan + 1) \<and>
         (g_status g = ACH_MISSED_FRAME \<longrightarrow> cseq chan + 1 < cseq (g_chan g)) \<and>
         (g_status g \<notin> {ACH_OK, ACH_MISSED_FRAME} \<longrightarrow> g_chan g = chan)"
proof -
  have g: "g = spec_get chan shm buf bufsize fsz options"
    using assms(8) ach_get_correct [OF assms(1-6), of t fsz abstime wakes] by simp
  have jump: "g_status g = ACH_MISSED_FRAME \<longleftrightarrow> cseq chan + 1 < cseq (g_chan g)"
    if d: "delivered g = [f]" "cseq (g_chan g) = fst f" "f \<in> set (frames shm)" for f
  proof -
    have st: "g_status g = ACH_OK \<or> g_status g = ACH_MISSED_FRAME"
      using d(1) by (auto simp: delivered_def split: if_splits)
    obtain q m where qm: "pick_frame (o_last options) (cseq chan) (frames shm) = (q, m)" by fastforce
    have ring: "ring_inv shm" using assms(1) by (simp add: at_rest_def shm_inv_def)
    have "frames shm \<noteq> []" using d(3) by auto
    then have "(q, m) \<in> set (frames shm)" using pick_frame_mem qm by metis
    then have "q < 2 ^ 64"
      using frames_seq_range [OF ring] size_t_bound [of "last_seq shm"] by fastforce
    with st qm show ?thesis
      by (auto simp: g spec_get_def unat_size_t_of_nat split: if_splits)
  qed
  from spec_get_delivers [OF assms(1,2,7) g] show ?thesis
  proof
    assume "delivered g = [] \<and> g_chan g = chan"
    then show ?thesis by (auto simp: delivered_def split: if_splits)
  next
    assume "\<exists>f\<in>set (frames shm). delivered g = [f] \<and> cseq chan < fst f \<and> cseq (g_chan g) = fst f \<and>
            ch_shm (g_chan g) = ch_shm chan \<and> ch_cancel (g_chan g) = ch_cancel chan"
    then obtain f where f: "f \<in> set (frames shm)" "delivered g = [f]" "cseq chan < fst f"
      "cseq (g_chan g) = fst f" by blast
    have "g_status g \<in> {ACH_OK, ACH_MISSED_FRAME}"
      using f(2) by (auto simp: delivered_def split: if_splits)
    with jump [OF f(2,4,1)] f(3,4) show ?thesis by auto
  qed
qed

theorem ach_get_in_order_witness:
  "cseq (g_chan (spec_get (fresh_handle 0 400 3 ach_attr_init) written_block [0, 0, 0, 9] 4 5 ACH_O_WAIT))
     = cseq (fresh_handle 0 400 3 ach_attr_init) + 1"
proof -
  let ?h = "fresh_handle 0 400 3 ach_attr_init"
  have c: "cseq ?h = 0" "\<not> ch_cancel ?h" by (simp_all add: fresh_handle_def)
  have get: "ach_get 7 ?h written_block [0, 0, 0, 9] 4 5 None ACH_O_WAIT [] =
      Ret (spec_get ?h written_block [0, 0, 0, 9] 4 5 ACH_O_WAIT)"
    by (rule ach_get_correct [OF written_block_at_rest fresh_handle_ok])
      (simp_all add: written_block_fields c)
  show ?thesis
    using ach_get_in_order [OF written_block_at_rest fresh_handle_ok _ _ _ _ _ get]
    by (simp add: written_block_fields c option_flags spec_get_written)
qed

end
