(* ===== verification/Ach_OS.thy ===== *)
theory Ach_OS
  imports Ach_Session
begin

text \<open>
  The system calls the channel life cycle uses, over a small operating-system state: the directory
  of shared-memory objects, the objects, the open descriptors and the mappings.  Which calls fail,
  and how, is decided by a script in the state, one entry per call, so that every error branch of
  the callers can be driven; an empty script means that calls only fail for a reason of their own.
\<close>

section \<open>State\<close>

text \<open>
  A shared-memory object: how many bytes back it, its contents read as a channel block, its mode.
  A heap block is an object without a name.
\<close>

record shm_object =
  o_len :: nat
  o_block :: ach_header_t
  o_mode :: nat

record os_state =
  os_dir :: "string \<Rightarrow> nat option"
  os_objects :: "nat \<Rightarrow> shm_object option"
  os_fds :: "int \<Rightarrow> nat option"
  os_maps :: "(nat \<times> nat) list"
  os_errno :: errno
  os_fresh_id :: nat
  os_fresh_fd :: int
  os_script :: "errno option list"

text \<open>The next entry of the script.\<close>

definition next_fault :: "os_state \<Rightarrow> errno option \<times> os_state" where
  "next_fault os =
     (case os_script os of
        [] \<Rightarrow> (None, os)
      | f # fs \<Rightarrow> (f, os\<lparr>os_script := fs\<rparr>))"

text \<open>A call that fails returns -1 and sets \<open>errno\<close>.\<close>

definition sys_fail :: "errno \<Rightarrow> os_state \<Rightarrow> int \<times> os_state" where
  "sys_fail e os = (-1, os\<lparr>os_errno := e\<rparr>)"

definition block_at :: "os_state \<Rightarrow> nat \<Rightarrow> ach_header_t option" where
  "block_at os k = map_option o_block (os_objects os k)"

definition set_block :: "nat \<Rightarrow> ach_header_t \<Rightarrow> os_state \<Rightarrow> os_state" where
  "set_block k b os =
     (case os_objects os k of
        None \<Rightarrow> os
      | Some f \<Rightarrow> os\<lparr>os_objects := (os_objects os)(k := Some (f\<lparr>o_block := b\<rparr>))\<rparr>)"

text \<open>The block behind a handle; a handle that points nowhere faults.\<close>

definition chan_block :: "ach_channel_t \<Rightarrow> os_state \<Rightarrow> (nat \<times> ach_header_t) outcome" where
  "chan_block chan os =
     (case ch_shm chan of
        None \<Rightarrow> Fault Unmapped
      | Some k \<Rightarrow> (case block_at os k of None \<Rightarrow> Fault Unmapped | Some shm \<Rightarrow> Ret (k, shm)))"

text \<open>A put through a handle looks at the handle and the message before the block.\<close>

definition chan_put ::
  "tid \<Rightarrow> ach_channel_t \<Rightarrow> byte list option \<Rightarrow> size_t \<Rightarrow> os_state \<Rightarrow> (ach_status_t \<times> os_state) outcome" where
  "chan_put t chan buf len os =
     (if len = 0 \<or> buf = None \<or> ch_shm chan = None then Ret (ACH_EINVAL, os)
      else and_then (chan_block chan os) (\<lambda>(k, shm).
           and_then (ach_put t chan shm buf len) (\<lambda>(r, shm).
           Ret (r, set_block k shm os))))"

lemma set_block_id: "block_at os k = Some shm \<Longrightarrow> set_block k shm os = os"
  by (auto simp: block_at_def set_block_def fun_upd_idem)

lemma chan_put_block:
  assumes "chan_block chan os = Ret (k, shm)" "ach_put t chan shm buf len = Ret (r, shm')"
  shows "chan_put t chan buf len os = Ret (r, set_block k shm' os)"
proof -
  have k: "ch_shm chan = Some k" "block_at os k = Some shm"
    using assms(1) by (auto simp: chan_block_def split: option.splits)
  show ?thesis
  proof (cases "len = 0 \<or> buf = None")
    case True
    then have "r = ACH_EINVAL" "shm' = shm" using assms(2) by (auto simp: ach_put_def split: option.splits)
    then show ?thesis using True set_block_id [OF k(2)] by (auto simp: chan_put_def)
  next
    case False
    then show ?thesis using k assms by (auto simp: chan_put_def)
  qed
qed

section \<open>Calls\<close>

definition new_fd :: "nat \<Rightarrow> os_state \<Rightarrow> int \<times> os_state" where
  "new_fd k os =
     (os_fresh_fd os, os\<lparr>os_fds := (os_fds os)(os_fresh_fd os := Some k),
                        os_fresh_fd := os_fresh_fd os + 1\<rparr>)"

text \<open>The mode 438 is octal 666.\<close>

definition new_object :: "nat \<Rightarrow> os_state \<Rightarrow> nat \<times> os_state" where
  "new_object len os =
     (os_fresh_id os,
      os\<lparr>os_objects := (os_objects os)(os_fresh_id os :=
           Some \<lparr>o_len = len, o_block = zero_block 0, o_mode = 438\<rparr>),
         os_fresh_id := os_fresh_id os + 1\<rparr>)"

definition shm_open :: "string \<Rightarrow> bool \<Rightarrow> bool \<Rightarrow> os_state \<Rightarrow> int \<times> os_state" where
  "shm_open name creat excl os0 =
     (let (f, os) = next_fault os0 in
      case f of
        Some e \<Rightarrow> sys_fail e os
      | None \<Rightarrow>
          (case os_dir os name of
             Some k \<Rightarrow> if creat \<and> excl then sys_fail EEXIST os else new_fd k os
           | None \<Rightarrow>
               if creat
               then let (k, os) = new_object 0 os
                    in new_fd k (os\<lparr>os_dir := (os_dir os)(name := Some k)\<rparr>)
               else sys_fail ENOENT os))"

definition shm_unlink :: "string \<Rightarrow> os_state \<Rightarrow> int \<times> os_state" where
  "shm_unlink name os0 =
     (let (f, os) = next_fault os0 in
      case f of
        Some e \<Rightarrow> sys_fail e os
      | None \<Rightarrow>
          (case os_dir os name of
             None \<Rightarrow> sys_fail ENOENT os
           | Some _ \<Rightarrow> (0, os\<lparr>os_dir := (os_dir os)(name := None)\<rparr>)))"

text \<open>Calls on a descriptor; one that is not open fails.\<close>

definition on_fd ::
  "int \<Rightarrow> (shm_object \<Rightarrow> shm_object) \<Rightarrow> os_state \<Rightarrow> int \<times> os_state" where
  "on_fd fd upd os0 =
     (let (f, os) = next_fault os0 in
      case f of
        Some e \<Rightarrow> sys_fail e os
      | None \<Rightarrow>
          (case os_fds os fd of
             None \<Rightarrow> sys_fail EBADF os
           | Some k \<Rightarrow> (0, os\<lparr>os_objects := (os_objects os)(k := map_option upd (os_objects os k))\<rparr>)))"

text \<open>A length is an \<open>off_t\<close>, which is signed.\<close>

definition ftruncate :: "int \<Rightarrow> int \<Rightarrow> os_state \<Rightarrow> int \<times> os_state" where
  "ftruncate fd len os =
     (if len < 0 then (let (f, os) = next_fault os in sys_fail (case f of Some e \<Rightarrow> e | None \<Rightarrow> EINVAL) os)
      else on_fd fd (\<lambda>f. f\<lparr>o_len := nat len\<rparr>) os)"

definition fchmod :: "int \<Rightarrow> nat \<Rightarrow> os_state \<Rightarrow> int \<times> os_state" where
  "fchmod fd m = on_fd fd (\<lambda>f. f\<lparr>o_mode := m\<rparr>)"

definition sys_close :: "int \<Rightarrow> os_state \<Rightarrow> int \<times> os_state" where
  "sys_close fd os0 =
     (let (f, os) = next_fault os0 in
      case f of
        Some e \<Rightarrow> sys_fail e os
      | None \<Rightarrow>
          (case os_fds os fd of
             None \<Rightarrow> sys_fail EBADF os
           | Some _ \<Rightarrow> (0, os\<lparr>os_fds := (os_fds os)(fd := None)\<rparr>)))"

text \<open>\<open>None\<close> is \<open>MAP_FAILED\<close>.\<close>

definition mmap :: "nat \<Rightarrow> int \<Rightarrow> os_state \<Rightarrow> nat option \<times> os_state" where
  "mmap len fd os0 =
     (let (f, os) = next_fault os0 in
      case f of
        Some e \<Rightarrow> (None, os\<lparr>os_errno := e\<rparr>)
      | None \<Rightarrow>
          if len = 0 then (None, os\<lparr>os_errno := EINVAL\<rparr>)
          else (case os_fds os fd of
                  None \<Rightarrow> (None, os\<lparr>os_errno := EBADF\<rparr>)
                | Some k \<Rightarrow> (Some k, os\<lparr>os_maps := (k, len) # os_maps os\<rparr>)))"

definition munmap :: "nat \<Rightarrow> nat \<Rightarrow> os_state \<Rightarrow> int \<times> os_state" where
  "munmap k len os0 =
     (let (f, os) = next_fault os0 in
      case f of
        Some e \<Rightarrow> sys_fail e os
      | None \<Rightarrow> (0, os\<lparr>os_maps := remove1 (k, len) (os_maps os)\<rparr>))"

definition malloc :: "nat \<Rightarrow> os_state \<Rightarrow> nat option \<times> os_state" where
  "malloc len os0 =
     (let (f, os) = next_fault os0 in
      case f of
        Some e \<Rightarrow> (None, os\<lparr>os_errno := e\<rparr>)
      | None \<Rightarrow> (let (k, os) = new_object len os in (Some k, os)))"

text \<open>A call repeated while it is interrupted by a signal, \<open>n\<close> times more at most.\<close>

fun retry_eintr :: "nat \<Rightarrow> (os_state \<Rightarrow> int \<times> os_state) \<Rightarrow> os_state \<Rightarrow> int \<times> os_state" where
  "retry_eintr n f os =
     (let (r, os') = f os
      in if r = -1 \<and> os_errno os' = EINTR \<and> 0 < n then retry_eintr (n - 1) f os' else (r, os'))"

declare retry_eintr.simps [simp del]

section \<open>Pages\<close>

definition page_size :: nat where "page_size = 4096"

definition page_round :: "nat \<Rightarrow> nat" where
  "page_round n = (n + (page_size - 1)) div page_size * page_size"

text \<open>
  The bytes up to \<open>hi\<close> of an object mapped with length \<open>len\<close> can be touched: neither
  beyond the mapping nor beyond the page that holds the end of the object.
\<close>

definition touchable :: "os_state \<Rightarrow> nat \<Rightarrow> nat \<Rightarrow> nat \<Rightarrow> bool" where
  "touchable os k len hi \<longleftrightarrow>
     hi \<le> page_round len \<and>
     (case os_objects os k of None \<Rightarrow> False | Some f \<Rightarrow> hi \<le> page_round (o_len f))"

end
