(* ===== verification/Ach_Lifecycle.thy ===== *)
theory Ach_Lifecycle
  imports Ach_OS
begin

text \<open>
  The life cycle of a channel in \<^verbatim>\<open>src/ach.c\<close>: names, \<^verbatim>\<open>ach_create\<close>,
  \<^verbatim>\<open>ach_open\<close>, \<^verbatim>\<open>ach_close\<close>, \<^verbatim>\<open>ach_unlink\<close>,
  \<^verbatim>\<open>ach_chmod\<close>, \<^verbatim>\<open>ach_cancel\<close> and \<^verbatim>\<open>ach_dump\<close>.
\<close>

section \<open>Names\<close>

definition is_alnum :: "char \<Rightarrow> bool" where
  "is_alnum c =
     (let n = (of_char c :: nat)
      in (48 \<le> n \<and> n \<le> 57) \<or> (65 \<le> n \<and> n \<le> 90) \<or> (97 \<le> n \<and> n \<le> 122))"

definition channel_name_ok :: "string \<Rightarrow> bool" where
  "channel_name_ok name =
     (if length name \<ge> ACH_CHAN_NAME_MAX then False
      else if name \<noteq> [] \<and> hd name = CHR ''.'' then False
      else list_all (\<lambda>c. is_alnum c \<or> c = CHR ''-'' \<or> c = CHR ''_'' \<or> c = CHR ''.'') name)"

definition shmfile_for_channel_name :: "string \<Rightarrow> nat \<Rightarrow> ach_status_t \<times> string" where
  "shmfile_for_channel_name name n =
     (if n < ACH_CHAN_NAME_MAX + 16 then (ACH_BUG, [])
      else if \<not> channel_name_ok name then (ACH_INVALID_NAME, [])
      else (ACH_OK, ACH_CHAN_NAME_PREFIX @ take ACH_CHAN_NAME_MAX name))"

definition check_errno :: "os_state \<Rightarrow> ach_status_t" where
  "check_errno os =
     (case os_errno os of
        EEXIST \<Rightarrow> ACH_EEXIST | ENOENT \<Rightarrow> ACH_ENOENT | EACCES \<Rightarrow> ACH_EACCES | _ \<Rightarrow> ACH_FAILED_SYSCALL)"

text \<open>As in the source, a bad name gives the number of \<^verbatim>\<open>ACH_BUG\<close> as the descriptor.\<close>

definition fd_for_channel_name :: "string \<Rightarrow> bool \<Rightarrow> bool \<Rightarrow> os_state \<Rightarrow> int \<times> os_state" where
  "fd_for_channel_name name creat excl os =
     (let (r, shm_name) = shmfile_for_channel_name name (ACH_CHAN_NAME_MAX + 16)
      in if r \<noteq> ACH_OK then (ach_status_code ACH_BUG, os)
         else retry_eintr ACH_INTR_RETRY (shm_open shm_name creat excl) os)"

section \<open>Creating\<close>

record build_config =
  HAVE_MUTEX_PRIORITY_INHERIT :: bool
  HAVE_MUTEX_ROBUST :: bool
  HAVE_MUTEX_ERROR_CHECK :: bool
  NDEBUG :: bool

text \<open>The calls that set up the condition variable and the mutex, in order.\<close>

datatype pthread_call =
    Condattr_init | Condattr_setpshared | Condattr_setclock int | Cond_init | Condattr_destroy
  | Mutexattr_init | Mutexattr_setpshared | Mutexattr_setprotocol | Mutexattr_setrobust
  | Mutexattr_settype | Mutex_init | Mutexattr_destroy

definition CLOCK_MONOTONIC :: int where "CLOCK_MONOTONIC = 1"

definition ACH_DEFAULT_CLOCK :: int where "ACH_DEFAULT_CLOCK = CLOCK_MONOTONIC"

definition sync_calls :: "build_config \<Rightarrow> ach_create_attr_t option \<Rightarrow> pthread_call list" where
  "sync_calls cfg attr =
     [Condattr_init]
     @ (case attr of
          Some a \<Rightarrow> if c_map_anon a then [] else [Condattr_setpshared]
        | None \<Rightarrow> [Condattr_setpshared])
     @ [Condattr_setclock
          (case attr of Some a \<Rightarrow> if c_set_clock a then c_clock a else ACH_DEFAULT_CLOCK
                      | None \<Rightarrow> ACH_DEFAULT_CLOCK)]
     @ [Cond_init, Condattr_destroy, Mutexattr_init, Mutexattr_setpshared]
     @ (if HAVE_MUTEX_PRIORITY_INHERIT cfg then [Mutexattr_setprotocol] else [])
     @ (if HAVE_MUTEX_ROBUST cfg then [Mutexattr_setrobust] else [])
     @ (if \<not> NDEBUG cfg \<and> HAVE_MUTEX_ERROR_CHECK cfg then [Mutexattr_settype] else [])
     @ [Mutex_init, Mutexattr_destroy]"

fun call_effect :: "pthread_call \<Rightarrow> ach_header_t \<Rightarrow> ach_header_t" where
  "call_effect Cond_init shm = shm\<lparr>cond := C_ready 0\<rparr>"
| "call_effect Mutex_init shm = shm\<lparr>mutex := M_free\<rparr>"
| "call_effect _ shm = shm"

text \<open>Stop at the first call that fails.\<close>

fun run_calls :: "pthread_call list \<Rightarrow> ach_header_t \<Rightarrow> os_state \<Rightarrow> bool \<times> ach_header_t \<times> os_state" where
  "run_calls [] shm os = (True, shm, os)"
| "run_calls (c # cs) shm os =
     (let (f, os') = next_fault os
      in case f of
           Some _ \<Rightarrow> (False, shm, os')
         | None \<Rightarrow> run_calls cs (call_effect c shm) os')"

text \<open>The part of \<^verbatim>\<open>ach_create\<close> that obtains the memory.\<close>

definition create_map ::
  "string \<Rightarrow> size_t \<Rightarrow> ach_create_attr_t option \<Rightarrow> os_state \<Rightarrow>
   (ach_status_t + nat \<times> int) \<times> os_state" where
  "create_map channel_name len attr os =
     (if \<not> channel_name_ok channel_name then (Inl ACH_INVALID_NAME, os)
      else let excl = (case attr of Some a \<Rightarrow> \<not> c_truncate a | None \<Rightarrow> True);
               (fd, os) = fd_for_channel_name channel_name True excl os
           in if fd < 0 then (Inl (check_errno os), os)
              else let (r, os) = retry_eintr ACH_INTR_RETRY (ftruncate fd (sint len)) os
                   in if r = -1 then (Inl ACH_FAILED_SYSCALL, os)
                      else let (m, os) = mmap (unat len) fd os
                           in case m of
                                None \<Rightarrow> (Inl ACH_FAILED_SYSCALL, os)
                              | Some k \<Rightarrow> (Inr (k, fd), os))"

definition create_unmap :: "nat \<Rightarrow> size_t \<Rightarrow> int \<Rightarrow> os_state \<Rightarrow> ach_status_t \<times> os_state" where
  "create_unmap k len fd os =
     (let (r, os) = munmap k (unat len) os
      in if r \<noteq> 0 then (ACH_FAILED_SYSCALL, os)
         else let (r, os) = retry_eintr ACH_INTR_RETRY (sys_close fd) os
              in if r = -1 then (ACH_FAILED_SYSCALL, os) else (ACH_OK, os))"

text \<open>
  Zeroing the block, the synchronisation objects, the counts and the guards.  The block is written
  back whether or not a call failed half way.
\<close>

definition create_init ::
  "build_config \<Rightarrow> string \<Rightarrow> size_t \<Rightarrow> size_t \<Rightarrow> size_t \<Rightarrow> ach_create_attr_t option \<Rightarrow> nat \<Rightarrow>
   os_state \<Rightarrow> (ach_status_t \<times> os_state) outcome" where
  "create_init cfg channel_name frame_cnt frame_size len attr k os =
     (if unat len < unat sizeof_ach_header_t then Fault Out_of_bounds
      else let (ok, shm, os) = run_calls (sync_calls cfg attr) (zero_block len) os
           in if \<not> ok then Ret (ACH_FAILED_SYSCALL, set_block k shm os)
              else and_then (init_counts shm channel_name frame_cnt frame_size len) (\<lambda>shm.
                   Ret (ACH_OK, set_block k shm os)))"

definition is_anon :: "ach_create_attr_t option \<Rightarrow> bool" where
  "is_anon attr = (case attr of Some a \<Rightarrow> c_map_anon a | None \<Rightarrow> False)"

definition ach_create ::
  "build_config \<Rightarrow> string \<Rightarrow> size_t \<Rightarrow> size_t \<Rightarrow> ach_create_attr_t option \<Rightarrow> os_state \<Rightarrow>
   (ach_status_t \<times> ach_create_attr_t option \<times> os_state) outcome" where
  "ach_create cfg channel_name frame_cnt frame_size attr os =
     (let len = block_len frame_cnt frame_size;
          init = create_init cfg channel_name frame_cnt frame_size len attr
      in if is_anon attr
         then (case malloc (unat len) os of
                 (None, os) \<Rightarrow> Fault Unmapped
               | (Some k, os) \<Rightarrow>
                   and_then (init k os) (\<lambda>(r, os).
                   if r \<noteq> ACH_OK then Ret (r, attr, os)
                   else Ret (ACH_OK, map_option (\<lambda>a. a\<lparr>c_shm := Some k\<rparr>) attr, os)))
         else (case create_map channel_name len attr os of
                 (Inl r, os) \<Rightarrow> Ret (r, attr, os)
               | (Inr (k, fd), os) \<Rightarrow>
                   and_then (init k os) (\<lambda>(r, os).
                   if r \<noteq> ACH_OK then Ret (r, attr, os)
                   else let (r, os) = create_unmap k len fd os in Ret (r, attr, os))))"

section \<open>Opening and closing\<close>

text \<open>The length that \<^verbatim>\<open>ach_open\<close> computes for its mapping.\<close>

definition open_len :: "ach_header_t \<Rightarrow> size_t" where
  "open_len shm = sizeof_ach_header_t + sizeof_ach_index_t * index_cnt shm + data_size shm"

text \<open>
  What \<^verbatim>\<open>check_guards\<close> reads of a mapped block: each guard word only when the ones before
  it are right.
\<close>

definition guards_mapped :: "os_state \<Rightarrow> nat \<Rightarrow> size_t \<Rightarrow> ach_header_t \<Rightarrow> bool" where
  "guards_mapped os k len shm =
     (let word = unat sizeof_uint64;
          header_end = unat ACH_SHM_GUARD_HEADER + word;
          index_end = unat (ACH_SHM_GUARD_INDEX shm) + word;
          data_end = unat (ACH_SHM_GUARD_DATA shm) + word
      in touchable os k (unat len) header_end \<and>
         (guard_header shm = ACH_SHM_GUARD_HEADER_NUM \<longrightarrow>
            touchable os k (unat len) index_end \<and>
            (guard_index shm = ACH_SHM_GUARD_INDEX_NUM \<longrightarrow> touchable os k (unat len) data_end)))"

text \<open>
  Obtaining the block of a named channel: the header is mapped first to read the sizes, then the
  whole channel.  Touching memory that the mapping does not cover is a fault.
\<close>

definition open_map ::
  "string \<Rightarrow> os_state \<Rightarrow> ((ach_status_t + nat \<times> int \<times> size_t) \<times> os_state) outcome" where
  "open_map channel_name os =
     (if \<not> channel_name_ok channel_name then Ret (Inl ACH_INVALID_NAME, os)
      else let (fd, os) = fd_for_channel_name channel_name False False os
           in if fd < 0 then Ret (Inl (check_errno os), os)
              else (case mmap (unat sizeof_ach_header_t) fd os of
                      (None, os) \<Rightarrow> Ret (Inl ACH_FAILED_SYSCALL, os)
                    | (Some k, os) \<Rightarrow>
                        if \<not> touchable os k (unat sizeof_ach_header_t) (unat sizeof_ach_header_t)
                        then Fault Unmapped
                        else (case block_at os k of
                                None \<Rightarrow> Fault Unmapped
                              | Some shm \<Rightarrow>
                                  if magic shm \<noteq> ACH_SHM_MAGIC_NUM then Ret (Inl ACH_BAD_SHM_FILE, os)
                                  else let len = open_len shm;
                                           (r, os) = munmap k (unat sizeof_ach_header_t) os
                                       in if r = -1 then Ret (Inl (check_errno os), os)
                                          else (case mmap (unat len) fd os of
                                                  (None, os) \<Rightarrow> Ret (Inl (check_errno os), os)
                                                | (Some k, os) \<Rightarrow>
                                                    if guards_mapped os k len shm
                                                    then Ret (Inr (k, fd, len), os)
                                                    else Fault Unmapped))))"

text \<open>An anonymous channel: the caller's attributes name the block on the heap.\<close>

definition open_anon ::
  "ach_attr_t \<Rightarrow> os_state \<Rightarrow> ((ach_status_t + nat \<times> int \<times> size_t) \<times> os_state) outcome" where
  "open_anon a os =
     (case attr_shm a of
        None \<Rightarrow> Fault Unmapped
      | Some k \<Rightarrow>
          (case block_at os k of
             None \<Rightarrow> Fault Unmapped
           | Some shm \<Rightarrow> Ret (Inr (k, -1, open_len shm), os)))"

definition ach_open ::
  "ach_channel_t \<Rightarrow> string \<Rightarrow> ach_attr_t option \<Rightarrow> os_state \<Rightarrow>
   (ach_status_t \<times> ach_channel_t \<times> os_state) outcome" where
  "ach_open chan channel_name attr os =
     (let a = (case attr of Some a \<Rightarrow> a | None \<Rightarrow> ach_attr_init);
          chan = chan\<lparr>ch_attr := a\<rparr>
      in and_then (if map_anon a then open_anon a os else open_map channel_name os) (\<lambda>(m, os).
         case m of
           Inl r \<Rightarrow> Ret (r, chan, os)
         | Inr (k, fd, len) \<Rightarrow>
             (case block_at os k of
                None \<Rightarrow> Fault Unmapped
              | Some shm \<Rightarrow>
                  if check_guards shm \<noteq> ACH_OK then Ret (check_guards shm, chan, os)
                  else Ret (ACH_OK,
                            chan\<lparr>ch_fd := fd, ch_len := len, ch_shm := Some k, ch_seq_num := 0,
                                 ch_next_index := 1, ch_cancel := False\<rparr>, os))))"

definition ach_close ::
  "ach_channel_t \<Rightarrow> os_state \<Rightarrow> (ach_status_t \<times> ach_channel_t \<times> os_state) outcome" where
  "ach_close chan os =
     (case ch_shm chan of
        None \<Rightarrow> Fault Unmapped
      | Some k \<Rightarrow>
          (case block_at os k of
             None \<Rightarrow> Fault Unmapped
           | Some shm \<Rightarrow>
               if check_guards shm \<noteq> ACH_OK then Ret (check_guards shm, chan, os)
               else if map_anon (ch_attr chan) then Ret (ACH_OK, chan, os)
               else let (r, os) = munmap k (unat (ch_len chan)) os
                    in if r \<noteq> 0 then Ret (ACH_FAILED_SYSCALL, chan, os)
                       else let chan = chan\<lparr>ch_shm := None\<rparr>;
                                (r, os) = retry_eintr ACH_INTR_RETRY (sys_close (ch_fd chan)) os
                            in Ret (if r = -1 then ACH_FAILED_SYSCALL else ACH_OK, chan, os)))"

definition ach_chmod :: "ach_channel_t \<Rightarrow> nat \<Rightarrow> os_state \<Rightarrow> ach_status_t \<times> os_state" where
  "ach_chmod chan m os =
     (let (r, os) = fchmod (ch_fd chan) m os in (if r = 0 then ACH_OK else check_errno os, os))"

definition ach_unlink :: "string \<Rightarrow> os_state \<Rightarrow> ach_status_t \<times> os_state" where
  "ach_unlink name os =
     (let (r, shm_name) = shmfile_for_channel_name name (ACH_CHAN_NAME_MAX + 16)
      in if r = ACH_OK
         then let (i, os) = shm_unlink shm_name os
              in if i = 0 then (ACH_OK, os) else (check_errno os, os)
         else (r, os))"

section \<open>Cancelling\<close>

text \<open>
  Without \<^verbatim>\<open>async_unsafe\<close> a child process takes and releases the mutex and broadcasts.
  Its result is an exit status; it works on the shared block, not on the parent's handle.
\<close>

definition EXIT_SUCCESS :: int where "EXIT_SUCCESS = 0"
definition EXIT_FAILURE :: int where "EXIT_FAILURE = 1"

definition cancel_child :: "tid \<Rightarrow> ach_header_t \<Rightarrow> (int \<times> ach_header_t) outcome" where
  "cancel_child t shm =
     and_then (chan_lock t shm) (\<lambda>(r, shm).
     if r \<noteq> ACH_OK then Ret (EXIT_FAILURE, shm)
     else let (e, shm) = unlock_mutex t shm
          in if e \<noteq> EOK then Ret (EXIT_FAILURE, shm)
             else let (e, c) = pthread_cond_broadcast (cond shm)
                  in if e \<noteq> EOK then Ret (EXIT_FAILURE, shm\<lparr>cond := c\<rparr>)
                     else Ret (EXIT_SUCCESS, shm\<lparr>cond := c\<rparr>))"

text \<open>\<open>forked\<close> tells whether \<open>fork\<close> succeeded; this is the parent's side.\<close>

definition ach_cancel ::
  "tid \<Rightarrow> ach_channel_t \<Rightarrow> ach_header_t \<Rightarrow> ach_cancel_attr_t option \<Rightarrow> bool \<Rightarrow>
   (ach_status_t \<times> ach_channel_t \<times> ach_header_t) outcome" where
  "ach_cancel t chan shm attr forked =
     (let a = (case attr of Some a \<Rightarrow> a | None \<Rightarrow> ach_cancel_attr_init)
      in if async_unsafe a
         then and_then (chan_lock t shm) (\<lambda>(r, shm).
              if r \<noteq> ACH_OK then Ret (r, chan, shm)
              else let chan = chan\<lparr>ch_cancel := True\<rparr>;
                       (e, shm) = unlock_mutex t shm
                   in if e \<noteq> EOK then Ret (ACH_FAILED_SYSCALL, chan, shm)
                      else let (e, c) = pthread_cond_broadcast (cond shm)
                           in Ret (if e \<noteq> EOK then ACH_FAILED_SYSCALL else ACH_OK, chan,
                                   shm\<lparr>cond := c\<rparr>))
         else Ret (if forked then ACH_OK else ACH_FAILED_SYSCALL, chan\<lparr>ch_cancel := True\<rparr>, shm))"

section \<open>Dumping\<close>

text \<open>The labels and numbers that \<^verbatim>\<open>ach_dump\<close> prints.\<close>

definition ach_dump :: "ach_header_t \<Rightarrow> (string \<times> nat) list outcome" where
  "ach_dump shm =
     and_then (c_mod (index_head shm - 1 + index_cnt shm) (index_cnt shm)) (\<lambda>i.
     and_then (at (shm_index shm) i) (\<lambda>head.
     Ret [(''Magic'', unat (magic shm)), (''len'', unat (hdr_len shm)),
          (''data_size'', unat (data_size shm)), (''data_head'', unat (data_head shm)),
          (''data_free'', unat (data_free shm)), (''index_head'', unat (index_head shm)),
          (''index_free'', unat (index_free shm)), (''last_seq'', unat (last_seq shm)),
          (''head guard'', unat (guard_header shm)), (''index guard'', unat (guard_index shm)),
          (''data guard'', unat (guard_data shm)), (''head seq'', unat (idx_seq_num head)),
          (''head size'', unat (idx_size head))]))"

section \<open>Facts\<close>

text \<open>A quiet system: no call is scripted to fail, and the numbers to be handed out are unused.\<close>

definition quiet :: "os_state \<Rightarrow> bool" where
  "quiet os \<longleftrightarrow>
     os_script os = [] \<and> os_objects os (os_fresh_id os) = None \<and>
     os_fds os (os_fresh_fd os) = None \<and> 0 \<le> os_fresh_fd os"

lemma next_fault_Nil [simp]: "os_script os = [] \<Longrightarrow> next_fault os = (None, os)"
  by (simp add: next_fault_def)

lemma retry_eintr_ok: "f os = (r, os') \<Longrightarrow> r \<noteq> -1 \<Longrightarrow> retry_eintr n f os = (r, os')"
  by (simp add: retry_eintr.simps [of n f os])

lemma run_calls_quiet: "os_script os = [] \<Longrightarrow> run_calls cs shm os = (True, fold call_effect cs shm, os)"
  by (induction cs arbitrary: shm) simp_all

lemma fold_sync_calls:
  "fold call_effect (sync_calls cfg attr) shm = shm\<lparr>cond := C_ready 0, mutex := M_free\<rparr>"
  by (simp add: sync_calls_def split: option.split)

text \<open>Sizes whose wrapped sections add up to a length a file can have.\<close>

definition wrapped_ok :: "size_t \<Rightarrow> size_t \<Rightarrow> bool" where
  "wrapped_ok n s \<longleftrightarrow> 344 + unat (n * 24) + unat (n * s) < 2 ^ 63"

lemma wrapped_okD:
  assumes "wrapped_ok n s"
  shows "344 + unat (n * 24) + unat (n * s) < 2 ^ 64" "unat (block_len n s) = 344 + unat (n * 24) + unat (n * s)"
proof -
  show "344 + unat (n * 24) + unat (n * s) < 2 ^ 64" using assms by (simp add: wrapped_ok_def)
  then show "unat (block_len n s) = 344 + unat (n * 24) + unat (n * s)" by (rule block_len_wrapped)
qed

lemma sizes_wrapped: "sizes_ok n s \<Longrightarrow> wrapped_ok n s"
  using sizes_ok_unat(1,2) [of n s] by (simp add: wrapped_ok_def sizes_ok_def)

lemma sint_small: "unat w < 2 ^ 63 \<Longrightarrow> sint (w :: size_t) = int (unat w)"
proof -
  assume "unat w < 2 ^ 63"
  then have "int (unat w) < int (2 ^ 63)" by (rule of_nat_less_iff [THEN iffD2])
  then have "uint w < 2 ^ 63" by simp
  moreover have "- (2 ^ 63) \<le> uint w" by (rule order_trans [OF _ unsigned_greater_eq]) simp
  ultimately have "signed_take_bit 63 (uint w) = uint w" by (intro signed_take_bit_int_eq_self)
  then show ?thesis by (simp add: sint_uint)
qed

lemma sint_block_len: "wrapped_ok n s \<Longrightarrow> sint (block_len n s) = int (unat (block_len n s))"
  using wrapped_okD(2) [of n s] by (intro sint_small) (simp add: wrapped_ok_def)

lemma create_init_quiet:
  assumes "os_script os = []" "wrapped_ok n s"
  shows "create_init cfg name n s (block_len n s) attr k os =
         Ret (ACH_OK, set_block k (wrapped_block name n s) os)"
proof -
  have "\<not> unat (block_len n s) < unat sizeof_ach_header_t"
    using wrapped_okD(2) [OF assms(2)] by (simp add: sizeof_ach_header_t_def)
  then show ?thesis
    using assms(1) init_counts_wrapped [OF wrapped_okD(1) [OF assms(2)], of name]
    by (simp add: create_init_def run_calls_quiet fold_sync_calls)
qed

definition shm_file :: "string \<Rightarrow> string" where
  "shm_file name = ACH_CHAN_NAME_PREFIX @ name"

lemma shmfile_ok:
  "channel_name_ok name \<Longrightarrow>
   shmfile_for_channel_name name (ACH_CHAN_NAME_MAX + 16) = (ACH_OK, shm_file name)"
  by (simp add: shmfile_for_channel_name_def channel_name_ok_def shm_file_def split: if_splits)

text \<open>The system after a channel was created on a quiet one.\<close>

definition after_create :: "os_state \<Rightarrow> string \<Rightarrow> size_t \<Rightarrow> size_t \<Rightarrow> os_state" where
  "after_create os name n s =
     os\<lparr>os_dir := (os_dir os)(shm_file name := Some (os_fresh_id os)),
        os_objects := (os_objects os)(os_fresh_id os :=
          Some \<lparr>o_len = unat (block_len n s), o_block = fresh_block name n s, o_mode = 438\<rparr>),
        os_fresh_id := os_fresh_id os + 1, os_fresh_fd := os_fresh_fd os + 1\<rparr>"

text \<open>Attributes that ask neither for a block on the heap nor for an existing channel to be reset.\<close>

definition plain :: "ach_create_attr_t option \<Rightarrow> bool" where
  "plain attr = (case attr of Some a \<Rightarrow> \<not> c_map_anon a \<and> \<not> c_truncate a | None \<Rightarrow> True)"

lemma plain_None [simp]: "plain None"
  by (simp add: plain_def)

lemma plain_init [simp]: "plain (Some ach_create_attr_init)"
  by (simp add: plain_def ach_create_attr_init_def)

lemma plain_excl:
  "plain attr \<Longrightarrow> (case attr of Some a \<Rightarrow> \<not> c_truncate a | None \<Rightarrow> True) \<and> \<not> is_anon attr"
  by (auto simp: plain_def is_anon_def split: option.splits)

text \<open>The system with a new object under a name.\<close>

definition created :: "os_state \<Rightarrow> string \<Rightarrow> nat \<Rightarrow> ach_header_t \<Rightarrow> os_state" where
  "created os name len b =
     os\<lparr>os_dir := (os_dir os)(shm_file name := Some (os_fresh_id os)),
        os_objects := (os_objects os)(os_fresh_id os := Some \<lparr>o_len = len, o_block = b, o_mode = 438\<rparr>),
        os_fresh_id := os_fresh_id os + 1, os_fresh_fd := os_fresh_fd os + 1\<rparr>"

lemma after_create_created: "after_create os name n s = created os name (unat (block_len n s)) (fresh_block name n s)"
  by (simp add: after_create_def created_def)

lemma ach_create_wrapped:
  assumes q: "quiet os" and name: "channel_name_ok name" and new: "os_dir os (shm_file name) = None"
    and sz: "wrapped_ok n s" and attr: "plain attr"
  shows "ach_create cfg name n s attr os = Ret (ACH_OK, attr, created os name (unat (block_len n s)) (wrapped_block name n s))"
proof -
  let ?len = "unat (block_len n s)" and ?k = "os_fresh_id os" and ?fd = "os_fresh_fd os"
  have sc: "os_script os = []" and fd: "os_fds os ?fd = None" "0 \<le> ?fd"
    using q by (simp_all add: quiet_def)
  have len: "?len \<noteq> 0" using wrapped_okD(2) [OF sz] by simp
  define os1 where "os1 = (created os name 0 (zero_block 0))\<lparr>os_fds := (os_fds os)(?fd := Some ?k)\<rparr>"
  have "shm_open (shm_file name) True True os = (?fd, os1)"
    using sc new by (simp add: shm_open_def new_object_def new_fd_def os1_def created_def)
  then have o: "fd_for_channel_name name True True os = (?fd, os1)"
    using fd(2) name by (simp add: fd_for_channel_name_def shmfile_ok retry_eintr_ok)
  define os2 where "os2 = (created os name ?len (zero_block 0))\<lparr>os_fds := (os_fds os)(?fd := Some ?k)\<rparr>"
  have "ftruncate ?fd (sint (block_len n s)) os1 = (0, os2)"
    using sc by (simp add: ftruncate_def sint_block_len [OF sz] on_fd_def os1_def os2_def created_def)
  then have t: "retry_eintr ACH_INTR_RETRY (ftruncate ?fd (sint (block_len n s))) os1 = (0, os2)"
    by (simp add: retry_eintr_ok)
  define os3 where "os3 = os2\<lparr>os_maps := (?k, ?len) # os_maps os\<rparr>"
  have m: "mmap ?len ?fd os2 = (Some ?k, os3)"
    using sc len by (simp add: mmap_def os2_def os3_def created_def)
  have cm: "create_map name (block_len n s) attr os = (Inr (?k, ?fd), os3)"
    using name o t m fd(2) plain_excl [OF attr] by (simp add: create_map_def)
  have ci: "create_init cfg name n s (block_len n s) attr ?k os3 = Ret (ACH_OK, set_block ?k (wrapped_block name n s) os3)"
    using sc by (intro create_init_quiet [OF _ sz]) (simp add: os2_def os3_def created_def)
  have "create_unmap ?k (block_len n s) ?fd (set_block ?k (wrapped_block name n s) os3) =
      (ACH_OK, created os name ?len (wrapped_block name n s))"
    using sc fd by (simp add: create_unmap_def munmap_def sys_close_def retry_eintr.simps set_block_def
        os2_def os3_def created_def fun_upd_idem)
  with cm ci plain_excl [OF attr] show ?thesis by (simp add: ach_create_def)
qed

lemma ach_create_quiet:
  assumes "quiet os" "channel_name_ok name" "os_dir os (shm_file name) = None" "sizes_ok n s" "plain attr"
  shows "ach_create cfg name n s attr os = Ret (ACH_OK, attr, after_create os name n s)"
  using ach_create_wrapped [OF assms(1-3) sizes_wrapped [OF assms(4)] assms(5), of cfg] wrapped_block_ok [OF assms(4), of name]
  by (simp add: after_create_created)

lemma ach_create_exists:
  assumes "os_script os = []" "channel_name_ok name" "os_dir os (shm_file name) = Some k" "plain attr"
  shows "ach_create cfg name n s attr os = Ret (ACH_EEXIST, attr, os\<lparr>os_errno := EEXIST\<rparr>)"
  using assms plain_excl [OF assms(4)]
  by (simp add: ach_create_def create_map_def fd_for_channel_name_def shmfile_ok shm_open_def
      sys_fail_def retry_eintr.simps check_errno_def Let_def)

lemma ach_open_missing:
  assumes "os_script os = []" "channel_name_ok name" "os_dir os (shm_file name) = None"
  shows "ach_open chan name None os =
    Ret (ACH_ENOENT, chan\<lparr>ch_attr := ach_attr_init\<rparr>, os\<lparr>os_errno := ENOENT\<rparr>)"
  using assms
  by (simp add: ach_open_def open_map_def fd_for_channel_name_def shmfile_ok shm_open_def
      sys_fail_def retry_eintr.simps check_errno_def ach_attr_init_def Let_def)

lemma ach_unlink_exists:
  assumes "os_script os = []" "channel_name_ok name" "os_dir os (shm_file name) = Some k"
  shows "ach_unlink name os = (ACH_OK, os\<lparr>os_dir := (os_dir os)(shm_file name := None)\<rparr>)"
  using assms by (simp add: ach_unlink_def shmfile_ok shm_unlink_def)

text \<open>The number of bytes up to the end of the data section, and up to the end of the last guard.\<close>

definition body_len :: "size_t \<Rightarrow> size_t \<Rightarrow> nat" where
  "body_len n s = 320 + unat n * 24 + unat n * unat s"

definition full_len :: "size_t \<Rightarrow> size_t \<Rightarrow> nat" where
  "full_len n s = body_len n s + 24"

lemma page_round_ge: "n \<le> page_round n"
proof -
  have "n + 4095 = (n + 4095) div 4096 * 4096 + (n + 4095) mod 4096" by simp
  moreover have "(n + 4095) mod 4096 < 4096" by simp
  ultimately show ?thesis unfolding page_round_def page_size_def by linarith
qed

lemma page_round_pos: "0 < n \<Longrightarrow> 4096 \<le> page_round n"
  by (simp add: page_round_def page_size_def)

lemma page_round_mono: "m \<le> n \<Longrightarrow> page_round m \<le> page_round n"
  by (simp add: page_round_def div_le_mono)

lemma fresh_block_fields:
  "index_cnt (fresh_block name n s) = n" "data_size (fresh_block name n s) = n * s"
  "magic (fresh_block name n s) = ACH_SHM_MAGIC_NUM"
  "guard_header (fresh_block name n s) = ACH_SHM_GUARD_HEADER_NUM"
  "guard_index (fresh_block name n s) = ACH_SHM_GUARD_INDEX_NUM"
  "check_guards (fresh_block name n s) = ACH_OK"
  by (simp_all add: fresh_block_def zero_block_def check_guards_def)

lemma open_len_fresh:
  assumes "sizes_ok n s"
  shows "unat (open_len (fresh_block name n s)) = body_len n s"
proof -
  have b: "344 + unat n * 24 + unat n * unat s < 2 ^ 63" using assms by (simp add: sizes_ok_def)
  have k: "unat (24 * n) = unat n * 24" using sizes_ok_unat(2) [OF assms] by (simp add: mult.commute)
  have "unat (320 + 24 * n :: size_t) = 320 + unat n * 24"
    using b k unat_add_no_wrap [of "320 :: size_t" "24 * n"] by simp
  then have "unat (320 + 24 * n + n * s) = 320 + unat n * 24 + unat n * unat s"
    using b sizes_ok_unat(1) [OF assms] unat_add_no_wrap [of "320 + 24 * n" "n * s"] by simp
  then show ?thesis by (simp add: open_len_def fresh_block_fields layout_defs body_len_def)
qed

text \<open>The block of a channel that exists, seen through the calls of \<^verbatim>\<open>ach_open\<close>.\<close>

lemma open_map_block:
  assumes sc: "os_script os = []" and fd: "0 \<le> os_fresh_fd os" and name: "channel_name_ok name"
    and dir: "os_dir os (shm_file name) = Some k" and obj: "os_objects os k = Some f"
    and good: "check_guards (o_block f) = ACH_OK"
    and len: "o_len f = 344 + unat (index_cnt (o_block f) * 24) + unat (data_size (o_block f))" "o_len f < 2 ^ 64"
  shows "unat (open_len (o_block f)) + 24 = o_len f"
    and "open_map name os =
    (if o_len f \<le> page_round (o_len f - 24)
     then Ret (Inr (k, os_fresh_fd os, open_len (o_block f)),
            os\<lparr>os_fds := (os_fds os)(os_fresh_fd os := Some k), os_fresh_fd := os_fresh_fd os + 1,
               os_maps := (k, o_len f - 24) # os_maps os\<rparr>)
     else Fault Unmapped)"
proof -
  let ?b = "o_block f"
  define os1 where "os1 = os\<lparr>os_fds := (os_fds os)(os_fresh_fd os := Some k),
      os_fresh_fd := os_fresh_fd os + 1\<rparr>"
  have "shm_open (shm_file name) False False os = (os_fresh_fd os, os1)"
    using sc dir by (simp add: shm_open_def new_fd_def os1_def)
  then have o: "fd_for_channel_name name False False os = (os_fresh_fd os, os1)"
    using fd name by (simp add: fd_for_channel_name_def shmfile_ok retry_eintr_ok)
  note e = section_ends [OF len(2) [unfolded len(1)]]
  show ol: "unat (open_len ?b) + 24 = o_len f"
    using e(4) len(1) by (simp add: open_len_def layout_defs mult.commute)
  then have ol': "unat (open_len ?b) = o_len f - 24" by simp
  have g: "magic ?b = ACH_SHM_MAGIC_NUM" "guard_header ?b = ACH_SHM_GUARD_HEADER_NUM" "guard_index ?b = ACH_SHM_GUARD_INDEX_NUM"
    using good by (simp_all add: check_guards_def split: if_splits)
  have pos: "0 < o_len f - 24" "320 \<le> o_len f" "o_len f \<le> page_round (o_len f)" "320 \<le> page_round 320"
    using len(1) by (simp_all add: page_round_ge)
  have touch: "touchable os' k l h \<longleftrightarrow> h \<le> page_round l \<and> h \<le> page_round (o_len f)"
    if "os_objects os' = os_objects os" for os' l h
    using that obj by (simp add: touchable_def)
  have gm: "guards_mapped os' k (open_len ?b) ?b \<longleftrightarrow> o_len f \<le> page_round (o_len f - 24)"
    if "os_objects os' = os_objects os" for os'
    using e len(1) pos(3) by (auto simp: guards_mapped_def touch [OF that] g ol' layout_defs Let_def)
  have "320 \<le> page_round (o_len f)" using pos(2,3) by linarith
  then show "open_map name os =
    (if o_len f \<le> page_round (o_len f - 24)
     then Ret (Inr (k, os_fresh_fd os, open_len ?b),
            os\<lparr>os_fds := (os_fds os)(os_fresh_fd os := Some k), os_fresh_fd := os_fresh_fd os + 1,
               os_maps := (k, o_len f - 24) # os_maps os\<rparr>)
     else Fault Unmapped)"
    using name o sc fd obj pos gm
    by (simp add: open_map_def mmap_def munmap_def touch os1_def block_at_def g ol' sizeof_ach_header_t_def)
qed

lemma ach_open_block:
  assumes "os_script os = []" "0 \<le> os_fresh_fd os" "channel_name_ok name" "os_dir os (shm_file name) = Some k"
    and "os_objects os k = Some f" "check_guards (o_block f) = ACH_OK"
    and "o_len f = 344 + unat (index_cnt (o_block f) * 24) + unat (data_size (o_block f))" "o_len f < 2 ^ 64"
  shows "ach_open chan name None os =
    (if o_len f \<le> page_round (o_len f - 24)
     then Ret (ACH_OK, fresh_handle k (open_len (o_block f)) (os_fresh_fd os) ach_attr_init,
            os\<lparr>os_fds := (os_fds os)(os_fresh_fd os := Some k), os_fresh_fd := os_fresh_fd os + 1,
               os_maps := (k, o_len f - 24) # os_maps os\<rparr>)
     else Fault Unmapped)"
  unfolding ach_open_def using open_map_block(2) [OF assms] assms(5,6)
  by (simp add: ach_attr_init_def block_at_def fresh_handle_def Let_def)

lemma full_len_block: "sizes_ok n s \<Longrightarrow> unat (block_len n s) = full_len n s"
  using sizes_ok_unat(3) [of n s] by (simp add: full_len_def body_len_def)

lemma body_full: "body_len n s = full_len n s - 24"
  by (simp add: full_len_def)

lemma ach_open_created:
  assumes q: "quiet os" and name: "channel_name_ok name" and sz: "sizes_ok n s"
  shows "ach_open chan name None (after_create os name n s) =
    (if full_len n s \<le> page_round (body_len n s)
     then Ret (ACH_OK, fresh_handle (os_fresh_id os) (open_len (fresh_block name n s))
                (os_fresh_fd os + 1) ach_attr_init,
            (after_create os name n s)
              \<lparr>os_fds := (os_fds os)(os_fresh_fd os + 1 := Some (os_fresh_id os)),
               os_fresh_fd := os_fresh_fd os + 2,
               os_maps := (os_fresh_id os, body_len n s) # os_maps os\<rparr>)
     else Fault Unmapped)"
proof -
  let ?os = "after_create os name n s" and ?f = "\<lparr>o_len = full_len n s, o_block = fresh_block name n s, o_mode = 438\<rparr>"
  have f: "os_script ?os = []" "0 \<le> os_fresh_fd ?os" "os_dir ?os (shm_file name) = Some (os_fresh_id os)"
    "os_objects ?os (os_fresh_id os) = Some ?f"
    "os_fresh_fd ?os = os_fresh_fd os + 1" "os_fds ?os = os_fds os" "os_maps ?os = os_maps os"
    using q full_len_block [OF sz] by (simp_all add: after_create_def quiet_def)
  have "full_len n s = 344 + unat (n * 24) + unat (n * s)" "full_len n s < 2 ^ 64"
    using sizes_ok_unat [OF sz] sz by (simp_all add: full_len_def body_len_def sizes_ok_def)
  then show ?thesis
    using ach_open_block [OF f(1,2) name f(3,4), of chan] f(5-7) by (simp add: fresh_block_fields body_full)
qed

text \<open>
  The system after a created channel was opened; closing the handle gives descriptor and mapping back,
  whatever has happened to the blocks since.
\<close>

definition same_but_objects :: "os_state \<Rightarrow> os_state \<Rightarrow> bool" where
  "same_but_objects os os' \<longleftrightarrow> os'\<lparr>os_objects := os_objects os\<rparr> = os"

lemma same_but_objects_trans: "same_but_objects a b \<Longrightarrow> same_but_objects b c \<Longrightarrow> same_but_objects a c"
  by (cases a; cases b; cases c) (simp add: same_but_objects_def)

definition reopened :: "os_state \<Rightarrow> string \<Rightarrow> size_t \<Rightarrow> size_t \<Rightarrow> os_state" where
  "reopened os name n s =
     (after_create os name n s)
       \<lparr>os_fds := (os_fds os)(os_fresh_fd os + 1 := Some (os_fresh_id os)), os_fresh_fd := os_fresh_fd os + 2,
        os_maps := (os_fresh_id os, body_len n s) # os_maps os\<rparr>"

lemma close_reopened:
  assumes "quiet os" "sizes_ok n s" "os_fds os (os_fresh_fd os + 1) = None"
    and "same_but_objects (reopened os name n s) os1" "block_at os1 (os_fresh_id os) = Some shm" "at_rest shm"
    and "ch_shm chan = Some (os_fresh_id os)" "ch_len chan = open_len (fresh_block name n s)"
    and "ch_fd chan = os_fresh_fd os + 1" "ch_attr chan = ach_attr_init"
  shows "\<exists>os2. ach_close chan os1 = Ret (ACH_OK, chan\<lparr>ch_shm := None\<rparr>, os2) \<and>
          os_fds os2 = os_fds os \<and> os_maps os2 = os_maps os \<and> os_dir os2 = os_dir os1 \<and> os_objects os2 = os_objects os1"
proof -
  have g: "check_guards shm = ACH_OK" using assms(6) by (simp add: at_rest_def shm_inv_def)
  have f: "os_script os1 = []" "os_maps os1 = (os_fresh_id os, body_len n s) # os_maps os"
    "os_fds os1 = (os_fds os)(os_fresh_fd os + 1 := Some (os_fresh_id os))"
    using assms(1) arg_cong [OF assms(4) [unfolded same_but_objects_def], of os_script]
      arg_cong [OF assms(4) [unfolded same_but_objects_def], of os_maps]
      arg_cong [OF assms(4) [unfolded same_but_objects_def], of os_fds]
    by (simp_all add: reopened_def after_create_def quiet_def)
  show ?thesis using assms(3,5,7-10) g f
    by (simp add: ach_close_def ach_attr_init_def munmap_def open_len_fresh [OF assms(2)]
        sys_close_def retry_eintr.simps fun_upd_idem)
qed

section \<open>Properties\<close>

definition empty_os :: os_state where
  "empty_os = \<lparr>os_dir = (\<lambda>_. None), os_objects = (\<lambda>_. None), os_fds = (\<lambda>_. None), os_maps = [],
     os_errno = EOK, os_fresh_id = 0, os_fresh_fd = 3, os_script = []\<rparr>"

definition no_handle :: ach_channel_t where
  "no_handle = \<lparr>ch_shm = None, ch_len = 0, ch_fd = 0, ch_seq_num = 0, ch_next_index = 0,
     ch_attr = ach_attr_init, ch_cancel = False\<rparr>"

lemma quiet_empty_os: "quiet empty_os" "os_dir empty_os nm = None"
  by (simp_all add: quiet_def empty_os_def)

lemma name_imu: "channel_name_ok ''imu''"
  by (simp add: channel_name_ok_def ACH_CHAN_NAME_MAX_def is_alnum_def)

text \<open>
  C14. Create, then open.  When no system call fails, \<^verbatim>\<open>ach_create\<close> under a valid, unused
  name returns \<^verbatim>\<open>ACH_OK\<close>, leaves no descriptor and no mapping behind, and
  \<^verbatim>\<open>ach_open\<close> of that name then returns \<^verbatim>\<open>ACH_OK\<close> with a handle in order, on a block
  of the requested size under that name: it is at rest, holds no frames, has \<open>n\<close> free index entries and
  \<open>n * s\<close> free bytes of data, and its memory is exactly the header, the index, the data and three guard
  words.  This is so provided there are at least two frames, the sizes do not overflow, and the three guard
  words do not reach into another page than the data before them.
\<close>

theorem create_then_open:
  assumes "quiet os" "channel_name_ok name" "os_dir os (shm_file name) = None" "sizes_ok n s"
    and "1 < unat n" "full_len n s \<le> page_round (body_len n s)"
  shows "\<exists>os1 os2 h shm k. ach_create cfg name n s None os = Ret (ACH_OK, None, os1) \<and>
           os_fds os1 = os_fds os \<and> os_maps os1 = os_maps os \<and>
           ach_open chan name None os1 = Ret (ACH_OK, h, os2) \<and> ch_shm h = Some k \<and>
           block_at os2 k = Some shm \<and> at_rest shm \<and> frames shm = [] \<and> chan_ok h shm \<and>
           hdr_name shm = name \<and> unat (hdr_len shm) = full_len n s \<and> map_option o_len (os_objects os2 k) = Some (full_len n s) \<and>
           unat (index_cnt shm) = unat n \<and> unat (index_free shm) = unat n \<and> length (shm_index shm) = unat n \<and>
           unat (data_size shm) = unat n * unat s \<and> unat (data_free shm) = unat n * unat s \<and>
           length (shm_data shm) = unat n * unat s"
proof -
  let ?b = "fresh_block name n s"
  let ?h = "fresh_handle (os_fresh_id os) (open_len ?b) (os_fresh_fd os + 1) ach_attr_init"
  let ?os1 = "after_create os name n s"
  let ?os2 = "?os1\<lparr>os_fds := (os_fds os)(os_fresh_fd os + 1 := Some (os_fresh_id os)),
     os_fresh_fd := os_fresh_fd os + 2, os_maps := (os_fresh_id os, body_len n s) # os_maps os\<rparr>"
  have "chan_ok ?h ?b" using fresh_block_at_rest(4) [OF assms(4)] assms(5) by (intro fresh_handle_ok) simp
  moreover have "block_at ?os2 (os_fresh_id os) = Some ?b" by (simp add: block_at_def after_create_def)
  moreover have "os_fds ?os1 = os_fds os" "os_maps ?os1 = os_maps os" by (simp_all add: after_create_def)
  moreover have "ach_open chan name None ?os1 = Ret (ACH_OK, ?h, ?os2)"
    using ach_open_created [OF assms(1,2,4), of chan] assms(6) by simp
  moreover have "length name < 64" using assms(2) by (cases name) (simp_all add: channel_name_ok_def ACH_CHAN_NAME_MAX_def split: if_splits)
  then have "hdr_name ?b = name" "unat (hdr_len ?b) = full_len n s" "map_option o_len (os_objects ?os2 (os_fresh_id os)) = Some (full_len n s)"
    "unat (index_cnt ?b) = unat n" "unat (index_free ?b) = unat n" "length (shm_index ?b) = unat n"
    "unat (data_size ?b) = unat n * unat s" "unat (data_free ?b) = unat n * unat s" "length (shm_data ?b) = unat n * unat s"
    using full_len_block [OF assms(4)] sizes_ok_unat(1) [OF assms(4)]
    by (simp_all add: fresh_block_def zero_block_def after_create_def ACH_CHAN_NAME_MAX_def)
  ultimately show ?thesis
    using ach_create_quiet [OF assms(1-4) plain_None, of cfg] fresh_block_at_rest(1,2) [OF assms(4), of name]
      fresh_handle_shm by blast
qed

theorem create_then_open_witness:
  "\<exists>os1 os2 h shm k. ach_create \<lparr>HAVE_MUTEX_PRIORITY_INHERIT = True, HAVE_MUTEX_ROBUST = True,
       HAVE_MUTEX_ERROR_CHECK = True, NDEBUG = False\<rparr> ''imu'' 16 512 None empty_os = Ret (ACH_OK, None, os1) \<and>
     ach_open no_handle ''imu'' None os1 = Ret (ACH_OK, h, os2) \<and> ch_shm h = Some k \<and>
     block_at os2 k = Some shm \<and> frames shm = [] \<and> unat (index_cnt shm) = 16 \<and> unat (data_size shm) = 8192"
  using create_then_open [OF quiet_empty_os(1) name_imu quiet_empty_os(2), of 16 512
      "\<lparr>HAVE_MUTEX_PRIORITY_INHERIT = True, HAVE_MUTEX_ROBUST = True, HAVE_MUTEX_ERROR_CHECK = True,
        NDEBUG = False\<rparr>" no_handle]
  by (fastforce simp: sizes_ok_def full_len_def body_len_def page_round_def page_size_def)

text \<open>
  C38. The mapping of \<^verbatim>\<open>ach_open\<close> is too short.  Its length counts the header, the index
  and the data but not the three guard words that \<^verbatim>\<open>ach_create\<close> placed between and after
  them: for every channel that \<^verbatim>\<open>ach_create\<close> makes it is 24 bytes less than the length of the block.
  As long as the page that ends the mapping holds these bytes too, \<^verbatim>\<open>ach_open\<close> succeeds and leaves that
  short mapping; otherwise it faults on a guard word, outside the mapping.
\<close>

theorem open_mapping_short:
  assumes "quiet os" "channel_name_ok name" "os_dir os (shm_file name) = None" "sizes_ok n s"
  shows "\<exists>os1 k f. ach_create cfg name n s None os = Ret (ACH_OK, None, os1) \<and>
           os_dir os1 (shm_file name) = Some k \<and> os_objects os1 k = Some f \<and> o_len f = unat (block_len n s) \<and>
           unat (open_len (o_block f)) + 24 = o_len f \<and>
           (if o_len f \<le> page_round (o_len f - 24)
            then \<exists>h os2. ach_open chan name None os1 = Ret (ACH_OK, h, os2) \<and> unat (ch_len h) + 24 = o_len f \<and>
                   os_maps os2 = (k, o_len f - 24) # os_maps os1
            else ach_open chan name None os1 = Fault Unmapped)"
proof -
  let ?f = "\<lparr>o_len = unat (block_len n s), o_block = fresh_block name n s, o_mode = 438\<rparr>"
  let ?os1 = "after_create os name n s"
  have len: "unat (open_len (fresh_block name n s)) + 24 = unat (block_len n s)"
    using open_len_fresh [OF assms(4), of name] full_len_block [OF assms(4)] by (simp add: full_len_def)
  have fl: "unat (block_len n s) = full_len n s" by (rule full_len_block [OF assms(4)])
  have f: "os_dir ?os1 (shm_file name) = Some (os_fresh_id os)" "os_objects ?os1 (os_fresh_id os) = Some ?f" "os_maps ?os1 = os_maps os"
    by (simp_all add: after_create_def)
  show ?thesis
    using ach_create_quiet [OF assms plain_None, of cfg] ach_open_created [OF assms(1,2,4), of chan] f len
    by (intro exI [of _ ?os1] exI [of _ "os_fresh_id os"] exI [of _ ?f]) (simp add: fl body_full fresh_handle_def)
qed

theorem open_mapping_short_witness:
  "(\<exists>os1. ach_create \<lparr>HAVE_MUTEX_PRIORITY_INHERIT = True, HAVE_MUTEX_ROBUST = True,
       HAVE_MUTEX_ERROR_CHECK = True, NDEBUG = False\<rparr> ''imu'' 16 212 None empty_os = Ret (ACH_OK, None, os1) \<and>
     ach_open no_handle ''imu'' None os1 = Fault Unmapped)"
proof -
  have sz: "sizes_ok 16 212" by (simp add: sizes_ok_def)
  have "unat (block_len 16 212) = 4120" using full_len_block [OF sz] by (simp add: full_len_def body_len_def)
  moreover have "\<not> 4120 \<le> page_round (4120 - 24)" by (simp add: page_round_def page_size_def)
  ultimately show ?thesis
    using open_mapping_short [OF quiet_empty_os(1) name_imu quiet_empty_os(2) sz, of "\<lparr>HAVE_MUTEX_PRIORITY_INHERIT = True,
      HAVE_MUTEX_ROBUST = True, HAVE_MUTEX_ERROR_CHECK = True, NDEBUG = False\<rparr>" no_handle] by auto
qed

text \<open>
  C32. Names.  A name that is 64 characters or longer, starts with a dot or has a character other
  than a letter, a digit, a dash, an underscore or a dot is refused by \<^verbatim>\<open>ach_create\<close>,
  \<^verbatim>\<open>ach_open\<close> and \<^verbatim>\<open>ach_unlink\<close> with \<^verbatim>\<open>ACH_INVALID_NAME\<close>, and no
  system call is made.  So no name reaches \<open>shm_open\<close> with a slash in it.
\<close>

theorem bad_names_refused:
  assumes "64 \<le> length name \<or> (\<exists>rest. name = CHR ''.'' # rest) \<or>
           (\<exists>c\<in>set name. \<not> is_alnum c \<and> c \<notin> {CHR ''-'', CHR ''_'', CHR ''.''})"
  shows "ach_create cfg name n s None os = Ret (ACH_INVALID_NAME, None, os) \<and>
         ach_open chan name None os = Ret (ACH_INVALID_NAME, chan\<lparr>ch_attr := ach_attr_init\<rparr>, os) \<and>
         ach_unlink name os = (ACH_INVALID_NAME, os)"
proof -
  have "\<not> channel_name_ok name"
    using assms by (auto simp: channel_name_ok_def ACH_CHAN_NAME_MAX_def list_all_iff)
  then show ?thesis
    by (simp add: ach_create_def is_anon_def create_map_def ach_open_def open_map_def ach_unlink_def
        shmfile_for_channel_name_def Let_def) (simp add: ach_attr_init_def)
qed

theorem bad_names_refused_witness:
  "ach_unlink ''../x'' empty_os = (ACH_INVALID_NAME, empty_os)"
  using bad_names_refused [of "''../x''" "\<lparr>HAVE_MUTEX_PRIORITY_INHERIT = False, HAVE_MUTEX_ROBUST = False,
      HAVE_MUTEX_ERROR_CHECK = False, NDEBUG = False\<rparr>" 16 512 empty_os no_handle] by simp

text \<open>
  C31. Existing and missing channels.  Creating a channel again with the default attributes is
  refused with \<^verbatim>\<open>ACH_EEXIST\<close> and changes nothing but \<open>errno\<close>; once the name is
  unlinked, \<^verbatim>\<open>ach_open\<close> reports \<^verbatim>\<open>ACH_ENOENT\<close> and the name can be created anew.
\<close>

theorem create_exists_unlink:
  assumes "quiet os" "channel_name_ok name" "os_dir os (shm_file name) = Some k"
  shows "ach_create cfg name n s None os = Ret (ACH_EEXIST, None, os\<lparr>os_errno := EEXIST\<rparr>) \<and>
         (\<exists>os1. ach_unlink name os = (ACH_OK, os1) \<and> os_objects os1 = os_objects os \<and>
            ach_open chan name None os1 =
              Ret (ACH_ENOENT, chan\<lparr>ch_attr := ach_attr_init\<rparr>, os1\<lparr>os_errno := ENOENT\<rparr>) \<and>
            (sizes_ok n s \<longrightarrow>
               (\<exists>os2. ach_create cfg name n s None os1 = Ret (ACH_OK, None, os2))))"
proof -
  let ?os1 = "os\<lparr>os_dir := (os_dir os)(shm_file name := None)\<rparr>"
  have sc: "os_script os = []" using assms(1) by (simp add: quiet_def)
  note ach_create_exists [OF sc assms(2,3) plain_None, of cfg n s]
  moreover have "ach_unlink name ?os1 = (ACH_ENOENT, ?os1\<lparr>os_errno := ENOENT\<rparr>)"
    using sc assms(2) by (simp add: ach_unlink_def shmfile_ok shm_unlink_def sys_fail_def check_errno_def)
  moreover note ach_unlink_exists [OF sc assms(2,3)]
  moreover have "ach_open chan name None ?os1 =
      Ret (ACH_ENOENT, chan\<lparr>ch_attr := ach_attr_init\<rparr>, ?os1\<lparr>os_errno := ENOENT\<rparr>)"
    using sc by (intro ach_open_missing assms(2)) simp_all
  moreover have "quiet ?os1" using assms(1) by (simp add: quiet_def)
  then have "sizes_ok n s \<longrightarrow> (\<exists>os2. ach_create cfg name n s None ?os1 = Ret (ACH_OK, None, os2))"
    using ach_create_quiet [of ?os1 name n s None cfg] assms(2) by simp
  ultimately show ?thesis by simp
qed

lemma quiet_after_create: "quiet os \<Longrightarrow> os_objects os (os_fresh_id os + 1) = None \<Longrightarrow>
    os_fds os (os_fresh_fd os + 1) = None \<Longrightarrow> quiet (after_create os name n s)"
  by (simp add: quiet_def after_create_def)

definition debug_build :: build_config where
  "debug_build = \<lparr>HAVE_MUTEX_PRIORITY_INHERIT = True, HAVE_MUTEX_ROBUST = True,
     HAVE_MUTEX_ERROR_CHECK = True, NDEBUG = False\<rparr>"

theorem create_exists_unlink_witness:
  "ach_create debug_build ''imu'' 16 512 None (after_create empty_os ''imu'' 16 512) =
   Ret (ACH_EEXIST, None, (after_create empty_os ''imu'' 16 512)\<lparr>os_errno := EEXIST\<rparr>)"
proof -
  let ?os = "after_create empty_os ''imu'' 16 512"
  have "quiet ?os" by (rule quiet_after_create) (simp_all add: quiet_empty_os(1), simp_all add: empty_os_def)
  moreover have "os_dir ?os (shm_file ''imu'') = Some 0" by (simp add: after_create_def empty_os_def)
  ultimately show ?thesis
    using create_exists_unlink [OF _ name_imu, of ?os 0 debug_build 16 512 no_handle] by simp
qed

lemma retry_eintr_absorbs:
  assumes "\<And>os fs. os_script os = Some EINTR # fs \<Longrightarrow> f os = (-1, os\<lparr>os_script := fs, os_errno := EINTR\<rparr>)"
    and "os_script os = replicate j (Some EINTR) @ fs"
  shows "retry_eintr n f os =
    (if j = 0 then retry_eintr n f os
     else if j \<le> n then retry_eintr (n - j) f (os\<lparr>os_script := fs, os_errno := EINTR\<rparr>)
     else (-1, os\<lparr>os_script := replicate (j - n - 1) (Some EINTR) @ fs, os_errno := EINTR\<rparr>))"
  using assms(2)
proof (induction j arbitrary: n os)
  case (Suc j)
  then have f: "f os = (-1, os\<lparr>os_script := replicate j (Some EINTR) @ fs, os_errno := EINTR\<rparr>)"
    using assms(1) by simp
  let ?os = "os\<lparr>os_script := replicate j (Some EINTR) @ fs, os_errno := EINTR\<rparr>"
  show ?case
  proof (cases n)
    case 0
    then show ?thesis using f by (simp add: retry_eintr.simps [of 0 f os])
  next
    case n: (Suc m)
    have "retry_eintr n f os = retry_eintr m f ?os"
      using f n by (simp add: retry_eintr.simps [of "Suc m" f os])
    with Suc.IH [of ?os m] n show ?thesis by (cases "j = 0") simp_all
  qed
qed simp

lemma shm_open_eintr:
  "os_script os = Some EINTR # fs \<Longrightarrow>
   shm_open nm c x os = (-1, os\<lparr>os_script := fs, os_errno := EINTR\<rparr>)"
  by (simp add: shm_open_def next_fault_def sys_fail_def)

text \<open>
  C34. Interrupted calls.  Up to \<^verbatim>\<open>ACH_INTR_RETRY\<close> (8) interruptions of
  \<open>shm_open\<close> in a row are absorbed: the call is repeated and its result is the one it gives when
  not interrupted.  After nine interruptions the descriptor is -1, so \<^verbatim>\<open>ach_open\<close> reports
  \<^verbatim>\<open>ACH_FAILED_SYSCALL\<close>.
\<close>

theorem open_interrupted:
  assumes "channel_name_ok name" "os_script os = replicate j (Some EINTR)" "0 < j"
    and "os_dir os (shm_file name) = Some k" "0 \<le> os_fresh_fd os"
  shows "(j \<le> ACH_INTR_RETRY \<longrightarrow> fst (fd_for_channel_name name False False os) = os_fresh_fd os) \<and>
         (ACH_INTR_RETRY < j \<longrightarrow> fst (fd_for_channel_name name False False os) = -1 \<and>
            (\<exists>os'. ach_open chan name None os =
                Ret (ACH_FAILED_SYSCALL, chan\<lparr>ch_attr := ach_attr_init\<rparr>, os')))"
proof -
  let ?f = "shm_open (shm_file name) False False"
  let ?os = "os\<lparr>os_script := [], os_errno := EINTR\<rparr>"
  have r: "fd_for_channel_name name False False os =
    (if j \<le> ACH_INTR_RETRY then retry_eintr (ACH_INTR_RETRY - j) ?f ?os
     else (-1, os\<lparr>os_script := replicate (j - ACH_INTR_RETRY - 1) (Some EINTR), os_errno := EINTR\<rparr>))"
    using retry_eintr_absorbs [OF shm_open_eintr, of os j "[]" ACH_INTR_RETRY] assms(1-3)
    by (simp add: fd_for_channel_name_def shmfile_ok)
  have "?f ?os = new_fd k ?os" using assms(4) by (simp add: shm_open_def)
  then have "retry_eintr m ?f ?os = new_fd k ?os" for m
    using assms(5) by (simp add: retry_eintr_ok new_fd_def)
  moreover have "ach_open chan name None os = Ret (ACH_FAILED_SYSCALL, chan\<lparr>ch_attr := ach_attr_init\<rparr>,
      os\<lparr>os_script := replicate (j - ACH_INTR_RETRY - 1) (Some EINTR), os_errno := EINTR\<rparr>)"
    if "ACH_INTR_RETRY < j"
    using that r assms(1) by (simp add: ach_open_def open_map_def check_errno_def Let_def)
      (simp add: ach_attr_init_def)
  ultimately show ?thesis using r by (simp add: new_fd_def)
qed

theorem open_interrupted_witness:
  "fst (fd_for_channel_name ''imu'' False False
     ((after_create empty_os ''imu'' 16 512)\<lparr>os_script := [Some EINTR, Some EINTR]\<rparr>)) = 4"
  using open_interrupted [OF name_imu, of "(after_create empty_os ''imu'' 16 512)
      \<lparr>os_script := [Some EINTR, Some EINTR]\<rparr>" 2 0]
  by (simp add: ACH_INTR_RETRY_def) (simp add: after_create_def empty_os_def numeral_2_eq_2)

text \<open>
  C40. Size overflow in \<^verbatim>\<open>ach_create\<close>.  The length of the block is computed in
  \<open>size_t\<close> without a check.  Whenever the size of the index wraps around, and what is left of index
  and data adds up to a length that a file can have, \<^verbatim>\<open>ach_create\<close> succeeds, for a channel
  with a name as well as for one on the heap.  The \<open>assert\<close> on the length wraps in the same way and
  passes, the pointers to the guard words wrap too and stay in the block, and \<^verbatim>\<open>check_guards\<close> finds
  nothing wrong; but the block is shorter than the index it announces, of whose entries only those at the
  start exist.
\<close>

theorem create_size_overflow:
  assumes "quiet os" "channel_name_ok name" "os_dir os (shm_file name) = None"
    and "2 ^ 64 \<le> unat n * 24" "344 + unat (n * 24) + unat (n * s) < 2 ^ 63" "c_map_anon a"
  shows "\<exists>os1 os2 k f. ach_create cfg name n s None os = Ret (ACH_OK, None, os1) \<and> os_dir os1 (shm_file name) = Some k \<and>
           ach_create cfg name n s (Some a) os = Ret (ACH_OK, Some (a\<lparr>c_shm := Some k\<rparr>), os2) \<and>
           os_objects os1 k = Some f \<and> os_objects os2 k = Some f \<and>
           check_guards (o_block f) = ACH_OK \<and> index_cnt (o_block f) = n \<and> data_size (o_block f) = n * s \<and>
           o_len f = 344 + unat (n * 24) + unat (n * s) \<and> o_len f < unat (index_cnt (o_block f)) * 24 \<and>
           length (shm_index (o_block f)) = unat (n * 24) div 24 \<and> length (shm_index (o_block f)) < unat (index_cnt (o_block f))"
proof -
  let ?b = "wrapped_block name n s" and ?k = "os_fresh_id os"
  have sz: "wrapped_ok n s" using assms(5) by (simp add: wrapped_ok_def)
  let ?f = "\<lparr>o_len = unat (block_len n s), o_block = ?b, o_mode = 438\<rparr>"
  let ?os2 = "os\<lparr>os_objects := (os_objects os)(?k := Some ?f), os_fresh_id := ?k + 1\<rparr>"
  have m: "malloc (unat (block_len n s)) os = (Some ?k, snd (new_object (unat (block_len n s)) os))"
    "os_script (snd (new_object (unat (block_len n s)) os)) = []"
    "set_block ?k ?b (snd (new_object (unat (block_len n s)) os)) = ?os2"
    using assms(1) by (simp_all add: malloc_def new_object_def quiet_def set_block_def)
  have "ach_create cfg name n s (Some a) os = Ret (ACH_OK, Some (a\<lparr>c_shm := Some ?k\<rparr>), ?os2)"
    using m assms(6) create_init_quiet [OF m(2) sz] by (simp add: ach_create_def is_anon_def)
  moreover note ach_create_wrapped [OF assms(1-3) sz plain_None, of cfg]
  moreover have "check_guards ?b = ACH_OK" "index_cnt ?b = n" "data_size ?b = n * s" "length (shm_index ?b) = unat (n * 24) div 24"
    using fresh_block_fields [of name n s] by (simp_all add: wrapped_block_def check_guards_def)
  moreover have "unat (block_len n s) = 344 + unat (n * 24) + unat (n * s)" by (rule wrapped_okD(2) [OF sz])
  moreover have "344 + unat (n * 24) + unat (n * s) < unat n * 24" using assms(4,5) by simp
  moreover from this have "unat (n * 24) div 24 < unat n" by linarith
  ultimately show ?thesis
    by (intro exI [of _ "created os name (unat (block_len n s)) ?b"] exI [of _ ?os2] exI [of _ ?k] exI [of _ ?f])
      (simp add: created_def)
qed

text \<open>Counts that wrap to one entry and eight bytes of data.\<close>

theorem create_size_overflow_witness:
  "\<exists>os1 os2 k f. ach_create debug_build ''imu'' (2 ^ 61 + 1) 8 None empty_os = Ret (ACH_OK, None, os1) \<and>
     ach_create debug_build ''imu'' (2 ^ 61 + 1) 8 (Some (ach_create_attr_init\<lparr>c_map_anon := True\<rparr>)) empty_os =
       Ret (ACH_OK, Some (ach_create_attr_init\<lparr>c_map_anon := True, c_shm := Some k\<rparr>), os2) \<and>
     os_objects os1 k = Some f \<and> o_len f = 376 \<and> index_cnt (o_block f) = 2 ^ 61 + 1 \<and> length (shm_index (o_block f)) = 1"
  using create_size_overflow [OF quiet_empty_os(1) name_imu quiet_empty_os(2), of "2 ^ 61 + 1" 8
      "ach_create_attr_init\<lparr>c_map_anon := True\<rparr>" debug_build]
  by fastforce

text \<open>
  Opening does not notice either, and the first message beyond the entries that exist is written outside the
  index; where not even one entry exists this is the first message.
\<close>

lemma overflow_then_open:
  assumes "quiet os" "channel_name_ok name" "wrapped_ok n s"
    and "unat (block_len n s) \<le> page_round (unat (block_len n s) - 24)"
  shows "\<exists>os1 h. ach_open chan name None (created os name (unat (block_len n s)) (wrapped_block name n s)) = Ret (ACH_OK, h, os1) \<and>
           ch_shm h = Some (os_fresh_id os)"
proof -
  let ?os = "created os name (unat (block_len n s)) (wrapped_block name n s)"
  have f: "os_script ?os = []" "0 \<le> os_fresh_fd ?os" "os_dir ?os (shm_file name) = Some (os_fresh_id os)"
    "os_objects ?os (os_fresh_id os) = Some \<lparr>o_len = unat (block_len n s), o_block = wrapped_block name n s, o_mode = 438\<rparr>"
    using assms(1) by (simp_all add: created_def quiet_def)
  have "check_guards (wrapped_block name n s) = ACH_OK" "index_cnt (wrapped_block name n s) = n" "data_size (wrapped_block name n s) = n * s"
    using fresh_block_fields [of name n s] by (simp_all add: wrapped_block_def check_guards_def)
  then show ?thesis
    using ach_open_block [OF f(1,2) assms(2) f(3,4), of chan] wrapped_okD [OF assms(3)] assms(4) by (simp add: fresh_handle_def)
qed

lemma overflow_then_put:
  assumes "wrapped_ok n s" "unat (n * 24) < 24" "n \<noteq> 0" "m \<noteq> []" "length m \<le> unat (n * s)" "ch_shm chan \<noteq> None"
  shows "ach_put t chan (wrapped_block name n s) (Some m) (of_nat (length m)) = Fault Out_of_bounds"
proof -
  have "length m < 2 ^ 64" using assms(5) size_t_bound [of "n * s"] by simp
  then have l: "unat (of_nat (length m) :: size_t) = length m" by (simp add: unsigned_of_nat take_bit_nat_eq_self)
  let ?b = "wrapped_block name n s"
  have b: "check_guards ?b = ACH_OK" "index_free ?b = n" "data_size ?b = n * s" "shm_index ?b = []" "sync_ready ?b"
    using fresh_block_fields(6) [of name n s] assms(2)
    by (simp_all add: wrapped_block_def check_guards_def) (simp_all add: fresh_block_def zero_block_def sync_ready_def)
  have "of_nat (length m) \<noteq> (0 :: size_t)" using l assms(4) by (metis length_0_conv unat_0)
  moreover have "\<not> n * s < of_nat (length m)" using l assms(5) by (simp add: word_less_nat_alt)
  moreover have "put_reserve (?b\<lparr>mutex := M_held t, dirty := 1\<rparr>) len = Fault Out_of_bounds" for len
    using b(2,4) assms(3) by (simp add: put_reserve_def at_def)
  ultimately show ?thesis using b assms(6) l by (auto simp: ach_put_def wrlock_ready)
qed

text \<open>
  A failed open leaks.  When the file is not a channel, \<^verbatim>\<open>ach_open\<close> reports
  \<^verbatim>\<open>ACH_BAD_SHM_FILE\<close> but leaves the descriptor open and the header mapped; the handle is
  not set up, so the caller has no means to release them.
\<close>

lemma open_bad_file_leaks:
  assumes "quiet os" "channel_name_ok name" "os_dir os (shm_file name) = Some k"
    and "os_objects os k = Some f" "0 < o_len f" "magic (o_block f) \<noteq> ACH_SHM_MAGIC_NUM"
  shows "\<exists>os'. ach_open chan name None os = Ret (ACH_BAD_SHM_FILE, chan\<lparr>ch_attr := ach_attr_init\<rparr>, os') \<and>
           os_fds os' = (os_fds os)(os_fresh_fd os := Some k) \<and> os_maps os' = (k, 320) # os_maps os"
proof -
  define os1 where "os1 = os\<lparr>os_fds := (os_fds os)(os_fresh_fd os := Some k),
      os_fresh_fd := os_fresh_fd os + 1\<rparr>"
  have sc: "os_script os = []" and fd: "0 \<le> os_fresh_fd os" using assms(1) by (simp_all add: quiet_def)
  have "shm_open (shm_file name) False False os = (os_fresh_fd os, os1)"
    using sc assms(3) by (simp add: shm_open_def new_fd_def os1_def)
  then have o: "fd_for_channel_name name False False os = (os_fresh_fd os, os1)"
    using fd assms(2) by (simp add: fd_for_channel_name_def shmfile_ok retry_eintr_ok)
  have "320 \<le> page_round 320" "320 \<le> page_round (o_len f)"
    using page_round_pos [OF assms(5)] by (simp_all add: page_round_ge)
  then have "open_map name os = Ret (Inl ACH_BAD_SHM_FILE, os1\<lparr>os_maps := (k, 320) # os_maps os\<rparr>)"
    using o assms(2,4,6) sc fd
    by (simp add: open_map_def mmap_def os1_def touchable_def block_at_def sizeof_ach_header_t_def)
  then show ?thesis
    by (simp add: ach_open_def Let_def os1_def) (simp add: ach_attr_init_def)
qed

lemma open_bad_file_leaks_witness:
  "\<exists>os'. ach_open no_handle ''imu'' None (empty_os\<lparr>os_dir := (\<lambda>_. Some 9), os_objects := (\<lambda>_. None)
       (9 := Some \<lparr>o_len = 5, o_block = zero_block 0, o_mode = 0\<rparr>)\<rparr>) =
     Ret (ACH_BAD_SHM_FILE, no_handle, os') \<and> os_fds os' 3 = Some 9"
proof -
  let ?os = "empty_os\<lparr>os_dir := (\<lambda>_. Some 9), os_objects := (\<lambda>_. None)
       (9 := Some \<lparr>o_len = 5, o_block = zero_block 0, o_mode = 0\<rparr>)\<rparr>"
  have "quiet ?os" by (simp add: quiet_def empty_os_def)
  moreover have "no_handle\<lparr>ch_attr := ach_attr_init\<rparr> = no_handle" by (simp add: no_handle_def)
  ultimately show ?thesis
    using open_bad_file_leaks [OF _ name_imu, of ?os 9
        "\<lparr>o_len = 5, o_block = zero_block 0, o_mode = 0\<rparr>" no_handle]
    by (auto simp: zero_block_def ACH_SHM_MAGIC_NUM_def empty_os_def)
qed

text \<open>
  C29. Cancelling a waiting reader.  The child that \<^verbatim>\<open>ach_cancel\<close> forks takes and releases
  the lock of a block at rest, broadcasts once and exits with success; the reader, woken with the
  cancel flag set, returns \<^verbatim>\<open>ACH_CANCELED\<close>, having released the mutex and changed nothing
  in the block.
\<close>

theorem cancel_wakes_reader:
  assumes "at_rest shm" "\<not> ch_cancel chan" "ch_seq_num chan = last_seq shm" "o_wait options"
  shows "ach_cancel u chan shm None True = Ret (ACH_OK, chan\<lparr>ch_cancel := True\<rparr>, shm) \<and>
         (\<exists>shm'. cancel_child u shm = Ret (EXIT_SUCCESS, shm') \<and> at_rest shm' \<and>
            bcasts shm' = bcasts shm + 1 \<and> frames shm' = frames shm \<and>
            ach_get t chan shm buf bufsize fsz abstime options
                (\<lparr>wake_ret = EOK, wake_shm = shm', wake_cancel = True\<rparr> # ws) =
              Ret \<lparr>g_status = ACH_CANCELED, g_chan = chan\<lparr>ch_cancel := True\<rparr>, g_shm = shm',
                   g_buf = buf, g_frame_size = fsz\<rparr>)"
proof -
  have ready: "sync_ready shm" and inv: "shm_inv shm" "check_guards shm = ACH_OK"
    using assms(1) by (simp_all add: at_rest_def shm_inv_def)
  obtain n where n: "cond shm = C_ready n" using ready by (cases "cond shm") (auto simp: sync_ready_def)
  let ?s = "shm\<lparr>cond := C_ready (Suc n)\<rparr>"
  have free: "mutex shm = M_free" "dirty shm = 0" using ready by (simp_all add: sync_ready_def)
  then have m: "shm\<lparr>mutex := M_free\<rparr> = shm" by simp
  have child: "cancel_child u shm = Ret (EXIT_SUCCESS, ?s)"
    using chan_lock_ready [OF ready, of u] n free
    by (simp add: cancel_child_def unlock_mutex_def Let_def)
  have rest: "at_rest ?s" using inv free by (simp add: at_rest_def shm_inv_def sync_ready_def)
  let ?w = "\<lparr>wake_ret = EOK, wake_shm = ?s, wake_cancel = True\<rparr>"
  have "check_lock (cond_wait_result abstime (wake_ret ?w)) t
      ((wake_shm ?w)\<lparr>mutex := retake_mutex t (cond_wait_result abstime (wake_ret ?w))\<rparr>) True =
      (ACH_OK, ?s\<lparr>mutex := M_held t\<rparr>)"
    using free by (simp add: check_lock_def check_dirty_def cond_wait_result_def retake_mutex_def)
  note wake = rdlock_loop_Cons [OF _ this]
  have "rdlock_loop t chan (shm\<lparr>mutex := M_held t\<rparr>) True abstime (?w # ws) =
      rdlock_loop t (chan\<lparr>ch_cancel := True\<rparr>) (?s\<lparr>mutex := M_held t\<rparr>) True abstime ws"
    using assms(2,3) by (simp add: wake)
  also have "\<dots> = Ret (ACH_CANCELED, chan\<lparr>ch_cancel := True\<rparr>, ?s)"
    using free by (simp add: rdlock_loop_done unlock_mutex_def)
  finally have "rdlock t chan shm True abstime (?w # ws) = Ret (ACH_CANCELED, chan\<lparr>ch_cancel := True\<rparr>, ?s)"
    using chan_lock_ready [OF ready, of t] by (simp add: rdlock_def)
  then have "ach_get t chan shm buf bufsize fsz abstime options (?w # ws) =
      Ret \<lparr>g_status = ACH_CANCELED, g_chan = chan\<lparr>ch_cancel := True\<rparr>, g_shm = ?s,
           g_buf = buf, g_frame_size = fsz\<rparr>"
    using inv(2) assms(4) by (simp add: ach_get_def)
  with child rest n show ?thesis
    by (simp add: ach_cancel_def ach_cancel_attr_init_def bcasts_def)
qed

theorem cancel_wakes_reader_witness:
  "\<exists>shm'. cancel_child 8 (fresh_block ''a'' 2 4) = Ret (EXIT_SUCCESS, shm') \<and>
     ach_get 7 (fresh_handle 0 400 3 ach_attr_init) (fresh_block ''a'' 2 4) [] 0 0 None ACH_O_WAIT
       [\<lparr>wake_ret = EOK, wake_shm = shm', wake_cancel = True\<rparr>] =
     Ret \<lparr>g_status = ACH_CANCELED, g_chan = (fresh_handle 0 400 3 ach_attr_init)\<lparr>ch_cancel := True\<rparr>,
          g_shm = shm', g_buf = [], g_frame_size = 0\<rparr>"
proof -
  let ?h = "fresh_handle 0 400 3 ach_attr_init"
  have "\<not> ch_cancel ?h" "ch_seq_num ?h = last_seq (fresh_block ''a'' 2 4)"
    by (simp_all add: fresh_handle_def fresh_block_def zero_block_def)
  from cancel_wakes_reader [OF small_block(1) this, of ACH_O_WAIT 8 7 "[]" 0 0 None "[]"]
  show ?thesis by (auto simp: option_flags)
qed

text \<open>
  C39. A channel with a single frame.  \<^verbatim>\<open>ach_open\<close> sets the next index to 1, which is outside
  the index of a channel created with one frame.  The first read that does not ask for the newest
  frame, on such a channel once it has been written, looks at the entry past the end of the index.
\<close>

theorem single_frame_read_out_of_bounds:
  assumes "at_rest shm" "icnt shm = 1" "last_seq shm \<noteq> 0" "\<not> o_last options"
  shows "ach_get t (fresh_handle k len fd attr) shm buf bufsize fsz abstime options wakes =
         Fault Out_of_bounds"
proof -
  let ?h = "fresh_handle k len fd attr"
  have h: "ch_seq_num ?h = 0" "ch_next_index ?h = 1" "\<not> ch_cancel ?h" by (simp_all add: fresh_handle_def)
  have ready: "sync_ready shm" and g: "check_guards shm = ACH_OK" and ring: "ring_inv shm"
    using assms(1) by (simp_all add: at_rest_def shm_inv_def)
  have "rdlock t ?h shm (o_wait options) abstime wakes = Ret (ACH_OK, ?h, shm\<lparr>mutex := M_held t\<rparr>)"
    using rdlock_ready_nowait [OF ready h(3), of "o_wait options"] h(1) assms(3) by simp
  moreover have "get_locked ?h (shm\<lparr>mutex := M_held t\<rparr>) buf bufsize fsz options = Fault Out_of_bounds"
    using h assms(2-4) ring_invD(1) [OF ring]
    by (simp add: get_locked_def choose_index_def at_def)
  ultimately show ?thesis using g by (simp add: ach_get_def)
qed

definition single_block :: ach_header_t where
  "single_block = (fresh_block ''a'' 1 4)\<lparr>last_seq := 1, index_free := 0, data_head := 3, data_free := 1,
     shm_index := [\<lparr>idx_size = 3, idx_offset = 0, idx_seq_num = 1\<rparr>], shm_data := [1, 2, 3, 0]\<rparr>"

lemma single_block_fields:
  "index_cnt single_block = 1" "index_head single_block = 0" "index_free single_block = 0"
  "data_size single_block = 4" "data_head single_block = 3" "data_free single_block = 1"
  "last_seq single_block = 1" "shm_data single_block = [1, 2, 3, 0]"
  "shm_index single_block = [\<lparr>idx_size = 3, idx_offset = 0, idx_seq_num = 1\<rparr>]"
  "mutex single_block = M_free" "dirty single_block = 0" "cond single_block = C_ready 0"
  "check_guards single_block = ACH_OK"
  by (simp_all add: single_block_def fresh_block_def zero_block_def check_guards_def)

lemma single_block_at_rest: "at_rest single_block"
proof -
  have e: "entries single_block = [\<lparr>idx_size = 3, idx_offset = 0, idx_seq_num = 1\<rparr>]"
    by (simp add: entries_def slot_def single_block_fields upt_rec)
  show ?thesis
    unfolding at_rest_def shm_inv_def ring_inv_def dims_ok_def sync_ready_def e
    by (simp add: single_block_fields upt_rec)
qed

theorem single_frame_read_out_of_bounds_witness:
  "ach_get 7 (fresh_handle 0 400 3 ach_attr_init) single_block [0, 0, 0] 3 0 None 0 [] = Fault Out_of_bounds"
  using single_frame_read_out_of_bounds [OF single_block_at_rest]
  by (simp add: single_block_fields option_flags)

end
