(* ===== verification/Ach_Loud.thy ===== *)
theory Ach_Loud
  imports Ach_Lifecycle
begin

text \<open>
  The tracing variants \<^verbatim>\<open>rdlock_loud\<close>, \<^verbatim>\<open>unwrlock_loud\<close>,
  \<^verbatim>\<open>ach_get_loud\<close> and \<^verbatim>\<open>ach_put_loud\<close> of \<^verbatim>\<open>src/ach.c\<close>, which
  print a step number to standard output before each action.  A traced call is the text printed so
  far with the outcome; the variants are shown to do what the silent functions do.
\<close>

section \<open>Traced calls\<close>

type_synonym 'a traced = "string list \<times> 'a outcome"

definition say :: "string \<Rightarrow> unit traced" where
  "say s = ([s], Ret ())"

definition quietly :: "'a outcome \<Rightarrow> 'a traced" where
  "quietly m = ([], m)"

definition t_then :: "'a traced \<Rightarrow> ('a \<Rightarrow> 'b traced) \<Rightarrow> 'b traced" where
  "t_then m f =
     (case snd m of
        Ret x \<Rightarrow> (fst m @ fst (f x), snd (f x))
      | Blocked \<Rightarrow> (fst m, Blocked)
      | Fault e \<Rightarrow> (fst m, Fault e))"

lemma snd_t_then: "snd (t_then m f) = and_then (snd m) (\<lambda>x. snd (f x))"
  by (cases "snd m") (simp_all add: t_then_def)

lemma snd_say: "and_then (snd (say s)) f = f ()"
  by (simp add: say_def)

lemma t_then_cong [fundef_cong]:
  assumes "m = m'" and "\<And>x. snd m' = Ret x \<Longrightarrow> f x = g x"
  shows "t_then m f = t_then m' g"
  using assms by (cases "snd m'") (auto simp: t_then_def)

section \<open>The lock layer\<close>

definition show_wait_times :: "int \<times> int \<Rightarrow> int \<times> int \<Rightarrow> string" where
  "show_wait_times now deadline =
     ''(curr: '' @ show_int (fst now) @ ''s:'' @ show_int (snd now) @ ''ns, abs: ''
       @ show_int (fst deadline) @ ''s:'' @ show_int (snd deadline) @ ''ns) ''"

text \<open>\<open>clock\<close> holds the readings of the monotonic clock, one for each timed wait.\<close>

fun rdlock_loud_loop ::
  "tid \<Rightarrow> ach_channel_t \<Rightarrow> ach_header_t \<Rightarrow> bool \<Rightarrow> (int \<times> int) option \<Rightarrow> (nat \<Rightarrow> int \<times> int) \<Rightarrow>
   wake list \<Rightarrow> (ach_status_t \<times> ach_channel_t \<times> ach_header_t) traced" where
  "rdlock_loud_loop t chan shm wait abstime clock wakes =
     (if ch_cancel chan
      then t_then (say ''6.401 '') (\<lambda>_.
           let shm = snd (unlock_mutex t shm)
           in t_then (say ''6.402 '') (\<lambda>_. quietly (Ret (ACH_CANCELED, chan, shm))))
      else if \<not> wait
      then t_then (say ''6.411 '') (\<lambda>_. quietly (Ret (ACH_OK, chan, shm)))
      else if ch_seq_num chan \<noteq> last_seq shm
      then t_then (say ''6.421 '') (\<lambda>_. quietly (Ret (ACH_OK, chan, shm)))
      else t_then (say ''6.431 '') (\<lambda>_.
           t_then (case abstime of
                     Some a \<Rightarrow> t_then (say ''6.43101 '') (\<lambda>_. say (show_wait_times (clock 0) a))
                   | None \<Rightarrow> say ''6.43111 '') (\<lambda>_.
           case wakes of
             [] \<Rightarrow> quietly Blocked
           | w # ws \<Rightarrow>
               t_then (say ''6.432 '') (\<lambda>_.
               let i = cond_wait_result abstime (wake_ret w);
                   chan' = chan\<lparr>ch_cancel := wake_cancel w\<rparr>;
                   shm' = (wake_shm w)\<lparr>mutex := retake_mutex t i\<rparr>;
                   (c, shm'') = check_lock i t shm' True
               in t_then (say ''6.433 '') (\<lambda>_.
                  if c \<noteq> ACH_OK \<and> c \<noteq> ACH_BUG then quietly (Ret (c, chan', shm''))
                  else rdlock_loud_loop t chan' shm'' wait abstime (\<lambda>k. clock (Suc k)) ws)))))"

declare rdlock_loud_loop.simps [simp del]

definition rdlock_loud ::
  "tid \<Rightarrow> ach_channel_t \<Rightarrow> ach_header_t \<Rightarrow> bool \<Rightarrow> (int \<times> int) option \<Rightarrow> (nat \<Rightarrow> int \<times> int) \<Rightarrow>
   wake list \<Rightarrow> (ach_status_t \<times> ach_channel_t \<times> ach_header_t) traced" where
  "rdlock_loud t chan shm wait abstime clock wakes =
     t_then (say (CHR 0x0A # ''6.1 '')) (\<lambda>_.
     t_then (say ''6.2 '') (\<lambda>_.
     t_then (quietly (chan_lock t shm)) (\<lambda>(r, shm).
     t_then (say ''6.3 '') (\<lambda>_.
     if r \<noteq> ACH_OK then quietly (Ret (r, chan, shm))
     else t_then (say ''6.4 '') (\<lambda>_.
          t_then (rdlock_loud_loop t chan shm wait abstime clock wakes) (\<lambda>result.
          t_then (say ''6.5 '') (\<lambda>_. quietly (Ret result))))))))"

definition unwrlock_loud :: "tid \<Rightarrow> ach_header_t \<Rightarrow> (ach_status_t \<times> ach_header_t) traced" where
  "unwrlock_loud t shm =
     t_then (say (CHR 0x0A # ''19.1 '')) (\<lambda>_.
     t_then (quietly (c_assert 412 (dirty shm = 1))) (\<lambda>_.
     t_then (say ''19.2 '') (\<lambda>_.
     let (e, shm) = unlock_mutex t (shm\<lparr>dirty := 0\<rparr>)
     in if e \<noteq> EOK
        then t_then (say ''19.3 '') (\<lambda>_. quietly (Ret (ACH_FAILED_SYSCALL, shm)))
        else t_then (say ''19.4 '') (\<lambda>_.
             let (e, c) = pthread_cond_broadcast (cond shm);
                 shm = shm\<lparr>cond := c\<rparr>
             in if e \<noteq> EOK
                then t_then (say ''19.5 '') (\<lambda>_. quietly (Ret (ACH_FAILED_SYSCALL, shm)))
                else t_then (say ''19.6 '') (\<lambda>_. quietly (Ret (ACH_OK, shm)))))))"

section \<open>Reading\<close>

definition choose_index_loud ::
  "ach_channel_t \<Rightarrow> ach_header_t \<Rightarrow> uint32 \<Rightarrow> size_t traced" where
  "choose_index_loud chan shm options =
     (if o_last options
      then t_then (say ''9.1101 '') (\<lambda>_. quietly (last_index_i shm))
      else t_then (quietly (at (shm_index shm) (ch_next_index chan))) (\<lambda>idx.
           if idx_seq_num idx = ch_seq_num chan + 1
           then t_then (say ''9.1111 '') (\<lambda>_. quietly (Ret (ch_next_index chan)))
           else t_then (say ''9.1121 '') (\<lambda>_.
                if ch_seq_num chan = last_seq shm
                then t_then (say ''9.112101 '') (\<lambda>_.
                     t_then (quietly (c_assert 873 (o_copy options))) (\<lambda>_.
                     t_then (say ''9.112102 '') (\<lambda>_. quietly (last_index_i shm))))
                else t_then (say ''9.112111 '') (\<lambda>_. quietly (oldest_index_i shm)))))"

definition get_locked_loud ::
  "ach_channel_t \<Rightarrow> ach_header_t \<Rightarrow> byte list \<Rightarrow> size_t \<Rightarrow> size_t \<Rightarrow> uint32 \<Rightarrow>
   (get_result \<times> bool) traced" where
  "get_locked_loud chan shm buf bufsize frame_size options =
     t_then (quietly (c_assert 841 (ch_seq_num chan \<le> last_seq shm))) (\<lambda>_.
     t_then (say ''9 '') (\<lambda>_.
     if (ch_seq_num chan = last_seq shm \<and> \<not> o_copy options) \<or> last_seq shm = 0
     then t_then (say ''9.01 '') (\<lambda>_.
          t_then (quietly (c_assert 851 (\<not> o_wait options))) (\<lambda>_.
          t_then (say ''9.02 '') (\<lambda>_.
          quietly (Ret (\<lparr>g_status = ACH_STALE_FRAMES, g_chan = chan, g_shm = shm, g_buf = buf,
                         g_frame_size = frame_size\<rparr>, False)))))
     else t_then (say ''9.11 '') (\<lambda>_.
          t_then (choose_index_loud chan shm options) (\<lambda>read_index.
          t_then (say ''9.12 '') (\<lambda>_.
          t_then (quietly (at (shm_index shm) read_index)) (\<lambda>idx.
          let missed_frame = (idx_seq_num idx > ch_seq_num chan + 1)
          in t_then (say ''9.13 '') (\<lambda>_.
             t_then (quietly (ach_get_from_offset chan shm read_index buf bufsize frame_size)) (\<lambda>g.
             t_then (say ''9.14 '') (\<lambda>_.
             t_then (quietly (c_assert 891 (idx_seq_num idx > 0))) (\<lambda>_.
             quietly (Ret (g, missed_frame))))))))))))"

definition ach_get_loud ::
  "tid \<Rightarrow> ach_channel_t \<Rightarrow> ach_header_t \<Rightarrow> byte list \<Rightarrow> size_t \<Rightarrow> size_t \<Rightarrow>
   (int \<times> int) option \<Rightarrow> uint32 \<Rightarrow> (nat \<Rightarrow> int \<times> int) \<Rightarrow> wake list \<Rightarrow> get_result traced" where
  "ach_get_loud t chan shm buf bufsize frame_size abstime options clock wakes =
     t_then (say (CHR 0x0A # ''1 '')) (\<lambda>_.
     t_then (say ''2 '') (\<lambda>_.
     t_then (say ''3 '') (\<lambda>_.
     let r = check_guards shm
     in t_then (say ''4 '') (\<lambda>_.
     if r \<noteq> ACH_OK
     then quietly (Ret \<lparr>g_status = r, g_chan = chan, g_shm = shm, g_buf = buf,
                        g_frame_size = frame_size\<rparr>)
     else t_then (say ''5 '') (\<lambda>_.
          t_then (say ''6 '') (\<lambda>_.
          t_then (rdlock_loud t chan shm (o_wait options) abstime clock wakes) (\<lambda>(r, chan, shm).
          t_then (say ''7 '') (\<lambda>_.
          if r \<noteq> ACH_OK
          then quietly (Ret \<lparr>g_status = r, g_chan = chan, g_shm = shm, g_buf = buf,
                             g_frame_size = frame_size\<rparr>)
          else t_then (say ''8 '') (\<lambda>_.
               t_then (get_locked_loud chan shm buf bufsize frame_size options) (\<lambda>(g, missed_frame).
               t_then (say ''10 '') (\<lambda>_.
               t_then (quietly (unrdlock t (g_shm g))) (\<lambda>(r, shm).
               t_then (say ''11 '') (\<lambda>_.
               if r \<noteq> ACH_OK then quietly (Ret (g\<lparr>g_shm := shm, g_status := r\<rparr>))
               else t_then (say ''12 '') (\<lambda>_.
                    quietly (Ret (g\<lparr>g_shm := shm,
                       g_status := (if g_status g = ACH_OK \<and> missed_frame
                                    then ACH_MISSED_FRAME else g_status g)\<rparr>))))))))))))))))"

section \<open>Writing\<close>

function clear_overlap_loud ::
  "ach_header_t \<Rightarrow> size_t \<Rightarrow> size_t \<Rightarrow> nat \<Rightarrow> ach_header_t traced" where
  "clear_overlap_loud shm len i print_iter =
     (if data_free shm < len
      then t_then (say (''12.'' @ show_nat_width 3 print_iter @ '' '')) (\<lambda>_.
           t_then (quietly (c_assert 1066 (i \<noteq> index_head shm))) (\<lambda>_.
           t_then (quietly (free_index shm i)) (\<lambda>shm'.
           t_then (quietly (c_mod (i + 1) (index_cnt shm'))) (\<lambda>i'.
           clear_overlap_loud shm' len i' (print_iter + 1)))))
      else quietly (Ret shm))"
  by pat_completeness auto
termination
  by (relation "measure (\<lambda>(shm, len, i, k). unat (index_cnt shm) - unat (index_free shm))")
     (auto simp: quietly_def free_index_measure)

declare clear_overlap_loud.simps [simp del]

definition put_reserve_loud :: "ach_header_t \<Rightarrow> size_t \<Rightarrow> ach_header_t traced" where
  "put_reserve_loud shm len =
     t_then (if index_free shm = 0
             then t_then (say ''10.01 '') (\<lambda>_. quietly (free_index shm (index_head shm)))
             else t_then (say ''10.11 '') (\<lambda>_.
                  t_then (quietly (at (shm_index shm) (index_head shm))) (\<lambda>idx.
                  t_then (quietly (c_assert 1053 (idx_seq_num idx = 0))) (\<lambda>_.
                  quietly (Ret shm))))) (\<lambda>shm.
     t_then (say ''11 '') (\<lambda>_.
     t_then (quietly (c_assert 1057 (index_free shm > 0))) (\<lambda>_.
     t_then (say ''12 '') (\<lambda>_.
     t_then (quietly (c_mod (index_head shm + index_free shm) (index_cnt shm))) (\<lambda>i.
     t_then (clear_overlap_loud shm len i 1) (\<lambda>shm.
     t_then (say ''13 '') (\<lambda>_.
     t_then (quietly (c_assert 1071 (data_free shm \<ge> len))) (\<lambda>_. quietly (Ret shm)))))))))"

definition put_copy_loud :: "ach_header_t \<Rightarrow> byte list \<Rightarrow> size_t \<Rightarrow> ach_header_t traced" where
  "put_copy_loud shm buf len =
     (if data_size shm - data_head shm \<ge> len
      then t_then (say ''13.01 '') (\<lambda>_.
           t_then (quietly (memcpy (shm_data shm) (unat (data_head shm)) buf 0 (unat len))) (\<lambda>d.
           quietly (Ret (shm\<lparr>shm_data := d\<rparr>))))
      else t_then (say ''13.11 '') (\<lambda>_.
           let end_cnt = data_size shm - data_head shm
           in t_then (say ''13.12 '') (\<lambda>_.
              t_then (quietly (memcpy (shm_data shm) (unat (data_head shm)) buf 0 (unat end_cnt))) (\<lambda>d.
              t_then (say ''13.13 '') (\<lambda>_.
              t_then (quietly (memcpy d 0 buf (unat end_cnt) (unat (len - end_cnt)))) (\<lambda>d.
              quietly (Ret (shm\<lparr>shm_data := d\<rparr>))))))))"

definition put_commit_loud :: "ach_header_t \<Rightarrow> size_t \<Rightarrow> ach_header_t traced" where
  "put_commit_loud shm len =
     t_then (say ''14 '') (\<lambda>_.
     t_then (quietly (at (shm_index shm) (index_head shm))) (\<lambda>_.
     let seq = last_seq shm + 1;
         entry = \<lparr>idx_size = len, idx_offset = data_head shm, idx_seq_num = seq\<rparr>
     in t_then (say ''15 '') (\<lambda>_.
        t_then (quietly (c_mod (data_head shm + len) (data_size shm))) (\<lambda>dh.
        t_then (quietly (c_mod (index_head shm + 1) (index_cnt shm))) (\<lambda>ih.
        let shm = shm\<lparr>last_seq := seq,
                      shm_index := (shm_index shm)[unat (index_head shm) := entry],
                      data_head := dh, data_free := data_free shm - len,
                      index_head := ih, index_free := index_free shm - 1\<rparr>
        in t_then (say ''16 '') (\<lambda>_.
           t_then (quietly (c_assert 1102 (index_free shm \<le> index_cnt shm))) (\<lambda>_.
           t_then (say ''17 '') (\<lambda>_.
           t_then (quietly (c_assert 1104 (data_free shm \<le> data_size shm))) (\<lambda>_.
           t_then (say ''18 '') (\<lambda>_.
           t_then (quietly (c_assert 1106 (last_seq shm > 0))) (\<lambda>_. quietly (Ret shm))))))))))))"

definition ach_put_loud ::
  "tid \<Rightarrow> ach_channel_t \<Rightarrow> ach_header_t \<Rightarrow> byte list option \<Rightarrow> size_t \<Rightarrow>
   (ach_status_t \<times> ach_header_t) traced" where
  "ach_put_loud t chan shm buf len =
     (let einval = t_then (say (CHR 0x0A # ''1 '')) (\<lambda>_. quietly (Ret (ACH_EINVAL, shm)))
      in case buf of
        None \<Rightarrow> einval
      | Some src \<Rightarrow>
          if len = 0 \<or> ch_shm chan = None then einval
          else t_then (say ''2 '') (\<lambda>_.
               t_then (say ''3 '') (\<lambda>_.
               let r = check_guards shm
               in t_then (say ''4 '') (\<lambda>_.
               if r \<noteq> ACH_OK then quietly (Ret (r, shm))
               else if data_size shm < len
               then t_then (say ''5 '') (\<lambda>_. quietly (Ret (ACH_OVERFLOW, shm)))
               else t_then (say ''6 '') (\<lambda>_.
                    t_then (say ''7 '') (\<lambda>_.
                    if len > data_size shm
                    then t_then (say ''8 '') (\<lambda>_. quietly (Ret (ACH_OVERFLOW, shm)))
                    else t_then (say ''9 '') (\<lambda>_.
                         t_then (quietly (wrlock t shm)) (\<lambda>(_, shm).
                         t_then (say ''10 '') (\<lambda>_.
                         t_then (put_reserve_loud shm len) (\<lambda>shm.
                         t_then (put_copy_loud shm src len) (\<lambda>shm.
                         t_then (put_commit_loud shm len) (\<lambda>shm.
                         t_then (say ''19 '') (\<lambda>_.
                         t_then (unwrlock_loud t shm) (\<lambda>result.
                         t_then (say ''20 '') (\<lambda>_. quietly (Ret result))))))))))))))))"

section \<open>The variants do the same\<close>

text \<open>An outcome without the line number of a failed \<open>assert\<close>, the one thing that differs.\<close>

fun forget_line :: "'a outcome \<Rightarrow> 'a outcome" where
  "forget_line (Fault (Assert_failed n)) = Fault (Assert_failed 0)"
| "forget_line m = m"

lemma forget_line_and_then:
  "forget_line (and_then m f) = and_then (forget_line m) (\<lambda>x. forget_line (f x))"
  by (cases m rule: forget_line.cases) simp_all

lemma forget_line_assert: "forget_line (c_assert n b) = c_assert 0 b"
  by (simp add: c_assert_def)

lemma snd_quietly: "snd (quietly m) = m"
  by (simp add: quietly_def)

lemma forget_line_Ret_iff: "forget_line m = Ret x \<longleftrightarrow> m = Ret x"
  by (cases m rule: forget_line.cases) simp_all

lemma and_then_forget_cong:
  "forget_line m = forget_line m' \<Longrightarrow> (\<And>x. m' = Ret x \<Longrightarrow> forget_line (f x) = forget_line (g x)) \<Longrightarrow>
   forget_line (and_then m f) = forget_line (and_then m' g)"
  unfolding forget_line_and_then by (rule and_then_cong) (simp_all add: forget_line_Ret_iff)

lemmas loud_simps = snd_t_then snd_say snd_quietly

lemma and_then_Ret [simp]: "and_then m Ret = m"
  by (cases m) simp_all

lemma rdlock_loud_loop_same:
  "snd (rdlock_loud_loop t chan shm w ab clock wakes) = rdlock_loop t chan shm w ab wakes"
proof (induction wakes arbitrary: chan shm clock ab w)
  case Nil
  show ?case
    by (auto simp: rdlock_loud_loop.simps [of t chan] rdlock_loop.simps [of t chan] loud_simps
        say_def split: option.split)
next
  case (Cons wk ws)
  show ?case
    by (auto simp: rdlock_loud_loop.simps [of t chan] rdlock_loop.simps [of t chan] loud_simps
        say_def Let_def Cons.IH split: option.split prod.split)
qed

lemma rdlock_loud_same:
  "snd (rdlock_loud t chan shm w ab clock wakes) = rdlock t chan shm w ab wakes"
proof (cases "chan_lock t shm")
  case (Ret p)
  then show ?thesis
    by (cases p) (simp add: rdlock_loud_def rdlock_def loud_simps rdlock_loud_loop_same say_def)
qed (simp_all add: rdlock_loud_def rdlock_def loud_simps)

lemma unwrlock_loud_same: "forget_line (snd (unwrlock_loud t shm)) = forget_line (unwrlock t shm)"
  by (auto simp: unwrlock_loud_def unwrlock_def loud_simps forget_line_and_then forget_line_assert
      Let_def split: prod.split intro!: and_then_cong)

lemma choose_index_loud_same:
  "forget_line (snd (choose_index_loud chan shm options)) = forget_line (choose_index chan shm options)"
  by (auto simp: choose_index_loud_def choose_index_def loud_simps forget_line_and_then
      forget_line_assert intro!: and_then_cong)

lemma get_locked_loud_same:
  "forget_line (snd (get_locked_loud chan shm buf bufsize fsz options)) =
   forget_line (get_locked chan shm buf bufsize fsz options)"
  by (auto simp: get_locked_loud_def get_locked_def loud_simps forget_line_and_then
      forget_line_assert choose_index_loud_same Let_def intro!: and_then_cong)

lemma clear_overlap_loud_same:
  "forget_line (snd (clear_overlap_loud shm len i k)) = forget_line (clear_overlap shm len i)"
proof (induction shm len i arbitrary: k rule: clear_overlap.induct)
  case (1 shm len i)
  show ?case
  proof (cases "data_free shm < len")
    case True
    then show ?thesis
      unfolding clear_overlap_loud.simps [of shm len i k] clear_overlap.simps [of shm len i]
      by (simp add: loud_simps forget_line_and_then forget_line_assert)
        (rule and_then_cong, simp, rule and_then_cong, simp, rule and_then_cong, simp,
         auto simp: forget_line_Ret_iff c_assert_def split: if_splits intro!: "1.IH")
  next
    case False
    then show ?thesis
      by (simp add: clear_overlap_loud.simps [of shm len i k] clear_overlap.simps [of shm len i] loud_simps)
  qed
qed

lemma put_reserve_loud_same:
  "forget_line (snd (put_reserve_loud shm len)) = forget_line (put_reserve shm len)"
  by (auto simp: put_reserve_loud_def put_reserve_def loud_simps forget_line_and_then
      forget_line_assert clear_overlap_loud_same intro!: and_then_cong)

lemma put_copy_loud_same: "snd (put_copy_loud shm buf len) = put_copy shm buf len"
  by (simp add: put_copy_loud_def put_copy_def loud_simps Let_def)

lemma put_commit_loud_same:
  "forget_line (snd (put_commit_loud shm len)) = forget_line (put_commit shm len)"
  by (auto simp: put_commit_loud_def put_commit_def loud_simps forget_line_and_then
      forget_line_assert Let_def intro!: and_then_cong)

lemma ach_get_loud_same:
  "forget_line (snd (ach_get_loud t chan shm buf bufsize fsz abstime options clock wakes)) =
   forget_line (ach_get t chan shm buf bufsize fsz abstime options wakes)"
proof (cases "check_guards shm = ACH_OK")
  case True
  have tail: "forget_line (and_then (snd (get_locked_loud c s buf bufsize fsz options)) K) =
      forget_line (and_then (get_locked c s buf bufsize fsz options) K)" for c s and K :: "_ \<Rightarrow> get_result outcome"
    by (rule and_then_forget_cong) (simp_all add: get_locked_loud_same)
  show ?thesis
    unfolding ach_get_loud_def ach_get_def Let_def loud_simps
    using True
    by (auto simp: loud_simps rdlock_loud_same tail case_prod_beta intro!: and_then_forget_cong)
qed (simp add: ach_get_loud_def ach_get_def loud_simps)

lemma ach_put_loud_same:
  "forget_line (snd (ach_put_loud t chan shm buf len)) = forget_line (ach_put t chan shm buf len)"
  by (auto simp: ach_put_loud_def ach_put_def loud_simps Let_def case_prod_beta put_reserve_loud_same
      put_copy_loud_same put_commit_loud_same unwrlock_loud_same say_def
      split: option.split intro!: and_then_forget_cong)

section \<open>Properties\<close>

text \<open>
  C16. Tracing reads and writes.  \<^verbatim>\<open>ach_get_loud\<close> returns what \<^verbatim>\<open>ach_get\<close> returns, waits
  when it waits and faults when it faults, and \<^verbatim>\<open>ach_put_loud\<close> does to the block what
  \<^verbatim>\<open>ach_put\<close> does and returns the same status, on every block, handle, message and course of
  events; only the line of a failed \<open>assert\<close> differs.
\<close>

theorem loud_calls_equiv:
  "forget_line (snd (ach_get_loud t chan shm buf bufsize fsz abstime options clock wakes)) =
     forget_line (ach_get t chan shm buf bufsize fsz abstime options wakes) \<and>
   forget_line (snd (ach_put_loud t chan shm src len)) = forget_line (ach_put t chan shm src len)"
  by (intro conjI ach_get_loud_same ach_put_loud_same)

end
