(* ===== verification/Ach_Wellformed.thy ===== *)
theory Ach_Wellformed
  imports Ach_Lifecycle
begin

text \<open>
  The block of a channel stays well-formed: whatever a process passes to the calls that work on an open
  channel, a call that returns leaves a block at rest, and a write with a real buffer always returns.
\<close>

section \<open>The lock layer\<close>

text \<open>
  A wake-up that a sleeping reader can see among processes that use the library: the block is at rest,
  and the mutex has not been lost for good.
\<close>

definition wake_ok :: "wake \<Rightarrow> bool" where
  "wake_ok w \<longleftrightarrow> at_rest (wake_shm w) \<and> wake_ret w \<noteq> ENOTRECOVERABLE"

lemma at_rest_mutex: "at_rest shm \<Longrightarrow> shm\<lparr>mutex := m, mutex := M_free\<rparr> = shm"
  by (simp add: at_rest_def sync_ready_def)

text \<open>Well-formed but for the mutex, which is held exactly after a successful call.\<close>

definition locked_ok :: "tid \<Rightarrow> ach_status_t \<Rightarrow> ach_header_t \<Rightarrow> bool" where
  "locked_ok t r shm \<longleftrightarrow>
     at_rest (shm\<lparr>mutex := M_free\<rparr>) \<and> mutex shm = (if r = ACH_OK then M_held t else M_free)"

lemma locked_ok_fail: "locked_ok t r shm \<Longrightarrow> r \<noteq> ACH_OK \<Longrightarrow> at_rest shm"
  by (cases shm) (simp add: locked_ok_def)

lemma check_lock_ok:
  assumes "at_rest shm" "e \<noteq> ENOTRECOVERABLE"
    and "check_lock e t (shm\<lparr>mutex := retake_mutex t e\<rparr>) True = (c, shm')"
  shows "locked_ok t c shm'"
proof -
  have d: "dirty shm = 0" using assms(1) by (simp add: at_rest_def sync_ready_def)
  show ?thesis using assms d
    by (cases e) (auto simp: check_lock_def check_dirty_def retake_mutex_def unlock_mutex_def locked_ok_def
        at_rest_mutex)
qed

lemma rdlock_loop_ok:
  assumes "locked_ok t ACH_OK shm" "list_all wake_ok wakes"
    and "rdlock_loop t chan shm w ab wakes = Ret (r, chan', shm')"
  shows "locked_ok t r shm'"
  using assms
proof (induction wakes arbitrary: chan shm)
  case Nil
  then show ?case
    by (cases "ch_cancel chan \<or> \<not> w \<or> ch_seq_num chan \<noteq> last_seq shm")
       (auto simp: rdlock_loop_done rdlock_loop_Nil unlock_mutex_held locked_ok_def split: if_splits)
next
  case (Cons wk ws)
  show ?case
  proof (cases "ch_cancel chan \<or> \<not> w \<or> ch_seq_num chan \<noteq> last_seq shm")
    case True
    with Cons.prems show ?thesis
      by (auto simp: rdlock_loop_done unlock_mutex_held locked_ok_def split: if_splits)
  next
    case False
    let ?i = "cond_wait_result ab (wake_ret wk)"
    obtain c shm2 where cl: "check_lock ?i t ((wake_shm wk)\<lparr>mutex := retake_mutex t ?i\<rparr>) True = (c, shm2)"
      by fastforce
    have "?i \<noteq> ENOTRECOVERABLE" "at_rest (wake_shm wk)"
      using Cons.prems(2) by (simp_all add: wake_ok_def cond_wait_result_def)
    then have "locked_ok t c shm2" using check_lock_ok cl by blast
    with Cons.IH [of shm2 "chan\<lparr>ch_cancel := wake_cancel wk\<rparr>"] Cons.prems(2,3) rdlock_loop_Cons [OF False cl]
    show ?thesis by (cases "c = ACH_OK") simp_all
  qed
qed

lemma rdlock_ok:
  assumes "at_rest shm" "list_all wake_ok wakes" "rdlock t chan shm w ab wakes = Ret (r, chan', shm')"
  shows "locked_ok t r shm'"
proof -
  have s: "sync_ready shm" using assms(1) by (simp add: at_rest_def)
  have "locked_ok t ACH_OK (shm\<lparr>mutex := M_held t\<rparr>)"
    using assms(1) by (simp add: locked_ok_def at_rest_mutex)
  with rdlock_loop_ok [OF _ assms(2)] assms(3) chan_lock_ready [OF s, of t] show ?thesis
    by (simp add: rdlock_def)
qed

lemma unrdlock_ok:
  assumes "locked_ok t ACH_OK shm" "unrdlock t shm = Ret (r, shm')"
  shows "at_rest shm'"
proof -
  have "dirty shm = 0" using assms(1) by (simp add: locked_ok_def at_rest_def sync_ready_def)
  then show ?thesis using assms by (auto simp: locked_ok_def unrdlock_held)
qed

section \<open>The calls\<close>

lemma put_well_formed:
  assumes "at_rest shm" "lseq shm + 1 < 2 ^ 64" "unat len \<le> length buf"
  shows "\<exists>r shm'. ach_put t chan shm (Some buf) len = Ret (r, shm') \<and> at_rest shm' \<and> (r \<noteq> ACH_OK \<longrightarrow> shm' = shm)"
proof (cases "len = 0 \<or> ch_shm chan = None \<or> dsize shm < unat len")
  case True
  then show ?thesis using ach_put_rejected [of "Some buf" len chan shm t] assms(1) by auto
next
  case False
  then show ?thesis using ach_put_keep [OF assms(1) _ _ assms(3,2), of chan t] by (auto simp: size_t_eq_0)
qed

lemma get_well_formed:
  assumes "at_rest shm" "list_all wake_ok wakes"
    and "ach_get t chan shm buf bufsize fsz abstime options wakes = Ret g"
  shows "at_rest (g_shm g)"
  using assms(3)
proof (cases rule: ach_get_cases)
  case (No_lock r chan' shm')
  then show ?thesis using rdlock_ok [OF assms(1,2) No_lock(1)] locked_ok_fail by simp
next
  case (Locked chan' shm' g' missed r shm'')
  then show ?thesis using rdlock_ok [OF assms(1,2) Locked(1)] unrdlock_ok by simp
qed (use assms(1) in simp)

lemma flush_well_formed:
  assumes "at_rest shm" "ach_flush t chan shm = Ret (r, chan', shm')"
  shows "at_rest shm'"
proof -
  obtain r1 chan1 shm1 where l: "rdlock t chan shm False None [] = Ret (r1, chan1, shm1)"
    using assms(2) by (auto simp: ach_flush_def and_then_Ret_iff)
  have ok: "locked_ok t r1 shm1" using rdlock_ok [OF assms(1) _ l] by simp
  show ?thesis
  proof (cases "r1 = ACH_OK")
    case True
    then show ?thesis using assms(2) l ok unrdlock_ok [of t shm1]
      by (auto simp: ach_flush_def and_then_Ret_iff Let_def)
  qed (use assms(2) l locked_ok_fail [OF ok] in \<open>simp add: ach_flush_def\<close>)
qed

lemma cancel_well_formed:
  assumes "at_rest shm"
  shows "\<exists>r shm'. ach_cancel t chan shm attr forked = Ret (r, chan\<lparr>ch_cancel := True\<rparr>, shm') \<and> at_rest shm'"
proof -
  have s: "sync_ready shm" "shm_inv shm" using assms by (simp_all add: at_rest_def)
  obtain n where n: "cond shm = C_ready n" using s(1) by (cases "cond shm") (auto simp: sync_ready_def)
  have m: "shm\<lparr>mutex := M_free\<rparr> = shm" using s(1) by (simp add: sync_ready_def)
  have "at_rest (shm\<lparr>cond := C_ready (Suc n)\<rparr>)"
    using s by (simp add: at_rest_def shm_inv_def sync_ready_def)
  then show ?thesis using assms chan_lock_ready [OF s(1), of t] n m
    by (auto simp: ach_cancel_def Let_def unlock_mutex_def)
qed

section \<open>Properties\<close>

text \<open>
  C17. The calls keep the block well-formed.  On a block at rest, for every handle, flags, sizes and
  buffers: a write whose length stays within its buffer returns, and has changed nothing unless it
  returns \<^verbatim>\<open>ACH_OK\<close>; a read or a flush that returns, a write and a cancellation leave a block at rest:
  guards, index, data section and counts in order, the mutex free and the dirty flag clear.  So it is
  when a channel has been created.
\<close>

theorem calls_keep_block_well_formed:
  assumes "at_rest shm"
  shows "(lseq shm + 1 < 2 ^ 64 \<longrightarrow> unat len \<le> length src \<longrightarrow>
            (\<exists>r shm'. ach_put t chan shm (Some src) len = Ret (r, shm') \<and> at_rest shm' \<and>
               (r \<noteq> ACH_OK \<longrightarrow> shm' = shm))) \<and>
         (\<forall>g. list_all wake_ok wakes \<longrightarrow>
            ach_get t chan shm buf bufsize fsz abstime options wakes = Ret g \<longrightarrow> at_rest (g_shm g)) \<and>
         (\<forall>r chan' shm'. ach_flush t chan shm = Ret (r, chan', shm') \<longrightarrow> at_rest shm') \<and>
         (\<exists>r shm'. ach_cancel t chan shm attr forked = Ret (r, chan\<lparr>ch_cancel := True\<rparr>, shm') \<and> at_rest shm') \<and>
         (sizes_ok n s \<longrightarrow> at_rest (fresh_block name n s))"
  by (intro conjI impI allI put_well_formed cancel_well_formed fresh_block_at_rest(1))
     (use assms get_well_formed [OF assms] flush_well_formed [OF assms] in auto)

theorem calls_keep_block_well_formed_witness:
  "\<exists>r shm'. ach_put 7 (fresh_handle 0 400 3 ach_attr_init) (fresh_block ''a'' 2 4) (Some [1, 2, 3]) 3 = Ret (r, shm') \<and>
     at_rest shm' \<and> at_rest (fresh_block ''imu'' 16 512)"
  using calls_keep_block_well_formed [OF small_block(1), of 3 "[1, 2, 3]" 7 "fresh_handle 0 400 3 ach_attr_init"
      "[]" "[]" 0 0 None 0 None True 16 512 "''imu''"]
  by (auto simp: small_block sizes_ok_def)

end
