(* ===== verification/Ach_Util.thy ===== *)
theory Ach_Util
  imports Ach_Types
begin

text \<open>
  Process plumbing of \<^verbatim>\<open>src/achutil.c\<close> that the daemons share: logging, signal masks and
  dispositions, notification of a parent, dying, and detaching from the terminal.  A process is a
  record; which of its system calls fail is a script, one entry per call.  A call either goes on
  with a result or ends the process with an exit status.
\<close>

section \<open>Processes\<close>

datatype disposition = Sig_dfl | Sig_ign | Sig_dummy | Sig_handler

datatype log_dest = To_stderr | To_syslog

record proc =
  p_pid :: int
  p_ppid :: int
  p_stderr_tty :: bool
  p_verbosity :: int
  p_notify :: int
  p_blocked :: "int list"
  p_disp :: "int \<Rightarrow> disposition"
  p_log :: "(log_dest \<times> int \<times> string) list"
  p_kills :: "(int \<times> int) list"
  p_own_session :: bool
  p_cwd :: string
  p_stdin_open :: bool
  p_alarm :: "nat option"
  p_script :: "bool list"

datatype 'a run = Exit int proc | Go 'a proc

primrec run_then :: "'a run \<Rightarrow> ('a \<Rightarrow> proc \<Rightarrow> 'b run) \<Rightarrow> 'b run" where
  "run_then (Exit c p) f = Exit c p"
| "run_then (Go x p) f = f x p"

lemma run_then_assoc: "run_then (run_then m f) g = run_then m (\<lambda>x p. run_then (f x p) g)"
  by (cases m) auto

text \<open>Whether the next call fails.\<close>

definition call_fails :: "proc \<Rightarrow> bool \<times> proc" where
  "call_fails p =
     (case p_script p of [] \<Rightarrow> (False, p) | b # bs \<Rightarrow> (b, p\<lparr>p_script := bs\<rparr>))"

definition LOG_CRIT :: int where "LOG_CRIT = 2"
definition LOG_ERR :: int where "LOG_ERR = 3"
definition LOG_WARNING :: int where "LOG_WARNING = 4"
definition LOG_NOTICE :: int where "LOG_NOTICE = 5"
definition LOG_INFO :: int where "LOG_INFO = 6"
definition LOG_DEBUG :: int where "LOG_DEBUG = 7"

definition SIGHUP :: int where "SIGHUP = 1"
definition SIGINT :: int where "SIGINT = 2"
definition SIGUSR1 :: int where "SIGUSR1 = 10"
definition SIGUSR2 :: int where "SIGUSR2 = 12"
definition SIGPIPE :: int where "SIGPIPE = 13"
definition SIGALRM :: int where "SIGALRM = 14"
definition SIGTERM :: int where "SIGTERM = 15"
definition SIGCHLD :: int where "SIGCHLD = 17"

definition ACH_SIG_OK :: int where "ACH_SIG_OK = SIGUSR1"
definition ACH_SIG_FAIL :: int where "ACH_SIG_FAIL = SIGUSR2"
definition ACH_PARENT_TIMEOUT_SEC :: nat where "ACH_PARENT_TIMEOUT_SEC = 3"

section \<open>Logging and dying\<close>

definition ach_log :: "int \<Rightarrow> string \<Rightarrow> proc \<Rightarrow> proc" where
  "ach_log level msg p =
     p\<lparr>p_log := p_log p
        @ (if p_stderr_tty p then [(To_stderr, level, msg)] else [])
        @ (if \<not> p_stderr_tty p \<or> p_ppid p = 1 then [(To_syslog, level, msg)] else [])\<rparr>"

definition ACH_LOG :: "int \<Rightarrow> string \<Rightarrow> proc \<Rightarrow> proc" where
  "ACH_LOG priority msg p =
     (if priority \<le> LOG_NOTICE + p_verbosity p then ach_log priority msg p else p)"

definition ach_notify :: "int \<Rightarrow> proc \<Rightarrow> proc" where
  "ach_notify sig p =
     (if p_notify p > 0
      then let (failed, p) = call_fails p;
               p = (if failed
                    then ACH_LOG LOG_ERR (''Could not notify pid '' @ show_int (p_notify p)) p
                    else p\<lparr>p_kills := p_kills p @ [(p_notify p, sig)]\<rparr>)
           in p\<lparr>p_notify := 0\<rparr>
      else p)"

definition ach_die :: "proc \<Rightarrow> 'a run" where
  "ach_die p = Exit 1 (if p_ppid p \<noteq> p_notify p then ach_notify ACH_SIG_FAIL p else p)"

definition ACH_DIE :: "string \<Rightarrow> proc \<Rightarrow> 'a run" where
  "ACH_DIE msg p = ach_die (ACH_LOG LOG_ERR msg p)"

section \<open>Signals\<close>

text \<open>
  A zero-terminated array of signal numbers is the list of the numbers before the zero.  Filling a
  mask fails when a call does, or for a number that is not a signal.
\<close>

definition valid_signal :: "int \<Rightarrow> bool" where
  "valid_signal s \<longleftrightarrow> 0 < s \<and> s \<le> 64"

fun add_signals :: "int list \<Rightarrow> int list \<Rightarrow> proc \<Rightarrow> int list run" where
  "add_signals [] m p = Go m p"
| "add_signals (s # ss) m p =
     (let (failed, p) = call_fails p
      in if failed \<or> \<not> valid_signal s then ACH_DIE ''sigaddset failed'' p
         else add_signals ss (if s \<in> set m then m else m @ [s]) p)"

definition ach_sig_mask :: "int list \<Rightarrow> proc \<Rightarrow> int list run" where
  "ach_sig_mask sig p =
     (let (failed, p) = call_fails p
      in if failed then ACH_DIE ''sigemptyset failed'' p else add_signals sig [] p)"

text \<open>\<open>arrived\<close> is the signal of the set that the kernel delivers.\<close>

definition ach_sig_wait :: "int list \<Rightarrow> int \<Rightarrow> proc \<Rightarrow> int run" where
  "ach_sig_wait sigs arrived p =
     (let p = ACH_LOG LOG_DEBUG (''pid '' @ show_int (p_pid p) @ '' waiting for signal'') p
      in run_then (ach_sig_mask sigs p) (\<lambda>_ p.
         let (failed, p) = call_fails p
         in if failed then ACH_DIE ''sigwait failed'' p
            else Go arrived (ACH_LOG LOG_DEBUG (''pid '' @ show_int (p_pid p) @ '' signalled'') p)))"

fun install_dummy :: "int list \<Rightarrow> proc \<Rightarrow> proc" where
  "install_dummy [] p = p"
| "install_dummy (s # ss) p =
     (let (failed, p) = call_fails p
      in install_dummy ss
           (if failed then ACH_LOG LOG_ERR ''Couldn't install signal handler'' p
            else p\<lparr>p_disp := (p_disp p)(s := Sig_dummy)\<rparr>))"

definition ach_sig_block_dummy :: "int list \<Rightarrow> proc \<Rightarrow> unit run" where
  "ach_sig_block_dummy sig p =
     run_then (ach_sig_mask sig p) (\<lambda>mask p.
     let (failed, p) = call_fails p
     in if failed then ACH_DIE ''sigprocmask failed'' p
        else Go () (install_dummy sig (p\<lparr>p_blocked := remdups (mask @ p_blocked p)\<rparr>)))"

fun restore_default :: "int list \<Rightarrow> proc \<Rightarrow> proc" where
  "restore_default [] p = p"
| "restore_default (s # ss) p =
     (let (failed, p) = call_fails p
      in restore_default ss
           (if failed then ACH_LOG LOG_ERR ''Couldn't set default signal disposition'' p
            else p\<lparr>p_disp := (p_disp p)(s := Sig_dfl)\<rparr>))"

definition ach_sig_dfl_unblock :: "int list \<Rightarrow> proc \<Rightarrow> unit run" where
  "ach_sig_dfl_unblock sig p =
     run_then (ach_sig_mask sig (restore_default sig p)) (\<lambda>mask p.
     let (failed, p) = call_fails p
     in if failed then ACH_DIE ''sigprocmask failed'' p
        else Go () (p\<lparr>p_blocked := filter (\<lambda>s. s \<notin> set mask) (p_blocked p)\<rparr>))"

section \<open>Detaching\<close>

definition detach_sigs :: "int list" where
  "detach_sigs = [ACH_SIG_OK, ACH_SIG_FAIL, SIGALRM]"

text \<open>The process that called, after the first fork: it waits and exits.\<close>

definition detach_grandparent :: "nat \<Rightarrow> int \<Rightarrow> proc \<Rightarrow> 'a run" where
  "detach_grandparent timeout arrived p =
     run_then (ach_sig_wait detach_sigs arrived (p\<lparr>p_alarm := Some timeout\<rparr>)) (\<lambda>sig p.
     let p = ACH_LOG LOG_DEBUG ''Detach grandparent got signal'' p
     in if sig = SIGALRM
        then Exit 1 (ACH_LOG LOG_ERR ''Detached child failed on timeout'' p)
        else if sig = SIGUSR2
        then Exit 1 (ACH_LOG LOG_ERR ''Detached child reported failure'' p)
        else if sig = SIGUSR1
        then Exit 0 (ACH_LOG LOG_DEBUG ''Detached child OK'' p)
        else Exit 1 (ACH_LOG LOG_ERR ''Unexpected signal in detach'' p))"

text \<open>A call whose failure is only logged.\<close>

definition try_call :: "string \<Rightarrow> (proc \<Rightarrow> proc) \<Rightarrow> proc \<Rightarrow> proc" where
  "try_call msg act p =
     (let (failed, p) = call_fails p in if failed then ACH_LOG LOG_ERR msg p else act p)"

text \<open>The grandchild after the second fork; it returns the pid of the process that called.\<close>

definition detach_grandchild :: "int \<Rightarrow> proc \<Rightarrow> int run" where
  "detach_grandchild gp_pid p =
     (let p = ACH_LOG LOG_DEBUG ''detach child'' p;
          p = try_call ''Couldn't ignore SIGHUP'' (\<lambda>p. p\<lparr>p_disp := (p_disp p)(SIGHUP := Sig_ign)\<rparr>) p;
          p = try_call ''Couldn't cd to /'' (\<lambda>p. p\<lparr>p_cwd := ''/''\<rparr>) p;
          p = try_call ''Couldn't close stdin'' (\<lambda>p. p\<lparr>p_stdin_open := False\<rparr>) p
      in Go gp_pid p)"

text \<open>Which of the processes we follow through a fork.\<close>

datatype fork_side = Fork_failed | Fork_parent | Fork_child int

definition ach_detach :: "nat \<Rightarrow> fork_side \<Rightarrow> fork_side \<Rightarrow> int \<Rightarrow> proc \<Rightarrow> int run" where
  "ach_detach timeout fork1 fork2 arrived p =
     (let gp_pid = p_pid p;
          p = ACH_LOG LOG_DEBUG (''detach grandparent: '' @ show_int gp_pid) p
      in run_then (ach_sig_block_dummy detach_sigs p) (\<lambda>_ p.
         case fork1 of
           Fork_failed \<Rightarrow> ACH_DIE ''First fork failed'' p
         | Fork_parent \<Rightarrow> detach_grandparent timeout arrived p
         | Fork_child pid1 \<Rightarrow>
             run_then (ach_sig_dfl_unblock detach_sigs (p\<lparr>p_ppid := p_pid p, p_pid := pid1\<rparr>)) (\<lambda>_ p.
             let p = try_call ''Couldn't set sid'' (\<lambda>p. p\<lparr>p_own_session := True\<rparr>) p
             in case fork2 of
                  Fork_failed \<Rightarrow> detach_grandchild gp_pid (ACH_LOG LOG_ERR ''Second fork failed'' p)
                | Fork_parent \<Rightarrow> Exit 0 (ACH_LOG LOG_DEBUG ''detach parent'' p)
                | Fork_child pid2 \<Rightarrow>
                    detach_grandchild gp_pid (p\<lparr>p_ppid := p_pid p, p_pid := pid2\<rparr>))))"

section \<open>Facts\<close>

text \<open>When no call fails, each helper has one effect; logging changes nothing else.\<close>

lemma call_fails_quiet [simp]: "p_script p = [] \<Longrightarrow> call_fails p = (False, p)"
  by (simp add: call_fails_def)

definition logged :: "proc \<Rightarrow> proc \<Rightarrow> bool" where
  "logged p p' \<longleftrightarrow> p' = p\<lparr>p_log := p_log p'\<rparr>"

lemma ACH_LOG_fields [simp]:
  "p_script (ACH_LOG l m p) = p_script p" "p_pid (ACH_LOG l m p) = p_pid p"
  "p_ppid (ACH_LOG l m p) = p_ppid p" "p_blocked (ACH_LOG l m p) = p_blocked p"
  "p_disp (ACH_LOG l m p) = p_disp p" "p_kills (ACH_LOG l m p) = p_kills p"
  "p_notify (ACH_LOG l m p) = p_notify p" "p_own_session (ACH_LOG l m p) = p_own_session p"
  "p_cwd (ACH_LOG l m p) = p_cwd p" "p_stdin_open (ACH_LOG l m p) = p_stdin_open p"
  "p_alarm (ACH_LOG l m p) = p_alarm p"
  by (simp_all add: ACH_LOG_def ach_log_def)

lemma add_signals_quiet:
  "p_script p = [] \<Longrightarrow> list_all valid_signal ss \<Longrightarrow>
   add_signals ss m p = Go (foldl (\<lambda>m s. if s \<in> set m then m else m @ [s]) m ss) p"
  by (induction ss arbitrary: m) simp_all

lemma ach_sig_mask_quiet:
  assumes "p_script p = []" "list_all valid_signal ss" "distinct ss"
  shows "ach_sig_mask ss p = Go ss p"
proof -
  have "distinct (m @ ss) \<Longrightarrow> foldl (\<lambda>m s. if s \<in> set m then m else m @ [s]) m ss = m @ ss" for m
    by (induction ss arbitrary: m) auto
  from this [of "[]"] show ?thesis
    using assms by (simp add: ach_sig_mask_def add_signals_quiet)
qed

lemma detach_sigs_ok: "list_all valid_signal detach_sigs" "distinct detach_sigs"
  by (simp_all add: detach_sigs_def valid_signal_def ACH_SIG_OK_def ACH_SIG_FAIL_def SIGUSR1_def
      SIGUSR2_def SIGALRM_def)

lemma install_dummy_quiet:
  "p_script p = [] \<Longrightarrow>
   install_dummy ss p = p\<lparr>p_disp := (\<lambda>s. if s \<in> set ss then Sig_dummy else p_disp p s)\<rparr>"
  by (induction ss arbitrary: p) (auto simp: fun_eq_iff intro!: arg_cong [of _ _ "\<lambda>d. p_disp_update (\<lambda>_. d) _"])

lemma restore_default_quiet:
  "p_script p = [] \<Longrightarrow>
   restore_default ss p = p\<lparr>p_disp := (\<lambda>s. if s \<in> set ss then Sig_dfl else p_disp p s)\<rparr>"
  by (induction ss arbitrary: p) (auto simp: fun_eq_iff intro!: arg_cong [of _ _ "\<lambda>d. p_disp_update (\<lambda>_. d) _"])

lemma block_dummy_quiet:
  "p_script p = [] \<Longrightarrow> ach_sig_block_dummy detach_sigs p =
   Go () (p\<lparr>p_blocked := remdups (detach_sigs @ p_blocked p),
            p_disp := (\<lambda>s. if s \<in> set detach_sigs then Sig_dummy else p_disp p s)\<rparr>)"
  by (simp add: ach_sig_block_dummy_def ach_sig_mask_quiet detach_sigs_ok install_dummy_quiet) (simp cong: if_cong)

lemma dfl_unblock_quiet:
  "p_script p = [] \<Longrightarrow> ach_sig_dfl_unblock detach_sigs p =
   Go () (p\<lparr>p_disp := (\<lambda>s. if s \<in> set detach_sigs then Sig_dfl else p_disp p s),
            p_blocked := filter (\<lambda>s. s \<notin> set detach_sigs) (p_blocked p)\<rparr>)"
  by (simp add: ach_sig_dfl_unblock_def ach_sig_mask_quiet detach_sigs_ok restore_default_quiet)

section \<open>Properties\<close>

text \<open>
  Detaching.  When no call fails, the process that called \<^verbatim>\<open>ach_detach\<close> exits with
  success exactly when the first signal it receives is the child's report of success; the process in
  between exits with success; and the daemon process gets the caller's pid, runs in a session of its
  own in the root directory with standard input closed and hang-ups ignored, and has the signals used
  for the report unblocked with their default disposition.
\<close>

lemma detach_outcomes:
  assumes "p_script p = []"
  shows "(\<exists>p'. ach_detach timeout Fork_parent f2 arrived p =
            Exit (if arrived = SIGUSR1 then 0 else 1) p') \<and>
         (\<exists>p'. ach_detach timeout (Fork_child a) Fork_parent arrived p = Exit 0 p') \<and>
         (\<exists>p'. ach_detach timeout (Fork_child a) (Fork_child b) arrived p = Go (p_pid p) p' \<and>
            p_pid p' = b \<and> p_own_session p' \<and> p_cwd p' = ''/'' \<and> \<not> p_stdin_open p' \<and>
            p_disp p' SIGHUP = Sig_ign \<and>
            (\<forall>s. s = SIGUSR1 \<or> s = SIGUSR2 \<or> s = SIGALRM \<longrightarrow>
               s \<notin> set (p_blocked p') \<and> p_disp p' s = Sig_dfl))"
proof -
  have mem: "set detach_sigs = {SIGUSR1, SIGUSR2, SIGALRM}"
    by (simp add: detach_sigs_def ACH_SIG_OK_def ACH_SIG_FAIL_def insert_commute)
  have ne: "SIGHUP \<notin> {SIGUSR1, SIGUSR2, SIGALRM}" "SIGALRM \<noteq> SIGUSR1" "SIGUSR2 \<noteq> SIGUSR1"
    by (simp_all add: SIGHUP_def SIGUSR1_def SIGUSR2_def SIGALRM_def)
  have 1: "\<exists>p'. ach_detach timeout Fork_parent f2 arrived p = Exit (if arrived = SIGUSR1 then 0 else 1) p'"
    using assms ne by (auto simp: ach_detach_def block_dummy_quiet detach_grandparent_def
        ach_sig_wait_def ach_sig_mask_quiet detach_sigs_ok Let_def)
  have 2: "\<exists>p'. ach_detach timeout (Fork_child a) Fork_parent arrived p = Exit 0 p'"
    using assms by (simp add: ach_detach_def block_dummy_quiet dfl_unblock_quiet try_call_def Let_def)
  have 3: "\<exists>p'. ach_detach timeout (Fork_child a) (Fork_child b) arrived p = Go (p_pid p) p' \<and>
            p_pid p' = b \<and> p_own_session p' \<and> p_cwd p' = ''/'' \<and> \<not> p_stdin_open p' \<and>
            p_disp p' SIGHUP = Sig_ign \<and>
            (\<forall>s. s = SIGUSR1 \<or> s = SIGUSR2 \<or> s = SIGALRM \<longrightarrow>
               s \<notin> set (p_blocked p') \<and> p_disp p' s = Sig_dfl)"
    using assms ne
    by (simp add: ach_detach_def block_dummy_quiet dfl_unblock_quiet try_call_def
        detach_grandchild_def Let_def mem)
  from 1 2 3 show ?thesis by blast
qed

definition a_process :: proc where
  "a_process = \<lparr>p_pid = 100, p_ppid = 50, p_stderr_tty = True, p_verbosity = 0, p_notify = 0,
     p_blocked = [], p_disp = (\<lambda>_. Sig_dfl), p_log = [], p_kills = [], p_own_session = False,
     p_cwd = ''/home'', p_stdin_open = True, p_alarm = None, p_script = []\<rparr>"

lemma detach_outcomes_witness:
  "\<exists>p'. ach_detach 3 Fork_parent Fork_failed SIGALRM a_process = Exit 1 p'"
  using detach_outcomes [of a_process 3 Fork_failed SIGALRM 101 102]
  by (auto simp: a_process_def SIGALRM_def SIGUSR1_def)

text \<open>
  One report.  However often \<^verbatim>\<open>ach_notify\<close> is called, and whatever fails, a process
  signals the one that waits for its report at most once; afterwards no process is left to notify.
\<close>

lemma notify_once:
  "length (p_kills (fold ach_notify sigs p)) \<le> length (p_kills p) + 1 \<and>
   (p_notify p \<le> 0 \<longrightarrow> fold ach_notify sigs p = p)"
proof -
  have idle: "fold ach_notify sigs q = q" if "p_notify q \<le> 0" for sigs q
    using that by (induction sigs) (simp_all add: ach_notify_def)
  have one: "length (p_kills (ach_notify s q)) \<le> length (p_kills q) + 1 \<and>
      (0 < p_notify q \<longrightarrow> p_notify (ach_notify s q) = 0)" for s q
    by (auto simp: ach_notify_def call_fails_def Let_def split: list.split bool.split)
  show ?thesis
  proof (cases sigs)
    case (Cons s ss)
    show ?thesis
    proof (cases "0 < p_notify p")
      case True
      then have "fold ach_notify sigs p = ach_notify s p" using one [of s p] idle Cons by simp
      with one [of s p] True show ?thesis by simp
    qed (simp add: idle)
  qed simp
qed

lemma notify_once_witness:
  "length (p_kills (fold ach_notify [ACH_SIG_OK, ACH_SIG_FAIL] (a_process\<lparr>p_notify := 50\<rparr>))) \<le> 1 \<and>
   fold ach_notify [ACH_SIG_OK] a_process = a_process"
  using notify_once [of "[ACH_SIG_OK, ACH_SIG_FAIL]" "a_process\<lparr>p_notify := 50\<rparr>"]
    notify_once [of "[ACH_SIG_OK]" a_process] by (simp add: a_process_def)

end
