(* ===== verification/Ach_Stream.thy ===== *)
theory Ach_Stream
  imports Ach_Types
begin

text \<open>
  Messages on byte streams: \<^verbatim>\<open>src/ach_stream.c\<close>.  A stream to read from is the sequence of
  what successive \<open>read\<close> calls find: chunks of bytes of any size, errors, and the end.  A stream
  to write to is the sequence of how many bytes successive \<open>write\<close> calls accept, with the bytes
  accepted so far.
\<close>

section \<open>Streams\<close>

datatype in_event = In_data "byte list" | In_err bool

text \<open>\<open>In_err True\<close> is an interruption by a signal, \<open>In_err False\<close> any other error.\<close>

type_synonym in_stream = "in_event list"

fun sys_read :: "nat \<Rightarrow> in_stream \<Rightarrow> int \<times> byte list \<times> in_stream" where
  "sys_read n [] = (0, [], [])"
| "sys_read n (In_err e # s) = (-1, [], s)"
| "sys_read n (In_data bs # s) =
     (if n = 0 then (0, [], In_data bs # s)
      else if bs = [] then sys_read n s
      else if length bs \<le> n then (int (length bs), bs, s)
      else (int n, take n bs, In_data (drop n bs) # s))"

datatype out_event = Out_accept nat | Out_err bool

record out_stream =
  out_events :: "out_event list"
  out_bytes :: "byte list"

text \<open>An accepting call takes at least one byte; with no event left everything is accepted.\<close>

definition sys_write :: "byte list \<Rightarrow> out_stream \<Rightarrow> int \<times> out_stream" where
  "sys_write bs s =
     (case out_events s of
        [] \<Rightarrow> (int (length bs), s\<lparr>out_bytes := out_bytes s @ bs\<rparr>)
      | Out_err e # es \<Rightarrow> (-1, s\<lparr>out_events := es\<rparr>)
      | Out_accept k # es \<Rightarrow>
          (let n = min (Suc k) (length bs)
           in (int n, s\<lparr>out_events := es, out_bytes := out_bytes s @ take n bs\<rparr>)))"

text \<open>A \<open>size_t\<close> cast to \<open>int\<close>.\<close>

definition c_int :: "nat \<Rightarrow> int" where
  "c_int n = signed_take_bit 31 (int n)"

section \<open>Filling and draining\<close>

lemma sys_read_length:
  "sys_read n s = (r, bs, s') \<Longrightarrow> 0 < r \<Longrightarrow> length bs \<le> n \<and> 0 < length bs \<and> r = int (length bs)"
  by (induction n s rule: sys_read.induct) (auto split: if_splits)

text \<open>The bytes already read are \<open>acc\<close>; the loop goes on until there are \<open>cnt\<close> of them.\<close>

function read_fill_from :: "nat \<Rightarrow> byte list \<Rightarrow> in_stream \<Rightarrow> int \<times> byte list \<times> in_stream" where
  "read_fill_from cnt acc s =
     (case sys_read (cnt - length acc) s of
        (r, bs, s') \<Rightarrow>
          if r > 0
          then if length (acc @ bs) < cnt then read_fill_from cnt (acc @ bs) s'
               else (c_int cnt, acc @ bs, s')
          else (r, acc, s'))"
  by pat_completeness auto
termination
  by (relation "measure (\<lambda>(cnt, acc, s). cnt - length acc)")
     (auto, drule sym, drule sys_read_length, assumption, linarith)

declare read_fill_from.simps [simp del]

definition ach_stream_read_fill :: "nat \<Rightarrow> in_stream \<Rightarrow> int \<times> byte list \<times> in_stream" where
  "ach_stream_read_fill cnt s = read_fill_from cnt [] s"

lemma sys_write_length:
  "sys_write bs s = (r, s') \<Longrightarrow> 0 < r \<Longrightarrow> 0 < nat r \<and> nat r \<le> length bs"
  by (auto simp: sys_write_def Let_def split: list.splits out_event.splits)

function write_fill_from :: "byte list \<Rightarrow> nat \<Rightarrow> out_stream \<Rightarrow> int \<times> out_stream" where
  "write_fill_from buf n s =
     (case sys_write (drop n buf) s of
        (r, s') \<Rightarrow>
          if r > 0
          then if n + nat r < length buf then write_fill_from buf (n + nat r) s'
               else (c_int (length buf), s')
          else (r, s'))"
  by pat_completeness auto
termination
  by (relation "measure (\<lambda>(buf, n, s). length buf - n)") auto

declare write_fill_from.simps [simp del]

definition ach_stream_write_fill :: "byte list \<Rightarrow> out_stream \<Rightarrow> int \<times> out_stream" where
  "ach_stream_write_fill buf s = write_fill_from buf 0 s"

section \<open>Messages\<close>

definition ascii :: "string \<Rightarrow> byte list" where
  "ascii s = map (\<lambda>c. of_nat (of_char c)) s"

definition newline :: string where "newline = [CHR 0x0A]"

lemma ascii_append [simp]: "ascii (a @ b) = ascii a @ ascii b"
  by (simp add: ascii_def)

lemma ascii_newline [simp]: "ascii newline = [10]"
  by (simp add: ascii_def newline_def)

definition ach_stream_presize :: "byte list" where "ach_stream_presize = ascii ''size''"
definition ach_stream_postsize :: "byte list" where "ach_stream_postsize = ascii ''data''"

text \<open>\<open>htonl\<close> and \<open>ntohl\<close>: four bytes, the most significant first.\<close>

definition htonl :: "uint32 \<Rightarrow> byte list" where
  "htonl w = [ucast (drop_bit 24 w), ucast (drop_bit 16 w), ucast (drop_bit 8 w), ucast w]"

definition ntohl :: "byte list \<Rightarrow> uint32" where
  "ntohl bs = foldl (\<lambda>w b. push_bit 8 w OR ucast b) 0 bs"

definition stream_header :: "nat \<Rightarrow> byte list" where
  "stream_header cnt = ach_stream_presize @ htonl (of_nat cnt) @ ach_stream_postsize"

definition ach_stream_write_msg :: "byte list \<Rightarrow> out_stream \<Rightarrow> (int \<times> out_stream) outcome" where
  "ach_stream_write_msg buf s =
     (let (r, s) = ach_stream_write_fill (stream_header (length buf)) s
      in if r \<le> 0 then Ret (r, s)
         else and_then (c_assert 108 (r = 12)) (\<lambda>_.
              let (r, s) = ach_stream_write_fill buf s
              in and_then (c_assert 112 (c_int (length buf) = r \<or> r \<le> 0)) (\<lambda>_.
                 Ret (r + 12, s))))"

definition ach_stream_read_msg_size :: "in_stream \<Rightarrow> (int \<times> int \<times> in_stream) outcome" where
  "ach_stream_read_msg_size s =
     (let (r, buf, s) = ach_stream_read_fill 12 s
      in if r \<le> 0 then Ret (r, -1, s)
         else and_then (c_assert 128 (r = 12)) (\<lambda>_.
              if take 4 buf = ach_stream_presize \<and> take 4 (drop 8 buf) = ach_stream_postsize
              then Ret (r, uint (ntohl (take 4 (drop 4 buf))), s)
              else Ret (r, -1, s)))"

definition ach_stream_read_msg_data ::
  "nat \<Rightarrow> nat \<Rightarrow> in_stream \<Rightarrow> (int \<times> byte list \<times> in_stream) outcome" where
  "ach_stream_read_msg_data msg_size buf_size s =
     and_then (c_assert 143 (buf_size \<ge> msg_size)) (\<lambda>_.
     if buf_size < msg_size then Ret (-1, [], s)
     else let (r, buf, s) = ach_stream_read_fill msg_size s
          in if r \<le> 0 then Ret (r, buf, s)
             else and_then (c_assert 148 (int msg_size = r)) (\<lambda>_. Ret (r, buf, s)))"

section \<open>Lines\<close>

text \<open>
  One byte of \<^verbatim>\<open>ach_read_line\<close>.  The \<open>errno\<close> tested after the call may be an old one:
  the end of the stream does not change it.
\<close>

fun read_byte :: "nat \<Rightarrow> bool \<Rightarrow> in_stream \<Rightarrow> byte option \<times> bool \<times> in_stream" where
  "read_byte tries eintr s =
     (let (r, bs, s') = sys_read 1 s;
          eintr' = (if r = -1 then (case s of In_err e # _ \<Rightarrow> e | _ \<Rightarrow> eintr) else eintr)
      in if r = 1 then (Some (hd bs), eintr', s')
         else if eintr' \<and> 0 < tries then read_byte (tries - 1) eintr' s'
         else (None, eintr', s'))"

declare read_byte.simps [simp del]

text \<open>
  The loop at position \<open>i\<close> of the buffer, up to \<open>lim\<close>.  When a byte does not come the
  code still steps past \<^verbatim>\<open>buf[i]\<close> before it terminates the string.
\<close>

function read_line_from ::
  "byte list \<Rightarrow> nat \<Rightarrow> nat \<Rightarrow> bool \<Rightarrow> in_stream \<Rightarrow> (int \<times> byte list \<times> in_stream) outcome" where
  "read_line_from buf i lim eintr s =
     (if i < lim
      then (if length buf \<le> i then Fault Out_of_bounds
            else case read_byte ACH_INTR_RETRY eintr s of
              (b, eintr', s') \<Rightarrow>
                let buf = (case b of Some c \<Rightarrow> buf[i := c] | None \<Rightarrow> buf)
                in if b = None \<or> buf ! i = 10
                   then if i + 1 < length buf then Ret (c_int (i + 1), buf[i + 1 := 0], s')
                        else Fault Out_of_bounds
                   else read_line_from buf (i + 1) lim eintr' s')
      else if i = 0 \<or> length buf \<le> i then Fault Out_of_bounds
      else and_then (c_assert 173 (buf ! (i - 1) \<noteq> 10)) (\<lambda>_. Ret (c_int i, buf[i := 0], s)))"
  by pat_completeness auto
termination
  by (relation "measure (\<lambda>(buf, i, lim, e, s). lim - i)") auto

declare read_line_from.simps [simp del]

text \<open>The bound \<^verbatim>\<open>n - 1\<close> is computed in \<open>size_t\<close>.\<close>

definition ach_read_line ::
  "byte list \<Rightarrow> nat \<Rightarrow> bool \<Rightarrow> in_stream \<Rightarrow> (int \<times> byte list \<times> in_stream) outcome" where
  "ach_read_line buf n eintr s = read_line_from buf 0 ((n + (2 ^ 64 - 1)) mod 2 ^ 64) eintr s"

section \<open>What reads and writes move\<close>

text \<open>The bytes that come before the first error or the end.\<close>

fun pending :: "in_stream \<Rightarrow> byte list" where
  "pending [] = []"
| "pending (In_data bs # s) = bs @ pending s"
| "pending (In_err e # s) = []"

lemma sys_read_pending:
  assumes "0 < n" "pending s \<noteq> []"
  shows "\<exists>k s'. sys_read n s = (int k, take k (pending s), s') \<and> 0 < k \<and> k \<le> n \<and>
           k \<le> length (pending s) \<and> pending s' = drop k (pending s)"
  using assms
proof (induction n s rule: sys_read.induct)
  case (3 n bs s)
  show ?case
  proof (cases "bs = []")
    case True
    with 3 show ?thesis by simp
  next
    case False
    show ?thesis
    proof (cases "length bs \<le> n")
      case True
      with False "3.prems" show ?thesis by (intro exI [of _ "length bs"] exI [of _ s]) simp
    next
      case long: False
      with False "3.prems" show ?thesis
        by (intro exI [of _ n] exI [of _ "In_data (drop n bs) # s"]) simp
    qed
  qed
qed simp_all

lemma read_fill_from_ok:
  assumes "length acc < cnt" "cnt - length acc \<le> length (pending s)"
  shows "\<exists>s'. read_fill_from cnt acc s = (c_int cnt, acc @ take (cnt - length acc) (pending s), s') \<and>
           pending s' = drop (cnt - length acc) (pending s)"
  using assms
proof (induction cnt acc s rule: read_fill_from.induct)
  case (1 cnt acc s)
  let ?m = "cnt - length acc"
  have "0 < ?m" "pending s \<noteq> []" using "1.prems" by auto
  from sys_read_pending [OF this] obtain k s' where
    r: "sys_read ?m s = (int k, take k (pending s), s')" and k: "0 < k" "k \<le> ?m"
      "k \<le> length (pending s)" and p: "pending s' = drop k (pending s)" by blast
  show ?case
  proof (cases "k = ?m")
    case True
    with r k p "1.prems" show ?thesis
      by (intro exI [of _ s']) (simp add: read_fill_from.simps [of cnt acc s])
  next
    case False
    then have lt: "length acc + k < cnt" using k by simp
    have step: "read_fill_from cnt acc s = read_fill_from cnt (acc @ take k (pending s)) s'"
      using r k lt by (simp add: read_fill_from.simps [of cnt acc s])
    have m: "cnt - length (acc @ take k (pending s)) = ?m - k" using k by simp
    have lt': "length (acc @ take k (pending s)) < cnt" using k lt by simp
    have le: "cnt - length (acc @ take k (pending s)) \<le> length (pending s')"
      using p "1.prems"(2) k unfolding m by simp
    obtain s'' where "read_fill_from cnt (acc @ take k (pending s)) s' =
        (c_int cnt, (acc @ take k (pending s)) @ take (?m - k) (pending s'), s'')"
      "pending s'' = drop (?m - k) (pending s')"
      using "1.IH" [OF r [symmetric] refl _ lt' lt' le] k(1) unfolding m by auto
    moreover have "take k (pending s) @ take (?m - k) (pending s') = take ?m (pending s)"
      unfolding p using k by (metis le_add_diff_inverse take_add)
    moreover have "drop (?m - k) (pending s') = drop ?m (pending s)" unfolding p using k by simp
    ultimately show ?thesis unfolding step by simp
  qed
qed

lemma read_fill_ok:
  "0 < cnt \<Longrightarrow> cnt \<le> length (pending s) \<Longrightarrow>
   \<exists>s'. ach_stream_read_fill cnt s = (c_int cnt, take cnt (pending s), s') \<and>
        pending s' = drop cnt (pending s)"
  using read_fill_from_ok [of "[]" cnt s] by (simp add: ach_stream_read_fill_def)

definition no_out_errors :: "out_stream \<Rightarrow> bool" where
  "no_out_errors s \<longleftrightarrow> list_all (\<lambda>e. \<exists>k. e = Out_accept k) (out_events s)"

lemma sys_write_ok:
  assumes "bs \<noteq> []" "no_out_errors s"
  shows "\<exists>k s'. sys_write bs s = (int k, s') \<and> 0 < k \<and> k \<le> length bs \<and> no_out_errors s' \<and>
           out_bytes s' = out_bytes s @ take k bs"
proof (cases "out_events s")
  case Nil
  with assms show ?thesis by (simp add: sys_write_def no_out_errors_def)
next
  case (Cons e es)
  with assms(2) obtain k where "e = Out_accept k" by (auto simp: no_out_errors_def)
  with Cons assms show ?thesis
    by (auto simp: sys_write_def no_out_errors_def Let_def intro!: exI [of _ "min (Suc k) (length bs)"])
qed

lemma write_fill_from_ok:
  assumes "n < length buf" "no_out_errors s"
  shows "\<exists>s'. write_fill_from buf n s = (c_int (length buf), s') \<and> no_out_errors s' \<and>
           out_bytes s' = out_bytes s @ drop n buf"
  using assms
proof (induction buf n s rule: write_fill_from.induct)
  case (1 buf n s)
  have "drop n buf \<noteq> []" using "1.prems"(1) by simp
  from sys_write_ok [OF this "1.prems"(2)] obtain k s' where
    w: "sys_write (drop n buf) s = (int k, s')" and k: "0 < k" "k \<le> length buf - n"
    and s': "no_out_errors s'" "out_bytes s' = out_bytes s @ take k (drop n buf)" by auto
  show ?case
  proof (cases "n + k < length buf")
    case True
    then have step: "write_fill_from buf n s = write_fill_from buf (n + k) s'"
      using w k by (simp add: write_fill_from.simps [of buf n s])
    have "take k (drop n buf) @ drop (n + k) buf = drop n buf"
      by (metis add.commute append_take_drop_id drop_drop)
    then show ?thesis
      unfolding step using "1.IH" [OF w [symmetric]] k True s' by (auto simp: add.commute)
  next
    case False
    then have "take k (drop n buf) = drop n buf" using k by simp
    with w k False s' show ?thesis by (simp add: write_fill_from.simps [of buf n s])
  qed
qed

lemma write_fill_ok:
  "buf \<noteq> [] \<Longrightarrow> no_out_errors s \<Longrightarrow>
   \<exists>s'. ach_stream_write_fill buf s = (c_int (length buf), s') \<and> no_out_errors s' \<and>
        out_bytes s' = out_bytes s @ buf"
  using write_fill_from_ok [of 0 buf s] by (simp add: ach_stream_write_fill_def)

lemma c_int_small: "n < 2 ^ 31 \<Longrightarrow> c_int n = int n"
  by (simp add: c_int_def signed_take_bit_int_eq_self)

section \<open>Network byte order\<close>

lemma ntohl_htonl: "ntohl (htonl w) = w"
proof (rule bit_word_eqI)
  fix n :: nat
  assume "n < LENGTH(32)"
  then consider "n < 8" | "8 \<le> n" "n < 16" | "16 \<le> n" "n < 24" | "24 \<le> n" "n < 32" by fastforce
  then show "bit (ntohl (htonl w)) n = bit w n"
    by cases (auto simp: ntohl_def htonl_def bit_simps)
qed

lemma htonl_length [simp]: "length (htonl w) = 4"
  by (simp add: htonl_def)

lemma tag_length [simp]: "length ach_stream_presize = 4" "length ach_stream_postsize = 4"
  by (simp_all add: ach_stream_presize_def ach_stream_postsize_def ascii_def)

lemma stream_header_length [simp]: "length (stream_header n) = 12"
  by (simp add: stream_header_def)

section \<open>Framing\<close>

text \<open>
  A message format for byte streams: what is written for a message can be read back from any stream
  that starts with it, leaving the rest.
\<close>

locale framing =
  fixes good :: "byte list \<Rightarrow> bool" and encode :: "byte list \<Rightarrow> byte list"
    and decode :: "in_stream \<Rightarrow> (byte list \<times> in_stream) option"
  assumes decode_law: "\<lbrakk>good m; pending s = encode m @ rest\<rbrakk> \<Longrightarrow>
      \<exists>s'. decode s = Some (m, s') \<and> pending s' = rest"
begin

fun decode_n :: "nat \<Rightarrow> in_stream \<Rightarrow> byte list list option" where
  "decode_n 0 s = Some []"
| "decode_n (Suc n) s =
     (case decode s of None \<Rightarrow> None | Some (m, s') \<Rightarrow> map_option ((#) m) (decode_n n s'))"

lemma decode_encoded:
  "list_all good ms \<Longrightarrow> pending s = concat (map encode ms) @ rest \<Longrightarrow> decode_n (length ms) s = Some ms"
proof (induction ms arbitrary: s)
  case (Cons m ms)
  obtain s' where "decode s = Some (m, s')" "pending s' = concat (map encode ms) @ rest"
    using decode_law [of m s "concat (map encode ms) @ rest"] Cons.prems by auto
  with Cons.IH [of s'] Cons.prems show ?case by simp
qed simp

end

text \<open>Reading a whole message the way the callers do: the size first, then that many bytes.\<close>

definition read_msg :: "nat \<Rightarrow> in_stream \<Rightarrow> (byte list \<times> in_stream) option" where
  "read_msg bufsize s =
     (case ach_stream_read_msg_size s of
        Ret (r, cnt, s1) \<Rightarrow>
          if r \<le> 0 \<or> cnt < 0 then None
          else (case ach_stream_read_msg_data (nat cnt) bufsize s1 of
                  Ret (r, m, s2) \<Rightarrow> if r \<le> 0 then None else Some (m, s2)
                | _ \<Rightarrow> None)
      | _ \<Rightarrow> None)"

definition stream_good :: "nat \<Rightarrow> byte list \<Rightarrow> bool" where
  "stream_good bufsize m \<longleftrightarrow> m \<noteq> [] \<and> length m < 2 ^ 31 \<and> length m \<le> bufsize"

definition stream_encode :: "byte list \<Rightarrow> byte list" where
  "stream_encode m = stream_header (length m) @ m"

lemma read_msg_size_ok:
  assumes "pending s = stream_header n @ rest" "n < 2 ^ 32"
  shows "\<exists>s'. ach_stream_read_msg_size s = Ret (12, int n, s') \<and> pending s' = rest"
proof -
  have "12 \<le> length (pending s)" using assms(1) by simp
  then obtain s' where r: "ach_stream_read_fill 12 s = (c_int 12, take 12 (pending s), s')"
    "pending s' = drop 12 (pending s)" using read_fill_ok [of 12 s] by auto
  have "uint (of_nat n :: uint32) = int n"
    using assms(2) by (simp add: uint_word_of_int unsigned_of_nat take_bit_nat_eq_self)
  then show ?thesis
    using r assms(1)
    by (simp add: ach_stream_read_msg_size_def c_int_small stream_header_def ntohl_htonl)
qed

lemma read_msg_ok:
  assumes "stream_good bufsize m" "pending s = stream_encode m @ rest"
  shows "\<exists>s'. read_msg bufsize s = Some (m, s') \<and> pending s' = rest"
proof -
  have m: "0 < length m" "length m < 2 ^ 31" "length m \<le> bufsize"
    using assms(1) by (auto simp: stream_good_def)
  obtain s1 where s1: "ach_stream_read_msg_size s = Ret (12, int (length m), s1)" "pending s1 = m @ rest"
    using read_msg_size_ok [of s "length m" "m @ rest"] assms(2) m(2) by (auto simp: stream_encode_def)
  obtain s2 where "ach_stream_read_fill (length m) s1 = (c_int (length m), m, s2)" "pending s2 = rest"
    using read_fill_ok [OF m(1), of s1] s1(2) by auto
  with s1 m show ?thesis
    by (simp add: read_msg_def ach_stream_read_msg_data_def c_int_small)
qed

interpretation stream: framing "stream_good bufsize" stream_encode "read_msg bufsize" for bufsize
  by unfold_locales (rule read_msg_ok)

lemma write_msg_ok:
  assumes "m \<noteq> []" "length m < 2 ^ 31" "no_out_errors s"
  shows "\<exists>s'. ach_stream_write_msg m s = Ret (int (length m) + 12, s') \<and> no_out_errors s' \<and>
           out_bytes s' = out_bytes s @ stream_encode m"
proof -
  have ne: "stream_header (length m) \<noteq> []" by (metis stream_header_length list.size(3) zero_neq_numeral)
  obtain s1 where s1: "ach_stream_write_fill (stream_header (length m)) s = (c_int 12, s1)"
    "no_out_errors s1" "out_bytes s1 = out_bytes s @ stream_header (length m)"
    using write_fill_ok [OF ne assms(3)] by auto
  obtain s2 where "ach_stream_write_fill m s1 = (c_int (length m), s2)" "no_out_errors s2"
    "out_bytes s2 = out_bytes s1 @ m"
    using write_fill_ok [OF assms(1) s1(2)] by auto
  with s1 assms(1,2) show ?thesis
    by (simp add: ach_stream_write_msg_def c_int_small stream_encode_def)
qed

text \<open>Writing several messages, stopping when a call does not report success.\<close>

fun write_msgs :: "byte list list \<Rightarrow> out_stream \<Rightarrow> out_stream option" where
  "write_msgs [] s = Some s"
| "write_msgs (m # ms) s =
     (case ach_stream_write_msg m s of
        Ret (r, s') \<Rightarrow> if 0 < r then write_msgs ms s' else None
      | _ \<Rightarrow> None)"

lemma write_msgs_ok:
  "list_all (stream_good bufsize) ms \<Longrightarrow> no_out_errors s \<Longrightarrow>
   \<exists>s'. write_msgs ms s = Some s' \<and> out_bytes s' = out_bytes s @ concat (map stream_encode ms)"
proof (induction ms arbitrary: s)
  case (Cons m ms)
  then have "m \<noteq> []" "length m < 2 ^ 31" by (simp_all add: stream_good_def)
  then obtain s1 where s1: "ach_stream_write_msg m s = Ret (int (length m) + 12, s1)"
    "no_out_errors s1" "out_bytes s1 = out_bytes s @ stream_encode m"
    using write_msg_ok [of m s] Cons.prems by auto
  with Cons.IH [of s1] Cons.prems show ?case by auto
qed simp

lemma read_byte_pending:
  assumes "pending s = b # rest"
  shows "\<exists>s'. read_byte tries eintr s = (Some b, eintr, s') \<and> pending s' = rest"
proof -
  have "pending s \<noteq> []" using assms by simp
  from sys_read_pending [OF _ this, of 1] obtain s' where
    "sys_read 1 s = (1, [b], s')" "pending s' = rest"
    using assms by (auto simp: le_Suc_eq)
  then show ?thesis by (simp add: read_byte.simps [of tries])
qed

lemma read_line_from_ok:
  assumes "pending s = ln @ 10 # rest" "10 \<notin> set ln" "i + length ln < lim" "lim < length buf"
  shows "\<exists>s'. read_line_from buf i lim eintr s =
      Ret (c_int (i + length ln + 1),
           take i buf @ ln @ [10, 0] @ drop (i + length ln + 2) buf, s') \<and> pending s' = rest"
  using assms
proof (induction ln arbitrary: buf i s)
  case Nil
  then obtain s' where "read_byte ACH_INTR_RETRY eintr s = (Some 10, eintr, s')" "pending s' = rest"
    using read_byte_pending [of s 10 rest] by auto
  moreover have "buf[i := 10, Suc i := 0] = take i buf @ [10, 0] @ drop (i + 2) buf"
    using Nil.prems by (simp add: upd_conv_take_nth_drop take_Suc_conv_app_nth nth_append)
  ultimately show ?case
    using Nil.prems by (simp add: read_line_from.simps [of buf i lim])
next
  case (Cons c ln)
  obtain s1 where s1: "read_byte ACH_INTR_RETRY eintr s = (Some c, eintr, s1)" "pending s1 = ln @ 10 # rest"
    using read_byte_pending [of s c "ln @ 10 # rest"] Cons.prems(1) by auto
  have step: "read_line_from buf i lim eintr s = read_line_from (buf[i := c]) (i + 1) lim eintr s1"
    using Cons.prems s1 by (auto simp: read_line_from.simps [of buf i lim])
  have "take (i + 1) (buf[i := c]) = take i buf @ [c]"
    using Cons.prems by (simp add: take_Suc_conv_app_nth)
  with Cons.IH [of s1 "i + 1" "buf[i := c]"] Cons.prems s1(2) show ?case
    unfolding step by auto
qed

lemma line_limit:
  fixes n :: nat
  assumes "1 \<le> n" "n < 2 ^ 31"
  shows "(n + (2 ^ 64 - 1)) mod 2 ^ 64 = n - 1"
proof -
  have "n + (2 ^ 64 - 1) = (n - 1) + 2 ^ 64" using assms(1) by simp
  then have "(n + (2 ^ 64 - 1)) mod 2 ^ 64 = (n - 1) mod 2 ^ 64" by (simp only: mod_add_self2)
  then show ?thesis using assms(2) by simp
qed

section \<open>Properties\<close>

text \<open>
  C15. Messages survive a byte stream.  Write any messages of 1 to \<open>2 ^ 31 - 1\<close> bytes with
  \<^verbatim>\<open>ach_stream_write_msg\<close> to a stream that accepts bytes in portions of any size, and read
  them back with \<^verbatim>\<open>ach_stream_read_msg_size\<close> and \<^verbatim>\<open>ach_stream_read_msg_data\<close>
  from a stream that delivers those bytes in chunks of any size: the messages come back, complete and
  in order.
\<close>

theorem stream_roundtrip:
  assumes "list_all (stream_good bufsize) ms" "no_out_errors s"
  shows "\<exists>s'. write_msgs ms s = Some s' \<and>
           (\<forall>i rest. out_bytes s @ pending i = out_bytes s' @ rest \<longrightarrow>
              stream.decode_n bufsize (length ms) i = Some ms)"
proof -
  obtain s' where w: "write_msgs ms s = Some s'"
    "out_bytes s' = out_bytes s @ concat (map stream_encode ms)"
    using write_msgs_ok [OF assms] by blast
  have "stream.decode_n bufsize (length ms) i = Some ms"
    if "out_bytes s @ pending i = out_bytes s' @ rest" for i rest
    using that stream.decode_encoded [OF assms(1), of i rest] by (simp add: w(2))
  with w(1) show ?thesis by blast
qed

theorem stream_roundtrip_witness:
  "\<exists>s'. write_msgs [[1, 2, 3], [4]] \<lparr>out_events = [Out_accept 4], out_bytes = []\<rparr> = Some s' \<and>
     stream.decode_n 8 2 [In_data (take 5 (out_bytes s')), In_data [], In_data (drop 5 (out_bytes s'))]
       = Some [[1, 2, 3], [4]]"
proof -
  let ?s = "\<lparr>out_events = [Out_accept 4], out_bytes = []\<rparr> :: out_stream"
  have "list_all (stream_good 8) [[1, 2, 3], [4]]" "no_out_errors ?s"
    by (simp_all add: stream_good_def no_out_errors_def)
  from stream_roundtrip [OF this] obtain s' where s': "write_msgs [[1, 2, 3], [4]] ?s = Some s'"
    "\<And>i rest. out_bytes ?s @ pending i = out_bytes s' @ rest \<Longrightarrow>
       stream.decode_n 8 (length [[1, 2, 3], [4 :: byte]]) i = Some [[1, 2, 3], [4]]" by blast
  have "stream.decode_n 8 (length [[1, 2, 3], [4 :: byte]])
      [In_data (take 5 (out_bytes s')), In_data [], In_data (drop 5 (out_bytes s'))] = Some [[1, 2, 3], [4]]"
    by (rule s'(2) [where rest = "[]"]) simp
  with s'(1) show ?thesis by (intro exI [of _ s']) (simp add: numeral_2_eq_2)
qed

text \<open>
  A lost message is reported as sent.  When the size field goes out but the data does not,
  \<^verbatim>\<open>ach_stream_write_msg\<close> adds the length of the size field to the error code -1 and returns
  11, a positive number, where its caller expects zero or less.
\<close>

lemma write_msg_hides_error:
  assumes "out_events s = [Out_accept 11, Out_err e]" "length m < 2 ^ 31"
  shows "\<exists>s'. ach_stream_write_msg m s = Ret (11, s') \<and>
           out_bytes s' = out_bytes s @ stream_header (length m)"
proof -
  have "ach_stream_write_fill (stream_header (length m)) s =
      (c_int 12, s\<lparr>out_events := [Out_err e], out_bytes := out_bytes s @ stream_header (length m)\<rparr>)"
    using assms(1) by (simp add: ach_stream_write_fill_def write_fill_from.simps sys_write_def Let_def)
  then show ?thesis
    by (simp add: ach_stream_write_msg_def c_int_small ach_stream_write_fill_def [of m]
        write_fill_from.simps [of m] sys_write_def)
qed

lemma write_msg_hides_error_witness:
  "\<exists>s'. ach_stream_write_msg [1, 2, 3] \<lparr>out_events = [Out_accept 11, Out_err False], out_bytes = []\<rparr> =
     Ret (11, s') \<and> length (out_bytes s') = 12"
  using write_msg_hides_error [of "\<lparr>out_events = [Out_accept 11, Out_err False], out_bytes = []\<rparr>" False
      "[1, 2, 3]"] by auto

text \<open>
  Reading a line.  \<^verbatim>\<open>ach_read_line\<close> on a stream that holds a line that fits, in chunks
  of any size, returns the length with the newline, leaves line, newline and terminator at the start
  of the buffer, and consumes exactly the line.
\<close>

lemma read_line_ok:
  assumes "pending s = ln @ 10 # rest" "10 \<notin> set ln" "length ln + 2 \<le> n" "n \<le> length buf" "n < 2 ^ 31"
  shows "\<exists>s'. ach_read_line buf n eintr s =
           Ret (int (length ln + 1), ln @ [10, 0] @ drop (length ln + 2) buf, s') \<and> pending s' = rest"
proof -
  have lim: "(n + (2 ^ 64 - 1)) mod 2 ^ 64 = n - 1" using assms(3,5) by (intro line_limit) simp_all
  have "c_int (0 + length ln + 1) = int (length ln + 1)" using assms(3,5) by (simp add: c_int_small)
  then show ?thesis
    unfolding ach_read_line_def lim
    using read_line_from_ok [OF assms(1,2), of 0 "n - 1" buf eintr] assms(3,4) by simp
qed

lemma read_line_ok_witness:
  "\<exists>s'. ach_read_line [9, 9, 9, 9, 9] 5 False [In_data [65], In_data [66, 10, 67]] =
     Ret (3, [65, 66, 10, 0, 9], s') \<and> pending s' = [67]"
  using read_line_ok [of "[In_data [65], In_data [66, 10, 67]]" "[65, 66]" "[67]" 5 "[9, 9, 9, 9, 9]" False]
  by simp

text \<open>
  The end of the stream looks like a line.  At the end of the stream
  \<^verbatim>\<open>ach_read_line\<close> returns 1 with whatever byte the buffer held before as a one-character
  line; it never reports the end.
\<close>

lemma read_line_at_end:
  assumes "2 \<le> n" "n \<le> length buf" "n < 2 ^ 31"
  shows "ach_read_line buf n False [] = Ret (1, buf[1 := 0], [])"
proof -
  have lim: "(n + (2 ^ 64 - 1)) mod 2 ^ 64 = n - 1" using assms(1,3) by (intro line_limit) simp_all
  show ?thesis
    unfolding ach_read_line_def lim
    using assms(1,2) by (auto simp: read_line_from.simps [of buf 0] read_byte.simps c_int_small)
qed

lemma read_line_at_end_witness:
  "ach_read_line [88, 9, 9] 3 False [] = Ret (1, [88, 0, 9], [])"
  using read_line_at_end [of 3 "[88, 9, 9]"] by simp

end
