(* ===== verification/Ach_Pipe.thy ===== *)
theory Ach_Pipe
  imports Ach_Stream
begin

text \<open>
  The frame header for pipes and files of \<^verbatim>\<open>src/pipe.c\<close> and the constants of
  \<^verbatim>\<open>src/libach_private.c\<close>.
\<close>

section \<open>The frame header\<close>

record ach_pipe_frame_t =
  pf_magic :: "byte list"
  size_bytes :: "byte list"
  pf_data :: "byte list"

definition ach_pipe_set_size :: "ach_pipe_frame_t \<Rightarrow> uint64 \<Rightarrow> ach_pipe_frame_t" where
  "ach_pipe_set_size frame sz =
     frame\<lparr>size_bytes := map (\<lambda>i. ucast (drop_bit (8 * i) sz AND 0xFF)) [0..<8]\<rparr>"

text \<open>
  The source shifts a 32-bit \<open>unsigned\<close> by up to 56 places.  Shifting by 32 or more is
  undefined in C; what the machine makes of it is the parameter \<open>over\<close>.
\<close>

definition shift_unsigned :: "(uint32 \<Rightarrow> nat \<Rightarrow> uint32) \<Rightarrow> uint32 \<Rightarrow> nat \<Rightarrow> uint32" where
  "shift_unsigned over w k = (if k < 32 then push_bit k w else over w k)"

definition ach_pipe_get_size ::
  "(uint32 \<Rightarrow> nat \<Rightarrow> uint32) \<Rightarrow> ach_pipe_frame_t \<Rightarrow> uint64" where
  "ach_pipe_get_size over frame =
     fold (\<lambda>i sz. sz OR ucast (shift_unsigned over (ucast (size_bytes frame ! i)) (8 * i))) [0..<8] 0"

text \<open>
  A new frame.  The number of bytes to allocate is of type \<open>size_t\<close> and may wrap around; then the block
  is too small for the header.  A failed allocation is not checked.  The data area keeps what the heap held.
\<close>

definition ach_pipe_alloc :: "(nat \<Rightarrow> byte list option) \<Rightarrow> nat \<Rightarrow> ach_pipe_frame_t outcome" where
  "ach_pipe_alloc heap sz =
     (let n = unat (16 + of_nat sz :: size_t)
      in case heap n of
           None \<Rightarrow> Fault Unmapped
         | Some bs \<Rightarrow>
             if n < 16 \<or> length bs < n then Fault Out_of_bounds
             else Ret (ach_pipe_set_size
                         \<lparr>pf_magic = ascii ''achpipe'' @ [0], size_bytes = take 8 (drop 8 bs),
                          pf_data = take sz (drop 16 bs)\<rparr> (of_nat sz)))"

section \<open>Constants for other languages\<close>

definition libach_constants :: "(string \<times> int) list" where
  "libach_constants =
     [(''ach_ok'', ach_status_code ACH_OK), (''ach_overflow'', ach_status_code ACH_OVERFLOW),
      (''ach_invalid_name'', ach_status_code ACH_INVALID_NAME),
      (''ach_bad_shm_file'', ach_status_code ACH_BAD_SHM_FILE),
      (''ach_failed_syscall'', ach_status_code ACH_FAILED_SYSCALL),
      (''ach_stale_frames'', ach_status_code ACH_STALE_FRAMES),
      (''ach_missed_frame'', ach_status_code ACH_MISSED_FRAME),
      (''ach_timeout'', ach_status_code ACH_TIMEOUT), (''ach_eexist'', ach_status_code ACH_EEXIST),
      (''ach_enoent'', ach_status_code ACH_ENOENT), (''ach_closed'', ach_status_code ACH_CLOSED),
      (''ach_bug'', ach_status_code ACH_BUG), (''ach_einval'', ach_status_code ACH_EINVAL),
      (''ach_corrupt'', ach_status_code ACH_CORRUPT),
      (''ach_bad_header'', ach_status_code ACH_BAD_HEADER),
      (''ach_eacces'', ach_status_code ACH_EACCES), (''ach_o_wait'', uint ACH_O_WAIT),
      (''ach_o_last'', uint ACH_O_LAST)]"

section \<open>Facts\<close>

lemma low_byte: "(ucast (w AND 0xFF :: uint64) :: byte) = ucast w"
proof -
  have m: "(0xFF :: uint64) = mask 8" by (simp add: mask_eq_exp_minus_1)
  show ?thesis unfolding m by (rule bit_word_eqI) (simp add: bit_simps)
qed

lemma bytes_of_size:
  "size_bytes (ach_pipe_set_size frame sz) = map (\<lambda>i. ucast (drop_bit (8 * i) sz)) [0..<8]"
  by (simp add: ach_pipe_set_size_def low_byte)

lemma fold_or_high:
  "32 \<le> n \<Longrightarrow> \<not> bit sz n \<Longrightarrow>
   \<not> bit (fold (\<lambda>i sz. sz OR ucast (f i :: uint32)) xs (sz :: uint64)) n"
proof (induction xs arbitrary: sz)
  case (Cons x xs)
  have "\<not> bit (ucast (f x) :: uint64) n"
    using Cons.prems(1) bit_imp_le_length [of "f x" n] by (auto simp: bit_unsigned_iff)
  with Cons.IH [of "sz OR ucast (f x)"] Cons.prems show ?case by (simp add: bit_or_iff)
qed simp

lemma get_size_bit: "32 \<le> n \<Longrightarrow> \<not> bit (ach_pipe_get_size over frame) n"
  unfolding ach_pipe_get_size_def by (rule fold_or_high) simp_all

lemma high_bits_clear:
  fixes w :: uint64
  shows "(\<forall>n\<ge>32. \<not> bit w n) \<longleftrightarrow> unat w < 2 ^ 32"
proof
  assume h: "\<forall>n\<ge>32. \<not> bit w n"
  have "take_bit 32 w = w"
  proof (rule bit_word_eqI)
    fix n :: nat
    show "bit (take_bit 32 w) n = bit w n" using h by (cases "n < 32") (simp_all add: bit_take_bit_iff)
  qed
  then have "unat w = take_bit 32 (unat w)" by (metis unsigned_take_bit_eq)
  then show "unat w < 2 ^ 32" by (metis take_bit_nat_less_exp)
next
  assume "unat w < 2 ^ 32"
  then have "take_bit 32 (unat w) = unat w" by (simp add: take_bit_nat_eq_self)
  then have "take_bit 32 w = w" by (metis unsigned_take_bit_eq unsigned_word_eqI)
  then show "\<forall>n\<ge>32. \<not> bit w n" by (metis bit_take_bit_iff not_le)
qed

lemma get_size_less: "unat (ach_pipe_get_size over frame) < 2 ^ 32"
  using get_size_bit high_bits_clear by blast

lemma byte_place:
  "k \<le> 24 \<Longrightarrow> (ucast (push_bit k (ucast (b :: byte) :: uint32)) :: uint64) = push_bit k (ucast b)"
  by (rule bit_word_eqI) (auto simp: bit_simps dest: bit_imp_le_length)

lemma four_bytes:
  fixes w :: uint64
  assumes "\<forall>n\<ge>32. \<not> bit w n"
  shows "ucast (ucast w :: byte) OR push_bit 8 (ucast (ucast (drop_bit 8 w) :: byte)) OR
         push_bit 16 (ucast (ucast (drop_bit 16 w) :: byte)) OR
         push_bit 24 (ucast (ucast (drop_bit 24 w) :: byte)) = w" (is "?l = w")
proof (rule bit_word_eqI)
  fix n :: nat
  assume "n < LENGTH(64)"
  then consider "n < 8" | "8 \<le> n" "n < 16" | "16 \<le> n" "n < 24" | "24 \<le> n" "n < 32" | "32 \<le> n"
    by fastforce
  then show "bit ?l n = bit w n"
    by cases (use assms in \<open>auto simp: bit_simps\<close>)
qed

lemma get_set_size:
  assumes over: "\<And>k. over 0 k = 0" and small: "unat sz < 2 ^ 32"
  shows "ach_pipe_get_size over (ach_pipe_set_size frame sz) = sz"
proof -
  have high: "\<forall>n\<ge>32. \<not> bit sz n" using small high_bits_clear by blast
  then have "(ucast (drop_bit (8 * i) sz) :: byte) = 0" if "4 \<le> i" for i
    using that by (intro bit_word_eqI) (simp add: bit_simps)
  then have z: "shift_unsigned over (ucast (ucast (drop_bit (8 * i) sz) :: byte)) (8 * i) = 0"
    if "4 \<le> i" for i
    using that over by (simp add: shift_unsigned_def)
  have up: "[0..<8] = [0, 1, 2, 3, 4, 5, 6, 7 :: nat]" by (simp add: upt_rec)
  have "ach_pipe_get_size over (ach_pipe_set_size frame sz) =
      ucast (ucast sz :: byte) OR push_bit 8 (ucast (ucast (drop_bit 8 sz) :: byte)) OR
      push_bit 16 (ucast (ucast (drop_bit 16 sz) :: byte)) OR
      push_bit 24 (ucast (ucast (drop_bit 24 sz) :: byte))"
    unfolding ach_pipe_get_size_def bytes_of_size up using z [of 4] z [of 5] z [of 6] z [of 7]
      byte_place [of 0 "ucast sz"]
    by (simp add: shift_unsigned_def byte_place or.assoc)
  also have "\<dots> = sz" by (rule four_bytes [OF high])
  finally show ?thesis .
qed

section \<open>Properties\<close>

text \<open>
  C36. The size field of a pipe frame.  On any machine on which an over-long shift of zero gives zero,
  a size set with \<^verbatim>\<open>ach_pipe_set_size\<close> is read back by \<^verbatim>\<open>ach_pipe_get_size\<close>
  exactly when it is below \<open>2 ^ 32\<close>: larger sizes are lost because a 32-bit value is shifted before
  it is widened.  The field is the little-endian form of the size.
\<close>

theorem pipe_size_roundtrip:
  assumes "\<forall>k. over 0 k = 0"
  shows "(ach_pipe_get_size over (ach_pipe_set_size frame sz) = sz \<longleftrightarrow> unat sz < 2 ^ 32) \<and>
         size_bytes (ach_pipe_set_size frame sz) = map (\<lambda>i. ucast (drop_bit (8 * i) sz)) [0..<8]"
  using get_set_size [of over sz frame] get_size_less [of over "ach_pipe_set_size frame sz"] assms
    bytes_of_size by metis

theorem pipe_size_roundtrip_witness:
  "ach_pipe_get_size (\<lambda>w k. push_bit (k mod 32) w)
     (ach_pipe_set_size \<lparr>pf_magic = [], size_bytes = [], pf_data = []\<rparr> 0x1234) = 0x1234 \<and>
   ach_pipe_get_size (\<lambda>w k. push_bit (k mod 32) w)
     (ach_pipe_set_size \<lparr>pf_magic = [], size_bytes = [], pf_data = []\<rparr> (2 ^ 32)) \<noteq> 2 ^ 32"
  using pipe_size_roundtrip [of "\<lambda>w k. push_bit (k mod 32) w" "\<lparr>pf_magic = [], size_bytes = [], pf_data = []\<rparr>" "0x1234"]
    pipe_size_roundtrip [of "\<lambda>w k. push_bit (k mod 32) w" "\<lparr>pf_magic = [], size_bytes = [], pf_data = []\<rparr>" "2 ^ 32"]
  by simp

end
