(* ===== verification/Achd_Base.thy ===== *)
theory Achd_Base
  imports Ach_Lifecycle Ach_Util Ach_Stream Ach_Pipe
begin

text \<open>
  The state of the network daemon \<^verbatim>\<open>achd\<close> (\<^verbatim>\<open>include/achd.h\<close>), its signal handler
  and its error handlers (\<^verbatim>\<open>src/achd/achd.c\<close>).  A function of the daemon runs in a world: the
  global context \<^verbatim>\<open>cx\<close>, the process, the operating system and scripts that say what the
  environment does at each call.  It goes on with a result, ends the process, crashes, or never
  returns.
\<close>

section \<open>Constants and records\<close>

definition ACHD_PORT :: int where "ACHD_PORT = 8076"
definition ACHD_RECONNECT_NS :: int where "ACHD_RECONNECT_NS = 250 * 1000 * 1000"
definition ACHD_LINE_LENGTH :: nat where "ACHD_LINE_LENGTH = 1024"

datatype achd_direction = ACHD_DIRECTION_VOID | ACHD_DIRECTION_PUSH | ACHD_DIRECTION_PULL

datatype achd_mode = ACHD_MODE_VOID | ACHD_MODE_SERVE | ACHD_MODE_PUSH | ACHD_MODE_PULL

text \<open>
  Strings that may be \<open>NULL\<close> are optional; an \<open>int\<close> field holds a value of \<open>int\<close>, and
  so does the status a peer sent, which need not be one of the known codes.
\<close>

record achd_headers =
  h_chan_name :: "string option"
  h_remote_chan_name :: "string option"
  h_frame_count :: int
  h_frame_size :: int
  h_local_port :: int
  h_remote_port :: int
  h_tcp_nodelay :: bool
  h_retry :: bool
  h_get_last :: bool
  h_period_ns :: uint64
  h_remote_host :: "string option"
  h_transport :: "string option"
  h_direction :: achd_direction
  h_status :: int
  h_message :: "string option"

definition zero_headers :: achd_headers where
  "zero_headers =
     \<lparr>h_chan_name = None, h_remote_chan_name = None, h_frame_count = 0, h_frame_size = 0,
      h_local_port = 0, h_remote_port = 0, h_tcp_nodelay = False, h_retry = False,
      h_get_last = False, h_period_ns = 0, h_remote_host = None, h_transport = None,
      h_direction = ACHD_DIRECTION_VOID, h_status = 0, h_message = None\<rparr>"

text \<open>The two functions that \<^verbatim>\<open>cx.error\<close> points to.\<close>

datatype error_handler = Error_log | Error_header

record achd_cx =
  cl_opts :: achd_headers
  cx_mode :: achd_mode
  cx_port :: int
  cx_reconnect :: bool
  cx_detach :: bool
  cx_pidfile :: "string option"
  sig_received :: bool
  cx_channel :: ach_channel_t
  cx_error :: error_handler

text \<open>The table of transports: which functions connect and carry the frames.\<close>

datatype achd_connect_fn = Connect_nop | Connect_udp_sock

datatype achd_handler_fn = Push_tcp | Pull_tcp | Push_udp | Pull_udp

record achd_conn_vtab =
  v_transport :: string
  v_direction :: achd_direction
  v_connect :: achd_connect_fn
  v_handler :: achd_handler_fn

type_synonym timespec = "int \<times> int"

text \<open>A UDP address: the host and the port.\<close>

type_synonym udp_addr = "nat \<times> int"

record achd_conn =
  conn_mode :: achd_mode
  conn_t0 :: timespec
  conn_ts_last :: timespec
  send_hdr :: achd_headers
  recv_hdr :: achd_headers
  conn_in :: int
  conn_out :: int
  conn_aux :: int
  pipeframe_size :: nat
  pipeframe :: ach_pipe_frame_t
  conn_vtab :: achd_conn_vtab
  conn_udp :: "udp_addr option"

section \<open>The world\<close>

text \<open>
  What happens at a call: it succeeds or fails, and (the boolean) a termination signal is handled
  while it runs.  At the end of its script a descriptor is at end of file for reads and accepts
  every byte for writes.
\<close>

datatype rd_event = Rd_data "byte list" | Rd_fail errno

datatype wr_event = Wr_accept nat | Wr_fail errno

record fd_io =
  io_in :: "(bool \<times> rd_event) list"
  io_out :: "(bool \<times> wr_event) list"
  io_sent :: "byte list"

text \<open>
  One attempt to connect: whether the host is known, whether a socket is made, whether it connects,
  and what the connection then delivers.
\<close>

record dial =
  dial_found :: bool
  dial_socket :: bool
  dial_connects :: bool
  dial_io :: fd_io

text \<open>
  What other processes do around one \<^verbatim>\<open>ach_get\<close>: the block they leave before the call, the
  wake-ups while the caller sleeps, and whether a termination signal is handled meanwhile.
\<close>

record get_env =
  env_block :: ach_header_t
  env_wakes :: "wake list"
  env_signal :: bool

datatype poll_result = Poll_fail errno | Poll_ready bool bool bool

record datagram =
  dg_from :: udp_addr
  dg_data :: "byte list"

text \<open>
  The peer is what \<open>getpeername\<close> reports, with the port as the number that its two bytes are to this
  machine; \<open>w_strerror\<close> is the text of the C library for an error.
\<close>

record world =
  w_cx :: achd_cx
  w_proc :: proc
  w_os :: os_state
  w_fds :: "int \<Rightarrow> fd_io"
  w_closed :: "int list"
  w_next_fd :: int
  w_dials :: "dial list"
  w_build :: build_config
  w_shift :: "uint32 \<Rightarrow> nat \<Rightarrow> uint32"
  w_heap :: "nat \<Rightarrow> byte list option"
  w_clock :: "timespec list"
  w_sleeps :: "timespec list"
  w_naps :: "(bool \<times> errno) list"
  w_peer :: "errno + udp_addr"
  w_udp_port :: int
  w_udp_calls :: "errno option list"
  w_recvs :: "(bool \<times> (errno + datagram)) list"
  w_sends :: "(bool \<times> (errno + nat)) list"
  w_sent_dgrams :: "(udp_addr \<times> byte list) list"
  w_strerror :: "errno \<Rightarrow> string"

datatype 'a act = Cont 'a world | Quit int world | Crash c_fault world | Hang world

primrec act_then :: "'a act \<Rightarrow> ('a \<Rightarrow> world \<Rightarrow> 'b act) \<Rightarrow> 'b act" where
  "act_then (Cont x w) f = f x w"
| "act_then (Quit c w) f = Quit c w"
| "act_then (Crash e w) f = Crash e w"
| "act_then (Hang w) f = Hang w"

lemma act_then_cong [fundef_cong]:
  assumes "m = m'" and "\<And>x w. m' = Cont x w \<Longrightarrow> f x w = g x w"
  shows "act_then m f = act_then m' g"
  using assms by (cases m') auto

text \<open>A library call within the world: its outcome decides how the caller goes on.\<close>

definition act_of :: "'a outcome \<Rightarrow> ('a \<Rightarrow> world \<Rightarrow> 'b act) \<Rightarrow> world \<Rightarrow> 'b act" where
  "act_of m f w = (case m of Ret x \<Rightarrow> f x w | Blocked \<Rightarrow> Hang w | Fault e \<Rightarrow> Crash e w)"

definition act_assert :: "nat \<Rightarrow> bool \<Rightarrow> world \<Rightarrow> unit act" where
  "act_assert line b w = (if b then Cont () w else Crash (Assert_failed line) w)"

definition set_cx :: "(achd_cx \<Rightarrow> achd_cx) \<Rightarrow> world \<Rightarrow> world" where
  "set_cx f w = w\<lparr>w_cx := f (w_cx w)\<rparr>"

definition stopping :: "world \<Rightarrow> bool" where
  "stopping w = sig_received (w_cx w)"

definition w_log :: "int \<Rightarrow> string \<Rightarrow> world \<Rightarrow> world" where
  "w_log level msg w = w\<lparr>w_proc := ACH_LOG level msg (w_proc w)\<rparr>"

definition set_errno :: "errno \<Rightarrow> world \<Rightarrow> world" where
  "set_errno e w = w\<lparr>w_os := (w_os w)\<lparr>os_errno := e\<rparr>\<rparr>"

definition w_errno :: "world \<Rightarrow> errno" where
  "w_errno w = os_errno (w_os w)"

definition err_text :: "world \<Rightarrow> string" where
  "err_text w = w_strerror w (w_errno w)"

text \<open>The numbers of the errors on Linux, and the error of numbers that are too large.\<close>

fun errno_number :: "errno \<Rightarrow> int" where
  "errno_number EOK = 0"
| "errno_number EPERM = 1"
| "errno_number ENOENT = 2"
| "errno_number EINTR = 4"
| "errno_number EBADF = 9"
| "errno_number EAGAIN = 11"
| "errno_number EACCES = 13"
| "errno_number EEXIST = 17"
| "errno_number EINVAL = 22"
| "errno_number EDEADLK = 35"
| "errno_number ETIMEDOUT = 110"
| "errno_number EOWNERDEAD = 130"
| "errno_number ENOTRECOVERABLE = 131"
| "errno_number (E_other n) = int n"

definition ERANGE :: errno where "ERANGE = E_other 34"

text \<open>An address as \<open>inet_ntoa\<close> prints it, and with the port behind it.\<close>

definition inet_ntoa :: "nat \<Rightarrow> string" where
  "inet_ntoa a =
     show_nat (a div 2 ^ 24 mod 256) @ ''.'' @ show_nat (a div 2 ^ 16 mod 256) @ ''.'' @
     show_nat (a div 2 ^ 8 mod 256) @ ''.'' @ show_nat (a mod 256)"

definition addr_text :: "udp_addr \<Rightarrow> string" where
  "addr_text addr = inet_ntoa (fst addr) @ '':'' @ show_int (snd addr)"

definition set_fd :: "int \<Rightarrow> (fd_io \<Rightarrow> fd_io) \<Rightarrow> world \<Rightarrow> world" where
  "set_fd fd f w = w\<lparr>w_fds := (w_fds w)(fd := f (w_fds w fd))\<rparr>"

definition close_fd :: "int \<Rightarrow> world \<Rightarrow> world" where
  "close_fd fd w = w\<lparr>w_closed := w_closed w @ [fd]\<rparr>"

definition w_die :: "string \<Rightarrow> world \<Rightarrow> 'a act" where
  "w_die msg w =
     (case (ACH_DIE msg (w_proc w) :: unit run) of
        Exit c p \<Rightarrow> Quit c (w\<lparr>w_proc := p\<rparr>)
      | Go _ p \<Rightarrow> Hang (w\<lparr>w_proc := p\<rparr>))"

section \<open>The signal handler\<close>

text \<open>
  \<^verbatim>\<open>ach_cancel\<close> without attributes does not read the block: the child it forks does, and
  that child belongs to the environment.
\<close>

definition cancel_channel :: "world \<Rightarrow> world" where
  "cancel_channel w =
     (case ch_shm (cx_channel (w_cx w)) of
        None \<Rightarrow> w
      | Some k \<Rightarrow>
          (let (failed, p) = call_fails (w_proc w);
               shm = (case block_at (w_os w) k of Some b \<Rightarrow> b | None \<Rightarrow> zero_block 0)
           in case ach_cancel 0 (cx_channel (w_cx w)) shm None (\<not> failed) of
                Ret (r, chan, _) \<Rightarrow>
                  (let w = set_cx (\<lambda>cx. cx\<lparr>cx_channel := chan\<rparr>) (w\<lparr>w_proc := p\<rparr>)
                   in if r \<noteq> ACH_OK
                      then set_fd 2 (\<lambda>f. f\<lparr>io_sent := io_sent f @
                             ascii (''error on ach_cancel()'' @ [CHR 0x0A])\<rparr>) w
                      else w)
              | _ \<Rightarrow> w))"

definition sighandler :: "int \<Rightarrow> world \<Rightarrow> world" where
  "sighandler sig w =
     (let w = w_log LOG_DEBUG (''Received signal: '' @ show_int sig) w
      in if sig = SIGTERM \<or> sig = SIGINT
         then cancel_channel (set_cx (\<lambda>cx. cx\<lparr>sig_received := True\<rparr>) w)
         else w_log LOG_WARNING (''Received unexpected signal: '' @ show_int sig) w)"

definition maybe_signal :: "bool \<Rightarrow> world \<Rightarrow> world" where
  "maybe_signal b w = (if b then sighandler SIGTERM w else w)"

definition install_handler :: "int \<Rightarrow> disposition \<Rightarrow> string \<Rightarrow> proc \<Rightarrow> proc" where
  "install_handler sig d msg p =
     (let (failed, p) = call_fails p
      in if failed then ACH_LOG LOG_ERR msg p else p\<lparr>p_disp := (p_disp p)(sig := d)\<rparr>)"

definition sighandler_install :: "world \<Rightarrow> world" where
  "sighandler_install w =
     (let p = install_handler SIGTERM Sig_handler ''Couldn't install signal handler'' (w_proc w);
          p = install_handler SIGINT Sig_handler ''Couldn't install signal handler'' p;
          p = install_handler SIGPIPE Sig_ign ''Couldn't ignore SIGPIPE'' p
      in w\<lparr>w_proc := p\<rparr>)"

section \<open>Error handlers\<close>

definition syslog_line :: "int \<Rightarrow> string \<Rightarrow> world \<Rightarrow> world" where
  "syslog_line level msg w =
     w\<lparr>w_proc := (w_proc w)\<lparr>p_log := p_log (w_proc w) @ [(To_syslog, level, msg)]\<rparr>\<rparr>"

definition stderr_line :: "string \<Rightarrow> world \<Rightarrow> world" where
  "stderr_line msg w =
     w\<lparr>w_proc := (w_proc w)\<lparr>p_log := p_log (w_proc w) @ [(To_stderr, LOG_CRIT, msg)]\<rparr>\<rparr>"

definition achd_exit_failure :: "int \<Rightarrow> world \<Rightarrow> 'a act" where
  "achd_exit_failure code w = Quit (if code \<noteq> 0 then code else 1) w"

definition achd_error_vsyslog :: "int \<Rightarrow> string \<Rightarrow> world \<Rightarrow> world" where
  "achd_error_vsyslog code msg w =
     (if code \<noteq> ach_status_code ACH_OK
      then syslog_line LOG_CRIT (ach_result_to_string code @ '' - '' @ msg) w
      else syslog_line LOG_CRIT msg w)"

text \<open>
  What the server tells its peer, on standard output, before it gives up.  The messages of the
  program end with a line feed, which the model leaves out of them and adds here.
\<close>

definition error_header_text :: "int \<Rightarrow> string \<Rightarrow> string" where
  "error_header_text code msg =
     ''status: '' @ show_int code @ '' # '' @ ach_result_to_string code @ newline @
     ''message: '' @ msg @ newline @ newline @ ''.'' @ newline"

definition achd_error_header :: "int \<Rightarrow> string \<Rightarrow> world \<Rightarrow> 'a act" where
  "achd_error_header code msg w =
     (let w = achd_error_vsyslog code msg w;
          w = set_fd 1 (\<lambda>f. f\<lparr>io_sent := io_sent f @ ascii (error_header_text code msg)\<rparr>) w
      in achd_exit_failure code w)"

definition achd_error_log :: "int \<Rightarrow> string \<Rightarrow> world \<Rightarrow> 'a act" where
  "achd_error_log code msg w =
     (let tty = p_stderr_tty (w_proc w);
          w = (if tty \<and> p_verbosity (w_proc w) \<ge> -1
               then stderr_line msg
                      (if code \<noteq> ach_status_code ACH_OK
                       then stderr_line (''status: '' @ ach_result_to_string code) w else w)
               else w);
          w = (if \<not> tty \<or> cx_mode (w_cx w) = ACHD_MODE_SERVE \<or> p_ppid (w_proc w) = 1
               then achd_error_vsyslog code msg w else w)
      in Quit 1 w)"

text \<open>A call through \<^verbatim>\<open>cx.error\<close>; it never comes back.\<close>

definition cx_fail :: "int \<Rightarrow> string \<Rightarrow> world \<Rightarrow> 'a act" where
  "cx_fail code msg w =
     (case cx_error (w_cx w) of
        Error_log \<Rightarrow> achd_error_log code msg w
      | Error_header \<Rightarrow> achd_error_header code msg w)"

definition fail_with :: "ach_status_t \<Rightarrow> string \<Rightarrow> world \<Rightarrow> 'a act" where
  "fail_with r msg w = cx_fail (ach_status_code r) msg w"

section \<open>Facts\<close>

named_theorems world_simps \<open>reading a world after an update\<close>

lemma stopping_simps [simp]:
  "stopping (w_log l m w) = stopping w" "stopping (set_errno e w) = stopping w"
  "stopping (set_fd fd f w) = stopping w" "stopping (close_fd fd w) = stopping w"
  by (simp_all add: stopping_def w_log_def set_errno_def set_fd_def close_fd_def)

lemma maybe_signal_False [simp]: "maybe_signal False w = w"
  by (simp add: maybe_signal_def)

lemma stopping_cancel_channel [simp]: "stopping (cancel_channel w) = stopping w"
  by (simp add: stopping_def cancel_channel_def set_cx_def set_fd_def Let_def
      split: option.split outcome.split prod.split)

lemma stopping_sighandler: "sig = SIGTERM \<or> sig = SIGINT \<Longrightarrow> stopping (sighandler sig w)"
  by (simp add: sighandler_def) (simp add: stopping_def set_cx_def)

lemma stopping_maybe_signal [simp]: "stopping (maybe_signal b w) \<longleftrightarrow> b \<or> stopping w"
  by (simp add: maybe_signal_def stopping_sighandler)

lemma w_fds_log [simp]: "w_fds (w_log l m w) = w_fds w"
  by (simp add: w_log_def)

lemma fail_with_quits: "\<exists>c w'. fail_with r msg w = Quit c w' \<and> c \<noteq> 0"
  by (cases "cx_error (w_cx w)")
     (auto simp: fail_with_def cx_fail_def achd_error_log_def achd_error_header_def
        achd_exit_failure_def Let_def)

end
