(* ===== verification/Achd_IO.thy ===== *)
theory Achd_IO
  imports Achd_Base
begin

text \<open>
  The daemon's basic input and output, \<^verbatim>\<open>src/achd/io.c\<close>: reads and writes that go on
  through interrupted calls until the shutdown flag is set, lines, and formatted output.
\<close>

section \<open>Reading\<close>

text \<open>
  The loop of \<^verbatim>\<open>achd_read\<close>: \<open>got\<close> holds the bytes in the buffer.  A read that fills the
  buffer leaves the rest of its bytes for the next one; a read of nothing is the end of file.
\<close>

fun read_loop ::
  "nat \<Rightarrow> byte list \<Rightarrow> (bool \<times> rd_event) list \<Rightarrow> world \<Rightarrow>
   byte list \<times> (bool \<times> rd_event) list \<times> world" where
  "read_loop cnt got [] w =
     (if stopping w \<or> cnt \<le> length got then (got, [], w) else (got, [], set_errno EOK w))"
| "read_loop cnt got ((sig, ev) # evs) w =
     (if stopping w \<or> cnt \<le> length got then (got, (sig, ev) # evs, w)
      else let w = maybe_signal sig (set_errno EOK w)
           in case ev of
                Rd_data bs \<Rightarrow>
                  (let room = cnt - length got
                   in if bs = [] then (got, evs, w)
                      else if room < length bs
                      then (got @ take room bs, (False, Rd_data (drop room bs)) # evs, w)
                      else read_loop cnt (got @ bs) evs w)
              | Rd_fail e \<Rightarrow>
                  (let w = set_errno e w
                   in if e = EINTR \<and> \<not> stopping w then read_loop cnt got evs w
                      else (got, evs, w)))"

definition achd_read :: "int \<Rightarrow> nat \<Rightarrow> world \<Rightarrow> byte list \<times> world" where
  "achd_read fd cnt w =
     (let (got, evs, w) = read_loop cnt [] (io_in (w_fds w fd)) w
      in (got, set_fd fd (\<lambda>f. f\<lparr>io_in := evs\<rparr>) w))"

text \<open>
  \<^verbatim>\<open>achd_getc\<close> returns a \<open>char\<close>, which is signed on the supported machines; the end of
  file is -1.
\<close>

definition c_EOF :: int where "c_EOF = -1"

definition achd_getc :: "int \<Rightarrow> world \<Rightarrow> int \<times> world" where
  "achd_getc fd w =
     (let (bs, w) = achd_read fd 1 w in (if length bs = 1 then sint (hd bs) else c_EOF, w))"

text \<open>How much input a descriptor still has; every character taken reduces it.\<close>

fun event_size :: "bool \<times> rd_event \<Rightarrow> nat" where
  "event_size (sig, Rd_data bs) = Suc (length bs)"
| "event_size (sig, Rd_fail e) = 1"

definition input_left :: "int \<Rightarrow> world \<Rightarrow> nat" where
  "input_left fd w = sum_list (map event_size (io_in (w_fds w fd)))"

lemma read_loop_shrinks:
  "read_loop cnt got evs w = (got', evs', w') \<Longrightarrow>
   sum_list (map event_size evs') + length got' \<le> sum_list (map event_size evs) + length got"
proof (induction cnt got evs w rule: read_loop.induct)
  case (2 cnt got sig ev evs w)
  show ?case
  proof (cases ev)
    case (Rd_data bs)
    with 2 show ?thesis by (fastforce simp: Let_def split: if_splits)
  next
    case (Rd_fail e)
    with 2 show ?thesis by (fastforce simp: Let_def split: if_splits)
  qed
qed (auto split: if_splits)

lemma achd_getc_shrinks:
  assumes "achd_getc fd w = (c, w')" "c \<noteq> c_EOF"
  shows "input_left fd w' < input_left fd w"
proof -
  obtain got evs w1 where r: "read_loop 1 [] (io_in (w_fds w fd)) w = (got, evs, w1)"
    by (cases "read_loop 1 [] (io_in (w_fds w fd)) w") auto
  with assms have "length got = 1" "io_in (w_fds w' fd) = evs"
    by (auto simp: achd_getc_def achd_read_def set_fd_def split: if_splits)
  with read_loop_shrinks [OF r] show ?thesis by (simp add: input_left_def)
qed

text \<open>
  Lines: carriage returns are dropped, a line that does not fit is an overflow.  \<open>line\<close> holds the
  characters stored so far.
\<close>

definition char_of_int :: "int \<Rightarrow> char" where
  "char_of_int c = char_of (nat (c mod 256))"

function readline_from :: "int \<Rightarrow> nat \<Rightarrow> string \<Rightarrow> world \<Rightarrow> ach_status_t \<times> string \<times> world" where
  "readline_from fd cnt line w =
     (if length line < cnt
      then case achd_getc fd w of
             (c, w') \<Rightarrow>
               (if c = 10 then (ACH_OK, line, w')
                else if c = 13 then readline_from fd cnt line w'
                else if c = c_EOF then (ACH_FAILED_SYSCALL, line, w')
                else readline_from fd cnt (line @ [char_of_int c]) w')
      else (ACH_OVERFLOW, line, w))"
  by pat_completeness auto
termination
  by (relation "measure (\<lambda>(fd, cnt, line, w). input_left fd w)")
     (auto simp: c_EOF_def dest!: achd_getc_shrinks [unfolded c_EOF_def, OF sym])

declare readline_from.simps [simp del]

definition achd_readline :: "int \<Rightarrow> nat \<Rightarrow> world \<Rightarrow> ach_status_t \<times> string \<times> world" where
  "achd_readline fd cnt w = readline_from fd cnt [] w"

section \<open>Writing\<close>

text \<open>
  The loop of \<^verbatim>\<open>achd_write\<close>, which ends with \<open>Inl n\<close> when its condition fails and with
  \<open>Inr r\<close> when it returns the result of \<open>write\<close>.  A write of nothing leaves \<open>errno\<close> as it was.
\<close>

fun write_loop ::
  "byte list \<Rightarrow> nat \<Rightarrow> (bool \<times> wr_event) list \<Rightarrow> byte list \<Rightarrow> world \<Rightarrow>
   (nat + int) \<times> (bool \<times> wr_event) list \<times> byte list \<times> world" where
  "write_loop buf n [] sent w =
     (if stopping w \<or> length buf \<le> n then (Inl n, [], sent, w)
      else (Inl (length buf), [], sent @ drop n buf, w))"
| "write_loop buf n ((sig, ev) # evs) sent w =
     (if stopping w \<or> length buf \<le> n then (Inl n, (sig, ev) # evs, sent, w)
      else let w = maybe_signal sig w
           in case ev of
                Wr_accept k \<Rightarrow>
                  (let r = min k (length buf - n)
                   in if 0 < r then write_loop buf (n + r) evs (sent @ take r (drop n buf)) w
                      else if w_errno w = EINTR \<and> \<not> stopping w
                      then write_loop buf n evs sent w
                      else (Inr 0, evs, sent, w))
              | Wr_fail e \<Rightarrow>
                  (let w = set_errno e w
                   in if e = EINTR \<and> \<not> stopping w then write_loop buf n evs sent w
                      else (Inr (-1), evs, sent, w)))"

text \<open>
  After its loop the function has a second one, \<^verbatim>\<open>while( n < cnt);\<close>, with an empty body: when
  the shutdown flag ended the first loop early, the second never ends.
\<close>

definition achd_write :: "int \<Rightarrow> byte list \<Rightarrow> world \<Rightarrow> int act" where
  "achd_write fd buf w =
     (let (r, evs, sent, w) = write_loop buf 0 (io_out (w_fds w fd)) (io_sent (w_fds w fd)) w;
          w = set_fd fd (\<lambda>f. f\<lparr>io_out := evs, io_sent := sent\<rparr>) w
      in case r of
           Inl n \<Rightarrow> if n < length buf then Hang w else Cont (int (length buf)) w
         | Inr k \<Rightarrow> Cont k w)"

text \<open>
  Formatted output: \<open>n\<close> is the room tried first; when the text does not fit, the length that
  \<open>vsnprintf\<close> reported is tried next.
\<close>

definition INT_MAX :: nat where "INT_MAX = 2147483647"

function printf_from :: "nat \<Rightarrow> int \<Rightarrow> string \<Rightarrow> world \<Rightarrow> ach_status_t act" where
  "printf_from n fd text w =
     (if INT_MAX < length text then Cont ACH_BUG (w_log LOG_CRIT ''Error in printf'' w)
      else if length text < n + 1
      then act_then (achd_write fd (ascii text) w) (\<lambda>r w.
           Cont (if int (length text) = r then ACH_OK else ACH_FAILED_SYSCALL) w)
      else if stopping w then Cont ACH_FAILED_SYSCALL w
      else printf_from (length text) fd text w)"
  by pat_completeness auto
termination
  by (relation "measure (\<lambda>(n, fd, text, w). if length text < n + 1 then 0 else 1)") auto

declare printf_from.simps [simp del]

definition achd_printf :: "int \<Rightarrow> string \<Rightarrow> world \<Rightarrow> ach_status_t act" where
  "achd_printf fd text w = printf_from (ACHD_LINE_LENGTH - 1) fd text w"

section \<open>Facts\<close>

text \<open>A calm input: bytes in pieces of any length, no failure, no signal.\<close>

definition calm :: "(bool \<times> rd_event) list \<Rightarrow> bool" where
  "calm evs = list_all (\<lambda>(sig, ev). \<not> sig \<and> (case ev of Rd_data bs \<Rightarrow> bs \<noteq> [] | Rd_fail e \<Rightarrow> False)) evs"

fun waiting_bytes :: "(bool \<times> rd_event) list \<Rightarrow> byte list" where
  "waiting_bytes [] = []"
| "waiting_bytes ((sig, Rd_data bs) # evs) = bs @ waiting_bytes evs"
| "waiting_bytes ((sig, Rd_fail e) # evs) = waiting_bytes evs"

lemma stopping_set_errno_w [simp]: "w_fds (set_errno e w) = w_fds w"
  by (simp add: set_errno_def)

lemma set_errno_twice [simp]: "set_errno d (set_errno e w) = set_errno d w"
  by (simp add: set_errno_def)

lemma read_loop_calm:
  assumes "calm evs" "\<not> stopping w" "length got \<le> cnt"
  shows "\<exists>evs' w'. read_loop cnt got evs w =
           (got @ take (cnt - length got) (waiting_bytes evs), evs', w') \<and> calm evs' \<and>
         waiting_bytes evs' = drop (cnt - length got) (waiting_bytes evs) \<and>
         (w' = w \<or> w' = set_errno EOK w)"
  using assms
proof (induction cnt got evs w rule: read_loop.induct)
  case (2 cnt got sig ev evs w)
  from 2(3) obtain bs where ev: "ev = Rd_data bs" "\<not> sig" "bs \<noteq> []" "calm evs"
    by (cases ev) (auto simp: calm_def)
  show ?case
  proof (cases "cnt \<le> length got")
    case True
    with 2(3-5) ev show ?thesis by auto
  next
    case False
    show ?thesis
    proof (cases "cnt - length got < length bs")
      case True
      with False 2(4) ev show ?thesis by (auto simp: calm_def Let_def)
    next
      case fits: False
      from False 2(4) ev fits have "read_loop cnt got ((sig, ev) # evs) w
          = read_loop cnt (got @ bs) evs (set_errno EOK w)" by (simp add: Let_def)
      moreover have "\<exists>evs' w'. read_loop cnt (got @ bs) evs (set_errno EOK w) =
           ((got @ bs) @ take (cnt - length (got @ bs)) (waiting_bytes evs), evs', w') \<and> calm evs' \<and>
         waiting_bytes evs' = drop (cnt - length (got @ bs)) (waiting_bytes evs) \<and>
         (w' = set_errno EOK w \<or> w' = set_errno EOK (set_errno EOK w))"
        using False 2(4) ev fits by (intro 2(1)) auto
      ultimately show ?thesis using fits ev by auto
    qed
  qed
qed (auto simp: calm_def)

text \<open>Reads, characters and lines of a calm input depend only on the bytes, not on the pieces.\<close>

definition in_state :: "int \<Rightarrow> world \<Rightarrow> byte list \<Rightarrow> bool" where
  "in_state fd w bs \<longleftrightarrow>
     \<not> stopping w \<and> calm (io_in (w_fds w fd)) \<and> waiting_bytes (io_in (w_fds w fd)) = bs"

text \<open>Two worlds that differ only in the input of one descriptor and in \<open>errno\<close>.\<close>

definition same_but_input :: "int \<Rightarrow> world \<Rightarrow> world \<Rightarrow> bool" where
  "same_but_input fd w w' \<longleftrightarrow> (\<exists>e evs. w' = set_fd fd (\<lambda>f. f\<lparr>io_in := evs\<rparr>) (set_errno e w))"

lemma set_errno_id: "set_errno (w_errno w) w = w"
  by (simp add: set_errno_def w_errno_def)

lemma set_fd_twice: "set_fd fd f (set_errno e (set_fd fd g w)) = set_fd fd (f \<circ> g) (set_errno e w)"
  by (simp add: set_fd_def set_errno_def)

lemma same_but_input_trans:
  assumes "same_but_input fd a b" "same_but_input fd b c"
  shows "same_but_input fd a c"
proof -
  obtain e evs e' evs' where
    "b = set_fd fd (\<lambda>f. f\<lparr>io_in := evs\<rparr>) (set_errno e a)"
    "c = set_fd fd (\<lambda>f. f\<lparr>io_in := evs'\<rparr>) (set_errno e' b)"
    using assms by (auto simp: same_but_input_def)
  then have "c = set_fd fd (\<lambda>f. f\<lparr>io_in := evs'\<rparr>) (set_errno e' a)"
    by (simp add: set_fd_twice comp_def)
  then show ?thesis by (auto simp: same_but_input_def)
qed

lemma same_but_input_refl: "same_but_input fd w w"
proof -
  have "w = set_fd fd (\<lambda>f. f\<lparr>io_in := io_in (w_fds w fd)\<rparr>) (set_errno (w_errno w) w)"
    by (simp add: set_errno_id) (simp add: set_fd_def)
  then show ?thesis unfolding same_but_input_def by blast
qed

lemma achd_read_calm:
  assumes "in_state fd w bs"
  shows "\<exists>w'. achd_read fd cnt w = (take cnt bs, w') \<and> in_state fd w' (drop cnt bs) \<and>
              same_but_input fd w w'"
proof -
  from assms have *: "calm (io_in (w_fds w fd))" "\<not> stopping w" "length [] \<le> cnt"
    "waiting_bytes (io_in (w_fds w fd)) = bs" by (auto simp: in_state_def)
  obtain evs' w' where r: "read_loop cnt [] (io_in (w_fds w fd)) w = (take cnt bs, evs', w')"
    "calm evs'" "waiting_bytes evs' = drop cnt bs" "w' = w \<or> w' = set_errno EOK w"
    using read_loop_calm [OF *(1-3)] *(4) by auto
  let ?w = "set_fd fd (\<lambda>f. f\<lparr>io_in := evs'\<rparr>) w'"
  have "achd_read fd cnt w = (take cnt bs, ?w)" by (simp add: achd_read_def r)
  moreover have "in_state fd ?w (drop cnt bs)"
    using r *(2) by (auto simp: in_state_def stopping_def set_fd_def set_errno_def)
  moreover have "same_but_input fd w ?w"
    using r(4) set_errno_id [of w] unfolding same_but_input_def by metis
  ultimately show ?thesis by blast
qed

lemma achd_getc_calm:
  assumes "in_state fd w (b # bs)"
  shows "\<exists>w'. achd_getc fd w = (sint b, w') \<and> in_state fd w' bs \<and> same_but_input fd w w'"
  using achd_read_calm [OF assms, of 1] by (auto simp: achd_getc_def)

lemma achd_getc_end:
  assumes "in_state fd w []"
  shows "\<exists>w'. achd_getc fd w = (c_EOF, w') \<and> in_state fd w' [] \<and> same_but_input fd w w'"
  using achd_read_calm [OF assms, of 1] by (auto simp: achd_getc_def)

definition char_of_byte :: "byte \<Rightarrow> char" where
  "char_of_byte b = char_of (unat b)"

lemma char_of_int_sint: "char_of_int (sint b) = char_of_byte b" for b :: byte
proof -
  have "(sint b) mod 256 = uint b"
    using uint_sint [of b] by (simp add: take_bit_eq_mod)
  then show ?thesis by (simp add: char_of_int_def char_of_byte_def)
qed

lemma sint_byte_eq: "sint b = 10 \<longleftrightarrow> b = 10" "sint b = 13 \<longleftrightarrow> b = 13"
  "sint b = c_EOF \<longleftrightarrow> b = 255" for b :: byte
proof -
  have "sint b = sint a \<longleftrightarrow> b = a" for a :: byte by (auto intro: signed_word_eqI)
  from this [of 10] this [of 13] this [of 255]
  show "sint b = 10 \<longleftrightarrow> b = 10" "sint b = 13 \<longleftrightarrow> b = 13" "sint b = c_EOF \<longleftrightarrow> b = 255"
    by (simp_all add: c_EOF_def)
qed

text \<open>A line comes out without its carriage returns, whatever the pieces it arrives in.\<close>

lemma readline_from_calm:
  assumes "in_state fd w (l @ 10 # rest)" "10 \<notin> set l" "255 \<notin> set l"
    "length line + length (filter (\<lambda>b. b \<noteq> 13) l) < cnt"
  shows "\<exists>w'. readline_from fd cnt line w =
           (ACH_OK, line @ map char_of_byte (filter (\<lambda>b. b \<noteq> 13) l), w') \<and>
         in_state fd w' rest \<and> same_but_input fd w w'"
  using assms
proof (induction l arbitrary: line w)
  case Nil
  then obtain w' where "achd_getc fd w = (10, w')" "in_state fd w' rest" "same_but_input fd w w'"
    using achd_getc_calm [of fd w 10 rest] by auto
  with Nil show ?case by (subst readline_from.simps) simp
next
  case (Cons b l)
  then obtain w1 where g: "achd_getc fd w = (sint b, w1)" "in_state fd w1 (l @ 10 # rest)"
    "same_but_input fd w w1"
    using achd_getc_calm [of fd w b "l @ 10 # rest"] by auto
  let ?line = "if b = 13 then line else line @ [char_of_byte b]"
  have step: "readline_from fd cnt line w = readline_from fd cnt ?line w1"
    using Cons.prems g(1) by (subst readline_from.simps) (auto simp: sint_byte_eq char_of_int_sint)
  have "\<exists>w'. readline_from fd cnt ?line w1 =
           (ACH_OK, ?line @ map char_of_byte (filter (\<lambda>b. b \<noteq> 13) l), w') \<and>
         in_state fd w' rest \<and> same_but_input fd w1 w'"
    using Cons.prems g by (intro Cons.IH) (auto split: if_splits)
  then show ?case using step same_but_input_trans [OF g(3)] by auto
qed

lemma readline_calm:
  assumes "in_state fd w (ascii l @ 10 # rest)" "list_all (\<lambda>c. of_char c \<notin> {10, 13, 255 :: nat}) l"
    "length l < cnt"
  shows "\<exists>w'. achd_readline fd cnt w = (ACH_OK, l, w') \<and> in_state fd w' rest \<and> same_but_input fd w w'"
proof -
  have rd: "char_of_byte (of_nat (of_char c)) = c" for c
    by (simp add: char_of_byte_def unsigned_of_nat take_bit_nat_eq_self)
  have ne: "(of_nat (of_char c) :: byte) \<noteq> of_nat k" if "k < 256" "of_char c \<noteq> k" for c k
  proof
    assume "(of_nat (of_char c) :: byte) = of_nat k"
    then have "unat (of_nat (of_char c) :: byte) = unat (of_nat k :: byte)" by simp
    with that show False by (simp add: unsigned_of_nat take_bit_nat_eq_self)
  qed
  have ok: "b \<noteq> 10 \<and> b \<noteq> 13 \<and> b \<noteq> 255" if "b \<in> set (ascii l)" for b
    using that assms(2) ne [of 10] ne [of 13] ne [of 255]
    by (auto simp: ascii_def list_all_iff)
  then have all: "filter (\<lambda>b. b \<noteq> 13) (ascii l) = ascii l" by (simp add: filter_id_conv)
  have "map char_of_byte (ascii l) = l" by (simp add: ascii_def rd comp_def)
  with readline_from_calm [OF assms(1), of "[]" cnt] ok assms(3) all show ?thesis
    by (fastforce simp: achd_readline_def ascii_def)
qed

text \<open>Writes to a descriptor that takes bytes, in pieces of any length, deliver the whole buffer.\<close>

definition calm_out :: "(bool \<times> wr_event) list \<Rightarrow> bool" where
  "calm_out evs =
     list_all (\<lambda>(sig, ev). \<not> sig \<and> (case ev of Wr_accept k \<Rightarrow> 0 < k | Wr_fail e \<Rightarrow> False)) evs"

lemma write_loop_calm:
  assumes "calm_out evs" "\<not> stopping w" "n \<le> length buf"
  shows "\<exists>evs'. write_loop buf n evs sent w = (Inl (length buf), evs', sent @ drop n buf, w) \<and>
                calm_out evs'"
  using assms
proof (induction buf n evs sent w rule: write_loop.induct)
  case (2 buf n sig ev evs sent w)
  from 2(4) obtain k where ev: "ev = Wr_accept k" "\<not> sig" "0 < k" "calm_out evs"
    by (cases ev) (auto simp: calm_out_def)
  show ?case
  proof (cases "length buf \<le> n")
    case False
    let ?r = "min k (length buf - n)"
    have "\<exists>evs'. write_loop buf (n + ?r) evs (sent @ take ?r (drop n buf)) w =
        (Inl (length buf), evs', (sent @ take ?r (drop n buf)) @ drop (n + ?r) buf, w) \<and> calm_out evs'"
      using False 2(5) ev by (intro 2(1)) auto
    moreover have "take ?r (drop n buf) @ drop (n + ?r) buf = drop n buf"
      by (metis add.commute append_take_drop_id drop_drop)
    ultimately show ?thesis using False 2(5) ev by (auto simp: Let_def)
  qed (use 2(4,6) in auto)
qed (auto simp: calm_out_def)

lemma achd_write_calm:
  assumes "calm_out (io_out (w_fds w fd))" "\<not> stopping w"
  shows "\<exists>evs. achd_write fd buf w = Cont (int (length buf))
           (set_fd fd (\<lambda>f. f\<lparr>io_out := evs, io_sent := io_sent (w_fds w fd) @ buf\<rparr>) w) \<and> calm_out evs"
  using write_loop_calm [OF assms, of 0 buf "io_sent (w_fds w fd)"] by (auto simp: achd_write_def)

section \<open>Properties\<close>

text \<open>
  A shutdown in the middle of a write.  When a termination signal arrives while only part of the
  buffer has been accepted, \<^verbatim>\<open>achd_write\<close> does not return: its loop ends because the shutdown
  flag is set, and the empty loop behind it waits for a count that no longer changes.
\<close>

lemma achd_write_spins:
  assumes "\<not> stopping w" "io_out (w_fds w fd) = (True, Wr_accept k) # evs" "0 < k" "k < length buf"
  shows "\<exists>w'. achd_write fd buf w = Hang w' \<and> stopping w' \<and>
              io_sent (w_fds w' fd) = io_sent (w_fds w fd) @ take k buf"
proof -
  have "write_loop buf 0 ((True, Wr_accept k) # evs) sent w
      = (Inl k, evs, sent @ take k buf, maybe_signal True w)" for sent
    using assms(1,3,4) by (cases evs) (auto simp: Let_def min_def)
  then show ?thesis using assms by (simp add: achd_write_def) (simp add: set_fd_def)
qed

definition an_achd_cx :: achd_cx where
  "an_achd_cx =
     \<lparr>cl_opts = zero_headers, cx_mode = ACHD_MODE_PUSH, cx_port = ACHD_PORT, cx_reconnect = False,
      cx_detach = False, cx_pidfile = None, sig_received = False, cx_channel = no_handle,
      cx_error = Error_log\<rparr>"

definition idle_fd :: fd_io where
  "idle_fd = \<lparr>io_in = [], io_out = [], io_sent = []\<rparr>"

definition a_world :: world where
  "a_world =
     \<lparr>w_cx = an_achd_cx, w_proc = a_process, w_os = empty_os, w_fds = (\<lambda>_. idle_fd), w_closed = [],
      w_next_fd = 5, w_dials = [], w_build = debug_build, w_shift = (\<lambda>u k. 0),
      w_heap = (\<lambda>n. Some (replicate n 0)), w_clock = [],
      w_sleeps = [], w_naps = [], w_peer = Inl EBADF,
      w_udp_port = 0, w_udp_calls = [], w_recvs = [], w_sends = [],
      w_sent_dgrams = [], w_strerror = (\<lambda>e. if e = ENOENT then ''No such file or directory'' else ''Error'')\<rparr>"

lemma achd_write_spins_witness:
  "\<exists>w'. achd_write 4 [1, 2, 3] (set_fd 4 (\<lambda>f. f\<lparr>io_out := [(True, Wr_accept 2)]\<rparr>) a_world) = Hang w'"
proof -
  let ?w = "set_fd 4 (\<lambda>f. f\<lparr>io_out := [(True, Wr_accept 2)]\<rparr>) a_world"
  have "\<not> stopping ?w" "io_out (w_fds ?w 4) = [(True, Wr_accept 2)]"
    by (simp_all add: a_world_def an_achd_cx_def stopping_def set_fd_def)
  from achd_write_spins [OF this, of "[1, 2, 3]"] show ?thesis by auto
qed

end
