(* ===== verification/Ach_CLib.thy ===== *)
theory Ach_CLib
  imports Ach_Types
begin

text \<open>
  String and number functions of the C library that several programs use.
\<close>

text \<open>What the string functions see of a buffer.\<close>

definition c_str :: "string \<Rightarrow> string" where
  "c_str s = takeWhile (\<lambda>c. c \<noteq> CHR 0x00) s"

definition c_isspace :: "char \<Rightarrow> bool" where
  "c_isspace c = (of_char c = (32 :: nat) \<or> (9 :: nat) \<le> of_char c \<and> of_char c \<le> (13 :: nat))"

definition is_digit :: "char \<Rightarrow> bool" where
  "is_digit c = ((48 :: nat) \<le> of_char c \<and> of_char c \<le> (57 :: nat))"

definition digits_value :: "string \<Rightarrow> nat" where
  "digits_value ds = foldl (\<lambda>n c. 10 * n + (of_char c - 48)) 0 ds"

text \<open>The sign and the value of the longest number at the start; no digits give zero.\<close>

definition scan_number :: "string \<Rightarrow> bool \<times> nat" where
  "scan_number s =
     (let s = dropWhile c_isspace s
      in case s of
           [] \<Rightarrow> (False, 0)
         | c # t \<Rightarrow>
             if c = CHR ''-'' then (True, digits_value (takeWhile is_digit t))
             else if c = CHR ''+'' then (False, digits_value (takeWhile is_digit t))
             else (False, digits_value (takeWhile is_digit s)))"

text \<open>\<open>strtol\<close> and \<open>strtoul\<close> in base ten: the value, and whether \<open>errno\<close> is set.\<close>

definition LONG_MAX :: int where "LONG_MAX = 9223372036854775807"

definition strtol :: "string \<Rightarrow> int \<times> bool" where
  "strtol s =
     (let (neg, n) = scan_number s; v = (if neg then - int n else int n)
      in if v > LONG_MAX then (LONG_MAX, True)
         else if v < - LONG_MAX - 1 then (- LONG_MAX - 1, True)
         else (v, False))"

definition strtoul :: "string \<Rightarrow> uint64 \<times> bool" where
  "strtoul s =
     (let (neg, n) = scan_number s
      in if 2 ^ 64 \<le> n then (- 1, True)
         else (if neg then - of_nat n else of_nat n, False))"

text \<open>Conversion of a \<open>long\<close> to an \<open>int\<close>.\<close>

definition to_int :: "int \<Rightarrow> int" where
  "to_int v = sint (word_of_int v :: 32 word)"

text \<open>\<open>strtol\<close> in base eight, and \<open>atoi\<close>.\<close>

definition is_octal :: "char \<Rightarrow> bool" where
  "is_octal c = ((48 :: nat) \<le> of_char c \<and> of_char c \<le> (55 :: nat))"

definition octal_value :: "string \<Rightarrow> nat" where
  "octal_value ds = foldl (\<lambda>n c. 8 * n + (of_char c - 48)) 0 ds"

definition scan_octal :: "string \<Rightarrow> bool \<times> nat" where
  "scan_octal s =
     (let s = dropWhile c_isspace s
      in case s of
           [] \<Rightarrow> (False, 0)
         | c # t \<Rightarrow>
             if c = CHR ''-'' then (True, octal_value (takeWhile is_octal t))
             else if c = CHR ''+'' then (False, octal_value (takeWhile is_octal t))
             else (False, octal_value (takeWhile is_octal s)))"

definition strtol8 :: "string \<Rightarrow> int \<times> bool" where
  "strtol8 s =
     (let (neg, n) = scan_octal s; v = (if neg then - int n else int n)
      in if v > LONG_MAX then (LONG_MAX, True)
         else if v < - LONG_MAX - 1 then (- LONG_MAX - 1, True)
         else (v, False))"

definition atoi :: "string \<Rightarrow> int" where
  "atoi s = to_int (fst (strtol s))"

section \<open>Facts\<close>

text \<open>Numbers are read back from the decimal digits they are printed with.\<close>

lemma of_char_digit: "d < 10 \<Longrightarrow> of_char (digit d) = 48 + d"
  by (simp add: digit_def of_char_of)

lemma is_digit_digit: "d < 10 \<Longrightarrow> is_digit (digit d)"
  by (simp add: is_digit_def of_char_digit)

lemma digits_value_snoc: "digits_value (ds @ [c]) = 10 * digits_value ds + (of_char c - 48)"
  by (simp add: digits_value_def)

lemma show_nat_digits: "digits_value (show_nat n) = n \<and> list_all is_digit (show_nat n) \<and> show_nat n \<noteq> []"
proof (induction n rule: show_nat.induct)
  case (1 n)
  show ?case
  proof (cases "n < 10")
    case True
    then show ?thesis
      by (subst (1 2 3) show_nat.simps) (simp add: digits_value_def is_digit_digit of_char_digit)
  next
    case False
    with 1 show ?thesis
      by (subst (1 2 3) show_nat.simps) (simp add: digits_value_snoc is_digit_digit of_char_digit)
  qed
qed

lemma is_digit_plain: "is_digit c \<Longrightarrow> \<not> c_isspace c \<and> c \<noteq> CHR ''-'' \<and> c \<noteq> CHR ''+''"
  by (auto simp: is_digit_def c_isspace_def)

lemma scan_number_show_nat:
  assumes "t = [] \<or> \<not> is_digit (hd t)"
  shows "scan_number (show_nat n @ t) = (False, n)"
proof -
  obtain c cs where cs: "show_nat n = c # cs" using show_nat_digits [of n] by (cases "show_nat n") auto
  have d: "is_digit c" using show_nat_digits [of n] by (simp add: cs)
  have "takeWhile is_digit (show_nat n @ t) = show_nat n"
    using assms show_nat_digits [of n]
    by (cases t) (auto simp: takeWhile_append2 list_all_iff)
  then show ?thesis using show_nat_digits [of n] is_digit_plain [OF d] by (simp add: scan_number_def cs)
qed

lemma strtoul_show_nat: "strtoul (show_nat (unat u)) = (u, False)"
  using scan_number_show_nat [of "[]" "unat u"] size_t_bound [of u] by (simp add: strtoul_def)

lemma strtol_show_nat:
  assumes "int n \<le> LONG_MAX" "t = [] \<or> \<not> is_digit (hd t)"
  shows "strtol (show_nat n @ t) = (int n, False)"
  using scan_number_show_nat [OF assms(2), of n] assms(1) by (simp add: strtol_def LONG_MAX_def)

end
