(* ===== verification/Achd_Headers.thy ===== *)
theory Achd_Headers
  imports Achd_IO Ach_CLib
begin

text \<open>
  The connection headers of \<^verbatim>\<open>achd\<close> (\<^verbatim>\<open>src/achd/achd.c\<close>): lines of the form
  \<^verbatim>\<open>key: value\<close> up to a line with a dot, and the table of transports.  The regular expressions
  are written out as the strings they match and the submatches POSIX prescribes; the messages logged
  for debugging only are left out.
\<close>

section \<open>Matching a line\<close>

text \<open>\<^verbatim>\<open>REGEX_SPACE\<close> is a run of these; \<^verbatim>\<open>REGEX_WORD\<close> a run of the others that are not line ends.\<close>

definition is_blank :: "char \<Rightarrow> bool" where
  "is_blank c = (c = CHR '' '' \<or> c = CHR 0x09 \<or> c = CHR 0x0A \<or> c = CHR 0x0D)"

definition is_sep :: "char \<Rightarrow> bool" where
  "is_sep c = (c = CHR '':'' \<or> c = CHR ''='')"

text \<open>\<^verbatim>\<open>dot_regex\<close>: blanks, one character of any kind, blanks.\<close>

definition dot_match :: "string \<Rightarrow> bool" where
  "dot_match s =
     list_ex (\<lambda>i. list_all is_blank (take i s) \<and> list_all is_blank (drop (i + 1) s)) [0..<length s]"

text \<open>
  The word in a part of the line: blanks at its start belong to the expression before the group,
  blanks behind it belong to the group itself, which comes first and takes all it can.
\<close>

definition match_word :: "string \<Rightarrow> string option" where
  "match_word t =
     (let u = dropWhile is_blank t; v = takeWhile (\<lambda>c. c \<noteq> CHR 0x0A) u
      in if list_all is_blank (drop (length v) u) then Some v else None)"

text \<open>\<^verbatim>\<open>line_regex\<close>: an empty line, or two words around one separator.\<close>

definition line_match :: "string \<Rightarrow> (string \<times> string) option option" where
  "line_match s =
     (if list_all is_blank s then Some None
      else if length (filter is_sep s) = 1
      then let pre = takeWhile (\<lambda>c. \<not> is_sep c) s
           in case (match_word pre, match_word (drop (length pre + 1) s)) of
                (Some key, Some val) \<Rightarrow> Some (Some (key, val))
              | _ \<Rightarrow> None
      else None)"

section \<open>Setting the fields\<close>

text \<open>
  \<open>errno\<close> is cleared before a number is read; a number that is too large sets it and is an error.
\<close>

definition numeral_error :: "string \<Rightarrow> string \<Rightarrow> world \<Rightarrow> 'a act" where
  "numeral_error name val w =
     (let w = set_errno ERANGE w
      in fail_with ACH_BAD_HEADER (''Invalid '' @ name @ '' '' @ val @ '': '' @ err_text w) w)"

definition achd_set_int :: "string \<Rightarrow> string \<Rightarrow> world \<Rightarrow> int act" where
  "achd_set_int name val w =
     (let (i, bad) = strtol val
      in if bad then numeral_error name val w
         else Cont (to_int i) (set_errno EOK w))"

definition achd_set_ul :: "string \<Rightarrow> string \<Rightarrow> world \<Rightarrow> uint64 act" where
  "achd_set_ul name val w =
     (let (i, bad) = strtoul val
      in if bad then numeral_error name val w
         else Cont i (set_errno EOK w))"

definition achd_set_status :: "string \<Rightarrow> string \<Rightarrow> world \<Rightarrow> int act" where
  "achd_set_status name val w =
     (let (i, bad) = strtol val
      in if bad then numeral_error name val w
         else Cont (to_int i) (set_errno EOK w))"

definition achd_parse_boolean :: "string \<Rightarrow> world \<Rightarrow> bool act" where
  "achd_parse_boolean val w =
     (if list_ex (\<lambda>s. strcaseeq s val) [''yes'', ''true'', ''1'', ''t'', ''y'', ''+'', ''aye'']
      then Cont True w
      else if list_ex (\<lambda>s. strcaseeq s val) [''no'', ''false'', ''0'', ''f'', ''n'', ''-'', ''nay'']
      then Cont False w
      else fail_with ACH_BAD_HEADER (''Invalid boolean: '' @ val) w)"

definition achd_set_header :: "string \<Rightarrow> string \<Rightarrow> achd_headers \<Rightarrow> world \<Rightarrow> achd_headers act" where
  "achd_set_header key val h w =
     (if strcaseeq key ''channel-name'' then Cont (h\<lparr>h_chan_name := Some val\<rparr>) w
      else if strcaseeq key ''frame-size''
      then act_then (achd_set_int ''frame size'' val w) (\<lambda>i. Cont (h\<lparr>h_frame_size := i\<rparr>))
      else if strcaseeq key ''frame-count''
      then act_then (achd_set_int ''frame count'' val w) (\<lambda>i. Cont (h\<lparr>h_frame_count := i\<rparr>))
      else if strcaseeq key ''remote-port''
      then act_then (achd_set_int ''remote port'' val w) (\<lambda>i. Cont (h\<lparr>h_remote_port := i\<rparr>))
      else if strcaseeq key ''local-port''
      then act_then (achd_set_int ''local port'' val w) (\<lambda>i. Cont (h\<lparr>h_local_port := i\<rparr>))
      else if strcaseeq key ''remote-host'' then Cont (h\<lparr>h_remote_host := Some val\<rparr>) w
      else if strcaseeq key ''period-ns''
      then act_then (achd_set_ul ''period-ns'' val w) (\<lambda>i. Cont (h\<lparr>h_period_ns := i\<rparr>))
      else if strcaseeq key ''get-last''
      then act_then (achd_parse_boolean val w) (\<lambda>b. Cont (h\<lparr>h_get_last := b\<rparr>))
      else if strcaseeq key ''transport'' then Cont (h\<lparr>h_transport := Some val\<rparr>) w
      else if strcaseeq key ''tcp-nodelay''
      then act_then (achd_parse_boolean val w) (\<lambda>b. Cont (h\<lparr>h_tcp_nodelay := b\<rparr>))
      else if strcaseeq key ''retry''
      then act_then (achd_parse_boolean val w) (\<lambda>b. Cont (h\<lparr>h_retry := b\<rparr>))
      else if strcaseeq key ''direction''
      then if strcaseeq val ''push'' then Cont (h\<lparr>h_direction := ACHD_DIRECTION_PUSH\<rparr>) w
           else if strcaseeq val ''pull'' then Cont (h\<lparr>h_direction := ACHD_DIRECTION_PULL\<rparr>) w
           else fail_with ACH_BAD_HEADER (''Invalid direction: '' @ val) w
      else if strcaseeq key ''status''
      then act_then (achd_set_status ''status'' val w) (\<lambda>i. Cont (h\<lparr>h_status := i\<rparr>))
      else if strcaseeq key ''message'' then Cont (h\<lparr>h_message := Some val\<rparr>) w
      else fail_with ACH_BAD_HEADER (''Invalid header: `'' @ key @ '': '' @ val @ [CHR 0x27]) w)"

lemma fail_with_not_Cont [simp]: "fail_with r msg w \<noteq> Cont x w'" "Cont x w' \<noteq> fail_with r msg w"
  using fail_with_quits [of r msg w] by (metis act.distinct(1))+

lemma achd_set_world:
  "achd_set_int name val w = Cont i w' \<Longrightarrow> w' = set_errno EOK w"
  "achd_set_ul name val w = Cont u w' \<Longrightarrow> w' = set_errno EOK w"
  "achd_set_status name val w = Cont i w' \<Longrightarrow> w' = set_errno EOK w"
  "achd_parse_boolean val w = Cont b w' \<Longrightarrow> w' = w"
  by (auto simp: achd_set_int_def achd_set_ul_def achd_set_status_def achd_parse_boolean_def numeral_error_def Let_def
      split: if_splits prod.splits)

lemma act_then_Cont_iff: "act_then m f = Cont y w' \<longleftrightarrow> (\<exists>x w. m = Cont x w \<and> f x w = Cont y w')"
  by (cases m) auto

lemma achd_set_header_world: "achd_set_header key val h w = Cont h' w' \<Longrightarrow> w' = w \<or> w' = set_errno EOK w"
  by (auto simp: achd_set_header_def act_then_Cont_iff dest: achd_set_world split: if_splits)

lemma input_left_errno [simp]: "input_left fd (set_errno e w) = input_left fd w"
  by (simp add: input_left_def set_errno_def)

section \<open>Reading the headers\<close>

lemma readline_from_shrinks:
  "readline_from fd cnt line w = (ACH_OK, l, w') \<Longrightarrow> input_left fd w' < input_left fd w"
proof (induction fd cnt line w rule: readline_from.induct)
  case (1 fd cnt line w)
  note ih = 1(1,2) and run = 1(3)
  obtain c w1 where g: "achd_getc fd w = (c, w1)" by force
  from run g have lt: "length line < cnt" and ne: "c \<noteq> c_EOF"
    by (subst (asm) readline_from.simps, simp split: if_splits add: c_EOF_def)+
  with g have less: "input_left fd w1 < input_left fd w" by (simp add: achd_getc_shrinks)
  from run g lt ne have "c = 10 \<and> w1 = w' \<or>
      c \<noteq> 10 \<and> c = 13 \<and> readline_from fd cnt line w1 = (ACH_OK, l, w') \<or>
      c \<noteq> 10 \<and> c \<noteq> 13 \<and> readline_from fd cnt (line @ [char_of_int c]) w1 = (ACH_OK, l, w')"
    by (subst (asm) readline_from.simps) (simp split: if_splits)
  with ih(1) [OF lt g [symmetric]] ih(2) [OF lt g [symmetric] _ _ ne] less show ?case by auto
qed

function parse_lines :: "int \<Rightarrow> achd_headers \<Rightarrow> world \<Rightarrow> (ach_status_t \<times> achd_headers) act" where
  "parse_lines fd h w =
     (case achd_readline fd ACHD_LINE_LENGTH w of
        (r, buf, w') \<Rightarrow>
          if r \<noteq> ACH_OK then Cont (r, h) w'
          else if dot_match (c_str buf) then Cont (ACH_OK, h) w'
          else let line = takeWhile (\<lambda>c. c \<noteq> CHR ''#'') (c_str buf)
               in case line_match line of
                    None \<Rightarrow> fail_with ACH_BAD_HEADER ''malformed header'' w'
                  | Some None \<Rightarrow> parse_lines fd h w'
                  | Some (Some (key, val)) \<Rightarrow>
                      act_then (achd_set_header key val h w') (\<lambda>h. parse_lines fd h))"
  by pat_completeness auto
termination
  by (relation "measure (\<lambda>(fd, h, w). input_left fd w)")
     (auto simp: achd_readline_def dest!: achd_set_header_world readline_from_shrinks [OF sym])

declare parse_lines.simps [simp del]

definition achd_parse_headers :: "int \<Rightarrow> achd_headers \<Rightarrow> world \<Rightarrow> (ach_status_t \<times> achd_headers) act" where
  "achd_parse_headers fd h w = parse_lines fd h w"

section \<open>The table of transports\<close>

definition handlers :: "achd_conn_vtab list" where
  "handlers =
     [\<lparr>v_transport = ''tcp'', v_direction = ACHD_DIRECTION_PUSH, v_connect = Connect_nop,
       v_handler = Push_tcp\<rparr>,
      \<lparr>v_transport = ''tcp'', v_direction = ACHD_DIRECTION_PULL, v_connect = Connect_nop,
       v_handler = Pull_tcp\<rparr>,
      \<lparr>v_transport = ''udp'', v_direction = ACHD_DIRECTION_PUSH, v_connect = Connect_udp_sock,
       v_handler = Push_udp\<rparr>,
      \<lparr>v_transport = ''udp'', v_direction = ACHD_DIRECTION_PULL, v_connect = Connect_udp_sock,
       v_handler = Pull_udp\<rparr>]"

definition achd_get_vtab :: "string option \<Rightarrow> achd_direction \<Rightarrow> world \<Rightarrow> achd_conn_vtab act" where
  "achd_get_vtab transport direction w =
     (case transport of
        None \<Rightarrow> fail_with ACH_BAD_HEADER ''No transport header'' w
      | Some t \<Rightarrow>
          if direction = ACHD_DIRECTION_VOID
          then fail_with ACH_BAD_HEADER ''No direction header'' w
          else case find (\<lambda>v. direction = v_direction v \<and> strcaseeq (v_transport v) t) handlers of
                 Some v \<Rightarrow> Cont v w
               | None \<Rightarrow> fail_with ACH_BAD_HEADER ''Requested transport or direction not found'' w)"

section \<open>Facts\<close>

text \<open>The keys and values that a header line carries unchanged.\<close>

definition plain_key :: "string \<Rightarrow> bool" where
  "plain_key k \<longleftrightarrow> 2 \<le> length k \<and>
     list_all (\<lambda>c. \<not> is_blank c \<and> \<not> is_sep c \<and> c \<noteq> CHR ''#'' \<and> c \<noteq> CHR 0x00 \<and> c \<noteq> CHR 0xFF) k"

definition plain_value :: "string \<Rightarrow> bool" where
  "plain_value v \<longleftrightarrow> (v = [] \<or> \<not> is_blank (hd v)) \<and>
     list_all (\<lambda>c. \<not> is_sep c \<and> c \<noteq> CHR ''#'' \<and> c \<noteq> CHR 0x00 \<and> c \<noteq> CHR 0xFF \<and>
                   c \<noteq> CHR 0x0A \<and> c \<noteq> CHR 0x0D) v"

lemma dot_match_few:
  assumes "dot_match s"
  shows "s \<noteq> [] \<and> length (filter (\<lambda>c. \<not> is_blank c) s) \<le> 1"
proof -
  obtain i where i: "i < length s" "list_all is_blank (take i s)" "list_all is_blank (drop (i + 1) s)"
    using assms by (auto simp: dot_match_def list_ex_iff)
  have "s = take i s @ s ! i # drop (i + 1) s" using i(1) by (simp add: id_take_nth_drop)
  then have "filter (\<lambda>c. \<not> is_blank c) s =
      filter (\<lambda>c. \<not> is_blank c) (take i s @ s ! i # drop (i + 1) s)" by simp
  also have "\<dots> = (if is_blank (s ! i) then [] else [s ! i])"
    using i(2,3) by (auto simp: list_all_iff)
  finally show ?thesis using i(1) by auto
qed

lemma match_word_plain:
  assumes "v = [] \<or> \<not> is_blank (hd v)" "CHR 0x0A \<notin> set v" "list_all is_blank b"
  shows "match_word (b @ v) = Some v"
proof -
  have d: "dropWhile is_blank (b @ v) = v"
    using assms(1,3) by (cases v) (auto simp: dropWhile_append list_all_iff)
  have t: "takeWhile (\<lambda>c. c \<noteq> CHR 0x0A) v = v"
    using assms(2) by (auto simp: takeWhile_eq_all_conv)
  show ?thesis unfolding match_word_def Let_def d t by simp
qed

lemma line_match_plain:
  assumes k: "plain_key key" and v: "plain_value val"
  shows "line_match (key @ '': '' @ val) = Some (Some (key, val))"
proof -
  have key: "\<not> is_sep c" "\<not> is_blank c" if "c \<in> set key" for c
    using k that by (auto simp: plain_key_def list_all_iff)
  have ne: "key \<noteq> []" using k by (auto simp: plain_key_def)
  have "filter is_sep key = []" "filter is_sep val = []"
    using k v by (auto simp: plain_key_def plain_value_def list_all_iff filter_empty_conv)
  then have one: "length (filter is_sep (key @ '': '' @ val)) = 1" by (simp add: is_sep_def)
  have pre: "takeWhile (\<lambda>c. \<not> is_sep c) (key @ '': '' @ val) = key"
    using key(1) by (simp add: takeWhile_append2 is_sep_def [of "CHR '':''"])
  have "CHR 0x0A \<notin> set key" using key(2) by (auto simp: is_blank_def)
  then have mk: "match_word key = Some key"
    using match_word_plain [of key "[]"] key(2) ne by simp
  have mv: "match_word (CHR '' '' # val) = Some val"
    using match_word_plain [of val "'' ''"] v by (auto simp: plain_value_def list_all_iff is_blank_def)
  have "\<not> list_all is_blank (key @ '': '' @ val)" using key(2) ne by (cases key) auto
  with one pre mk mv show ?thesis by (simp add: line_match_def)
qed

lemma takeWhile_all: "(\<And>c. c \<in> set s \<Longrightarrow> P c) \<Longrightarrow> takeWhile P s = s"
  by (auto simp: takeWhile_eq_all_conv)

lemma in_state_errno:
  assumes "in_state fd w' rest" "same_but_input fd w w'"
  shows "in_state fd (set_errno e w') rest \<and> same_but_input fd w (set_errno e w')"
proof -
  have "same_but_input fd w' (set_errno e w')"
    unfolding same_but_input_def by (rule exI [of _ e], rule exI [of _ "io_in (w_fds w' fd)"]) (simp add: set_fd_def set_errno_def)
  then show ?thesis
    using assms same_but_input_trans [OF assms(2)] by (simp add: in_state_def set_errno_def stopping_def)
qed

text \<open>One header line, and the line with the dot.\<close>

lemma readline_text:
  assumes "in_state fd w (ascii l @ 10 # rest)" "length l < ACHD_LINE_LENGTH"
    "\<And>c. c \<in> set l \<Longrightarrow> c \<noteq> CHR 0x0A \<and> c \<noteq> CHR 0x0D \<and> c \<noteq> CHR 0xFF"
  shows "\<exists>w'. achd_readline fd ACHD_LINE_LENGTH w = (ACH_OK, l, w') \<and> in_state fd w' rest \<and>
              same_but_input fd w w'"
proof -
  have "of_char c = (10 :: nat) \<longleftrightarrow> c = CHR 0x0A" "of_char c = (13 :: nat) \<longleftrightarrow> c = CHR 0x0D"
    "of_char c = (255 :: nat) \<longleftrightarrow> c = CHR 0xFF" for c
    using of_char_eq_iff [of c "CHR 0x0A", where 'a = nat]
      of_char_eq_iff [of c "CHR 0x0D", where 'a = nat] of_char_eq_iff [of c "CHR 0xFF", where 'a = nat]
    by simp_all
  then have "list_all (\<lambda>c. of_char c \<notin> {10, 13, 255 :: nat}) l"
    using assms(3) unfolding list_all_iff by simp
  with readline_calm [OF assms(1)] assms(2) show ?thesis by blast
qed

lemma parse_lines_line:
  assumes "achd_readline fd ACHD_LINE_LENGTH w = (ACH_OK, buf, w')" "c_str buf = s" "\<not> dot_match s"
    "takeWhile (\<lambda>c. c \<noteq> CHR ''#'') s = line" "line_match line = Some (Some (key, val))"
  shows "parse_lines fd h w = act_then (achd_set_header key val h w') (\<lambda>h. parse_lines fd h)"
  using assms by (subst parse_lines.simps) simp

lemma parse_lines_bad:
  assumes "achd_readline fd ACHD_LINE_LENGTH w = (ACH_OK, buf, w')" "c_str buf = s" "\<not> dot_match s"
    "takeWhile (\<lambda>c. c \<noteq> CHR ''#'') s = line" "line_match line = None"
  shows "parse_lines fd h w = fail_with ACH_BAD_HEADER ''malformed header'' w'"
  using assms by (subst parse_lines.simps) simp

lemma parse_line_step:
  assumes st: "in_state fd w (ascii (key @ '': '' @ val) @ 10 # rest)"
    and k: "plain_key key" and v: "plain_value val"
    and len: "length key + length val + 2 < ACHD_LINE_LENGTH"
    and set: "\<And>w. achd_set_header key val h w = Cont h' (set_errno (e w) w)"
  shows "\<exists>w'. parse_lines fd h w = parse_lines fd h' w' \<and> in_state fd w' rest \<and> same_but_input fd w w'"
proof -
  let ?l = "key @ '': '' @ val"
  have chars: "c \<noteq> CHR 0x00 \<and> c \<noteq> CHR ''#'' \<and> c \<noteq> CHR 0x0A \<and> c \<noteq> CHR 0x0D \<and> c \<noteq> CHR 0xFF"
    if "c \<in> set ?l" for c
    using that k v by (auto simp: plain_key_def plain_value_def list_all_iff is_blank_def)
  then obtain w' where r: "achd_readline fd ACHD_LINE_LENGTH w = (ACH_OK, ?l, w')"
    "in_state fd w' rest" "same_but_input fd w w'"
    using readline_text [OF st] len by auto
  have c: "c_str ?l = ?l" using chars unfolding c_str_def by (intro takeWhile_all) blast
  have t: "takeWhile (\<lambda>c. c \<noteq> CHR ''#'') ?l = ?l" using chars by (intro takeWhile_all) blast
  have "filter (\<lambda>c. \<not> is_blank c) key = key"
    using k by (simp add: plain_key_def list_all_iff filter_id_conv)
  then have "2 \<le> length (filter (\<lambda>c. \<not> is_blank c) ?l)" using k by (simp add: plain_key_def)
  then have "\<not> dot_match ?l" using dot_match_few [of ?l] by linarith
  then have "parse_lines fd h w = parse_lines fd h' (set_errno (e w') w')"
    using parse_lines_line [OF r(1) c _ t line_match_plain [OF k v]] set by simp
  then show ?thesis using in_state_errno [OF r(2,3)] by blast
qed

lemma parse_dot:
  assumes "in_state fd w (ascii ''.'' @ 10 # rest)"
  shows "\<exists>w'. parse_lines fd h w = Cont (ACH_OK, h) w' \<and> in_state fd w' rest \<and> same_but_input fd w w'"
proof -
  obtain w' where r: "achd_readline fd ACHD_LINE_LENGTH w = (ACH_OK, ''.'', w')" "in_state fd w' rest"
    "same_but_input fd w w'"
    using readline_calm [OF assms, of ACHD_LINE_LENGTH] by (auto simp: ACHD_LINE_LENGTH_def)
  then have "parse_lines fd h w = Cont (ACH_OK, h) w'"
    by (subst parse_lines.simps) (simp add: c_str_def dot_match_def)
  with r show ?thesis by blast
qed

end
