(* ===== verification/Achd_Connect.thy ===== *)
theory Achd_Connect
  imports Achd_Headers "HOL-Library.Signed_Division"
begin

text \<open>
  Setting up the connection to a server: the TCP socket, the UDP socket of the UDP transports, the
  request and the response, the local channel, and reconnecting
  (\<^verbatim>\<open>src/achd/client.c\<close>, and the connect functions of \<^verbatim>\<open>src/achd/transport.c\<close>).  The messages of
  errors that end the process are complete; those that are only logged are shortened, and messages for
  debugging are left out.
\<close>

section \<open>Time\<close>

definition clock_gettime :: "world \<Rightarrow> timespec \<times> world" where
  "clock_gettime w =
     (case w_clock w of [] \<Rightarrow> ((0, 0), w) | t # ts \<Rightarrow> (t, w\<lparr>w_clock := ts\<rparr>))"

text \<open>The absolute time to sleep to; the division is the truncating one of C.\<close>

definition sleep_target :: "timespec \<Rightarrow> uint64 \<Rightarrow> timespec" where
  "sleep_target t0 ns =
     (let ns1 = sint (word_of_int (snd t0) + ns)
      in (sint (word_of_int (fst t0 + ns1 sdiv 1000000000) :: uint64), ns1 smod 1000000000))"

text \<open>
  \<open>clock_nanosleep\<close> returns its error and leaves \<open>errno\<close> alone, but the code looks at
  \<open>errno\<close>.
\<close>

fun nap_loop :: "(bool \<times> errno) list \<Rightarrow> world \<Rightarrow> (bool \<times> errno) list \<times> world" where
  "nap_loop [] w = ([], w)"
| "nap_loop ((sig, r) # naps) w =
     (if stopping w then ((sig, r) # naps, w)
      else let w = maybe_signal sig w
           in if r \<noteq> EOK \<and> \<not> stopping w \<and> w_errno w = EINTR then nap_loop naps w
              else if r = EOK then (naps, w)
              else (naps, w_log LOG_ERR ''clock_nanosleep failed'' w))"

definition achd_sleep_till :: "timespec \<Rightarrow> uint64 \<Rightarrow> world \<Rightarrow> world" where
  "achd_sleep_till t0 ns w =
     (let w = (if stopping w then w else w\<lparr>w_sleeps := w_sleeps w @ [sleep_target t0 ns]\<rparr>);
          (naps, w) = nap_loop (w_naps w) w
      in w\<lparr>w_naps := naps\<rparr>)"

section \<open>Sockets\<close>

text \<open>Whether the next of the UDP calls fails, which sets \<open>errno\<close>.\<close>

definition udp_call :: "world \<Rightarrow> bool \<times> world" where
  "udp_call w =
     (case w_udp_calls w of
        [] \<Rightarrow> (False, w)
      | None # cs \<Rightarrow> (False, w\<lparr>w_udp_calls := cs\<rparr>)
      | Some e # cs \<Rightarrow> (True, set_errno e (w\<lparr>w_udp_calls := cs\<rparr>)))"

text \<open>An error with the text for \<open>errno\<close> behind its message.\<close>

definition syscall_fails :: "string \<Rightarrow> world \<Rightarrow> 'a act" where
  "syscall_fails msg w = fail_with ACH_FAILED_SYSCALL (msg @ '': '' @ err_text w) w"

lemma syscall_fails_not_Cont [simp]: "syscall_fails msg w \<noteq> Cont x w'"
  by (simp add: syscall_fails_def)

definition new_socket :: "world \<Rightarrow> int \<times> world" where
  "new_socket w = (w_next_fd w, w\<lparr>w_next_fd := w_next_fd w + 1\<rparr>)"

definition achd_connect_nop :: "achd_conn \<Rightarrow> world \<Rightarrow> achd_conn act" where
  "achd_connect_nop conn w = Cont conn w"

definition achd_udp_sock :: "achd_conn \<Rightarrow> world \<Rightarrow> achd_conn act" where
  "achd_udp_sock conn w =
     (let (bad, w) = udp_call w
      in if bad then syscall_fails ''Couldn't create UDP socket'' w
         else let (fd, w) = new_socket w; conn = conn\<lparr>conn_aux := fd\<rparr>; (bad, w) = udp_call w
              in if bad then syscall_fails ''Could not bind udp socket'' w
                 else let (bad, w) = udp_call w
                      in if bad
                         then syscall_fails ''Couldn't determine name of UDP receiver'' w
                         else let conn = conn\<lparr>conn_udp := Some (0, w_udp_port w)\<rparr>
                              in act_then (achd_printf (conn_out conn)
                                    (''remote-port: '' @ show_int (w_udp_port w) @ newline) w) (\<lambda>r w.
                                 if r \<noteq> ACH_OK
                                 then syscall_fails ''Couldn't write remote-port'' w
                                 else Cont conn w))"

primrec run_connect :: "achd_connect_fn \<Rightarrow> achd_conn \<Rightarrow> world \<Rightarrow> achd_conn act" where
  "run_connect Connect_nop = achd_connect_nop"
| "run_connect Connect_udp_sock = achd_udp_sock"

definition socket_connect :: "world \<Rightarrow> int act" where
  "socket_connect w =
     act_then (act_assert 263 (h_remote_host (cl_opts (w_cx w)) \<noteq> None) w) (\<lambda>_ w.
     case w_dials w of
       [] \<Rightarrow> Cont (-1) (w_log LOG_ERR ''Host not found'' w)
     | d # ds \<Rightarrow>
         (let w = w\<lparr>w_dials := ds\<rparr>
          in if \<not> dial_found d then Cont (-1) (w_log LOG_ERR ''Host not found'' w)
             else if \<not> dial_socket d then Cont (-1) (w_log LOG_ERR ''Couldn't create socket'' w)
             else let (fd, w) = new_socket w; w = set_fd fd (\<lambda>_. dial_io d) w
                  in if \<not> dial_connects d
                     then Cont (-1) (close_fd fd (w_log LOG_ERR ''Couldn't connect'' w))
                     else Cont fd w))"

section \<open>The local channel\<close>

text \<open>Calls of the channel library on \<^verbatim>\<open>cx.channel\<close>.\<close>

definition with_channel ::
  "(ach_channel_t \<Rightarrow> ach_header_t \<Rightarrow> ('a \<times> ach_channel_t \<times> ach_header_t) outcome) \<Rightarrow> world \<Rightarrow> 'a act"
  where
  "with_channel f w =
     (case ch_shm (cx_channel (w_cx w)) of
        None \<Rightarrow> Crash Unmapped w
      | Some k \<Rightarrow>
          (case block_at (w_os w) k of
             None \<Rightarrow> Crash Unmapped w
           | Some shm \<Rightarrow>
               act_of (f (cx_channel (w_cx w)) shm) (\<lambda>(r, chan, shm) w.
                 Cont r (set_cx (\<lambda>cx. cx\<lparr>cx_channel := chan\<rparr>)
                           (w\<lparr>w_os := set_block k shm (w_os w)\<rparr>))) w))"

definition w_open :: "string option \<Rightarrow> world \<Rightarrow> ach_status_t act" where
  "w_open name w =
     (case name of
        None \<Rightarrow> Crash Unmapped w
      | Some n \<Rightarrow>
          act_of (ach_open (cx_channel (w_cx w)) n None (w_os w)) (\<lambda>(r, chan, os) w.
            Cont r (set_cx (\<lambda>cx. cx\<lparr>cx_channel := chan\<rparr>) (w\<lparr>w_os := os\<rparr>))) w)"

definition w_create :: "string option \<Rightarrow> size_t \<Rightarrow> size_t \<Rightarrow> world \<Rightarrow> ach_status_t act" where
  "w_create name frame_cnt frame_size w =
     (case name of
        None \<Rightarrow> Crash Unmapped w
      | Some n \<Rightarrow>
          act_of (ach_create (w_build w) n frame_cnt frame_size None (w_os w)) (\<lambda>(r, _, os) w.
            Cont r (w\<lparr>w_os := os\<rparr>)) w)"

definition check_status :: "string \<Rightarrow> ach_status_t \<Rightarrow> world \<Rightarrow> unit act" where
  "check_status msg r w = (if r \<noteq> ACH_OK then fail_with r msg w else Cont () w)"

text \<open>The part of \<^verbatim>\<open>server_connect\<close> that opens the local channel, creating it when it is missing.\<close>

definition open_local :: "achd_headers \<Rightarrow> world \<Rightarrow> unit act" where
  "open_local h w =
     (if ch_shm (cx_channel (w_cx w)) \<noteq> None then Cont () w
      else let name = h_chan_name (cl_opts (w_cx w))
           in act_then (w_open name w) (\<lambda>r w.
              act_then (if r = ACH_ENOENT
                        then let size = (if h_frame_size h \<noteq> 0 then h_frame_size h
                                         else ACH_DEFAULT_FRAME_SIZE);
                                 count = (if h_frame_count h \<noteq> 0 then h_frame_count h
                                          else ACH_DEFAULT_FRAME_COUNT)
                             in act_then (w_create name (word_of_int count) (word_of_int size) w) (\<lambda>r w.
                                act_then (check_status ''Couldn't create channel'' r w) (\<lambda>_ w.
                                act_then (w_open name w) (check_status ''Couldn't open channel'')))
                        else check_status ''Couldn't open channel'' r w) (\<lambda>_ w.
              act_then (with_channel (ach_flush 0) w) (check_status ''Couldn't flush channel''))))"

section \<open>Connecting to the server\<close>

text \<open>The request; the remote end does the opposite of what the client is told to do.\<close>

definition request_text :: "string \<Rightarrow> string \<Rightarrow> uint64 \<Rightarrow> bool \<Rightarrow> achd_direction \<Rightarrow> string" where
  "request_text chan_name transport period_ns get_last direction =
     ''channel-name: '' @ chan_name @ newline @
     ''transport: '' @ transport @ newline @
     ''period-ns: '' @ show_nat (unat period_ns) @ newline @
     ''get-last: '' @ (if get_last then ''1'' else ''0'') @ newline @
     ''direction: '' @ (if direction = ACHD_DIRECTION_PULL then ''push'' else ''pull'') @ newline @
     ''.'' @ newline"

text \<open>A string printed with \<open>%s\<close>; a null pointer prints as the GNU library prints it.\<close>

definition c_show :: "string option \<Rightarrow> string" where
  "c_show s = (case s of Some t \<Rightarrow> t | None \<Rightarrow> ''(null)'')"

definition send_request :: "int \<Rightarrow> achd_conn \<Rightarrow> world \<Rightarrow> ach_status_t act" where
  "send_request fd conn w =
     achd_printf fd
       (request_text (c_show (h_chan_name (send_hdr conn))) (c_show (h_transport (send_hdr conn)))
          (h_period_ns (send_hdr conn)) (h_get_last (send_hdr conn)) (h_direction (cl_opts (w_cx w)))) w"

definition get_response :: "int \<Rightarrow> achd_conn \<Rightarrow> world \<Rightarrow> achd_conn act" where
  "get_response fd conn w =
     act_then (achd_parse_headers fd ((recv_hdr conn)\<lparr>h_status := ach_status_code ACH_BUG\<rparr>) w) (\<lambda>(r, h) w.
     if r \<noteq> ACH_OK
     then fail_with r (''Bad response from server'' @ (if w_errno w \<noteq> EOK then '': '' @ err_text w else [])) w
     else if h_status h \<noteq> ach_status_code ACH_OK
     then (case h_message h of
             Some m \<Rightarrow> cx_fail (h_status h) (''Server error: '' @ m) w
           | None \<Rightarrow> cx_fail (h_status h) ''Bad response from server'' w)
     else Cont (conn\<lparr>recv_hdr := h\<rparr>) w)"

definition server_connect :: "achd_conn \<Rightarrow> world \<Rightarrow> (int \<times> achd_conn) act" where
  "server_connect conn w =
     (let w = w_log LOG_NOTICE ''Connecting'' w;
          (t, w) = clock_gettime w;
          conn = conn\<lparr>conn_in := -1, conn_out := -1, conn_aux := -1, conn_t0 := t\<rparr>
      in act_then (socket_connect w) (\<lambda>fd w.
         if fd < 0 then Cont (fd, conn) w
         else act_then (run_connect (v_connect (conn_vtab conn)) (conn\<lparr>conn_in := fd, conn_out := fd\<rparr>) w) (\<lambda>conn w.
              let conn = conn\<lparr>conn_in := -1, conn_out := -1\<rparr>
              in act_then (send_request fd conn w) (\<lambda>r w.
                 if r \<noteq> ACH_OK then Cont (-1, conn) (close_fd fd w)
                 else act_then (get_response fd conn w) (\<lambda>conn w.
                      act_then (open_local (recv_hdr conn) w) (\<lambda>_ w.
                      Cont (fd, conn\<lparr>conn_in := fd, conn_out := fd\<rparr>) w))))))"

text \<open>
  The loop of \<^verbatim>\<open>achd_reconnect\<close>.  The attempts are taken one by one; when no more are to
  succeed or fail differently, the loop goes on for ever.
\<close>

fun reconnect_loop :: "dial list \<Rightarrow> int \<Rightarrow> achd_conn \<Rightarrow> world \<Rightarrow> (int \<times> achd_conn) act" where
  "reconnect_loop ds fd conn w =
     (if \<not> (cx_reconnect (w_cx w) \<and> fd < 0 \<and> \<not> stopping w)
      then Cont (fd, conn) (w\<lparr>w_dials := ds\<rparr>)
      else case ds of
             [] \<Rightarrow> Hang w
           | d # ds \<Rightarrow>
               (let w = achd_sleep_till (conn_t0 conn) (word_of_int ACHD_RECONNECT_NS) w
                in act_then (server_connect conn (w\<lparr>w_dials := [d]\<rparr>)) (\<lambda>(fd, conn) w.
                   reconnect_loop ds fd conn w)))"

declare reconnect_loop.simps [simp del]

definition achd_reconnect :: "achd_conn \<Rightarrow> world \<Rightarrow> (int \<times> achd_conn) act" where
  "achd_reconnect conn w =
     (let w = close_fd (conn_out conn) (close_fd (conn_in conn) w);
          w = (if conn_aux conn \<ge> 0 then close_fd (conn_aux conn) w else w)
      in reconnect_loop (w_dials w) (-1) conn w)"

section \<open>Facts\<close>

lemmas set_header_simps = achd_set_header_def strcaseeq_def tolower_def

lemma set_chan_name: "achd_set_header ''channel-name'' v h w = Cont (h\<lparr>h_chan_name := Some v\<rparr>) (set_errno (w_errno w) w)"
  by (simp add: set_header_simps set_errno_id)

lemma set_transport: "achd_set_header ''transport'' v h w = Cont (h\<lparr>h_transport := Some v\<rparr>) (set_errno (w_errno w) w)"
  by (simp add: set_header_simps set_errno_id)

lemma set_period:
  "achd_set_header ''period-ns'' (show_nat (unat u)) h w = Cont (h\<lparr>h_period_ns := u\<rparr>) (set_errno EOK w)"
  by (simp add: set_header_simps achd_set_ul_def strtoul_show_nat)

lemma set_get_last:
  "achd_set_header ''get-last'' (if b then ''1'' else ''0'') h w = Cont (h\<lparr>h_get_last := b\<rparr>) (set_errno (w_errno w) w)"
  by (cases b) (simp_all add: set_header_simps achd_parse_boolean_def set_errno_id)

lemma set_direction:
  "achd_set_header ''direction'' (if b then ''push'' else ''pull'') h w =
   Cont (h\<lparr>h_direction := (if b then ACHD_DIRECTION_PUSH else ACHD_DIRECTION_PULL)\<rparr>) (set_errno (w_errno w) w)"
  by (cases b) (simp_all add: set_header_simps set_errno_id)

lemma set_message: "achd_set_header ''message'' v h w = Cont (h\<lparr>h_message := Some v\<rparr>) (set_errno (w_errno w) w)"
  by (simp add: set_header_simps set_errno_id)

text \<open>What the headers carry is plain: channel names, numbers and keywords.\<close>

lemma plain_keys:
  "plain_key ''channel-name''" "plain_key ''transport''" "plain_key ''period-ns''"
  "plain_key ''get-last''" "plain_key ''direction''" "plain_key ''frame-count''"
  "plain_key ''frame-size''" "plain_key ''message''"
  by (simp_all add: plain_key_def is_blank_def is_sep_def)

lemma plain_value_chars:
  assumes "\<And>c. c \<in> set v \<Longrightarrow> is_digit c \<or> is_alnum c \<or> c = CHR ''-'' \<or> c = CHR ''_'' \<or> c = CHR ''.''"
  shows "plain_value v"
proof -
  have ok: "\<not> is_blank c \<and> \<not> is_sep c \<and> c \<noteq> CHR ''#'' \<and> c \<noteq> CHR 0x00 \<and> c \<noteq> CHR 0xFF"
    if "c \<in> set v" for c
    using assms [OF that] by (auto simp: is_blank_def is_sep_def is_digit_def is_alnum_def)
  then show ?thesis
    by (cases v) (auto simp: plain_value_def list_all_iff is_blank_def)
qed

lemma plain_show_nat: "plain_value (show_nat n)"
  using show_nat_digits [of n] by (intro plain_value_chars) (auto simp: list_all_iff)

lemma plain_channel_name: "channel_name_ok name \<Longrightarrow> plain_value name"
  by (intro plain_value_chars) (auto simp: channel_name_ok_def list_all_iff split: if_splits)

lemma parse_header:
  assumes "in_state fd w (ascii (key @ '': '' @ val) @ 10 # rest)" "plain_key key" "plain_value val"
    "length key + length val + 2 < ACHD_LINE_LENGTH" "\<And>w. achd_set_header key val h w = Cont h' (set_errno (e w) w)"
    "\<And>w'. in_state fd w' rest \<Longrightarrow> same_but_input fd w w' \<Longrightarrow>
      \<exists>w''. parse_lines fd h' w' = Cont r w'' \<and> in_state fd w'' left \<and> same_but_input fd w' w''"
  shows "\<exists>w''. parse_lines fd h w = Cont r w'' \<and> in_state fd w'' left \<and> same_but_input fd w w''"
proof -
  obtain w' where "parse_lines fd h w = parse_lines fd h' w'" "in_state fd w' rest" "same_but_input fd w w'"
    using parse_line_step [OF assms(1-5)] by blast
  with assms(6) [of w'] show ?thesis by (metis same_but_input_trans)
qed

text \<open>A line whose comment is cut off, and an empty line.\<close>

lemma parse_blank:
  assumes "in_state fd w (10 # rest)"
  shows "\<exists>w'. parse_lines fd h w = parse_lines fd h w' \<and> in_state fd w' rest \<and> same_but_input fd w w'"
proof -
  obtain w' where "achd_readline fd ACHD_LINE_LENGTH w = (ACH_OK, [], w')" "in_state fd w' rest"
    "same_but_input fd w w'"
    using readline_text [of fd w "[]" rest] assms by (auto simp: ascii_def ACHD_LINE_LENGTH_def)
  moreover from this(1) have "parse_lines fd h w = parse_lines fd h w'"
    by (subst parse_lines.simps) (simp add: c_str_def dot_match_def line_match_def)
  ultimately show ?thesis by blast
qed

lemma result_to_string_chars:
  "c \<in> set (ach_result_to_string r) \<Longrightarrow> is_alnum c \<or> c = CHR ''_''"
  unfolding ach_result_to_string_def by (auto simp: is_alnum_def split: if_splits)

lemma parse_status:
  assumes st: "in_state fd w (ascii (''status: '' @ show_nat n @ '' # '' @ ach_result_to_string r) @ 10 # rest)"
    and n: "n < 2 ^ 31"
  shows "\<exists>w'. parse_lines fd h w = parse_lines fd (h\<lparr>h_status := int n\<rparr>) w' \<and> in_state fd w' rest \<and>
              same_but_input fd w w'"
proof -
  let ?v = "show_nat n @ '' ''"
  let ?l = "''status: '' @ show_nat n @ '' # '' @ ach_result_to_string r"
  have dg: "is_digit c" if "c \<in> set (show_nat n)" for c
    using that show_nat_digits [of n] by (auto simp: list_all_iff)
  have ch: "c \<noteq> CHR 0x00 \<and> c \<noteq> CHR 0x0A \<and> c \<noteq> CHR 0x0D \<and> c \<noteq> CHR 0xFF" if "c \<in> set ?l" for c
    using that dg [of c] result_to_string_chars [of c r] by (auto simp: is_digit_def is_alnum_def)
  have "length (show_nat n) \<le> 10" using length_show_nat [of n 10] n by simp
  moreover have "length (ach_result_to_string r) \<le> 20" unfolding ach_result_to_string_def by simp
  ultimately have "length ?l < ACHD_LINE_LENGTH" by (simp add: ACHD_LINE_LENGTH_def)
  then obtain w' where r: "achd_readline fd ACHD_LINE_LENGTH w = (ACH_OK, ?l, w')" "in_state fd w' rest"
    "same_but_input fd w w'"
    using readline_text [OF st] ch by blast
  have c: "c_str ?l = ?l" using ch unfolding c_str_def by (intro takeWhile_all) blast
  have "2 \<le> length (filter (\<lambda>c. \<not> is_blank c) ?l)" by (simp add: is_blank_def)
  then have nd: "\<not> dot_match ?l" using dot_match_few [of ?l] by linarith
  have "takeWhile (\<lambda>c. c \<noteq> CHR ''#'') (show_nat n @ t) = show_nat n @ takeWhile (\<lambda>c. c \<noteq> CHR ''#'') t"
    for t using dg [of "CHR ''#''"] by (intro takeWhile_append2) (auto simp: is_digit_def)
  then have t: "takeWhile (\<lambda>c. c \<noteq> CHR ''#'') ?l = ''status'' @ '': '' @ ?v" by simp
  have "plain_value (show_nat n)" "show_nat n \<noteq> []" using plain_show_nat show_nat_digits [of n] by auto
  then have v: "plain_value ?v" by (simp add: plain_value_def is_sep_def)
  have k: "plain_key ''status''" by (simp add: plain_key_def is_blank_def is_sep_def)
  have "to_int (int n) = int n" using n by (simp add: to_int_def signed_of_nat signed_take_bit_int_eq_self)
  then have set: "achd_set_header ''status'' ?v h w' = Cont (h\<lparr>h_status := int n\<rparr>) (set_errno EOK w')"
    using strtol_show_nat [of n "'' ''"] n
    by (simp add: set_header_simps achd_set_status_def LONG_MAX_def is_digit_def)
  show ?thesis using parse_lines_line [OF r(1) c nd t line_match_plain [OF k v]] set in_state_errno [OF r(2,3), of EOK] by auto
qed

definition conn0 :: achd_conn where
  "conn0 =
     \<lparr>conn_mode = ACHD_MODE_VOID, conn_t0 = (0, 0), conn_ts_last = (0, 0), send_hdr = zero_headers,
      recv_hdr = zero_headers, conn_in = 0, conn_out = 0, conn_aux = 0, pipeframe_size = 0,
      pipeframe = \<lparr>pf_magic = [], size_bytes = [], pf_data = []\<rparr>, conn_vtab = hd handlers,
      conn_udp = None\<rparr>"

text \<open>A line with two separators is refused.\<close>

lemma parse_two_separators:
  assumes st: "in_state fd w (ascii l @ 10 # rest)" and len: "length l < ACHD_LINE_LENGTH"
    and ch: "\<And>c. c \<in> set l \<Longrightarrow> c \<noteq> CHR 0x00 \<and> c \<noteq> CHR ''#'' \<and> c \<noteq> CHR 0x0A \<and> c \<noteq> CHR 0x0D \<and> c \<noteq> CHR 0xFF"
    and two: "2 \<le> length (filter is_sep l)"
  shows "\<exists>w'. parse_lines fd h w = fail_with ACH_BAD_HEADER ''malformed header'' w' \<and> same_but_input fd w w'"
proof -
  obtain w' where r: "achd_readline fd ACHD_LINE_LENGTH w = (ACH_OK, l, w')" "same_but_input fd w w'"
    using readline_text [OF st len] ch by blast
  have c: "c_str l = l" using ch unfolding c_str_def by (intro takeWhile_all) blast
  have t: "takeWhile (\<lambda>c. c \<noteq> CHR ''#'') l = l" using ch by (intro takeWhile_all) blast
  have "length (filter is_sep l) \<le> length (filter (\<lambda>c. \<not> is_blank c) l)"
    by (induction l) (auto simp: is_sep_def is_blank_def)
  with two have "2 \<le> length (filter (\<lambda>c. \<not> is_blank c) l)" by linarith
  then have nd: "\<not> dot_match l" using dot_match_few [of l] by linarith
  from two have "filter is_sep l \<noteq> []" by auto
  then obtain c where "c \<in> set l" "is_sep c" by (auto simp: filter_empty_conv)
  moreover from this(2) have "\<not> is_blank c" by (auto simp: is_sep_def is_blank_def)
  ultimately have "\<not> list_all is_blank l" unfolding list_all_iff by blast
  with two have "line_match l = None" by (simp add: line_match_def)
  then have "parse_lines fd h w = fail_with ACH_BAD_HEADER ''malformed header'' w'"
    by (rule parse_lines_bad [OF r(1) c nd t])
  with r(2) show ?thesis by blast
qed

section \<open>Properties\<close>

text \<open>
  C26. The request arrives.  The headers a client sends, in whatever pieces they come out of the
  socket, are parsed by the server to the channel, transport, period and option the client meant,
  and to the opposite direction; the bytes that follow the headers are left in the socket.  The line with its port
  that a client on UDP sends before them is not part of the text.
\<close>

theorem request_roundtrip:
  assumes name: "channel_name_ok name" and tr: "plain_value transport" "length transport < 1000"
    and st: "in_state fd w (ascii (request_text name transport period latest dir) @ rest)"
  shows "\<exists>w'. achd_parse_headers fd zero_headers w =
           Cont (ACH_OK, zero_headers\<lparr>h_chan_name := Some name, h_transport := Some transport,
             h_period_ns := period, h_get_last := latest,
             h_direction := (if dir = ACHD_DIRECTION_PULL then ACHD_DIRECTION_PUSH
                             else ACHD_DIRECTION_PULL)\<rparr>) w' \<and>
           in_state fd w' rest \<and> same_but_input fd w w'"
proof -
  have len: "length name < 64" using name by (simp add: channel_name_ok_def ACH_CHAN_NAME_MAX_def split: if_splits)
  have num: "length (show_nat (unat period)) \<le> 20"
    using length_show_nat [of "unat period" 20] size_t_bound [of period] by simp
  let ?last = "if latest then ''1'' else ''0''"
  let ?dir = "if dir = ACHD_DIRECTION_PULL then ''push'' else ''pull''"
  have small: "plain_value ?last" "plain_value ?dir"
    by (auto simp: plain_value_def is_blank_def is_sep_def)
  have st: "in_state fd w (ascii (''channel-name'' @ '': '' @ name) @ 10 #
      ascii (''transport'' @ '': '' @ transport) @ 10 #
      ascii (''period-ns'' @ '': '' @ show_nat (unat period)) @ 10 #
      ascii (''get-last'' @ '': '' @ ?last) @ 10 # ascii (''direction'' @ '': '' @ ?dir) @ 10 #
      ascii ''.'' @ 10 # rest)"
    using st by (simp add: request_text_def ascii_def newline_def)
  show ?thesis unfolding achd_parse_headers_def
    apply (rule parse_header [OF st plain_keys(1) plain_channel_name [OF name] _ set_chan_name])
     apply (use len in \<open>simp add: ACHD_LINE_LENGTH_def\<close>)
    apply (rule parse_header [OF _ plain_keys(2) tr(1) _ set_transport], assumption)
     apply (use tr(2) in \<open>simp add: ACHD_LINE_LENGTH_def\<close>)
    apply (rule parse_header [OF _ plain_keys(3) plain_show_nat _ set_period], assumption)
     apply (use num in \<open>simp add: ACHD_LINE_LENGTH_def\<close>)
    apply (rule parse_header [OF _ plain_keys(4) small(1) _ set_get_last], assumption)
     apply (simp add: ACHD_LINE_LENGTH_def)
    apply (rule parse_header [OF _ plain_keys(5) small(2) _ set_direction], assumption)
     apply (simp add: ACHD_LINE_LENGTH_def)
    apply (drule_tac h = "zero_headers\<lparr>h_chan_name := Some name, h_transport := Some transport,
        h_period_ns := period, h_get_last := latest,
        h_direction := (if dir = ACHD_DIRECTION_PULL then ACHD_DIRECTION_PUSH
                        else ACHD_DIRECTION_PULL)\<rparr>" in parse_dot)
    apply simp
    done
qed

theorem request_roundtrip_witness:
  "\<exists>w'. achd_parse_headers 0 zero_headers
      (set_fd 0 (\<lambda>f. f\<lparr>io_in := [(False, Rd_data (ascii (request_text ''state'' ''tcp'' 7 True ACHD_DIRECTION_PULL)))]\<rparr>)
         a_world) =
    Cont (ACH_OK, zero_headers\<lparr>h_chan_name := Some ''state'', h_transport := Some ''tcp'',
      h_period_ns := 7, h_get_last := True, h_direction := ACHD_DIRECTION_PUSH\<rparr>) w'"
proof -
  let ?t = "request_text ''state'' ''tcp'' 7 True ACHD_DIRECTION_PULL"
  let ?w = "set_fd 0 (\<lambda>f. f\<lparr>io_in := [(False, Rd_data (ascii ?t))]\<rparr>) a_world"
  have "in_state 0 ?w (ascii ?t @ [])"
    by (simp add: in_state_def set_fd_def calm_def stopping_def a_world_def an_achd_cx_def
        request_text_def ascii_def)
  moreover have "channel_name_ok ''state''" "plain_value ''tcp''" "length ''tcp'' < 1000"
    by (simp_all add: channel_name_ok_def is_alnum_def plain_value_def is_blank_def is_sep_def
        ACH_CHAN_NAME_MAX_def)
  ultimately show ?thesis using request_roundtrip [of "''state''" "''tcp''" 0 ?w 7 True ACHD_DIRECTION_PULL "[]"]
    by auto
qed

text \<open>
  The reply of a server that gives up, as its client sees it: an error with the server's status and
  message, provided the message has no character that ends or splits a header value.
\<close>

lemma server_error_received:
  assumes code: "0 < code" "code < 2 ^ 31" and msg: "plain_value msg" "length msg < 1000"
    and st: "in_state fd w (ascii (error_header_text (int code) msg) @ rest)"
  shows "\<exists>w'. get_response fd conn w = cx_fail (int code) (''Server error: '' @ msg) w' \<and>
              in_state fd w' rest \<and> same_but_input fd w w'"
proof -
  let ?h = "(recv_hdr conn)\<lparr>h_status := ach_status_code ACH_BUG\<rparr>"
  let ?h2 = "?h\<lparr>h_status := int code, h_message := Some msg\<rparr>"
  have "in_state fd w (ascii (''status: '' @ show_nat code @ '' # '' @ ach_result_to_string (int code)) @ 10 #
      ascii (''message'' @ '': '' @ msg) @ 10 # 10 # ascii ''.'' @ 10 # rest)"
    using st by (simp add: error_header_text_def show_int_def ascii_def newline_def)
  from parse_status [OF this code(2), of ?h] obtain w1 where
    1: "parse_lines fd ?h w = parse_lines fd (?h\<lparr>h_status := int code\<rparr>) w1" "same_but_input fd w w1"
    and s1: "in_state fd w1 (ascii (''message'' @ '': '' @ msg) @ 10 # 10 # ascii ''.'' @ 10 # rest)"
    by blast
  obtain w2 where 2: "parse_lines fd (?h\<lparr>h_status := int code\<rparr>) w1 = parse_lines fd ?h2 w2"
      "same_but_input fd w1 w2" and s2: "in_state fd w2 (10 # ascii ''.'' @ 10 # rest)"
    using parse_line_step [OF s1 plain_keys(8) msg(1) _ set_message] msg(2)
    by (auto simp: ACHD_LINE_LENGTH_def)
  from parse_blank [OF s2, of ?h2] obtain w3 where 3: "parse_lines fd ?h2 w2 = parse_lines fd ?h2 w3"
    "same_but_input fd w2 w3" and s3: "in_state fd w3 (ascii ''.'' @ 10 # rest)" by blast
  from parse_dot [OF s3, of ?h2] obtain w4 where 4: "parse_lines fd ?h2 w3 = Cont (ACH_OK, ?h2) w4"
    "same_but_input fd w3 w4" and s4: "in_state fd w4 rest" by blast
  have "get_response fd conn w = cx_fail (int code) (''Server error: '' @ msg) w4"
    using 1(1) 2(1) 3(1) 4(1) code(1) by (simp add: get_response_def achd_parse_headers_def)
  moreover have "same_but_input fd w w4"
    by (rule same_but_input_trans [OF same_but_input_trans [OF same_but_input_trans [OF 1(2) 2(2)] 3(2)] 4(2)])
  ultimately show ?thesis using s4 by blast
qed

text \<open>What the client then does: it writes down the status and the message, and exits with failure.\<close>

lemma cx_fail_logs:
  assumes "cx_error (w_cx w) = Error_log" "code \<noteq> 0"
  shows "\<exists>w'. cx_fail code msg w = Quit 1 w' \<and>
           p_log (w_proc w') = p_log (w_proc w) @
             (if p_stderr_tty (w_proc w) \<and> - 1 \<le> p_verbosity (w_proc w)
              then [(To_stderr, LOG_CRIT, ''status: '' @ ach_result_to_string code), (To_stderr, LOG_CRIT, msg)] else []) @
             (if \<not> p_stderr_tty (w_proc w) \<or> cx_mode (w_cx w) = ACHD_MODE_SERVE \<or> p_ppid (w_proc w) = 1
              then [(To_syslog, LOG_CRIT, ach_result_to_string code @ '' - '' @ msg)] else [])"
  using assms
  by (simp add: cx_fail_def achd_error_log_def achd_error_vsyslog_def stderr_line_def syslog_line_def Let_def)

lemma same_but_input_process: "same_but_input fd w w' \<Longrightarrow> w_proc w' = w_proc w \<and> w_cx w' = w_cx w"
  by (auto simp: same_but_input_def set_fd_def set_errno_def)

text \<open>What a server sends when it gives up.\<close>

lemma cx_fail_sends:
  assumes "cx_error (w_cx s) = Error_header" "code \<noteq> 0"
  shows "\<exists>s'. cx_fail code msg s = Quit code s' \<and>
           io_sent (w_fds s' 1) = io_sent (w_fds s 1) @ ascii (error_header_text code msg)"
  using assms
  by (simp add: cx_fail_def achd_error_header_def achd_error_vsyslog_def syslog_line_def achd_exit_failure_def set_fd_def Let_def)

text \<open>
  Messages with a colon are lost.  The value of a header must not have a separator, and the
  server does not check its messages for one; a client that is sent such a message, for instance that
  its address and port sent no channel header, reports a malformed header instead.
\<close>

lemma server_error_lost:
  assumes code: "code < 2 ^ 31" and msg: "length msg < 1000"
    "\<forall>c\<in>set msg. c \<noteq> CHR 0x00 \<and> c \<noteq> CHR ''#'' \<and> c \<noteq> CHR 0x0A \<and> c \<noteq> CHR 0x0D \<and> c \<noteq> CHR 0xFF"
    and colon: "CHR '':'' \<in> set msg"
    and st: "in_state fd w (ascii (error_header_text (int code) msg) @ rest)"
  shows "\<exists>w'. get_response fd conn w = fail_with ACH_BAD_HEADER ''malformed header'' w'"
proof -
  let ?h = "(recv_hdr conn)\<lparr>h_status := ach_status_code ACH_BUG\<rparr>"
  have "in_state fd w (ascii (''status: '' @ show_nat code @ '' # '' @ ach_result_to_string (int code)) @ 10 #
      ascii (''message: '' @ msg) @ 10 # 10 # ascii ''.'' @ 10 # rest)"
    using st by (simp add: error_header_text_def show_int_def ascii_def newline_def)
  from parse_status [OF this code, of ?h] obtain w1 where
    1: "parse_lines fd ?h w = parse_lines fd (?h\<lparr>h_status := int code\<rparr>) w1"
    and s1: "in_state fd w1 (ascii (''message: '' @ msg) @ 10 # 10 # ascii ''.'' @ 10 # rest)"
    by blast
  from colon have "filter is_sep msg \<noteq> []" by (auto simp: filter_empty_conv is_sep_def)
  then have "2 \<le> length (filter is_sep (''message: '' @ msg))"
    by (cases "filter is_sep msg") (simp_all add: is_sep_def)
  then obtain w' where "parse_lines fd (?h\<lparr>h_status := int code\<rparr>) w1 =
      fail_with ACH_BAD_HEADER ''malformed header'' w'"
    using parse_two_separators [OF s1, of "?h\<lparr>h_status := int code\<rparr>"] msg
    by (auto simp: ACHD_LINE_LENGTH_def)
  moreover have "act_then (fail_with r m w' :: 'a act) f = fail_with r m w'" for r m w' f
    by (auto simp: fail_with_def cx_fail_def achd_error_log_def achd_error_header_def
        achd_exit_failure_def Let_def split: error_handler.split)
  ultimately have "get_response fd conn w = fail_with ACH_BAD_HEADER ''malformed header'' w'"
    using 1 by (simp add: get_response_def achd_parse_headers_def)
  then show ?thesis ..
qed

lemma server_error_lost_witness:
  "\<exists>w'. get_response 5 conn0
      (set_fd 5 (\<lambda>f. f\<lparr>io_in := [(False, Rd_data (ascii
         (error_header_text 14 ''10.0.0.1:4242 no channel header'')))]\<rparr>) a_world)
    = fail_with ACH_BAD_HEADER ''malformed header'' w'"
proof -
  let ?m = "''10.0.0.1:4242 no channel header''"
  let ?t = "error_header_text (int 14) ?m"
  let ?w = "set_fd 5 (\<lambda>f. f\<lparr>io_in := [(False, Rd_data (ascii ?t))]\<rparr>) a_world"
  have "in_state 5 ?w (ascii ?t @ [])"
    by (simp add: in_state_def set_fd_def calm_def stopping_def a_world_def an_achd_cx_def
        error_header_text_def ascii_def)
  then show ?thesis using server_error_lost [of 14 ?m 5 ?w "[]" conn0] by auto
qed

end
