(* ===== verification/Ach_Frames.thy ===== *)
theory Ach_Frames
  imports Ach_Pipe Ach_OS
begin

text \<open>
  Frames on their way between a channel and a byte stream, as the daemon and the pipe program carry
  them: the bytes of a frame, the data a reader takes from the channel call after call, and the
  channel after a message was put into it.
\<close>

section \<open>The bytes of a frame\<close>

text \<open>The bytes of the frame in memory: the header and the data.\<close>

definition frame_bytes :: "ach_pipe_frame_t \<Rightarrow> byte list" where
  "frame_bytes frame = pf_magic frame @ size_bytes frame @ pf_data frame"

text \<open>Bytes that a read put over the header of the frame, or over its data.\<close>

definition over_header :: "byte list \<Rightarrow> ach_pipe_frame_t \<Rightarrow> ach_pipe_frame_t" where
  "over_header got frame =
     (let bytes = got @ drop (length got) (pf_magic frame @ size_bytes frame)
      in frame\<lparr>pf_magic := take 8 bytes, size_bytes := drop 8 bytes\<rparr>)"

definition over_data :: "byte list \<Rightarrow> ach_pipe_frame_t \<Rightarrow> ach_pipe_frame_t" where
  "over_data got frame = frame\<lparr>pf_data := got @ drop (length got) (pf_data frame)\<rparr>"

definition pipe_magic :: "byte list" where
  "pipe_magic = ascii ''achpipe'' @ [0]"

definition size_field :: "nat \<Rightarrow> byte list" where
  "size_field n = map (\<lambda>i. ucast (drop_bit (8 * i) (of_nat n :: uint64))) [0..<8]"

definition pipe_bytes :: "byte list \<Rightarrow> byte list" where
  "pipe_bytes m = pipe_magic @ size_field (length m) @ m"

lemma pipe_lengths [simp]: "length pipe_magic = 8" "length (size_field n) = 8"
  by (simp_all add: pipe_magic_def ascii_def size_field_def)

lemma set_size_field: "ach_pipe_set_size frame (of_nat n) = frame\<lparr>size_bytes := size_field n\<rparr>"
  by (simp add: ach_pipe_set_size_def size_field_def low_byte)

lemma get_size_field:
  assumes "\<forall>k. over 0 k = 0" "n < 2 ^ 32" "size_bytes frame = size_field n"
  shows "ach_pipe_get_size over frame = of_nat n"
proof -
  have "unat (of_nat n :: uint64) < 2 ^ 32"
    using assms(2) by (simp add: unsigned_of_nat take_bit_nat_eq_self)
  with get_set_size [of over "of_nat n" frame] assms(1)
  have "ach_pipe_get_size over (ach_pipe_set_size frame (of_nat n)) = of_nat n" by simp
  moreover have "ach_pipe_set_size frame (of_nat n) = frame" using assms(3) by (simp add: set_size_field)
  ultimately show ?thesis by simp
qed

section \<open>Messages taken from and put into a channel\<close>

text \<open>
  What a reader takes from a sequence of blocks, one per call: from each the oldest frame it has not
  seen, which must fit into \<open>n\<close> bytes.
\<close>

definition next_frame :: "ach_channel_t \<Rightarrow> ach_header_t \<Rightarrow> frame" where
  "next_frame chan shm = pick_frame False (cseq chan) (frames shm)"

definition advance :: "ach_channel_t \<Rightarrow> ach_header_t \<Rightarrow> ach_channel_t" where
  "advance chan shm =
     (let q = fst (next_frame chan shm)
      in chan\<lparr>ch_seq_num := of_nat q, ch_next_index := of_nat (q mod icnt shm)\<rparr>)"

fun feeds :: "nat \<Rightarrow> ach_channel_t \<Rightarrow> ach_header_t list \<Rightarrow> byte list list \<Rightarrow> bool" where
  "feeds n chan [] ms = (ms = [])"
| "feeds n chan (shm # shms) ms =
     (case ms of
        [] \<Rightarrow> False
      | m # ms \<Rightarrow>
          at_rest shm \<and> chan_ok chan shm \<and> lseq shm + 1 < 2 ^ 64 \<and> cseq chan \<noteq> lseq shm \<and>
          frames shm \<noteq> [] \<and> snd (next_frame chan shm) = m \<and> length m \<le> n \<and>
          feeds n (advance chan shm) shms ms)"

lemma feeds_size: "feeds n chan shms ms \<Longrightarrow> m \<in> set ms \<Longrightarrow> length m \<le> n"
  by (induction n chan shms ms rule: feeds.induct) (auto split: list.splits)

lemma wait_options: "o_wait ACH_O_WAIT" "\<not> o_last ACH_O_WAIT" "\<not> o_copy ACH_O_WAIT"
  by (simp_all add: o_wait_def o_last_def o_copy_def ACH_O_WAIT_def ACH_O_LAST_def ACH_O_COPY_def)

lemma get_next_frame:
  assumes feed: "feeds n chan (shm # shms) (m # ms)" and live: "\<not> ch_cancel chan"
    and buf: "length buf = n" "n < 2 ^ 32" and opts: "\<not> o_last options"
  shows "\<exists>st. ach_get t chan shm buf (of_nat n) 0 None options [] =
      Ret \<lparr>g_status = st, g_chan = advance chan shm, g_shm = shm, g_buf = m @ drop (length m) buf,
           g_frame_size = of_nat (length m)\<rparr> \<and> (st = ACH_OK \<or> st = ACH_MISSED_FRAME)"
proof -
  have f: "at_rest shm" "chan_ok chan shm" "lseq shm + 1 < 2 ^ 64" "cseq chan \<noteq> lseq shm"
    "frames shm \<noteq> []" "snd (next_frame chan shm) = m" "length m \<le> n"
    using feed by simp_all
  have n: "unat (of_nat n :: size_t) = n"
    using buf(2) by (simp add: unsigned_of_nat take_bit_nat_eq_self)
  obtain q where q: "next_frame chan shm = (q, m)" using f(6) by (cases "next_frame chan shm") auto
  have "spec_get chan shm buf (of_nat n) 0 options =
      \<lparr>g_status = (if cseq chan + 1 < q then ACH_MISSED_FRAME else ACH_OK),
       g_chan = advance chan shm, g_shm = shm, g_buf = m @ drop (length m) buf,
       g_frame_size = of_nat (length m)\<rparr>"
    using f q n by (simp add: spec_get_def opts next_frame_def advance_def)
  then show ?thesis
    using ach_get_correct [OF f(1-3), of "of_nat n" buf options t 0 None "[]"] n buf f(4) live
    by simp
qed

text \<open>The newest frame, when it is the one after the last that was seen, into a buffer of any size.\<close>

lemma get_one_new:
  assumes "at_rest shm" "chan_ok chan shm" "lseq shm + 1 < 2 ^ 64" "\<not> ch_cancel chan" "\<not> o_last options"
    and "frames shm = pre @ [(cseq chan + 1, m)]" "\<forall>f\<in>set pre. fst f \<le> cseq chan" "cseq chan < lseq shm"
    and "length m \<le> length buf" "length buf < 2 ^ 64"
  defines "chan' \<equiv> chan\<lparr>ch_seq_num := of_nat (cseq chan + 1), ch_next_index := of_nat ((cseq chan + 1) mod icnt shm)\<rparr>"
  shows "ach_get t chan shm buf (of_nat (length buf)) fsz abstime options wakes =
      Ret \<lparr>g_status = ACH_OK, g_chan = chan', g_shm = shm, g_buf = m @ drop (length m) buf,
           g_frame_size = of_nat (length m)\<rparr>"
    and "chan_ok chan' shm"
proof -
  have n: "unat (of_nat (length buf) :: size_t) = length buf"
    using assms(10) by (simp add: unsigned_of_nat take_bit_nat_eq_self)
  have "filter (\<lambda>f. cseq chan < fst f) pre = []" using assms(7) by (auto simp: filter_empty_conv)
  then have "pick_frame False (cseq chan) (frames shm) = (cseq chan + 1, m)" using assms(6) by (simp add: pick_frame_def)
  then have g: "spec_get chan shm buf (of_nat (length buf)) fsz options =
      \<lparr>g_status = ACH_OK, g_chan = chan', g_shm = shm, g_buf = m @ drop (length m) buf, g_frame_size = of_nat (length m)\<rparr>"
    using assms(5,6,8,9) n by (simp add: spec_get_def chan'_def)
  then show "ach_get t chan shm buf (of_nat (length buf)) fsz abstime options wakes =
      Ret \<lparr>g_status = ACH_OK, g_chan = chan', g_shm = shm, g_buf = m @ drop (length m) buf, g_frame_size = of_nat (length m)\<rparr>"
    using ach_get_correct [OF assms(1-3) _ assms(4), of "of_nat (length buf)" buf options] assms(8) n by simp
  show "chan_ok chan' shm"
    using spec_get_chan_ok [OF _ assms(2), of buf "of_nat (length buf)" fsz options] assms(1) g by (simp add: at_rest_def)
qed

lemmas get_next = get_next_frame [OF _ _ _ _ wait_options(2)]

lemma get_overflow:
  assumes feed: "feeds n chan (shm # shms) (m # ms)" and live: "\<not> ch_cancel chan"
    and buf: "length buf = c" "c < length m" "n < 2 ^ 32"
  shows "ach_get t chan shm buf (of_nat c) 0 None ACH_O_WAIT [] =
      Ret \<lparr>g_status = ACH_OVERFLOW, g_chan = chan, g_shm = shm, g_buf = buf, g_frame_size = of_nat (length m)\<rparr>"
proof -
  have f: "at_rest shm" "chan_ok chan shm" "lseq shm + 1 < 2 ^ 64" "cseq chan \<noteq> lseq shm"
    "frames shm \<noteq> []" "snd (next_frame chan shm) = m" "length m \<le> n"
    using feed by simp_all
  have c: "unat (of_nat c :: size_t) = c"
    using buf f(7) by (simp add: unsigned_of_nat take_bit_nat_eq_self)
  obtain q where "next_frame chan shm = (q, m)" using f(6) by (cases "next_frame chan shm") auto
  then have "spec_get chan shm buf (of_nat c) 0 ACH_O_WAIT =
      \<lparr>g_status = ACH_OVERFLOW, g_chan = chan, g_shm = shm, g_buf = buf, g_frame_size = of_nat (length m)\<rparr>"
    using f c buf(2) by (simp add: spec_get_def wait_options next_frame_def)
  then show ?thesis
    using ach_get_correct [OF f(1-3), of "of_nat c" buf ACH_O_WAIT t 0 None "[]"] c buf f(4) live by simp
qed

lemma get_cancelled:
  assumes "at_rest shm" "ch_cancel chan"
  shows "ach_get t chan shm buf bufsize fsz abstime options wakes =
    Ret \<lparr>g_status = ACH_CANCELED, g_chan = chan, g_shm = shm, g_buf = buf, g_frame_size = fsz\<rparr>"
proof -
  have s: "sync_ready shm" "check_guards shm = ACH_OK" using assms(1) by (simp_all add: at_rest_def shm_inv_def)
  then have "shm\<lparr>mutex := M_free\<rparr> = shm" by (simp add: sync_ready_def)
  then show ?thesis using assms(2) s chan_lock_ready [OF s(1), of t]
    by (simp add: ach_get_def rdlock_def rdlock_loop_done unlock_mutex_def)
qed

text \<open>
  A reader that has seen the frames up to number \<open>q\<close> takes the ones stored after it from the same block,
  one per call.
\<close>

lemma keep_new: "fits n D ys \<Longrightarrow> \<exists>pre. keep n D (xs @ ys) = pre @ ys \<and> set pre \<subseteq> set xs"
proof (induction xs)
  case Nil
  then show ?case by (simp add: keep_id)
next
  case (Cons x xs)
  then obtain pre where "keep n D (xs @ ys) = pre @ ys" "set pre \<subseteq> set xs" by blast
  then show ?case
    by (cases "length (x # xs @ ys) \<le> n \<and> frames_size (x # xs @ ys) \<le> D")
       (fastforce intro: exI [of _ "x # xs"])+
qed

lemma feeds_stored:
  assumes "at_rest shm" "lseq shm + 1 < 2 ^ 64" "frames shm = pre @ number (cseq chan) ms"
    and "\<forall>f\<in>set pre. fst f \<le> cseq chan" "lseq shm = cseq chan + length ms" "chan_ok chan shm"
    and "\<forall>m\<in>set ms. length m \<le> n"
  shows "feeds n chan (replicate (length ms) shm) ms"
  using assms
proof (induction ms arbitrary: chan pre)
  case (Cons m ms)
  have "filter (\<lambda>f. cseq chan < fst f) pre = []" using Cons.prems(4) by (auto simp: filter_empty_conv)
  then have nf: "next_frame chan shm = (cseq chan + 1, m)"
    by (simp add: next_frame_def pick_frame_def Cons.prems(3))
  have ring: "ring_inv shm" "shm_inv shm" using Cons.prems(1) by (simp_all add: at_rest_def shm_inv_def)
  have q: "cseq chan + 1 \<le> lseq shm" using Cons.prems(5) by simp
  have c: "cseq (advance chan shm) = cseq chan + 1"
    using q Cons.prems(2) unat_add_no_wrap [of 1 "ch_seq_num chan"] by (simp add: advance_def nf)
  have "length m \<le> dsize shm" using frame_length [OF ring(1), of "cseq chan + 1" m] Cons.prems(3) by simp
  then have "length m \<le> unat (of_nat (dsize shm) :: size_t)" by simp
  then have "g_chan (spec_get chan shm [] (of_nat (dsize shm)) 0 0) = advance chan shm"
    using nf Cons.prems(3) q
    by (simp add: spec_get_def o_last_def advance_def next_frame_def Let_def)
  then have ok: "chan_ok (advance chan shm) shm"
    using spec_get_chan_ok [OF ring(2) Cons.prems(6), of "[]" "of_nat (dsize shm)" 0 0] by simp
  have "feeds n (advance chan shm) (replicate (length ms) shm) ms"
  proof (rule Cons.IH [of "pre @ [(cseq chan + 1, m)]", OF Cons.prems(1,2)])
    show "frames shm = (pre @ [(cseq chan + 1, m)]) @ number (cseq (advance chan shm)) ms"
      using Cons.prems(3) by (simp add: c)
    show "\<forall>f\<in>set (pre @ [(cseq chan + 1, m)]). fst f \<le> cseq (advance chan shm)"
      using Cons.prems(4) by (fastforce simp: c)
    show "lseq shm = cseq (advance chan shm) + length ms" using Cons.prems(5) by (simp add: c)
  qed (use ok Cons.prems(7) in auto)
  then show ?case using Cons.prems nf by simp
qed simp

section \<open>Buffers\<close>

text \<open>A buffer of a given size, and one that only has to be filled before it is sent.\<close>

definition pipe_buffer :: "nat \<Rightarrow> ach_pipe_frame_t \<Rightarrow> bool" where
  "pipe_buffer cap frame \<longleftrightarrow>
     length (pf_magic frame) = 8 \<and> length (size_bytes frame) = 8 \<and> length (pf_data frame) = cap"

definition send_buffer :: "nat \<Rightarrow> ach_pipe_frame_t \<Rightarrow> bool" where
  "send_buffer cap frame \<longleftrightarrow> pipe_buffer cap frame \<and> pf_magic frame = pipe_magic \<and> cap < 2 ^ 32"

lemma alloc_buffer:
  assumes "\<forall>n. \<exists>bs. heap n = Some bs \<and> n \<le> length bs" "n < 2 ^ 32"
  shows "\<exists>frame. ach_pipe_alloc heap n = Ret frame \<and> pf_magic frame = pipe_magic \<and>
           size_bytes frame = size_field n \<and> length (pf_data frame) = n"
proof -
  have "unat (16 + of_nat n :: size_t) = 16 + n"
    using assms(2) by (simp add: unat_add_no_wrap unsigned_of_nat take_bit_nat_eq_self)
  moreover obtain bs where "heap (16 + n) = Some bs" "16 + n \<le> length bs" using assms(1) by blast
  ultimately show ?thesis by (simp add: ach_pipe_alloc_def set_size_field pipe_magic_def)
qed

lemma filled_buffer:
  assumes "send_buffer cap frame" "length m \<le> cap"
  defines "frame' \<equiv> ach_pipe_set_size (frame\<lparr>pf_data := m @ drop (length m) (pf_data frame)\<rparr>) (of_nat (length m))"
  shows "send_buffer cap frame'" "size_bytes frame' = size_field (length m)"
    "take (length m) (pf_data frame') = m" "take (16 + length m) (frame_bytes frame') = pipe_bytes m"
    "16 + length m \<le> length (frame_bytes frame')"
  using assms by (simp_all add: set_size_field send_buffer_def pipe_buffer_def frame_bytes_def pipe_bytes_def)

lemma block_at_set_block: "block_at os k = Some b \<Longrightarrow> block_at (set_block k b' os) k = Some b'"
  by (auto simp: block_at_def set_block_def)

section \<open>The interface of programs that carry frames\<close>

text \<open>
  A sink reads messages from a stream and puts them into a channel: a message \<open>m\<close> stands in the stream
  as \<open>enc m\<close>, a state \<open>holds\<close> a block, bytes wait in its \<open>input\<close>, and the run from a state has
  \<open>ended\<close> with a block.  It promises to turn one message that is \<open>ok\<close> into one put and to end at the
  end of the input; its clients get the whole stream.
\<close>

definition message_ok :: "nat \<Rightarrow> byte list \<Rightarrow> bool" where
  "message_ok D m \<longleftrightarrow> m \<noteq> [] \<and> length m \<le> D \<and> length m < 2 ^ 32"

locale frame_sink =
  fixes enc :: "byte list \<Rightarrow> byte list" and ok :: "nat \<Rightarrow> byte list \<Rightarrow> bool"
    and sink :: "'s \<Rightarrow> 'r" and holds :: "'s \<Rightarrow> ach_header_t \<Rightarrow> bool"
    and input :: "'s \<Rightarrow> byte list \<Rightarrow> bool" and ended :: "'r \<Rightarrow> ach_header_t \<Rightarrow> bool"
  assumes sink_rest: "holds s shm \<Longrightarrow> at_rest shm"
    and sink_end: "\<lbrakk>holds s shm; input s []\<rbrakk> \<Longrightarrow> ended (sink s) shm"
    and sink_frame: "\<lbrakk>holds s shm; ok (dsize shm) m; lseq shm + 1 < 2 ^ 64; input s (enc m @ rest)\<rbrakk> \<Longrightarrow>
      \<exists>s' shm'. sink s = sink s' \<and> holds s' shm' \<and> input s' rest \<and>
        frames shm' = keep (icnt shm) (dsize shm) (frames shm @ [(lseq shm + 1, m)]) \<and>
        icnt shm' = icnt shm \<and> dsize shm' = dsize shm \<and> lseq shm' = lseq shm + 1"
begin

lemma sink_all:
  assumes "holds s shm" "list_all (ok (dsize shm)) ms" "lseq shm + length ms < 2 ^ 64"
    and "input s (concat (map enc ms))"
  shows "\<exists>shm'. ended (sink s) shm' \<and>
           frames shm' = keep (icnt shm) (dsize shm) (frames shm @ number (lseq shm) ms) \<and>
           icnt shm' = icnt shm \<and> lseq shm' = lseq shm + length ms"
  using assms
proof (induction ms arbitrary: s shm)
  case Nil
  have "ring_inv shm" using sink_rest [OF Nil(1)] by (simp add: at_rest_def shm_inv_def)
  then show ?case using sink_end [OF Nil(1)] Nil(4) by (auto simp: keep_id frames_fits)
next
  case (Cons m ms)
  obtain s' shm' where s: "sink s = sink s'" "holds s' shm'" "input s' (concat (map enc ms))"
    and f: "frames shm' = keep (icnt shm) (dsize shm) (frames shm @ [(lseq shm + 1, m)])"
      "icnt shm' = icnt shm" "dsize shm' = dsize shm" "lseq shm' = lseq shm + 1"
    using sink_frame [OF Cons.prems(1), of m "concat (map enc ms)"] Cons.prems(2-4) by auto
  have "\<exists>shm2. ended (sink s') shm2 \<and>
      frames shm2 = keep (icnt shm') (dsize shm') (frames shm' @ number (lseq shm') ms) \<and>
      icnt shm2 = icnt shm' \<and> lseq shm2 = lseq shm' + length ms"
    using Cons.prems(2,3) f(3,4) by (intro Cons.IH [OF s(2) _ _ s(3)]) auto
  then show ?case by (simp add: s(1) f keep_append)
qed

end

text \<open>
  A source takes the frames that a reader finds in its channel, block after block, and sends them; in
  the end it \<open>waits\<close>, having sent some bytes.
\<close>

locale frame_source =
  fixes enc :: "byte list \<Rightarrow> byte list" and source :: "ach_header_t list \<Rightarrow> 's \<Rightarrow> 'r" and ready :: "nat \<Rightarrow> 's \<Rightarrow> bool"
    and handle :: "'s \<Rightarrow> ach_channel_t" and sent :: "'s \<Rightarrow> byte list" and waits :: "'r \<Rightarrow> byte list \<Rightarrow> bool"
  assumes source_wait: "ready n s \<Longrightarrow> waits (source [] s) (sent s)"
    and source_frame: "\<lbrakk>ready n s; feeds n (handle s) (shm # shms) (m # ms)\<rbrakk> \<Longrightarrow>
      \<exists>s'. source (shm # shms) s = source shms s' \<and> ready n s' \<and> handle s' = advance (handle s) shm \<and>
        sent s' = sent s @ enc m"
begin

lemma source_all:
  assumes "ready n s" "feeds n (handle s) shms ms"
  shows "waits (source shms s) (sent s @ concat (map enc ms))"
  using assms
proof (induction shms arbitrary: s ms)
  case Nil
  then show ?case using source_wait by simp
next
  case (Cons shm shms)
  then obtain m ms' where ms: "ms = m # ms'" by (cases ms) auto
  obtain s' where s: "source (shm # shms) s = source shms s'" "ready n s'"
    "handle s' = advance (handle s) shm" "sent s' = sent s @ enc m"
    using source_frame [OF Cons.prems(1) Cons.prems(2) [unfolded ms]] by blast
  have "feeds n (handle s') shms ms'" using Cons.prems(2) ms s(3) by simp
  from Cons.IH [OF s(2) this] show ?case by (simp add: s ms)
qed

end

end
