(* ===== verification/Achd_Transport.thy ===== *)
theory Achd_Transport
  imports Achd_Connect Ach_Frames
begin

text \<open>
  Carrying frames between a channel and the network, \<^verbatim>\<open>src/achd/transport.c\<close>: taking a frame
  from the channel, putting one, and the four handlers.  What other processes do around each
  \<^verbatim>\<open>ach_get\<close> and what each \<open>poll\<close> reports are arguments of the handlers, taken one by one; a
  handler that has used them up waits for ever.  Messages for debugging are left out.
\<close>

section \<open>Frames\<close>

definition HEADER_BYTES_IPV4 :: nat where "HEADER_BYTES_IPV4 = 20"
definition HEADER_BYTES_UDP :: nat where "HEADER_BYTES_UDP = 8"
definition MTU_UDP :: nat where "MTU_UDP = 0xFFFF"
definition MTU_ETH :: nat where "MTU_ETH = 1500"

definition frame_size_of :: "achd_conn \<Rightarrow> world \<Rightarrow> uint64" where
  "frame_size_of conn w = ach_pipe_get_size (w_shift w) (pipeframe conn)"

definition alloc_frame :: "nat \<Rightarrow> world \<Rightarrow> ach_pipe_frame_t act" where
  "alloc_frame n w = act_of (ach_pipe_alloc (w_heap w) n) Cont w"

text \<open>One round of the loop of \<^verbatim>\<open>get_frame\<close>: whether it is done, and the connection.\<close>

definition get_once :: "bool \<Rightarrow> achd_conn \<Rightarrow> get_env \<Rightarrow> world \<Rightarrow> (bool \<times> achd_conn) act" where
  "get_once latest conn e w =
     (case ch_shm (cx_channel (w_cx w)) of
        None \<Rightarrow> Crash Unmapped w
      | Some k \<Rightarrow>
          act_of (ach_get 0 (cx_channel (w_cx w)) (env_block e) (pf_data (pipeframe conn))
                    (of_nat (pipeframe_size conn)) 0 None
                    (ACH_O_WAIT OR (if latest then ACH_O_LAST else 0)) (env_wakes e)) (\<lambda>g w.
            let w = set_cx (\<lambda>cx. cx\<lparr>cx_channel := g_chan g\<rparr>) (w\<lparr>w_os := set_block k (g_shm g) (w_os w)\<rparr>);
                w = maybe_signal (env_signal e) w;
                frame = (pipeframe conn)\<lparr>pf_data := g_buf g\<rparr>;
                conn = conn\<lparr>pipeframe := frame\<rparr>
            in if g_status g = ACH_OVERFLOW
               then let w = w_log LOG_NOTICE ''buffer too small, resizing'' w
                    in act_then (act_assert 108 (unat (g_frame_size g) > pipeframe_size conn) w) (\<lambda>_ w.
                       act_then (alloc_frame (unat (g_frame_size g)) w) (\<lambda>frame w.
                       Cont (False, conn\<lparr>pipeframe_size := unat (g_frame_size g), pipeframe := frame\<rparr>) w))
               else if g_status g = ACH_OK \<or> g_status g = ACH_MISSED_FRAME
               then let (t, w) = clock_gettime w
                    in Cont (True, conn\<lparr>pipeframe := ach_pipe_set_size frame (g_frame_size g),
                                        conn_ts_last := t\<rparr>) w
               else if g_status g = ACH_CANCELED then Cont (False, conn) w
               else Cont (False, conn) (w_log LOG_ERR ''Unhandled ach result getting frame'' w)) w)"

fun get_loop ::
  "bool \<Rightarrow> achd_conn \<Rightarrow> get_env list \<Rightarrow> world \<Rightarrow> (achd_conn \<times> get_env list) act" where
  "get_loop latest conn [] w = Hang w"
| "get_loop latest conn (e # es) w =
     act_then (get_once latest conn e w) (\<lambda>(finished, conn) w.
     if \<not> stopping w \<and> \<not> finished then get_loop latest conn es w else Cont (conn, es) w)"

definition get_frame ::
  "achd_conn \<Rightarrow> get_env list \<Rightarrow> world \<Rightarrow> (achd_conn \<times> get_env list) act" where
  "get_frame conn es w =
     (let period_ns = (if h_period_ns (send_hdr conn) \<noteq> 0 then h_period_ns (send_hdr conn)
                       else h_period_ns (recv_hdr conn));
          latest = (h_get_last (send_hdr conn) \<or> h_get_last (recv_hdr conn));
          w = (if period_ns \<noteq> 0 \<and> conn_ts_last conn \<noteq> (0, 0)
               then achd_sleep_till (conn_ts_last conn) period_ns w else w)
      in get_loop latest conn es w)"

definition put_failed :: "achd_conn \<Rightarrow> world \<Rightarrow> string" where
  "put_failed conn w = ''Couldn't put frame, size '' @ show_int (to_int (uint (frame_size_of conn w)))"

definition put_frame :: "achd_conn \<Rightarrow> world \<Rightarrow> unit act" where
  "put_frame conn w =
     (if stopping w then Cont () w
      else case ch_shm (cx_channel (w_cx w)) of
             None \<Rightarrow> fail_with ACH_EINVAL (put_failed conn w) w
           | Some k \<Rightarrow>
               act_then (with_channel (\<lambda>chan shm.
                   and_then (ach_put 0 chan shm (Some (pf_data (pipeframe conn))) (frame_size_of conn w))
                     (\<lambda>(r, shm). Ret (r, chan, shm))) w)
                 (check_status (put_failed conn w)))"

section \<open>TCP\<close>

text \<open>Reads, writes and signals leave the scripts of the world alone.\<close>

definition io_only :: "world \<Rightarrow> world \<Rightarrow> bool" where
  "io_only w w' \<longleftrightarrow>
     w_next_fd w' = w_next_fd w \<and> w_dials w' = w_dials w \<and> w_build w' = w_build w \<and>
     w_shift w' = w_shift w \<and> w_heap w' = w_heap w \<and> w_clock w' = w_clock w \<and>
     w_sleeps w' = w_sleeps w \<and> w_naps w' = w_naps w \<and> w_peer w' = w_peer w \<and>
     w_udp_port w' = w_udp_port w \<and> w_udp_calls w' = w_udp_calls w \<and> w_recvs w' = w_recvs w \<and>
     w_sends w' = w_sends w \<and> w_sent_dgrams w' = w_sent_dgrams w \<and> w_strerror w' = w_strerror w"

lemma io_only_refl [simp]: "io_only w w"
  by (simp add: io_only_def)

lemma io_only_steps [intro]:
  "io_only w v \<Longrightarrow> io_only w (w_log l m v)" "io_only w v \<Longrightarrow> io_only w (set_errno e v)"
  "io_only w v \<Longrightarrow> io_only w (set_fd fd f v)" "io_only w v \<Longrightarrow> io_only w (close_fd fd v)"
  "io_only w v \<Longrightarrow> io_only w (set_cx g v)" "io_only w v \<Longrightarrow> io_only w (v\<lparr>w_proc := p\<rparr>)"
  "io_only w v \<Longrightarrow> io_only w (v\<lparr>w_os := os\<rparr>)"
  by (simp_all add: io_only_def w_log_def set_errno_def set_fd_def close_fd_def set_cx_def)

lemma io_only_cancel_channel [intro]:
  assumes "io_only w v"
  shows "io_only w (cancel_channel v)"
proof (cases "ch_shm (cx_channel (w_cx v))")
  case (Some k)
  obtain failed p where c: "call_fails (w_proc v) = (failed, p)" by force
  let ?m = "ach_cancel 0 (cx_channel (w_cx v))
    (case block_at (w_os v) k of Some b \<Rightarrow> b | None \<Rightarrow> zero_block 0) None (\<not> failed)"
  show ?thesis
  proof (cases ?m)
    case (Ret x)
    obtain r chan shm where "x = (r, chan, shm)" by (cases x) auto
    moreover have "io_only w (set_cx g (v\<lparr>w_proc := p\<rparr>))" for g using assms by blast
    ultimately show ?thesis using Ret Some c
      by (auto simp add: cancel_channel_def Let_def simp del: append.simps)
  qed (use assms Some c in \<open>simp_all add: cancel_channel_def Let_def\<close>)
qed (use assms in \<open>simp add: cancel_channel_def\<close>)

lemma io_only_sighandler [intro]: "io_only w v \<Longrightarrow> io_only w (sighandler sig v)"
  unfolding sighandler_def Let_def by (simp split: if_split) blast

lemma io_only_maybe_signal [intro]: "io_only w v \<Longrightarrow> io_only w (maybe_signal b v)"
  by (auto simp: maybe_signal_def)

lemma read_loop_io_only: "io_only w0 w \<Longrightarrow> io_only w0 (snd (snd (read_loop cnt got evs w)))"
proof (induction evs arbitrary: got w)
  case (Cons p evs)
  obtain sig ev where p: "p = (sig, ev)" by force
  let ?w = "maybe_signal sig (set_errno EOK w)"
  have w: "io_only w0 ?w" using Cons.prems by blast
  show ?case
  proof (cases ev)
    case (Rd_data bs)
    with Cons.prems w Cons.IH [OF w, of "got @ bs"] p show ?thesis by (simp add: Let_def)
  next
    case (Rd_fail e)
    have "io_only w0 (set_errno e ?w)" using w by blast
    from Cons.prems this Cons.IH [OF this, of got] p Rd_fail show ?thesis
      by (cases sig) (auto simp: Let_def)
  qed
qed auto

lemma write_loop_io_only: "io_only w0 w \<Longrightarrow> io_only w0 (snd (snd (snd (write_loop buf n evs sent w))))"
proof (induction evs arbitrary: n sent w)
  case (Cons p evs)
  obtain sig ev where p: "p = (sig, ev)" by force
  let ?w = "maybe_signal sig w"
  have w: "io_only w0 ?w" using Cons.prems by blast
  show ?case
  proof (cases ev)
    case (Wr_accept k)
    with Cons.prems w Cons.IH [OF w] p show ?thesis by (cases sig) (simp_all add: Let_def)
  next
    case (Wr_fail e)
    have "io_only w0 (set_errno e ?w)" using w by blast
    from Cons.prems this Cons.IH [OF this] p Wr_fail show ?thesis
      by (cases sig) (auto simp: Let_def)
  qed
qed auto

lemma achd_read_io_only: "achd_read fd cnt w = (bs, w') \<Longrightarrow> io_only w w'"
  using read_loop_io_only [of w w cnt "[]" "io_in (w_fds w fd)"]
  by (auto simp: achd_read_def split: prod.splits)

lemma achd_write_io_only: "achd_write fd buf w = Cont r w' \<Longrightarrow> io_only w w'"
  using write_loop_io_only [of w w buf 0 "io_out (w_fds w fd)" "io_sent (w_fds w fd)"]
  by (auto simp: achd_write_def Let_def split: prod.splits sum.splits if_splits)

lemma io_only_dials: "io_only w w' \<Longrightarrow> w_dials w' = w_dials w"
  by (simp add: io_only_def)

lemmas achd_read_dials = achd_read_io_only [THEN io_only_dials]

lemmas achd_write_dials = achd_write_io_only [THEN io_only_dials]

lemma w_dials_simps [simp]: "w_dials (w_log l m w) = w_dials w" "w_dials (close_fd fd w) = w_dials w"
  by (simp_all add: w_log_def close_fd_def)

lemma reconnect_loop_dials:
  "reconnect_loop ds fd conn w = Cont (fd', conn') w' \<Longrightarrow>
   length (w_dials w') \<le> length ds \<and>
   (fd < 0 \<longrightarrow> length (w_dials w') < length ds \<or> stopping w' \<or> \<not> cx_reconnect (w_cx w'))"
proof (induction ds arbitrary: fd conn w)
  case Nil
  then show ?case by (subst (asm) reconnect_loop.simps) (auto simp: stopping_def split: if_splits)
next
  case (Cons d ds)
  from Cons.prems show ?case
    by (subst (asm) reconnect_loop.simps)
       (auto simp: act_then_Cont_iff stopping_def Let_def split: if_splits dest!: Cons.IH)
qed

lemma achd_reconnect_dials:
  "achd_reconnect conn w = Cont (fd, conn') w' \<Longrightarrow>
   length (w_dials w') < length (w_dials w) \<or> stopping w' \<or> \<not> cx_reconnect (w_cx w')"
  by (auto simp: achd_reconnect_def Let_def split: if_splits dest!: reconnect_loop_dials)

text \<open>
  Sending one frame; with reconnection it is sent again on the new connection.  \<open>True\<close> means that
  the handler returns.
\<close>

function send_loop :: "achd_conn \<Rightarrow> world \<Rightarrow> (bool \<times> achd_conn) act" where
  "send_loop conn w =
     (let n = 16 + unat (frame_size_of conn w); bytes = frame_bytes (pipeframe conn)
      in if length bytes < n then Crash Out_of_bounds w
         else act_then (achd_write (conn_out conn) (take n bytes) w) (\<lambda>r w1.
              if r < 0 \<or> r \<noteq> int n
              then let w2 = w_log LOG_ERR ''Couldn't write frame'' w1
                   in if cx_reconnect (w_cx w2)
                      then act_then (achd_reconnect conn w2) (\<lambda>p w3.
                           if \<not> stopping w3 \<and> cx_reconnect (w_cx w3) then send_loop (snd p) w3
                           else Cont (False, snd p) w3)
                      else Cont (True, conn) w2
              else Cont (False, conn) w1))"
  by pat_completeness auto
termination
  by (relation "measure (\<lambda>(conn, w). length (w_dials w))")
     (auto dest!: achd_reconnect_dials achd_write_dials)

declare send_loop.simps [simp del]

lemma get_loop_shrinks: "get_loop latest conn es w = Cont (conn', es') w' \<Longrightarrow> length es' < length es"
  by (induction latest conn es w rule: get_loop.induct)
     (fastforce simp: act_then_Cont_iff split: if_splits)+

lemma get_frame_shrinks: "get_frame conn es w = Cont (conn', es') w' \<Longrightarrow> length es' < length es"
  by (auto simp: get_frame_def Let_def dest: get_loop_shrinks)

function achd_push_tcp :: "get_env list \<Rightarrow> achd_conn \<Rightarrow> world \<Rightarrow> unit act" where
  "achd_push_tcp es conn w =
     (if stopping w then Cont () w
      else act_then (get_frame conn es w) (\<lambda>(conn, es) w.
           if stopping w then Cont () w
           else act_then (send_loop conn w) (\<lambda>(return, conn) w.
                if return then Cont () w else achd_push_tcp es conn w)))"
  by pat_completeness auto
termination
  by (relation "measure (\<lambda>(es, conn, w). length es)") (auto dest!: get_frame_shrinks)

declare achd_push_tcp.simps [simp del]

text \<open>Make sure the frame can hold \<open>cnt\<close> bytes of data.\<close>

definition fit_frame :: "uint64 \<Rightarrow> achd_conn \<Rightarrow> world \<Rightarrow> achd_conn act" where
  "fit_frame cnt conn w =
     (if unat cnt > pipeframe_size conn
      then act_then (alloc_frame (unat cnt) w) (\<lambda>frame w.
           Cont (conn\<lparr>pipeframe_size := unat cnt, pipeframe := ach_pipe_set_size frame cnt\<rparr>) w)
      else Cont conn w)"

text \<open>One attempt to receive a frame: whether it came.\<close>

definition recv_once :: "achd_conn \<Rightarrow> world \<Rightarrow> (bool \<times> achd_conn) act" where
  "recv_once conn w =
     (let (got, w) = achd_read (conn_in conn) 16 w;
          conn = conn\<lparr>pipeframe := over_header got (pipeframe conn)\<rparr>
      in if got = [] then Cont (False, conn) w
         else if length got \<noteq> 16 then Cont (False, conn) (w_log LOG_ERR ''Incomplete frame header'' w)
         else if pf_magic (pipeframe conn) \<noteq> pipe_magic
         then Cont (False, conn) (w_log LOG_ERR ''Invalid frame header'' w)
         else let cnt = frame_size_of conn w
              in act_then (fit_frame cnt conn w) (\<lambda>conn w.
                 if length (pf_data (pipeframe conn)) < unat cnt then Crash Out_of_bounds w
                 else let (got, w) = achd_read (conn_in conn) (unat cnt) w;
                          conn = conn\<lparr>pipeframe := over_data got (pipeframe conn)\<rparr>
                      in if length got \<noteq> unat cnt
                         then Cont (False, conn) (w_log LOG_ERR ''Incomplete frame data'' w)
                         else Cont (True, conn) w))"

lemma act_of_Cont_iff: "act_of m f w = Cont y w' \<longleftrightarrow> (\<exists>x. m = Ret x \<and> f x w = Cont y w')"
  by (cases m) (auto simp: act_of_def)

lemma alloc_frame_world: "alloc_frame n w = Cont frame w' \<Longrightarrow> w' = w"
  by (auto simp: alloc_frame_def act_of_Cont_iff)

lemma fit_frame_world: "fit_frame cnt conn w = Cont conn' w' \<Longrightarrow> w' = w \<and> conn_in conn' = conn_in conn"
  by (auto simp: fit_frame_def act_then_Cont_iff split: if_splits dest!: alloc_frame_world)

lemma achd_read_left:
  assumes "achd_read fd cnt w = (bs, w')"
  shows "input_left fd w' + length bs \<le> input_left fd w"
proof -
  obtain evs w1 where "read_loop cnt [] (io_in (w_fds w fd)) w = (bs, evs, w1)"
    "io_in (w_fds w' fd) = evs"
    using assms by (auto simp: achd_read_def set_fd_def split: prod.splits)
  with read_loop_shrinks [of cnt "[]" "io_in (w_fds w fd)" w] show ?thesis
    by (fastforce simp: input_left_def)
qed

lemma input_left_log [simp]: "input_left fd (w_log l m w) = input_left fd w"
  by (simp add: input_left_def)

lemma recv_once_left:
  assumes "recv_once conn w = Cont (b, conn') w'"
  shows "w_dials w' = w_dials w \<and> (b \<longrightarrow> conn_in conn' = conn_in conn \<and>
           input_left (conn_in conn) w' < input_left (conn_in conn) w)"
proof -
  obtain got w1 where r: "achd_read (conn_in conn) 16 w = (got, w1)" by force
  let ?c1 = "conn\<lparr>pipeframe := over_header got (pipeframe conn)\<rparr>"
  note d1 = achd_read_dials [OF r] and l1 = achd_read_left [OF r]
  consider "w_dials w' = w_dials w1" "\<not> b"
    | c2 wf got2 w2 where "length got = 16" "fit_frame (frame_size_of ?c1 w1) ?c1 w1 = Cont c2 wf"
        "achd_read (conn_in c2) (unat (frame_size_of ?c1 w1)) wf = (got2, w2)"
        "w_dials w' = w_dials w2" "conn_in conn' = conn_in c2"
        "b \<longrightarrow> w' = w2"
    using assms
    by (auto simp: recv_once_def r Let_def act_then_Cont_iff split: if_splits prod.splits)
  then show ?thesis
  proof cases
    case 1
    with d1 show ?thesis by simp
  next
    case 2
    from fit_frame_world [OF 2(2)] have i: "conn_in c2 = conn_in conn" "wf = w1" by simp_all
    from achd_read_dials [OF 2(3)] achd_read_left [OF 2(3)] 2 d1 l1 i show ?thesis by auto
  qed
qed

text \<open>
  Receiving one frame; after a failure the code reconnects, when it may, and tries again as long as
  it may.
\<close>

function recv_loop :: "achd_conn \<Rightarrow> world \<Rightarrow> (bool \<times> achd_conn) act" where
  "recv_loop conn w =
     act_then (recv_once conn w) (\<lambda>p w1.
     if fst p then Cont p w1
     else if cx_reconnect (w_cx w1)
     then act_then (achd_reconnect (snd p) w1) (\<lambda>q w2.
          if \<not> stopping w2 \<and> cx_reconnect (w_cx w2) then recv_loop (snd q) w2
          else Cont (False, snd q) w2)
     else Cont (False, snd p) w1)"
  by pat_completeness auto
termination
  by (relation "measure (\<lambda>(conn, w). length (w_dials w))")
     (auto dest!: achd_reconnect_dials recv_once_left)

declare recv_loop.simps [simp del]

lemma put_frame_world:
  assumes "put_frame conn w = Cont u w'"
  shows "w_dials w' = w_dials w \<and> w_fds w' = w_fds w"
  using assms
  by (auto simp: put_frame_def with_channel_def act_of_Cont_iff act_then_Cont_iff check_status_def
      set_cx_def split: if_splits option.splits)

lemma recv_loop_left:
  "recv_loop conn w = Cont (b, conn') w' \<Longrightarrow> b \<Longrightarrow>
   length (w_dials w') < length (w_dials w) \<or>
   w_dials w' = w_dials w \<and> conn_in conn' = conn_in conn \<and>
     input_left (conn_in conn) w' < input_left (conn_in conn) w"
proof (induction conn w rule: recv_loop.induct)
  case (1 conn w)
  obtain b1 c1 w1 where r: "recv_once conn w = Cont (b1, c1) w1"
    using 1(2) by (subst (asm) recv_loop.simps) (auto simp: act_then_Cont_iff)
  note l = recv_once_left [OF r]
  show ?case
  proof (cases b1)
    case True
    with 1(2) r l show ?thesis by (subst (asm) recv_loop.simps) auto
  next
    case False
    with 1(2,3) r have rc: "cx_reconnect (w_cx w1)"
      by (subst (asm) recv_loop.simps) (auto split: if_splits)
    with 1(2,3) r False obtain fd c2 w2 where
      a: "achd_reconnect c1 w1 = Cont (fd, c2) w2" "\<not> stopping w2" "cx_reconnect (w_cx w2)"
        "recv_loop c2 w2 = Cont (b, conn') w'"
      by (subst (asm) recv_loop.simps) (auto simp: act_then_Cont_iff split: if_splits)
    have "length (w_dials w2) < length (w_dials w1)" using achd_reconnect_dials [OF a(1)] a(2,3) by blast
    moreover have "length (w_dials w') \<le> length (w_dials w2)"
      using 1(1) [of "(b1, c1)" w1 "(fd, c2)" w2] r rc a False 1(3) by auto
    ultimately show ?thesis using l by simp
  qed
qed

function achd_pull_tcp :: "achd_conn \<Rightarrow> world \<Rightarrow> unit act" where
  "achd_pull_tcp conn w =
     (if stopping w then Cont () w
      else act_then (recv_loop conn w) (\<lambda>p w1.
           if \<not> fst p then Cont () w1
           else act_then (put_frame (snd p) w1) (\<lambda>_ w2. achd_pull_tcp (snd p) w2)))"
  by pat_completeness auto
termination
  by (relation "measures [\<lambda>(conn, w). length (w_dials w), \<lambda>(conn, w). input_left (conn_in conn) w]")
     (auto simp: input_left_def dest!: put_frame_world recv_loop_left)

declare achd_pull_tcp.simps [simp del]

section \<open>UDP\<close>

definition udp_peer :: "achd_conn \<Rightarrow> world \<Rightarrow> udp_addr act" where
  "udp_peer conn w =
     (case (if conn_in conn < 0 then Inl EBADF else w_peer w) of
        Inl e \<Rightarrow> syscall_fails ''Couldn't determine name of peer'' (set_errno e w)
      | Inr peer \<Rightarrow> Cont (fst peer, h_remote_port (recv_hdr conn) mod 65536) w)"

text \<open>
  The loop of \<^verbatim>\<open>udp_poll\<close> around \<open>poll\<close>: the report of the first call that is not to be
  repeated, and the calls left; \<open>None\<close> when the call never returns.
\<close>

type_synonym polls = "(bool \<times> poll_result) list"

fun poll_loop :: "polls \<Rightarrow> world \<Rightarrow> (poll_result \<times> polls) option \<times> world" where
  "poll_loop [] w = (None, set_errno EOK w)"
| "poll_loop ((sig, res) # ps) w =
     (let w = maybe_signal sig (set_errno EOK w)
      in case res of
           Poll_fail e \<Rightarrow>
             (let w = set_errno e w
              in if e = EAGAIN \<or> e = EINTR \<and> \<not> stopping w then poll_loop ps w
                 else (Some (res, ps), w))
         | Poll_ready a b c \<Rightarrow> (Some (res, ps), w))"

text \<open>
  The result of \<^verbatim>\<open>udp_poll\<close>, whether the first descriptor is ready, and the calls left.  The
  report says whether the first descriptor is ready, whether the second has failed, and whether it
  has input.
\<close>

definition udp_poll :: "polls \<Rightarrow> world \<Rightarrow> (int \<times> bool \<times> polls) act" where
  "udp_poll ps w =
     (case poll_loop ps w of
        (None, w) \<Rightarrow> Hang w
      | (Some (res, ps), w) \<Rightarrow>
          (case res of
             Poll_fail e \<Rightarrow>
               if stopping w then Cont (0, False, ps) w
               else if e \<noteq> EOK then syscall_fails ''Couldn't poll '' w
               else Cont (0, False, ps) w
           | Poll_ready ready failed input \<Rightarrow>
               if stopping w then Cont (0, ready, ps) w
               else if failed then Cont (-1, ready, ps) w
               else if input then Cont (-1, ready, ps) w
               else Cont (0, ready, ps) w))"

lemma poll_loop_shrinks: "poll_loop ps w = (Some (res, ps'), w') \<Longrightarrow> length ps' < length ps"
proof (induction ps arbitrary: w)
  case (Cons p ps)
  obtain sig r where "p = (sig, r)" by force
  with Cons show ?case by (cases r) (fastforce simp: Let_def split: if_splits)+
qed simp

lemma udp_poll_shrinks: "udp_poll ps w = Cont (r, ready, ps') w' \<Longrightarrow> length ps' < length ps"
  by (auto simp: udp_poll_def split: prod.splits option.splits poll_result.splits if_splits
      dest: poll_loop_shrinks)

text \<open>
  Waiting until the UDP socket is ready; \<open>False\<close> means that the handler returns.  The two handlers
  test the shutdown flag and the result of \<^verbatim>\<open>udp_poll\<close> in different orders, which makes no
  difference: the result is not negative once the flag is set.
\<close>

function udp_wait ::
  "string \<Rightarrow> polls \<Rightarrow> achd_conn \<Rightarrow> udp_addr \<Rightarrow> world \<Rightarrow> (bool \<times> polls \<times> achd_conn \<times> udp_addr) act"
  where
  "udp_wait msg ps conn addr w =
     act_then (udp_poll ps w) (\<lambda>p w1.
     case p of
       (r, ready, ps') \<Rightarrow>
         if r < 0
         then if cx_reconnect (w_cx w1)
              then act_then (achd_reconnect conn w1) (\<lambda>q w2.
                   act_then (udp_peer (snd q) w2) (\<lambda>addr w3.
                   if ready then Cont (True, ps', snd q, addr) w3
                   else udp_wait msg ps' (snd q) addr w3))
              else Cont (False, ps', conn, addr) w1
         else if stopping w1 then Cont (False, ps', conn, addr) w1
         else if ready then Cont (True, ps', conn, addr) w1
         else udp_wait msg ps' conn addr (w_log LOG_ERR msg w1))"
  by pat_completeness auto
termination
  by (relation "measure (\<lambda>(msg, ps, conn, addr, w). length ps)") (auto dest!: udp_poll_shrinks)

declare udp_wait.simps [simp del]

lemma udp_wait_shrinks:
  "udp_wait msg ps conn addr w = Cont (ok, ps', conn', addr') w' \<Longrightarrow> length ps' < length ps"
proof (induction ps arbitrary: conn addr w rule: measure_induct_rule [of length])
  case (less ps)
  obtain r ready ps1 w1 where p: "udp_poll ps w = Cont (r, ready, ps1) w1"
    using less(2) by (subst (asm) udp_wait.simps) (auto simp: act_then_Cont_iff)
  note l = udp_poll_shrinks [OF p]
  from less(2) have "ps' = ps1 \<or> (\<exists>c2 a2 w2. udp_wait msg ps1 c2 a2 w2 = Cont (ok, ps', conn', addr') w')"
    by (cases addr, subst (asm) udp_wait.simps) (auto simp: p act_then_Cont_iff split: if_splits)
  then show ?case using l less(1) [OF l] by fastforce
qed

text \<open>\<open>sendto\<close>, repeated while it is interrupted; at the end of the script it sends everything.\<close>

fun sendto_loop ::
  "nat \<Rightarrow> (bool \<times> (errno + nat)) list \<Rightarrow> world \<Rightarrow> int \<times> (bool \<times> (errno + nat)) list \<times> world" where
  "sendto_loop n [] w = (int n, [], w)"
| "sendto_loop n ((sig, Inr k) # ss) w = (int (min k n), ss, maybe_signal sig w)"
| "sendto_loop n ((sig, Inl e) # ss) w =
     (let w = set_errno e (maybe_signal sig w)
      in if \<not> stopping w \<and> e = EINTR then sendto_loop n ss w else (-1, ss, w))"

function push_udp_loop ::
  "get_env list \<Rightarrow> polls \<Rightarrow> achd_conn \<Rightarrow> udp_addr \<Rightarrow> bool \<Rightarrow> bool \<Rightarrow> world \<Rightarrow> unit act" where
  "push_udp_loop es ps conn addr warned_mtu_eth warned_mtu_udp w =
     (if stopping w then Cont () w
      else act_then (get_frame conn es w) (\<lambda>p w1.
           case p of
             (conn, es') \<Rightarrow>
               if stopping w1 then Cont () w1
               else let cnt = unat (frame_size_of conn w1)
                    in if cnt > MTU_UDP
                       then push_udp_loop es' ps conn addr warned_mtu_eth True
                              (if warned_mtu_udp then w1 else w_log LOG_ERR ''Cannot send via UDP'' w1)
                       else let big = (cnt + HEADER_BYTES_UDP + HEADER_BYTES_IPV4 > MTU_ETH);
                                w2 = (if big \<and> \<not> warned_mtu_eth
                                      then w_log LOG_WARNING ''Size exceeds typical ethernet MTU'' w1 else w1)
                            in act_then (udp_wait ''No output possible after poll'' ps conn addr w2) (\<lambda>q w3.
                               case q of
                                 (ok, ps', conn, addr) \<Rightarrow>
                                   if \<not> ok then Cont () w3
                                   else if length (pf_data (pipeframe conn)) < cnt
                                   then Crash Out_of_bounds w3
                                   else case sendto_loop cnt (w_sends w3) w3 of
                                          (r, ss, w4) \<Rightarrow>
                                            if r < 0 \<or> r \<noteq> int cnt
                                            then fail_with ACH_FAILED_SYSCALL (''Couldn't send UDP message to '' @ addr_text addr @
                                                     '', '' @ err_text w4 @ '' ('' @ show_int (errno_number (w_errno w4)) @ '')'')
                                                   (w4\<lparr>w_sends := ss\<rparr>)
                                            else push_udp_loop es' ps' conn addr
                                                   (warned_mtu_eth \<or> big) warned_mtu_udp
                                                   (w4\<lparr>w_sends := ss,
                                                       w_sent_dgrams := w_sent_dgrams w4 @
                                                         [(addr, take cnt (pf_data (pipeframe conn)))]\<rparr>))))"
  by pat_completeness auto
termination
  by (relation "measure (\<lambda>(es, ps, conn, addr, e, u, w). length es)") (auto dest!: get_frame_shrinks)

declare push_udp_loop.simps [simp del]

definition achd_push_udp :: "get_env list \<Rightarrow> polls \<Rightarrow> achd_conn \<Rightarrow> world \<Rightarrow> unit act" where
  "achd_push_udp es ps conn w =
     act_then (act_assert 337 (conn_udp conn \<noteq> None) w) (\<lambda>_ w.
     act_then (udp_peer conn w) (\<lambda>addr w.
     push_udp_loop es ps conn addr False False (w_log LOG_INFO ''sending UDP'' w)))"

text \<open>\<open>recvfrom\<close>, repeated while it is interrupted; \<open>None\<close> when no datagram ever comes.\<close>

fun recvfrom_loop ::
  "(bool \<times> (errno + datagram)) list \<Rightarrow> world \<Rightarrow>
   (errno + datagram) option \<times> (bool \<times> (errno + datagram)) list \<times> world" where
  "recvfrom_loop [] w = (None, [], w)"
| "recvfrom_loop ((sig, Inr d) # rs) w = (Some (Inr d), rs, maybe_signal sig w)"
| "recvfrom_loop ((sig, Inl e) # rs) w =
     (let w = set_errno e (maybe_signal sig w)
      in if e = EINTR \<and> \<not> stopping w then recvfrom_loop rs w else (Some (Inl e), rs, w))"

text \<open>
  What a receive leaves: the result, the sender (zero after a failure) and the frame.  A datagram
  that is longer than the buffer is cut.
\<close>

definition received :: "errno + datagram \<Rightarrow> achd_conn \<Rightarrow> int \<times> udp_addr \<times> ach_pipe_frame_t" where
  "received x conn =
     (case x of
        Inl e \<Rightarrow> (-1, (0, 0), pipeframe conn)
      | Inr d \<Rightarrow>
          let bytes = take (pipeframe_size conn) (dg_data d)
          in (int (length bytes), dg_from d, over_data bytes (pipeframe conn)))"

function pull_udp_loop :: "polls \<Rightarrow> achd_conn \<Rightarrow> udp_addr \<Rightarrow> world \<Rightarrow> unit act" where
  "pull_udp_loop ps conn addr w =
     (if stopping w then Cont () w
      else act_then (udp_wait ''No input avaiable after poll'' ps conn addr w) (\<lambda>p w1.
           case p of
             (ok, ps', conn, addr) \<Rightarrow>
               if \<not> ok then Cont () w1
               else case recvfrom_loop (w_recvs w1) w1 of
                      (None, rs, w2) \<Rightarrow> Hang w2
                    | (Some x, rs, w2) \<Rightarrow>
                        let w3 = w2\<lparr>w_recvs := rs\<rparr>
                        in if stopping w3 then Cont () w3
                           else case received x conn of
                                  (r, from, frame) \<Rightarrow>
                                    if from \<noteq> addr
                                    then pull_udp_loop ps' (conn\<lparr>pipeframe := frame\<rparr>) addr
                                           (w_log LOG_WARNING ''Stray packet'' w3)
                                    else let conn = conn\<lparr>pipeframe := ach_pipe_set_size frame (word_of_int r)\<rparr>
                                         in act_then (put_frame conn w3) (\<lambda>_ w4.
                                            pull_udp_loop ps' conn addr w4)))"
  by pat_completeness auto
termination
  by (relation "measure (\<lambda>(ps, conn, addr, w). length ps)") (auto dest!: udp_wait_shrinks)

declare pull_udp_loop.simps [simp del]

definition achd_pull_udp :: "polls \<Rightarrow> achd_conn \<Rightarrow> world \<Rightarrow> unit act" where
  "achd_pull_udp ps conn w =
     act_then (act_assert 409 (conn_udp conn \<noteq> None) w) (\<lambda>_ w.
     act_then (udp_peer conn w) (\<lambda>addr w. pull_udp_loop ps conn addr w))"

primrec run_handler ::
  "achd_handler_fn \<Rightarrow> get_env list \<Rightarrow> polls \<Rightarrow> achd_conn \<Rightarrow> world \<Rightarrow> unit act" where
  "run_handler Push_tcp es ps = achd_push_tcp es"
| "run_handler Pull_tcp es ps = achd_pull_tcp"
| "run_handler Push_udp es ps = achd_push_udp es ps"
| "run_handler Pull_udp es ps = achd_pull_udp ps"

end
