(* ===== verification/Ach_Getopt.thy ===== *)
theory Ach_Getopt
  imports Ach_Types
begin

text \<open>
  The part of the C library's \<open>getopt\<close> that the command-line tools use: single-letter options,
  clusters, arguments in the same or the next word, and words that are not options moved behind the
  options.  The result lists what successive calls return, with \<open>optarg\<close>, and the words left.
\<close>

fun opt_kind :: "string \<Rightarrow> char \<Rightarrow> bool option" where
  "opt_kind [] c = None"
| "opt_kind (d # ds) c =
     (if d = c \<and> c \<noteq> CHR '':'' then Some (ds \<noteq> [] \<and> hd ds = CHR '':'') else opt_kind ds c)"

type_synonym opt_call = "char \<times> string option"

fun scan_cluster :: "string \<Rightarrow> string \<Rightarrow> string list \<Rightarrow> opt_call list \<times> string list" where
  "scan_cluster spec [] rest = ([], rest)"
| "scan_cluster spec (c # cs) rest =
     (case opt_kind spec c of
        None \<Rightarrow> (let (os, r) = scan_cluster spec cs rest in ((CHR ''?'', None) # os, r))
      | Some False \<Rightarrow> (let (os, r) = scan_cluster spec cs rest in ((c, None) # os, r))
      | Some True \<Rightarrow>
          if cs \<noteq> [] then ([(c, Some cs)], rest)
          else (case rest of
                  [] \<Rightarrow> ([(CHR ''?'', None)], [])
                | a # rest \<Rightarrow> ([(c, Some a)], rest)))"

lemma scan_cluster_rest: "length (snd (scan_cluster spec cs rest)) \<le> length rest"
  by (induction cs) (auto split: option.split bool.split prod.split list.split)

definition is_option :: "string \<Rightarrow> bool" where
  "is_option a = (length a > 1 \<and> hd a = CHR ''-'')"

function getopt_all :: "string \<Rightarrow> string list \<Rightarrow> opt_call list \<times> string list" where
  "getopt_all spec [] = ([], [])"
| "getopt_all spec (a # rest) =
     (if a = ''--'' then ([], rest)
      else if is_option a
      then let c = scan_cluster spec (tl a) rest; r = getopt_all spec (snd c)
           in (fst c @ fst r, snd r)
      else let r = getopt_all spec rest in (fst r, a # snd r))"
  by pat_completeness auto
termination
  by (relation "measure (\<lambda>(spec, args). length args)") (auto simp: le_imp_less_Suc scan_cluster_rest)

text \<open>An option that takes no argument never comes with one, and the other way round.\<close>

lemma opt_kind_char: "opt_kind spec c = Some b \<Longrightarrow> c \<noteq> CHR '':''"
  by (induction spec) (auto split: if_splits)

lemma scan_cluster_args:
  "(c, arg) \<in> set (fst (scan_cluster spec cs rest)) \<Longrightarrow>
   c = CHR ''?'' \<and> arg = None \<or> opt_kind spec c = Some (arg \<noteq> None)"
  by (induction cs) (auto split: option.splits bool.splits prod.splits list.splits if_splits)

lemma getopt_all_args:
  "(c, arg) \<in> set (fst (getopt_all spec args)) \<Longrightarrow>
   c = CHR ''?'' \<and> arg = None \<or> opt_kind spec c = Some (arg \<noteq> None)"
proof (induction spec args rule: getopt_all.induct)
  case (2 spec a rest)
  then show ?case using scan_cluster_args [of c arg spec "tl a" rest]
    by (auto simp: Let_def split: if_splits)
qed simp

end
