(* ===== verification/Achd_Main.thy ===== *)
theory Achd_Main
  imports Achd_Transport Ach_Getopt
begin

text \<open>
  The entry points of \<^verbatim>\<open>achd\<close>: the command line, the server and the client
  (\<^verbatim>\<open>src/achd/achd.c\<close> and \<^verbatim>\<open>src/achd/client.c\<close>).  The number of channel frames
  and the size of a frame are taken from the block; the texts that are only logged are shortened and
  messages for debugging left out.
\<close>

section \<open>The command line\<close>

definition achd_optstring :: string where "achd_optstring = ''dp:t:f:z:u:lqrvV?''"

definition set_opts :: "(achd_headers \<Rightarrow> achd_headers) \<Rightarrow> world \<Rightarrow> world" where
  "set_opts f w = set_cx (\<lambda>cx. cx\<lparr>cl_opts := f (cl_opts cx)\<rparr>) w"

text \<open>A copy of a string; copying a null pointer crashes.\<close>

definition strdup :: "string option \<Rightarrow> (string \<Rightarrow> world \<Rightarrow> unit act) \<Rightarrow> world \<Rightarrow> unit act" where
  "strdup s f w = (case s of Some t \<Rightarrow> f t w | None \<Rightarrow> Crash Unmapped w)"

definition opt_f :: "string option \<Rightarrow> world \<Rightarrow> unit act" where
  "opt_f arg w = strdup arg (\<lambda>s w. Cont () (set_cx (\<lambda>cx. cx\<lparr>cx_pidfile := Some s\<rparr>) w)) w"

text \<open>The cases \<^verbatim>\<open>'u'\<close> and \<^verbatim>\<open>'l'\<close> have no \<open>break\<close>: control falls through to \<^verbatim>\<open>'f'\<close>.\<close>

definition opt_l :: "string option \<Rightarrow> world \<Rightarrow> unit act" where
  "opt_l arg w = opt_f arg (set_opts (\<lambda>h. h\<lparr>h_get_last := True\<rparr>) w)"

definition opt_u :: "string option \<Rightarrow> world \<Rightarrow> unit act" where
  "opt_u arg w =
     (case arg of
        None \<Rightarrow> Crash Unmapped w
      | Some s \<Rightarrow>
          let (u, bad) = strtoul s; w = set_opts (\<lambda>h. h\<lparr>h_period_ns := 1000 * u\<rparr>) w
          in if bad then Quit 1 (w_log LOG_ERR (''Invalid period: '' @ s) w) else opt_l arg w)"

definition opt_p :: "string option \<Rightarrow> world \<Rightarrow> unit act" where
  "opt_p arg w =
     (case arg of
        None \<Rightarrow> Crash Unmapped w
      | Some s \<Rightarrow>
          let (u, bad) = strtoul s; w = set_cx (\<lambda>cx. cx\<lparr>cx_port := to_int (uint u)\<rparr>) w
          in if bad then Quit 1 (w_log LOG_ERR (''Invalid port: '' @ s) w) else Cont () w)"

definition add_verbosity :: "int \<Rightarrow> world \<Rightarrow> world" where
  "add_verbosity d w = w\<lparr>w_proc := (w_proc w)\<lparr>p_verbosity := p_verbosity (w_proc w) + d\<rparr>\<rparr>"

definition achd_option :: "opt_call \<Rightarrow> world \<Rightarrow> unit act" where
  "achd_option oc w =
     (let c = fst oc; arg = snd oc
      in if c = CHR ''z''
         then strdup arg (\<lambda>s w. Cont () (set_opts (\<lambda>h. h\<lparr>h_remote_chan_name := Some s\<rparr>) w)) w
         else if c = CHR ''d'' then Cont () (set_cx (\<lambda>cx. cx\<lparr>cx_detach := True\<rparr>) w)
         else if c = CHR ''p'' then opt_p arg w
         else if c = CHR ''u'' then opt_u arg w
         else if c = CHR ''l'' then opt_l arg w
         else if c = CHR ''f'' then opt_f arg w
         else if c = CHR ''r'' then Cont () (set_cx (\<lambda>cx. cx\<lparr>cx_reconnect := True\<rparr>) w)
         else if c = CHR ''t''
         then strdup arg (\<lambda>s w. Cont () (set_opts (\<lambda>h. h\<lparr>h_transport := Some s\<rparr>) w)) w
         else if c = CHR ''q'' then Cont () (add_verbosity (-1) w)
         else if c = CHR ''v'' then Cont () (add_verbosity 1 w)
         else Quit 0 w)"

fun achd_options :: "opt_call list \<Rightarrow> world \<Rightarrow> unit act" where
  "achd_options [] w = Cont () w"
| "achd_options (oc # ocs) w = act_then (achd_option oc w) (\<lambda>_ w. achd_options ocs w)"

definition achd_posarg :: "nat \<Rightarrow> string \<Rightarrow> world \<Rightarrow> unit act" where
  "achd_posarg i arg w =
     (if i = 0
      then if strcaseeq arg ''serve'' then Cont () (set_cx (\<lambda>cx. cx\<lparr>cx_mode := ACHD_MODE_SERVE\<rparr>) w)
           else if strcaseeq arg ''push''
           then Cont () (set_opts (\<lambda>h. h\<lparr>h_direction := ACHD_DIRECTION_PUSH\<rparr>)
                          (set_cx (\<lambda>cx. cx\<lparr>cx_mode := ACHD_MODE_PUSH\<rparr>) w))
           else if strcaseeq arg ''pull''
           then Cont () (set_opts (\<lambda>h. h\<lparr>h_direction := ACHD_DIRECTION_PULL\<rparr>)
                          (set_cx (\<lambda>cx. cx\<lparr>cx_mode := ACHD_MODE_PULL\<rparr>) w))
           else w_die (''Invalid command: '' @ arg) w
      else if i = 1 then Cont () (set_opts (\<lambda>h. h\<lparr>h_remote_host := Some arg\<rparr>) w)
      else if i = 2 then Cont () (set_opts (\<lambda>h. h\<lparr>h_chan_name := Some arg\<rparr>) w)
      else Quit 1 (w_log LOG_ERR (''Spurious argument: '' @ arg) w))"

fun achd_posargs :: "nat \<Rightarrow> string list \<Rightarrow> world \<Rightarrow> unit act" where
  "achd_posargs i [] w = Cont () w"
| "achd_posargs i (a # args) w = act_then (achd_posarg i a w) (\<lambda>_ w. achd_posargs (i + 1) args w)"

section \<open>The server\<close>

definition reply_text :: "ach_header_t \<Rightarrow> string" where
  "reply_text shm =
     ''frame-count: '' @ show_nat (unat (index_cnt shm)) @ newline @
     ''frame-size: '' @ show_nat (unat (data_size shm div index_cnt shm)) @ newline @
     ''status: '' @ show_int (ach_status_code ACH_OK) @ '' # '' @
       ach_result_to_string (ach_status_code ACH_OK) @ newline @
     ''.'' @ newline"

text \<open>The block of the open channel; dividing by its number of frames may trap.\<close>

definition channel_block :: "world \<Rightarrow> ach_header_t act" where
  "channel_block w =
     (case ch_shm (cx_channel (w_cx w)) of
        None \<Rightarrow> Crash Unmapped w
      | Some k \<Rightarrow>
          (case block_at (w_os w) k of
             None \<Rightarrow> Crash Unmapped w
           | Some shm \<Rightarrow> if index_cnt shm = 0 then Crash Div_by_zero w else Cont shm w))"

definition alloc_buffers :: "achd_conn \<Rightarrow> world \<Rightarrow> achd_conn act" where
  "alloc_buffers conn w =
     act_then (channel_block w) (\<lambda>shm w.
     let n = unat (data_size shm div index_cnt shm)
     in act_then (alloc_frame n w) (\<lambda>frame w.
        Cont (conn\<lparr>pipeframe_size := n, pipeframe := frame\<rparr>) w))"

definition zero_conn :: "achd_conn_vtab \<Rightarrow> achd_conn" where
  "zero_conn v =
     \<lparr>conn_mode = ACHD_MODE_VOID, conn_t0 = (0, 0), conn_ts_last = (0, 0), send_hdr = zero_headers,
      recv_hdr = zero_headers, conn_in = 0, conn_out = 0, conn_aux = 0, pipeframe_size = 0,
      pipeframe = \<lparr>pf_magic = [], size_bytes = [], pf_data = []\<rparr>, conn_vtab = v, conn_udp = None\<rparr>"

text \<open>The checks of the request, in the order of the code.\<close>

definition check_request :: "udp_addr \<Rightarrow> achd_headers \<Rightarrow> world \<Rightarrow> string act" where
  "check_request peer h w =
     (case h_chan_name h of
        None \<Rightarrow> fail_with ACH_BAD_HEADER (addr_text peer @ '' no channel header'') w
      | Some name \<Rightarrow>
          if h_transport h = None then fail_with ACH_BAD_HEADER (addr_text peer @ '' no transport header'') w
          else if h_direction h = ACHD_DIRECTION_VOID
          then fail_with ACH_BAD_HEADER (addr_text peer @ '' no direction header'') w
          else Cont name (w_log LOG_NOTICE ''serving'' w))"

definition serve_channel :: "string \<Rightarrow> world \<Rightarrow> unit act" where
  "serve_channel name w =
     act_then (w_open (Some name) w) (\<lambda>r w.
     if r \<noteq> ACH_OK then fail_with r (''Couldn't open channel '' @ name @ '' - '' @ err_text w) w
     else act_then (with_channel (ach_flush 0) w) (\<lambda>_ w. Cont () w))"

definition achd_serve :: "get_env list \<Rightarrow> polls \<Rightarrow> world \<Rightarrow> unit act" where
  "achd_serve es ps w =
     (let w = sighandler_install w
      in case w_peer w of
           Inl e \<Rightarrow> syscall_fails ''Server couldn't determine name of peer'' (set_errno e w)
         | Inr peer \<Rightarrow>
             act_then (achd_parse_headers 0 zero_headers w) (\<lambda>(r, h) w.
             act_then (check_status ''Bad headers'' r w) (\<lambda>_ w.
             let h = (if h_chan_name h = None then h\<lparr>h_chan_name := h_remote_chan_name h\<rparr> else h)
             in act_then (check_request peer h w) (\<lambda>name w.
                act_then (serve_channel name w) (\<lambda>_ w.
                act_then (achd_get_vtab (h_transport h) (h_direction h) w) (\<lambda>v w.
                let conn = (zero_conn v)\<lparr>conn_mode := ACHD_MODE_SERVE, conn_in := 0, conn_out := 1, recv_hdr := h\<rparr>
                in act_then (run_connect (v_connect v) conn w) (\<lambda>conn w.
                   act_then (channel_block w) (\<lambda>shm w.
                   act_then (achd_printf (conn_out conn) (reply_text shm) w) (\<lambda>_ w.
                   act_then (alloc_buffers conn (set_cx (\<lambda>cx. cx\<lparr>cx_error := Error_log\<rparr>) w)) (\<lambda>conn w.
                   act_then (run_handler (v_handler v) es ps conn w) (\<lambda>_ w.
                   Cont () (w_log LOG_INFO ''Finished serving'' w))))))))))))"

section \<open>The client\<close>

text \<open>Detaching, after which the client closes its output and tells the first process it is well.\<close>

definition client_detach :: "fork_side \<Rightarrow> fork_side \<Rightarrow> int \<Rightarrow> world \<Rightarrow> unit act" where
  "client_detach fork1 fork2 arrived w =
     (case ach_detach ACH_PARENT_TIMEOUT_SEC fork1 fork2 arrived (w_proc w) of
        Exit c p \<Rightarrow> Quit c (w\<lparr>w_proc := p\<rparr>)
      | Go gp p \<Rightarrow>
          let p = try_call ''Couldn't close stdout'' id p;
              p = try_call ''Couldn't close stderr'' id p;
              p = try_call ''Couldn't signal grandparent with status''
                    (\<lambda>p. p\<lparr>p_kills := p_kills p @ [(gp, SIGUSR1)]\<rparr>) p
          in Cont () (w\<lparr>w_proc := p\<rparr>))"

text \<open>The choices of the environment that only the client needs: the two forks and a signal.\<close>

definition achd_client ::
  "fork_side \<Rightarrow> fork_side \<Rightarrow> int \<Rightarrow> get_env list \<Rightarrow> polls \<Rightarrow> world \<Rightarrow> unit act" where
  "achd_client fork1 fork2 arrived es ps w =
     (let opts = cl_opts (w_cx w)
      in act_then (achd_get_vtab (h_transport opts) (h_direction opts) w) (\<lambda>v w.
         case h_remote_chan_name opts of
           None \<Rightarrow> fail_with ACH_BAD_HEADER ''No channel name given'' w
         | Some name \<Rightarrow>
             act_then (act_assert 93 (h_transport opts \<noteq> None) w) (\<lambda>_ w.
             act_then (act_assert 94 (h_direction opts = ACHD_DIRECTION_PUSH \<or>
                                      h_direction opts = ACHD_DIRECTION_PULL) w) (\<lambda>_ w.
             let conn = (zero_conn v)\<lparr>send_hdr := zero_headers\<lparr>h_chan_name := Some name,
                          h_transport := h_transport opts, h_period_ns := h_period_ns opts,
                          h_get_last := h_get_last opts\<rparr>\<rparr>;
                 w = sighandler_install w
             in act_then (if cx_detach (w_cx w) then client_detach fork1 fork2 arrived w else Cont () w) (\<lambda>_ w.
                act_then (server_connect conn w) (\<lambda>(fd, conn) w.
                if fd < 0 then w_die ''Couldn't connect to server'' w
                else act_then (alloc_buffers conn w) (\<lambda>conn w.
                     let w = w\<lparr>w_proc := ach_notify ACH_SIG_OK (w_proc w)\<rparr>
                     in if \<not> stopping w
                        then act_then (run_handler (v_handler v) es ps conn (w_log LOG_INFO ''Client running'' w)) (\<lambda>_ w.
                             Cont () (w_log LOG_INFO ''Client done'' w))
                        else Cont () w)))))))"

section \<open>The main program\<close>

definition main_defaults :: "bool \<Rightarrow> world \<Rightarrow> world" where
  "main_defaults under_achcop w =
     (let w = (if under_achcop then w\<lparr>w_proc := (w_proc w)\<lparr>p_notify := p_ppid (w_proc w)\<rparr>\<rparr> else w)
      in w\<lparr>w_cx :=
             \<lparr>cl_opts = zero_headers\<lparr>h_transport := Some ''tcp'', h_frame_size := ACH_DEFAULT_FRAME_SIZE,
                          h_frame_count := ACH_DEFAULT_FRAME_COUNT\<rparr>,
              cx_mode = ACHD_MODE_VOID, cx_port = ACHD_PORT, cx_reconnect = False, cx_detach = False,
              cx_pidfile = None, sig_received = False, cx_channel = no_handle, cx_error = Error_log\<rparr>\<rparr>)"

definition default_names :: "achd_headers \<Rightarrow> achd_headers" where
  "default_names h =
     (let h = (if h_chan_name h = None then h\<lparr>h_chan_name := h_remote_chan_name h\<rparr> else h)
      in if h_remote_chan_name h = None then h\<lparr>h_remote_chan_name := h_chan_name h\<rparr> else h)"

definition achd_main ::
  "bool \<Rightarrow> string list \<Rightarrow> bool \<Rightarrow> fork_side \<Rightarrow> fork_side \<Rightarrow> int \<Rightarrow> get_env list \<Rightarrow> polls \<Rightarrow> world \<Rightarrow>
   int act" where
  "achd_main under_achcop args on_tty fork1 fork2 arrived es ps w =
     (let (ocs, words) = getopt_all achd_optstring args;
          w = main_defaults under_achcop w
      in act_then (achd_options ocs w) (\<lambda>_ w.
         act_then (achd_posargs 0 words w) (\<lambda>_ w.
         let w = set_opts default_names w
         in if cx_mode (w_cx w) = ACHD_MODE_SERVE
            then if on_tty then Quit 1 (w_log LOG_ERR ''We don't serve TTYs here!'' w)
                 else act_then (achd_serve es ps (set_cx (\<lambda>cx. cx\<lparr>cx_error := Error_header\<rparr>) w))
                        (\<lambda>_ w. Cont 0 w)
            else act_then (achd_client fork1 fork2 arrived es ps w) (\<lambda>_ w. Cont 0 w))))"

section \<open>Properties\<close>

lemma status_code_pos: "r \<noteq> ACH_OK \<Longrightarrow> \<exists>c. ach_status_code r = int c \<and> 0 < c \<and> c < 2 ^ 31"
  by (rule exI [of _ "nat (ach_status_code r)"]) (cases r; simp)

lemma w_open_keeps: "w_open name w = Cont r w' \<Longrightarrow> cx_error (w_cx w') = cx_error (w_cx w) \<and> w_fds w' = w_fds w"
  by (auto simp: w_open_def act_of_def set_cx_def split: option.splits outcome.splits)

text \<open>
  C30. A server's error reaches the client.  When a server that is asked for a channel cannot open it, for
  whatever reason, it exits with the status of \<^verbatim>\<open>ach_open\<close> after it has sent that status and a message with
  the name of the channel and the text of the error.  Any client that reads these bytes as its response, in
  whatever pieces, exits with failure after it has written down the status and that message: on a terminal it
  prints both unless it was told to be quiet, otherwise, and when it has no parent, both go to the log of the
  system.  This holds for names and texts that fit the line and have no character that ends or splits a header
  value (a colon, an equals sign, a number sign, the end of a line), as every name from a header is.
\<close>

theorem server_error_reported:
  assumes "cx_error (w_cx s) = Error_header" "w_open (Some name) s = Cont r s1" "r \<noteq> ACH_OK"
    and "plain_value name" "plain_value (err_text s1)" "length name + length (err_text s1) < 900"
  defines "msg \<equiv> ''Server error: Couldn't open channel '' @ name @ '' - '' @ err_text s1"
  shows "\<exists>s' sent. serve_channel name s = Quit (ach_status_code r) s' \<and> sent \<noteq> [] \<and>
           io_sent (w_fds s' 1) = io_sent (w_fds s 1) @ sent \<and>
           (\<forall>fd conn w rest. cx_error (w_cx w) = Error_log \<and> in_state fd w (sent @ rest) \<longrightarrow>
              (\<exists>w'. get_response fd conn w = Quit 1 w' \<and>
                 p_log (w_proc w') = p_log (w_proc w) @
                   (if p_stderr_tty (w_proc w) \<and> - 1 \<le> p_verbosity (w_proc w)
                    then [(To_stderr, LOG_CRIT, ''status: '' @ ach_result_to_string (ach_status_code r)), (To_stderr, LOG_CRIT, msg)]
                    else []) @
                   (if \<not> p_stderr_tty (w_proc w) \<or> cx_mode (w_cx w) = ACHD_MODE_SERVE \<or> p_ppid (w_proc w) = 1
                    then [(To_syslog, LOG_CRIT, ach_result_to_string (ach_status_code r) @ '' - '' @ msg)] else [])))"
proof -
  let ?m = "''Couldn't open channel '' @ name @ '' - '' @ err_text s1"
  obtain c where c: "ach_status_code r = int c" "0 < c" "c < 2 ^ 31" using status_code_pos [OF assms(3)] by blast
  have e: "cx_error (w_cx s1) = Error_header" using assms(1) w_open_keeps [OF assms(2)] by simp
  have plain: "plain_value ?m" "length ?m < 1000"
    using assms(4-6) by (auto simp: plain_value_def list_all_iff is_blank_def is_sep_def)
  obtain s' where s: "(cx_fail (int c) ?m s1 :: unit act) = Quit (int c) s'"
      "io_sent (w_fds s' 1) = io_sent (w_fds s 1) @ ascii (error_header_text (int c) ?m)"
    using cx_fail_sends [OF e, of "int c" ?m] c(2) w_open_keeps [OF assms(2)] by auto
  have "serve_channel name s = Quit (int c) s'" using assms(2,3) s(1) c(1) by (simp add: serve_channel_def fail_with_def)
  moreover have "\<exists>w'. get_response fd conn w = Quit 1 w' \<and>
      p_log (w_proc w') = p_log (w_proc w) @
        (if p_stderr_tty (w_proc w) \<and> - 1 \<le> p_verbosity (w_proc w)
         then [(To_stderr, LOG_CRIT, ''status: '' @ ach_result_to_string (int c)), (To_stderr, LOG_CRIT, msg)] else []) @
        (if \<not> p_stderr_tty (w_proc w) \<or> cx_mode (w_cx w) = ACHD_MODE_SERVE \<or> p_ppid (w_proc w) = 1
         then [(To_syslog, LOG_CRIT, ach_result_to_string (int c) @ '' - '' @ msg)] else [])"
    if w: "cx_error (w_cx w) = Error_log" "in_state fd w (ascii (error_header_text (int c) ?m) @ rest)" for fd conn w rest
  proof -
    obtain w1 where 1: "get_response fd conn w = cx_fail (int c) (''Server error: '' @ ?m) w1" "same_but_input fd w w1"
      using server_error_received [OF c(2,3) plain w(2)] by blast
    have p: "w_proc w1 = w_proc w" "w_cx w1 = w_cx w" using same_but_input_process [OF 1(2)] by simp_all
    show ?thesis using cx_fail_logs [of w1 "int c" msg] 1(1) p w(1) c(2) by (simp add: msg_def)
  qed
  moreover have "ascii (error_header_text (int c) ?m) \<noteq> []" by (simp add: error_header_text_def ascii_def)
  ultimately show ?thesis using s(2) unfolding c(1) by blast
qed

theorem server_error_reported_witness:
  "\<exists>s' sent. serve_channel ''imu'' (set_cx (\<lambda>cx. cx\<lparr>cx_error := Error_header\<rparr>) a_world) = Quit (ach_status_code ACH_ENOENT) s' \<and>
     io_sent (w_fds s' 1) = sent \<and>
     (\<exists>w'. get_response 5 conn0 (set_fd 5 (\<lambda>f. f\<lparr>io_in := [(False, Rd_data sent)]\<rparr>) a_world) = Quit 1 w' \<and>
        p_log (w_proc w') = [(To_stderr, LOG_CRIT, ''status: ACH_ENOENT''),
          (To_stderr, LOG_CRIT, ''Server error: Couldn't open channel imu - No such file or directory'')])"
proof -
  let ?s = "set_cx (\<lambda>cx. cx\<lparr>cx_error := Error_header\<rparr>) a_world"
  let ?c = "\<lambda>sent. set_fd 5 (\<lambda>f. f\<lparr>io_in := [(False, Rd_data sent)]\<rparr>) a_world"
  let ?t = "ascii (error_header_text (ach_status_code ACH_ENOENT) ''Couldn't open channel imu - No such file or directory'')"
  obtain s1 where o: "w_open (Some ''imu'') ?s = Cont ACH_ENOENT s1" "err_text s1 = ''No such file or directory''"
    using ach_open_missing [OF _ name_imu quiet_empty_os(2), of "cx_channel (w_cx ?s)"]
    by (auto simp: w_open_def act_of_def set_cx_def a_world_def err_text_def w_errno_def) (simp add: empty_os_def)
  have s: "cx_error (w_cx ?s) = Error_header" by (simp add: set_cx_def)
  have t: "plain_value ''imu''" "plain_value (err_text s1)" "length ''imu'' + length (err_text s1) < 900"
    by (simp_all add: o(2) plain_value_def is_blank_def is_sep_def)
  obtain s' sent where r: "serve_channel ''imu'' ?s = Quit (ach_status_code ACH_ENOENT) s'"
      "sent \<noteq> []" "io_sent (w_fds s' 1) = io_sent (w_fds ?s 1) @ sent"
      "\<forall>fd conn w rest. cx_error (w_cx w) = Error_log \<and> in_state fd w (sent @ rest) \<longrightarrow>
         (\<exists>w'. get_response fd conn w = Quit 1 w' \<and>
            p_log (w_proc w') = p_log (w_proc w) @
              (if p_stderr_tty (w_proc w) \<and> - 1 \<le> p_verbosity (w_proc w)
               then [(To_stderr, LOG_CRIT, ''status: '' @ ach_result_to_string (ach_status_code ACH_ENOENT)),
                     (To_stderr, LOG_CRIT, ''Server error: Couldn't open channel '' @ ''imu'' @ '' - '' @ err_text s1)]
               else []) @
              (if \<not> p_stderr_tty (w_proc w) \<or> cx_mode (w_cx w) = ACHD_MODE_SERVE \<or> p_ppid (w_proc w) = 1
               then [(To_syslog, LOG_CRIT, ach_result_to_string (ach_status_code ACH_ENOENT) @ '' - '' @
                      ''Server error: Couldn't open channel '' @ ''imu'' @ '' - '' @ err_text s1)] else []))"
    using server_error_reported [OF s o(1) _ t] by blast
  from r(2) have "in_state 5 (?c sent) (sent @ [])"
    by (simp add: in_state_def set_fd_def calm_def stopping_def a_world_def an_achd_cx_def)
  moreover have "cx_error (w_cx (?c sent)) = Error_log" "w_proc (?c sent) = a_process" "cx_mode (w_cx (?c sent)) = ACHD_MODE_PUSH"
    by (simp_all add: set_fd_def a_world_def an_achd_cx_def)
  ultimately obtain w' where "get_response 5 conn0 (?c sent) = Quit 1 w'"
      "p_log (w_proc w') = [(To_stderr, LOG_CRIT, ''status: ACH_ENOENT''),
          (To_stderr, LOG_CRIT, ''Server error: Couldn't open channel imu - No such file or directory'')]"
    using r(4) [rule_format, of "?c sent" 5 "[]" conn0] by (auto simp: o(2) a_process_def ach_result_to_string_def)
  moreover have "io_sent (w_fds s' 1) = sent" using r(3) by (simp add: set_cx_def a_world_def idle_fd_def)
  ultimately show ?thesis using r(1) by blast
qed

text \<open>
  A request without one of its headers, whose error the client does not see: the message starts with the
  address and the port of the client, with a colon between them.
\<close>

lemma show_nat_chars: "c \<in> set (show_nat n) \<Longrightarrow> is_digit c"
  using show_nat_digits [of n] by (auto simp: list_all_iff)

lemma addr_text_short:
  assumes "0 \<le> snd peer" "snd peer < 2 ^ 16"
  shows "length (addr_text peer) < 100"
proof -
  have octet: "length (show_nat (a mod 256)) \<le> 3" for a using length_show_nat [of "a mod 256" 3] by simp
  have "length (show_nat (nat (snd peer))) \<le> 5" using assms length_show_nat [of "nat (snd peer)" 5] by simp
  then show ?thesis
    using assms(1) octet [of "fst peer div 2 ^ 24"] octet [of "fst peer div 2 ^ 16"] octet [of "fst peer div 2 ^ 8"] octet [of "fst peer"]
    by (simp add: addr_text_def inet_ntoa_def show_int_def)
qed

lemma addr_text_chars:
  assumes "0 \<le> snd peer"
  shows "c \<in> set (addr_text peer) \<Longrightarrow> is_digit c \<or> c = CHR ''.'' \<or> c = CHR '':''"
    and "CHR '':'' \<in> set (addr_text peer)"
  using assms by (auto simp: addr_text_def inet_ntoa_def show_int_def dest: show_nat_chars)

lemma request_error_lost:
  assumes "cx_error (w_cx s) = Error_header" "h_chan_name h = None \<or> h_transport h = None \<or> h_direction h = ACHD_DIRECTION_VOID"
    and "0 \<le> snd peer" "snd peer < 2 ^ 16"
  shows "\<exists>s' sent. check_request peer h s = Quit (ach_status_code ACH_BAD_HEADER) s' \<and> io_sent (w_fds s' 1) = io_sent (w_fds s 1) @ sent \<and>
           (\<forall>fd conn w rest. in_state fd w (sent @ rest) \<longrightarrow> (\<exists>w'. get_response fd conn w = fail_with ACH_BAD_HEADER ''malformed header'' w'))"
proof -
  define what where "what = (if h_chan_name h = None then ''channel'' else if h_transport h = None then ''transport'' else ''direction'')"
  have c: "check_request peer h s = fail_with ACH_BAD_HEADER (addr_text peer @ '' no '' @ what @ '' header'') s"
    using assms(2) by (cases "h_chan_name h"; cases "h_transport h") (simp_all add: check_request_def what_def)
  have what: "what \<in> {''channel'', ''transport'', ''direction''}" by (simp add: what_def)
  let ?m = "addr_text peer @ '' no '' @ what @ '' header''"
  let ?c = "nat (ach_status_code ACH_BAD_HEADER)"
  have len: "length ?m < 1000" using addr_text_short [OF assms(3,4)] what by auto
  have plain: "\<forall>c\<in>set ?m. c \<noteq> CHR 0x00 \<and> c \<noteq> CHR ''#'' \<and> c \<noteq> CHR 0x0A \<and> c \<noteq> CHR 0x0D \<and> c \<noteq> CHR 0xFF"
    (is "\<forall>c\<in>_. ?ok c")
  proof -
    have "?ok c" if "c \<in> set (addr_text peer)" for c using addr_text_chars(1) [OF assms(3) that] by (auto simp: is_digit_def)
    moreover have "?ok c" if "c \<in> set ('' no '' @ what @ '' header'')" for c using what that by auto
    ultimately show ?thesis by (metis Un_iff set_append)
  qed
  have "\<exists>w'. get_response fd conn w = fail_with ACH_BAD_HEADER ''malformed header'' w'"
    if "in_state fd w (ascii (error_header_text (int ?c) ?m) @ rest)" for fd conn w rest
    using server_error_lost [OF _ len plain _ that] addr_text_chars(2) [OF assms(3)] by simp
  moreover obtain s' where "(cx_fail (ach_status_code ACH_BAD_HEADER) ?m s :: string act) = Quit (ach_status_code ACH_BAD_HEADER) s'"
      "io_sent (w_fds s' 1) = io_sent (w_fds s 1) @ ascii (error_header_text (ach_status_code ACH_BAD_HEADER) ?m)"
    using cx_fail_sends [OF assms(1), of "ach_status_code ACH_BAD_HEADER" ?m] by auto
  ultimately show ?thesis unfolding c fail_with_def by fastforce
qed

text \<open>
  The option to transmit the latest frames crashes.  \<^verbatim>\<open>-l\<close> takes no argument, but its
  case falls through to the one that copies the argument of \<^verbatim>\<open>-f\<close>; whatever else is on the
  command line behind it, the daemon dereferences a null pointer.
\<close>

lemma option_l_crashes:
  "\<exists>w'. achd_main under_achcop (''-l'' # args) on_tty fork1 fork2 arrived es ps w = Crash Unmapped w'"
proof -
  obtain ocs ws where r: "getopt_all achd_optstring args = (ocs, ws)" by force
  have "getopt_all achd_optstring (''-l'' # args) = ((CHR ''l'', None) # ocs, ws)"
    using r by (simp add: achd_optstring_def is_option_def)
  then show ?thesis
    by (simp add: achd_main_def achd_option_def opt_l_def opt_f_def strdup_def)
qed

end
