(* ===== verification/Achd_Forward.thy ===== *)
theory Achd_Forward
  imports Achd_Main
begin

text \<open>
  What the TCP handlers achieve: the bytes a pushing daemon writes for the frames it takes from its
  channel, and the frames a pulling daemon puts into its channel for such bytes.
\<close>

section \<open>Frames on the wire\<close>

text \<open>
  A machine on which memory can be had and the over-long shifts of \<^verbatim>\<open>ach_pipe_get_size\<close>
  turn zero into zero, and a frame buffer as large as the code thinks.
\<close>

definition good_machine :: "world \<Rightarrow> bool" where
  "good_machine w \<longleftrightarrow> (\<forall>k. w_shift w 0 k = 0) \<and> (\<forall>n. \<exists>bs. w_heap w n = Some bs \<and> n \<le> length bs)"

definition frame_ok :: "achd_conn \<Rightarrow> bool" where
  "frame_ok conn \<longleftrightarrow> length (pf_magic (pipeframe conn)) = 8 \<and>
     length (size_bytes (pipeframe conn)) = 8 \<and> length (pf_data (pipeframe conn)) = pipeframe_size conn"

lemma alloc_frame_good:
  assumes "good_machine w" "n < 2 ^ 32"
  shows "\<exists>frame. alloc_frame n w = Cont frame w \<and> pf_magic frame = pipe_magic \<and>
           size_bytes frame = size_field n \<and> length (pf_data frame) = n"
  using alloc_buffer [of "w_heap w" n] assms by (auto simp: good_machine_def alloc_frame_def act_of_def)

section \<open>Receiving a frame\<close>

lemma same_but_input_fields:
  assumes "same_but_input fd w w'"
  shows "w_cx w' = w_cx w" "w_shift w' = w_shift w" "w_heap w' = w_heap w" "w_dials w' = w_dials w"
    "block_at (w_os w') k = block_at (w_os w) k" "good_machine w' = good_machine w"
  using assms by (auto simp: same_but_input_def set_fd_def set_errno_def block_at_def good_machine_def)

lemma over_header_full:
  assumes "length got = 16" "frame_ok conn"
  shows "over_header got (pipeframe conn) =
         (pipeframe conn)\<lparr>pf_magic := take 8 got, size_bytes := drop 8 got\<rparr>"
  using assms by (simp add: over_header_def frame_ok_def)

lemma fit_frame_good:
  assumes "good_machine w" "frame_ok conn" "size_bytes (pipeframe conn) = size_field n" "n < 2 ^ 32"
  shows "\<exists>conn'. fit_frame (of_nat n) conn w = Cont conn' w \<and> frame_ok conn' \<and>
           conn_in conn' = conn_in conn \<and> size_bytes (pipeframe conn') = size_field n \<and>
           n \<le> length (pf_data (pipeframe conn'))"
proof -
  have n: "unat (of_nat n :: uint64) = n" using assms(4) by (simp add: unsigned_of_nat take_bit_nat_eq_self)
  show ?thesis
  proof (cases "n > pipeframe_size conn")
    case True
    obtain frame where "alloc_frame n w = Cont frame w" "pf_magic frame = pipe_magic"
      "length (pf_data frame) = n"
      using alloc_frame_good [OF assms(1,4)] by blast
    with True n show ?thesis by (simp add: fit_frame_def frame_ok_def set_size_field)
  next
    case False
    with assms(2,3) n show ?thesis by (simp add: fit_frame_def frame_ok_def)
  qed
qed

lemma recv_once_calm:
  assumes ok: "frame_ok conn" "good_machine w" "length m < 2 ^ 32"
    and st: "in_state (conn_in conn) w (pipe_bytes m @ rest)"
  shows "\<exists>conn' w'. recv_once conn w = Cont (True, conn') w' \<and> frame_ok conn' \<and>
           conn_in conn' = conn_in conn \<and> frame_size_of conn' w' = of_nat (length m) \<and>
           length m \<le> length (pf_data (pipeframe conn')) \<and>
           take (length m) (pf_data (pipeframe conn')) = m \<and>
           in_state (conn_in conn) w' rest \<and> same_but_input (conn_in conn) w w'"
proof -
  let ?fd = "conn_in conn" and ?n = "length m"
  let ?head = "pipe_magic @ size_field ?n"
  have n: "unat (of_nat ?n :: uint64) = ?n" using ok(3) by (simp add: unsigned_of_nat take_bit_nat_eq_self)
  obtain w1 where r1: "achd_read ?fd 16 w = (?head, w1)" "in_state ?fd w1 (m @ rest)"
    "same_but_input ?fd w w1"
    using achd_read_calm [OF st, of 16] by (auto simp: pipe_bytes_def)
  note f1 = same_but_input_fields [OF r1(3)]
  let ?c1 = "conn\<lparr>pipeframe := (pipeframe conn)\<lparr>pf_magic := pipe_magic, size_bytes := size_field ?n\<rparr>\<rparr>"
  have oh: "over_header ?head (pipeframe conn) =
      (pipeframe conn)\<lparr>pf_magic := pipe_magic, size_bytes := size_field ?n\<rparr>"
    using over_header_full [OF _ ok(1), of ?head] by simp
  have c1: "frame_ok ?c1" using ok(1) by (simp add: frame_ok_def)
  have sz: "frame_size_of ?c1 w1 = of_nat ?n"
    using get_size_field [of "w_shift w1" ?n] ok(2,3) f1(2) by (simp add: frame_size_of_def good_machine_def)
  obtain c2 where c2: "fit_frame (of_nat ?n) ?c1 w1 = Cont c2 w1" "frame_ok c2" "conn_in c2 = ?fd"
    "size_bytes (pipeframe c2) = size_field ?n" "?n \<le> length (pf_data (pipeframe c2))"
    using fit_frame_good [of w1 ?c1 ?n] c1 ok(2,3) f1(6) by auto
  obtain w2 where r2: "achd_read ?fd ?n w1 = (m, w2)" "in_state ?fd w2 rest" "same_but_input ?fd w1 w2"
    using achd_read_calm [OF r1(2), of ?n] by auto
  note f2 = same_but_input_fields [OF r2(3)]
  let ?c3 = "c2\<lparr>pipeframe := over_data m (pipeframe c2)\<rparr>"
  have "recv_once conn w = Cont (True, ?c3) w2"
    using c2 r2(1) n by (simp add: recv_once_def r1(1) oh sz Let_def not_less) (simp add: pipe_magic_def)
  moreover have "frame_ok ?c3" using c2(2,5) by (simp add: frame_ok_def over_data_def)
  moreover have "frame_size_of ?c3 w2 = of_nat ?n"
    using get_size_field [of "w_shift w2" ?n] ok(2,3) f1(2) f2(2) c2(4)
    by (simp add: frame_size_of_def good_machine_def over_data_def)
  ultimately show ?thesis
    using c2(3,5) r2(2) same_but_input_trans [OF r1(3) r2(3)] by (auto simp: over_data_def)
qed

section \<open>Putting frames into the channel\<close>

definition chan_open :: "world \<Rightarrow> nat \<Rightarrow> ach_header_t \<Rightarrow> bool" where
  "chan_open w k shm \<longleftrightarrow> ch_shm (cx_channel (w_cx w)) = Some k \<and> block_at (w_os w) k = Some shm"

lemma put_frame_good:
  assumes "\<not> stopping w" "chan_open w k shm" "at_rest shm" "lseq shm + 1 < 2 ^ 64"
    and "m \<noteq> []" "length m \<le> dsize shm" "frame_size_of conn w = of_nat (length m)"
    and "length m \<le> length (pf_data (pipeframe conn))" "take (length m) (pf_data (pipeframe conn)) = m"
    and "length m < 2 ^ 32"
  shows "\<exists>shm'. put_frame conn w = Cont () (w\<lparr>w_os := set_block k shm' (w_os w)\<rparr>) \<and> at_rest shm' \<and>
           frames shm' = keep (icnt shm) (dsize shm) (frames shm @ [(lseq shm + 1, m)]) \<and>
           icnt shm' = icnt shm \<and> dsize shm' = dsize shm \<and> lseq shm' = lseq shm + 1"
proof -
  have n: "unat (of_nat (length m) :: size_t) = length m"
    using assms(10) by (simp add: unsigned_of_nat take_bit_nat_eq_self)
  obtain shm' where p: "ach_put 0 (cx_channel (w_cx w)) shm (Some (pf_data (pipeframe conn)))
        (of_nat (length m)) = Ret (ACH_OK, shm')" "at_rest shm'"
      "frames shm' = keep (icnt shm) (dsize shm) (frames shm @ [(lseq shm + 1, m)])"
      "index_cnt shm' = index_cnt shm" "data_size shm' = data_size shm" "lseq shm' = lseq shm + 1"
    using ach_put_keep [of shm "of_nat (length m)" "pf_data (pipeframe conn)" "cx_channel (w_cx w)" 0]
      assms n by (auto simp: chan_open_def)
  have "put_frame conn w = Cont () (w\<lparr>w_os := set_block k shm' (w_os w)\<rparr>)"
    using assms(1,2,7) p(1)
    by (simp add: put_frame_def with_channel_def chan_open_def act_of_def check_status_def set_cx_def)
  with p show ?thesis by auto
qed

lemma in_state_os [simp]: "in_state fd (w\<lparr>w_os := os\<rparr>) bs = in_state fd w bs"
  by (simp add: in_state_def stopping_def)

lemma recv_once_end:
  assumes "in_state (conn_in conn) w []"
  shows "\<exists>conn' w'. recv_once conn w = Cont (False, conn') w' \<and> same_but_input (conn_in conn) w w'"
  using achd_read_calm [OF assms, of 16] by (auto simp: recv_once_def)

text \<open>A pulling daemon is a sink: its state is the connection and the world.\<close>

definition pulling :: "nat \<Rightarrow> achd_conn \<times> world \<Rightarrow> ach_header_t \<Rightarrow> bool" where
  "pulling k s shm \<longleftrightarrow>
     \<not> cx_reconnect (w_cx (snd s)) \<and> frame_ok (fst s) \<and> good_machine (snd s) \<and>
     chan_open (snd s) k shm \<and> at_rest shm"

definition pulled :: "nat \<Rightarrow> unit act \<Rightarrow> ach_header_t \<Rightarrow> bool" where
  "pulled k r shm \<longleftrightarrow> (\<exists>w'. r = Cont () w' \<and> chan_open w' k shm \<and> at_rest shm)"

lemma pull_end:
  assumes "pulling k (conn, w) shm" "in_state (conn_in conn) w []"
  shows "pulled k (achd_pull_tcp conn w) shm"
proof -
  obtain conn' w' where r: "recv_once conn w = Cont (False, conn') w'" "same_but_input (conn_in conn) w w'"
    using recv_once_end [OF assms(2)] by blast
  note f = same_but_input_fields [OF r(2)]
  have "recv_loop conn w = Cont (False, conn') w'"
    using r(1) f(1) assms(1) by (subst recv_loop.simps) (simp add: pulling_def)
  then have "achd_pull_tcp conn w = Cont () w'"
    using assms(2) by (subst achd_pull_tcp.simps) (simp add: in_state_def)
  then show ?thesis using assms(1) f by (simp add: pulling_def pulled_def chan_open_def)
qed

lemma pull_frame:
  assumes "pulling k (conn, w) shm" "message_ok (dsize shm) m" "lseq shm + 1 < 2 ^ 64"
    and "in_state (conn_in conn) w (pipe_bytes m @ rest)"
  shows "\<exists>conn' w' shm'. achd_pull_tcp conn w = achd_pull_tcp conn' w' \<and> pulling k (conn', w') shm' \<and>
           in_state (conn_in conn') w' rest \<and>
           frames shm' = keep (icnt shm) (dsize shm) (frames shm @ [(lseq shm + 1, m)]) \<and>
           icnt shm' = icnt shm \<and> dsize shm' = dsize shm \<and> lseq shm' = lseq shm + 1"
proof -
  have a: "\<not> cx_reconnect (w_cx w)" "frame_ok conn" "good_machine w" "chan_open w k shm" "at_rest shm"
    and m: "m \<noteq> []" "length m \<le> dsize shm" "length m < 2 ^ 32"
    using assms(1,2) by (simp_all add: pulling_def message_ok_def)
  obtain c1 w1 where r: "recv_once conn w = Cont (True, c1) w1" "frame_ok c1" "conn_in c1 = conn_in conn"
    "frame_size_of c1 w1 = of_nat (length m)" "length m \<le> length (pf_data (pipeframe c1))"
    "take (length m) (pf_data (pipeframe c1)) = m" "in_state (conn_in conn) w1 rest"
    "same_but_input (conn_in conn) w w1"
    using recv_once_calm [OF a(2,3) m(3) assms(4)] by blast
  note f = same_but_input_fields [OF r(8)]
  have st: "\<not> stopping w" "\<not> stopping w1" using assms(4) r(7) by (auto simp: in_state_def)
  obtain shm1 where p: "put_frame c1 w1 = Cont () (w1\<lparr>w_os := set_block k shm1 (w_os w1)\<rparr>)" "at_rest shm1"
    "frames shm1 = keep (icnt shm) (dsize shm) (frames shm @ [(lseq shm + 1, m)])"
    "icnt shm1 = icnt shm" "dsize shm1 = dsize shm" "lseq shm1 = lseq shm + 1"
    using put_frame_good [of w1 k shm m c1] st r f a(4,5) m assms(3) by (auto simp: chan_open_def)
  let ?w2 = "w1\<lparr>w_os := set_block k shm1 (w_os w1)\<rparr>"
  have "recv_loop conn w = Cont (True, c1) w1" using r(1) by (subst recv_loop.simps) simp
  then have "achd_pull_tcp conn w = achd_pull_tcp c1 ?w2"
    using st p(1) by (subst achd_pull_tcp.simps) simp
  moreover have "pulling k (c1, ?w2) shm1"
    using a f r(2) p(2) block_at_set_block [of "w_os w1" k shm]
    by (simp add: pulling_def chan_open_def good_machine_def)
  ultimately show ?thesis using r(3,7) p(3-6) by (intro exI [of _ c1] exI [of _ ?w2] exI [of _ shm1]) simp
qed

definition pull_from :: "achd_conn \<times> world \<Rightarrow> unit act" where
  "pull_from s = achd_pull_tcp (fst s) (snd s)"

definition pull_input :: "achd_conn \<times> world \<Rightarrow> byte list \<Rightarrow> bool" where
  "pull_input s bs \<longleftrightarrow> in_state (conn_in (fst s)) (snd s) bs"

interpretation puller: frame_sink pipe_bytes message_ok pull_from "pulling k" pull_input "pulled k" for k
proof unfold_locales
  fix s :: "achd_conn \<times> world" and shm m rest
  obtain conn w where s: "s = (conn, w)" by (cases s)
  show "pulling k s shm \<Longrightarrow> at_rest shm" by (simp add: pulling_def)
  show "pulling k s shm \<Longrightarrow> pull_input s [] \<Longrightarrow> pulled k (pull_from s) shm"
    by (simp add: s pull_input_def pull_from_def pull_end)
  assume "pulling k s shm" "message_ok (dsize shm) m" "lseq shm + 1 < 2 ^ 64" "pull_input s (pipe_bytes m @ rest)"
  from pull_frame [OF this(1) [unfolded s] this(2,3), of rest] this(4)
  show "\<exists>s' shm'. pull_from s = pull_from s' \<and> pulling k s' shm' \<and> pull_input s' rest \<and>
      frames shm' = keep (icnt shm) (dsize shm) (frames shm @ [(lseq shm + 1, m)]) \<and>
      icnt shm' = icnt shm \<and> dsize shm' = dsize shm \<and> lseq shm' = lseq shm + 1"
    by (fastforce simp: s pull_input_def pull_from_def)
qed

section \<open>Taking frames from the channel\<close>

definition plain_env :: "ach_header_t \<Rightarrow> get_env" where
  "plain_env shm = \<lparr>env_block = shm, env_wakes = [], env_signal = False\<rparr>"

definition pushing :: "achd_conn \<Rightarrow> bool" where
  "pushing conn \<longleftrightarrow> frame_ok conn \<and> pf_magic (pipeframe conn) = pipe_magic \<and>
     pipeframe_size conn < 2 ^ 32 \<and>
     h_period_ns (send_hdr conn) = 0 \<and> h_period_ns (recv_hdr conn) = 0 \<and>
     \<not> h_get_last (send_hdr conn) \<and> \<not> h_get_last (recv_hdr conn)"

lemma w_clock_gettime:
  "\<exists>t ts. clock_gettime w = (t, w\<lparr>w_clock := ts\<rparr>)"
  by (cases "w_clock w") (auto simp: clock_gettime_def intro: exI [of _ "[]"])

lemma get_once_done:
  assumes "ch_shm (cx_channel (w_cx w)) = Some k" "\<not> env_signal e"
    and "ach_get 0 (cx_channel (w_cx w)) (env_block e) (pf_data (pipeframe conn))
           (of_nat (pipeframe_size conn)) 0 None ACH_O_WAIT (env_wakes e) = Ret g"
    and "g_status g = ACH_OK \<or> g_status g = ACH_MISSED_FRAME"
    and "clock_gettime (set_cx (\<lambda>cx. cx\<lparr>cx_channel := g_chan g\<rparr>)
           (w\<lparr>w_os := set_block k (g_shm g) (w_os w)\<rparr>)) = (t, w')"
  shows "get_once False conn e w = Cont (True, conn\<lparr>pipeframe := ach_pipe_set_size
           ((pipeframe conn)\<lparr>pf_data := g_buf g\<rparr>) (g_frame_size g), conn_ts_last := t\<rparr>) w'"
proof -
  have "g_status g \<noteq> ACH_OVERFLOW" using assms(4) by auto
  with assms show ?thesis by (simp add: get_once_def act_of_def Let_def)
qed

lemma get_frame_good:
  assumes ok: "pushing conn" "\<not> stopping w" "ch_shm (cx_channel (w_cx w)) = Some k"
    "\<not> ch_cancel (cx_channel (w_cx w))"
    and feed: "feeds (pipeframe_size conn) (cx_channel (w_cx w)) (shm # shms) (m # ms)"
  shows "\<exists>conn' ts. get_frame conn (plain_env shm # es) w = Cont (conn', es)
           (set_cx (\<lambda>cx. cx\<lparr>cx_channel := advance (cx_channel (w_cx w)) shm\<rparr>)
             (w\<lparr>w_os := set_block k shm (w_os w), w_clock := ts\<rparr>)) \<and> pushing conn' \<and>
           conn_out conn' = conn_out conn \<and> pipeframe_size conn' = pipeframe_size conn \<and>
           size_bytes (pipeframe conn') = size_field (length m) \<and>
           length m \<le> length (pf_data (pipeframe conn')) \<and>
           take (length m) (pf_data (pipeframe conn')) = m"
proof -
  let ?chan = "cx_channel (w_cx w)" and ?n = "pipeframe_size conn"
  let ?buf = "pf_data (pipeframe conn)"
  have f: "length m \<le> ?n" using feed by simp
  have buf: "length ?buf = ?n" "?n < 2 ^ 32" using ok(1) by (simp_all add: pushing_def frame_ok_def)
  obtain st where get: "ach_get 0 ?chan shm ?buf (of_nat ?n) 0 None ACH_O_WAIT [] =
      Ret \<lparr>g_status = st, g_chan = advance ?chan shm, g_shm = shm, g_buf = m @ drop (length m) ?buf,
           g_frame_size = of_nat (length m)\<rparr>" "st = ACH_OK \<or> st = ACH_MISSED_FRAME"
    using get_next [OF feed ok(4) _ buf(2), of ?buf] buf(1) by auto
  let ?g = "\<lparr>g_status = st, g_chan = advance ?chan shm, g_shm = shm, g_buf = m @ drop (length m) ?buf,
      g_frame_size = of_nat (length m)\<rparr>"
  let ?w1 = "set_cx (\<lambda>cx. cx\<lparr>cx_channel := advance ?chan shm\<rparr>) (w\<lparr>w_os := set_block k shm (w_os w)\<rparr>)"
  obtain t ts where c: "clock_gettime ?w1 = (t, ?w1\<lparr>w_clock := ts\<rparr>)" using w_clock_gettime by blast
  let ?c = "conn\<lparr>pipeframe := (pipeframe conn)\<lparr>pf_data := m @ drop (length m) ?buf,
      size_bytes := size_field (length m)\<rparr>, conn_ts_last := t\<rparr>"
  have "get_once False conn (plain_env shm) w = Cont (True, ?c) (?w1\<lparr>w_clock := ts\<rparr>)"
    using get_once_done [of w k "plain_env shm" conn ?g t "?w1\<lparr>w_clock := ts\<rparr>"] get ok(3) c
    by (simp add: plain_env_def set_size_field)
  then have "get_frame conn (plain_env shm # es) w = Cont (?c, es) (?w1\<lparr>w_clock := ts\<rparr>)"
    using ok(1) by (simp add: get_frame_def pushing_def)
  moreover have "?w1\<lparr>w_clock := ts\<rparr> = set_cx (\<lambda>cx. cx\<lparr>cx_channel := advance ?chan shm\<rparr>)
      (w\<lparr>w_os := set_block k shm (w_os w), w_clock := ts\<rparr>)" by (simp add: set_cx_def)
  moreover have "pushing ?c" using ok(1) f by (simp add: pushing_def frame_ok_def)
  ultimately show ?thesis using f buf(1) by auto
qed

lemma send_frame_good:
  assumes "pushing conn" "good_machine w" "\<not> stopping w" "calm_out (io_out (w_fds w (conn_out conn)))"
    and "size_bytes (pipeframe conn) = size_field (length m)" "length m \<le> length (pf_data (pipeframe conn))"
    and "take (length m) (pf_data (pipeframe conn)) = m"
  shows "\<exists>evs. send_loop conn w = Cont (False, conn) (set_fd (conn_out conn)
           (\<lambda>f. f\<lparr>io_out := evs, io_sent := io_sent (w_fds w (conn_out conn)) @ pipe_bytes m\<rparr>) w) \<and> calm_out evs"
proof -
  let ?n = "length m"
  have lt: "?n < 2 ^ 32" using assms(1,6) by (simp add: pushing_def frame_ok_def)
  have "frame_size_of conn w = of_nat ?n"
    using get_size_field [of "w_shift w" ?n] assms(2,5) lt by (simp add: frame_size_of_def good_machine_def)
  moreover have "unat (of_nat ?n :: uint64) = ?n" using lt by (simp add: unsigned_of_nat take_bit_nat_eq_self)
  moreover have "take (16 + ?n) (frame_bytes (pipeframe conn)) = pipe_bytes m"
    using assms(1,5,7) by (simp add: frame_bytes_def pipe_bytes_def pushing_def)
  moreover have "\<not> length (frame_bytes (pipeframe conn)) < 16 + ?n"
    using assms(1,5,6) by (simp add: frame_bytes_def pushing_def)
  moreover have "length (pipe_bytes m) = 16 + ?n" by (simp add: pipe_bytes_def)
  ultimately show ?thesis
    using achd_write_calm [OF assms(4,3), of "pipe_bytes m"]
    by (subst send_loop.simps) (auto simp: Let_def)
qed

text \<open>A pushing daemon is a source: its state is the connection and the world.\<close>

definition push_ready :: "nat \<Rightarrow> int \<Rightarrow> nat \<Rightarrow> achd_conn \<times> world \<Rightarrow> bool" where
  "push_ready k out n s \<longleftrightarrow>
     (case s of (conn, w) \<Rightarrow> pushing conn \<and> pipeframe_size conn = n \<and> conn_out conn = out \<and> good_machine w \<and>
        \<not> stopping w \<and> ch_shm (cx_channel (w_cx w)) = Some k \<and> \<not> ch_cancel (cx_channel (w_cx w)) \<and>
        calm_out (io_out (w_fds w out)))"

definition push_from :: "ach_header_t list \<Rightarrow> achd_conn \<times> world \<Rightarrow> unit act" where
  "push_from shms s = achd_push_tcp (map plain_env shms) (fst s) (snd s)"

definition pushed :: "int \<Rightarrow> unit act \<Rightarrow> byte list \<Rightarrow> bool" where
  "pushed out r bs \<longleftrightarrow> (\<exists>w'. r = Hang w' \<and> io_sent (w_fds w' out) = bs)"

lemma push_wait:
  assumes "push_ready k out n (conn, w)"
  shows "pushed out (push_from [] (conn, w)) (io_sent (w_fds w out))"
proof -
  have "achd_push_tcp [] conn w = Hang w"
    using assms by (subst achd_push_tcp.simps) (simp add: push_ready_def get_frame_def pushing_def)
  then show ?thesis by (simp add: pushed_def push_from_def)
qed

lemma push_frame:
  assumes "push_ready k out n (conn, w)" "feeds n (cx_channel (w_cx w)) (shm # shms) (m # ms)"
  shows "\<exists>conn' w'. achd_push_tcp (map plain_env (shm # shms)) conn w =
           achd_push_tcp (map plain_env shms) conn' w' \<and> push_ready k out n (conn', w') \<and>
           cx_channel (w_cx w') = advance (cx_channel (w_cx w)) shm \<and>
           io_sent (w_fds w' out) = io_sent (w_fds w out) @ pipe_bytes m"
proof -
  have a: "pushing conn" "\<not> stopping w" "ch_shm (cx_channel (w_cx w)) = Some k" "\<not> ch_cancel (cx_channel (w_cx w))"
    "good_machine w" "calm_out (io_out (w_fds w (conn_out conn)))" "pipeframe_size conn = n" "conn_out conn = out"
    using assms(1) by (simp_all add: push_ready_def)
  obtain c1 ts where g: "get_frame conn (plain_env shm # map plain_env shms) w = Cont (c1, map plain_env shms)
       (set_cx (\<lambda>cx. cx\<lparr>cx_channel := advance (cx_channel (w_cx w)) shm\<rparr>)
         (w\<lparr>w_os := set_block k shm (w_os w), w_clock := ts\<rparr>))"
    and c1: "pushing c1" "conn_out c1 = conn_out conn" "pipeframe_size c1 = pipeframe_size conn"
      "size_bytes (pipeframe c1) = size_field (length m)" "length m \<le> length (pf_data (pipeframe c1))"
      "take (length m) (pf_data (pipeframe c1)) = m"
    using get_frame_good [OF a(1-4) assms(2) [folded a(7)], of "map plain_env shms"] by blast
  let ?w1 = "set_cx (\<lambda>cx. cx\<lparr>cx_channel := advance (cx_channel (w_cx w)) shm\<rparr>)
       (w\<lparr>w_os := set_block k shm (w_os w), w_clock := ts\<rparr>)"
  have w1: "good_machine ?w1" "\<not> stopping ?w1" "w_fds ?w1 = w_fds w"
    "cx_channel (w_cx ?w1) = advance (cx_channel (w_cx w)) shm"
    using a(2,5) by (simp_all add: set_cx_def good_machine_def stopping_def)
  obtain evs where s: "send_loop c1 ?w1 = Cont (False, c1) (set_fd (conn_out conn)
      (\<lambda>f. f\<lparr>io_out := evs, io_sent := io_sent (w_fds w (conn_out conn)) @ pipe_bytes m\<rparr>) ?w1)" "calm_out evs"
    using send_frame_good [OF c1(1) w1(1,2) _ c1(4-6)] c1(2) w1(3) a(6) by auto
  let ?w2 = "set_fd (conn_out conn)
      (\<lambda>f. f\<lparr>io_out := evs, io_sent := io_sent (w_fds w (conn_out conn)) @ pipe_bytes m\<rparr>) ?w1"
  have w2: "good_machine ?w2" "\<not> stopping ?w2" "cx_channel (w_cx ?w2) = advance (cx_channel (w_cx w)) shm"
    "io_out (w_fds ?w2 (conn_out conn)) = evs"
    "io_sent (w_fds ?w2 (conn_out conn)) = io_sent (w_fds w (conn_out conn)) @ pipe_bytes m"
    using w1 by (simp_all add: set_fd_def good_machine_def stopping_def)
  have "achd_push_tcp (map plain_env (shm # shms)) conn w = achd_push_tcp (map plain_env shms) c1 ?w2"
    using a(2) g s(1) w1(2) by (subst achd_push_tcp.simps) simp
  moreover have "push_ready k out n (c1, ?w2)"
    using c1(1-3) w2 s(2) a(3,4,7,8) by (simp add: push_ready_def advance_def Let_def)
  ultimately show ?thesis using w2(3,5) a(8) by (intro exI [of _ c1] exI [of _ ?w2]) simp
qed

interpretation pusher: frame_source pipe_bytes push_from "push_ready k out" "\<lambda>s. cx_channel (w_cx (snd s))"
  "\<lambda>s. io_sent (w_fds (snd s) out)" "pushed out" for k out
proof unfold_locales
  fix n and s :: "achd_conn \<times> world" and shm shms m ms
  obtain conn w where s: "s = (conn, w)" by (cases s)
  show "push_ready k out n s \<Longrightarrow> pushed out (push_from [] s) (io_sent (w_fds (snd s) out))"
    by (simp add: s push_wait)
  assume "push_ready k out n s" "feeds n (cx_channel (w_cx (snd s))) (shm # shms) (m # ms)"
  then show "\<exists>s'. push_from (shm # shms) s = push_from shms s' \<and> push_ready k out n s' \<and>
      cx_channel (w_cx (snd s')) = advance (cx_channel (w_cx (snd s))) shm \<and>
      io_sent (w_fds (snd s') out) = io_sent (w_fds (snd s) out) @ pipe_bytes m"
    using push_frame [of k out n conn w shm shms m ms] by (fastforce simp: s push_from_def)
qed

section \<open>Datagrams\<close>

definition readable :: "bool \<times> poll_result" where
  "readable = (False, Poll_ready True False False)"

lemma udp_wait_ready:
  "\<not> stopping w \<Longrightarrow> udp_wait msg (readable # ps) conn addr w = Cont (True, ps, conn, addr) (set_errno EOK w)"
  by (subst udp_wait.simps) (simp add: udp_poll_def readable_def)

lemma pull_udp_correct:
  assumes "\<not> stopping w" "frame_ok conn" "good_machine w" "chan_open w k shm" "at_rest shm"
    and "w_recvs w = map (\<lambda>d. (False, Inr d)) ds" "pipeframe_size conn < 2 ^ 32"
    and "\<forall>d\<in>set ds. dg_from d = addr \<longrightarrow>
           dg_data d \<noteq> [] \<and> length (dg_data d) \<le> pipeframe_size conn \<and> length (dg_data d) \<le> dsize shm"
    and "lseq shm + length ds < 2 ^ 64"
  shows "\<exists>w' shm'. pull_udp_loop (replicate (length ds) readable) conn addr w = Hang w' \<and>
           chan_open w' k shm' \<and> at_rest shm' \<and>
           frames shm' = keep (icnt shm) (dsize shm)
             (frames shm @ number (lseq shm) (map dg_data (filter (\<lambda>d. dg_from d = addr) ds)))"
  using assms
proof (induction ds arbitrary: conn w shm)
  case Nil
  have "ring_inv shm" using Nil(5) by (simp add: at_rest_def shm_inv_def)
  moreover have "pull_udp_loop [] conn addr w = Hang (set_errno EOK w)"
    using Nil(1) by (subst pull_udp_loop.simps, subst udp_wait.simps) (simp add: udp_poll_def)
  ultimately show ?case using Nil(4,5)
    by (auto simp: chan_open_def set_errno_def block_at_def keep_id frames_fits)
next
  case (Cons d ds)
  let ?w1 = "(set_errno EOK w)\<lparr>w_recvs := map (\<lambda>d. (False, Inr d)) ds\<rparr>"
  let ?bytes = "take (pipeframe_size conn) (dg_data d)"
  let ?c = "conn\<lparr>pipeframe := over_data ?bytes (pipeframe conn)\<rparr>"
  have w1: "\<not> stopping ?w1" "good_machine ?w1" "chan_open ?w1 k shm"
    using Cons.prems(1,3,4) by (simp_all add: stopping_def set_errno_def good_machine_def chan_open_def block_at_def)
  have c: "frame_ok ?c" using Cons.prems(2) by (simp add: frame_ok_def over_data_def)
  have rec: "recvfrom_loop (w_recvs (set_errno EOK w)) (set_errno EOK w) =
      (Some (Inr d), map (\<lambda>d. (False, Inr d)) ds, set_errno EOK w)"
    using Cons.prems(6) by (simp add: set_errno_def)
  note unfold = pull_udp_loop.simps [of "readable # _" conn addr w]
  show ?case
  proof (cases "dg_from d = addr")
    case False
    have "pull_udp_loop (replicate (length (d # ds)) readable) conn addr w =
        pull_udp_loop (replicate (length ds) readable) ?c addr (w_log LOG_WARNING ''Stray packet'' ?w1)"
      using Cons.prems(1) False w1(1)
      by (simp add: unfold udp_wait_ready rec received_def Let_def)
    moreover have "\<exists>w' shm'. pull_udp_loop (replicate (length ds) readable) ?c addr
          (w_log LOG_WARNING ''Stray packet'' ?w1) = Hang w' \<and> chan_open w' k shm' \<and> at_rest shm' \<and>
        frames shm' = keep (icnt shm) (dsize shm)
          (frames shm @ number (lseq shm) (map dg_data (filter (\<lambda>d. dg_from d = addr) ds)))"
      using Cons.prems(5-9) w1 c
      by (intro Cons.IH) (auto simp: w_log_def stopping_def good_machine_def chan_open_def)
    ultimately show ?thesis using False by simp
  next
    case True
    with Cons.prems(8) have d: "dg_data d \<noteq> []" "length (dg_data d) \<le> pipeframe_size conn"
      "length (dg_data d) \<le> dsize shm" "?bytes = dg_data d" by auto
    let ?n = "length (dg_data d)"
    let ?c2 = "?c\<lparr>pipeframe := ach_pipe_set_size (pipeframe ?c) (of_nat ?n)\<rparr>"
    have sz: "frame_size_of ?c2 ?w1 = of_nat ?n"
      using get_size_field [of "w_shift ?w1" ?n] w1(2) Cons.prems(7) d(2)
      by (simp add: frame_size_of_def good_machine_def set_size_field)
    obtain shm1 where p: "put_frame ?c2 ?w1 = Cont () (?w1\<lparr>w_os := set_block k shm1 (w_os ?w1)\<rparr>)"
      "at_rest shm1" "frames shm1 = keep (icnt shm) (dsize shm) (frames shm @ [(lseq shm + 1, dg_data d)])"
      "icnt shm1 = icnt shm" "dsize shm1 = dsize shm" "lseq shm1 = lseq shm + 1"
      using put_frame_good [OF w1(1,3) Cons.prems(5) _ d(1,3) sz] Cons.prems(2,7,9) d
      by (auto simp: set_size_field over_data_def frame_ok_def)
    let ?w2 = "?w1\<lparr>w_os := set_block k shm1 (w_os ?w1)\<rparr>"
    have step: "pull_udp_loop (replicate (length (d # ds)) readable) conn addr w =
        pull_udp_loop (replicate (length ds) readable) ?c2 addr ?w2"
      using Cons.prems(1) True w1(1) p(1) d(4)
      by (simp add: unfold udp_wait_ready rec received_def Let_def)
    have "chan_open ?w2 k shm1"
      using w1(3) block_at_set_block [of "w_os ?w1" k shm] by (simp add: chan_open_def)
    then have "\<exists>w' shm'. pull_udp_loop (replicate (length ds) readable) ?c2 addr ?w2 = Hang w' \<and>
        chan_open w' k shm' \<and> at_rest shm' \<and> frames shm' = keep (icnt shm1) (dsize shm1)
          (frames shm1 @ number (lseq shm1) (map dg_data (filter (\<lambda>d. dg_from d = addr) ds)))"
      using Cons.prems(6-9) w1 c p(2,5,6)
      by (intro Cons.IH) (auto simp: stopping_def good_machine_def frame_ok_def set_size_field)
    with step True p show ?thesis by (simp add: keep_append)
  qed
qed

text \<open>A daemon with an open, empty channel of two frames and eight bytes.\<close>

definition demo_world :: world where
  "demo_world = a_world\<lparr>
     w_os := empty_os\<lparr>os_objects := (\<lambda>k. if k = 0
       then Some \<lparr>o_len = 400, o_block = fresh_block ''a'' 2 4, o_mode = 0\<rparr> else None)\<rparr>,
     w_cx := an_achd_cx\<lparr>cx_channel := fresh_handle 0 400 3 ach_attr_init\<rparr>,
     w_peer := Inr (9, 0)\<rparr>"

definition demo_conn :: achd_conn where
  "demo_conn = (zero_conn (hd handlers))\<lparr>conn_in := 4, conn_out := 4, conn_udp := Some (0, 0),
     pipeframe_size := 8,
     pipeframe := \<lparr>pf_magic = pipe_magic, size_bytes = replicate 8 0, pf_data = replicate 8 0\<rparr>\<rparr>"

lemma demo_facts:
  "\<not> stopping demo_world" "\<not> cx_reconnect (w_cx demo_world)" "frame_ok demo_conn" "pushing demo_conn"
  "good_machine demo_world" "chan_open demo_world 0 (fresh_block ''a'' 2 4)"
  "at_rest (fresh_block ''a'' 2 4)" "frames (fresh_block ''a'' 2 4) = []" "icnt (fresh_block ''a'' 2 4) = 2"
  "dsize (fresh_block ''a'' 2 4) = 8" "lseq (fresh_block ''a'' 2 4) = 0"
  using fresh_block_at_rest [of 2 4 "''a''"]
  by (simp_all add: demo_world_def demo_conn_def a_world_def an_achd_cx_def stopping_def frame_ok_def
      pushing_def good_machine_def chan_open_def block_at_def fresh_handle_def zero_conn_def
      zero_headers_def sizes_ok_def)

section \<open>Properties\<close>

text \<open>
  C12. Pulled frames arrive.  A pulling daemon whose connection delivers a sequence of frames, in
  whatever pieces, and then ends, puts exactly these messages into its channel, in their order, and
  returns; the channel then holds the longest run of newest frames that fits.
\<close>

theorem pull_tcp_forwards:
  assumes "\<not> cx_reconnect (w_cx w)" "frame_ok conn" "good_machine w" "chan_open w k shm" "at_rest shm"
    and "\<forall>m\<in>set ms. m \<noteq> [] \<and> length m \<le> dsize shm \<and> length m < 2 ^ 32"
    and "lseq shm + length ms < 2 ^ 64" "in_state (conn_in conn) w (concat (map pipe_bytes ms))"
  shows "\<exists>w' shm'. achd_pull_tcp conn w = Cont () w' \<and> chan_open w' k shm' \<and> at_rest shm' \<and>
           frames shm' = keep (icnt shm) (dsize shm) (frames shm @ number (lseq shm) ms)"
proof -
  have "pulling k (conn, w) shm" "list_all (message_ok (dsize shm)) ms"
    using assms(1-6) by (simp_all add: pulling_def message_ok_def list_all_iff)
  then show ?thesis using puller.sink_all [of k "(conn, w)" shm ms] assms(7,8)
    by (auto simp: pull_input_def pull_from_def pulled_def)
qed

theorem pull_tcp_forwards_witness:
  "\<exists>w' shm'. achd_pull_tcp demo_conn (set_fd 4 (\<lambda>f. f\<lparr>io_in :=
       [(False, Rd_data (pipe_bytes [1, 2, 3] @ take 5 (pipe_bytes [7]))),
        (False, Rd_data (drop 5 (pipe_bytes [7])))]\<rparr>) demo_world) = Cont () w' \<and>
     chan_open w' 0 shm' \<and> frames shm' = [(1, [1, 2, 3]), (2, [7])]"
proof -
  let ?w = "set_fd 4 (\<lambda>f. f\<lparr>io_in := [(False, Rd_data (pipe_bytes [1, 2, 3] @ take 5 (pipe_bytes [7]))),
        (False, Rd_data (drop 5 (pipe_bytes [7])))]\<rparr>) demo_world"
  have "in_state (conn_in demo_conn) ?w (concat (map pipe_bytes [[1, 2, 3], [7]]))"
    using demo_facts(1) by (simp add: in_state_def demo_conn_def set_fd_def calm_def stopping_def)
       (simp add: pipe_bytes_def pipe_magic_def)
  note st = this
  have w: "\<not> cx_reconnect (w_cx ?w)" "good_machine ?w" "chan_open ?w 0 (fresh_block ''a'' 2 4)"
    using demo_facts by (simp_all add: set_fd_def good_machine_def chan_open_def)
  have ms: "\<forall>m\<in>set [[1, 2, 3], [7]]. m \<noteq> [] \<and> length m \<le> dsize (fresh_block ''a'' 2 4) \<and> length m < 2 ^ 32"
    "lseq (fresh_block ''a'' 2 4) + length [[1, 2, 3], [7 :: byte]] < 2 ^ 64"
    by (simp_all add: demo_facts)
  have "keep 2 8 ([] @ number 0 [[1, 2, 3], [7]]) = [(1, [1, 2, 3]), (2, [7])]"
    by (simp add: fits_def)
  with pull_tcp_forwards [OF w(1) demo_facts(3) w(2,3) demo_facts(7) ms st] show ?thesis
    by (metis demo_facts(8-11))
qed

text \<open>
  C13. Pushed frames leave.  A pushing daemon that finds, call after call, an unread frame in its
  channel writes for each the frame header and the message, in the order of the channel, and then
  waits for the next frame; the connection may take the bytes in any pieces.
\<close>

theorem push_tcp_sends:
  assumes "pushing conn" "good_machine w" "\<not> stopping w" "ch_shm (cx_channel (w_cx w)) = Some k"
    "\<not> ch_cancel (cx_channel (w_cx w))" "calm_out (io_out (w_fds w (conn_out conn)))"
    and "feeds (pipeframe_size conn) (cx_channel (w_cx w)) shms ms"
  shows "\<exists>w'. achd_push_tcp (map plain_env shms) conn w = Hang w' \<and>
           io_sent (w_fds w' (conn_out conn)) = io_sent (w_fds w (conn_out conn)) @ concat (map pipe_bytes ms)"
proof -
  have "push_ready k (conn_out conn) (pipeframe_size conn) (conn, w)"
    using assms(1-6) by (simp add: push_ready_def)
  then show ?thesis using pusher.source_all [of k "conn_out conn" "pipeframe_size conn" "(conn, w)" shms ms] assms(7)
    by (auto simp: push_from_def pushed_def)
qed

theorem push_tcp_sends_witness:
  "\<exists>w'. achd_push_tcp [plain_env written_block] demo_conn demo_world = Hang w' \<and>
        io_sent (w_fds w' 4) = pipe_bytes [1, 2, 3]"
proof -
  let ?chan = "cx_channel (w_cx demo_world)"
  have chan: "?chan = fresh_handle 0 400 3 ach_attr_init" by (simp add: demo_world_def)
  have out: "conn_out demo_conn = 4" "io_out (w_fds demo_world 4) = []" "io_sent (w_fds demo_world 4) = []"
    by (simp_all add: demo_conn_def demo_world_def a_world_def idle_fd_def)
  have "feeds (pipeframe_size demo_conn) ?chan [written_block] [[1, 2, 3]]"
    using written_block_at_rest fresh_handle_ok [of written_block 0 400 3 ach_attr_init]
    by (simp add: chan written_block_fields written_block_frames next_frame_def pick_frame_def demo_conn_def)
       (simp add: fresh_handle_def written_block_frames)
  then show ?thesis
    using push_tcp_sends [of demo_conn demo_world 0 "[written_block]" "[[1, 2, 3]]"] demo_facts out chan
    by (auto simp: calm_out_def fresh_handle_def)
qed

text \<open>
  C28. Stray datagrams are ignored.  When no signal arrives and no call fails, a pulling daemon on UDP that
  receives datagrams from anywhere puts exactly those from its peer into its channel, in the order they
  arrive, and goes on waiting.
\<close>

theorem pull_udp_filters:
  assumes "\<not> stopping w" "frame_ok conn" "good_machine w" "chan_open w k shm" "at_rest shm"
    and "w_recvs w = map (\<lambda>d. (False, Inr d)) ds" "pipeframe_size conn < 2 ^ 32"
    and "\<forall>d\<in>set ds. dg_from d = addr \<longrightarrow>
           dg_data d \<noteq> [] \<and> length (dg_data d) \<le> pipeframe_size conn \<and> length (dg_data d) \<le> dsize shm"
    and "lseq shm + length ds < 2 ^ 64" "conn_udp conn \<noteq> None" "0 \<le> conn_in conn"
    and "w_peer w = Inr (host, port)" "addr = (host, h_remote_port (recv_hdr conn) mod 65536)"
  shows "\<exists>w' shm'. achd_pull_udp (replicate (length ds) readable) conn w = Hang w' \<and>
           chan_open w' k shm' \<and> at_rest shm' \<and>
           frames shm' = keep (icnt shm) (dsize shm)
             (frames shm @ number (lseq shm) (map dg_data (filter (\<lambda>d. dg_from d = addr) ds)))"
  using pull_udp_correct [OF assms(1-9)] assms(10-13)
  by (simp add: achd_pull_udp_def act_assert_def udp_peer_def)

theorem pull_udp_filters_witness:
  "\<exists>w' shm'. achd_pull_udp [readable, readable] demo_conn
       (demo_world\<lparr>w_recvs := [(False, Inr \<lparr>dg_from = (8, 1), dg_data = [5]\<rparr>),
                             (False, Inr \<lparr>dg_from = (9, 0), dg_data = [6, 7]\<rparr>)]\<rparr>) = Hang w' \<and>
     chan_open w' 0 shm' \<and> frames shm' = [(1, [6, 7])]"
proof -
  let ?ds = "[\<lparr>dg_from = (8, 1), dg_data = [5]\<rparr>, \<lparr>dg_from = (9, 0), dg_data = [6, 7]\<rparr>]"
  let ?w = "demo_world\<lparr>w_recvs := map (\<lambda>d. (False, Inr d)) ?ds\<rparr>"
  have w: "\<not> stopping ?w" "good_machine ?w" "chan_open ?w 0 (fresh_block ''a'' 2 4)" "w_peer ?w = Inr (9, 0)"
    using demo_facts by (simp_all add: stopping_def good_machine_def chan_open_def) (simp add: demo_world_def)
  have c: "pipeframe_size demo_conn = 8" "conn_udp demo_conn \<noteq> None" "0 \<le> conn_in demo_conn"
    "(9, 0) = (9 :: nat, h_remote_port (recv_hdr demo_conn) mod 65536)"
    by (simp_all add: demo_conn_def zero_conn_def zero_headers_def)
  show ?thesis
    using pull_udp_filters [of ?w demo_conn 0 "fresh_block ''a'' 2 4" ?ds "(9, 0)" 9] w c demo_facts
    by auto
qed

end
