(* ===== verification/Achcop.thy ===== *)
theory Achcop
  imports Ach_Util Ach_Getopt
begin

text \<open>
  The watchdog \<^verbatim>\<open>src/achcop.c\<close>: it starts a child process, restarts it when it fails or on
  request, keeps the process numbers in files and reports to the process that waits for it.  The state
  of the watchdog is the process record of the utilities beside the descriptors and files it uses.
  Which calls fail, what a fork returns, which signals arrive and what \<open>waitpid\<close> says are scripts of
  the environment.  The texts of messages are shortened and messages for debugging left out; memory
  for the argument array does not run out.
\<close>

section \<open>The state\<close>

text \<open>An open descriptor: the file, the offset, and whether writes go to the end.\<close>

record open_file =
  of_name :: string
  of_off :: nat
  of_append :: bool

text \<open>What a \<open>write\<close> does: it writes one byte and at most so many more, is interrupted, or fails.\<close>

datatype cop_write = Wrote nat | Wr_intr | Wr_err

text \<open>The history of the children: started, sent a termination signal, found dead by \<open>waitpid\<close>.\<close>

datatype child_event = Started int | Killed int | Reaped int

record cop =
  c_proc :: proc
  c_fds :: "nat \<Rightarrow> open_file option"
  c_files :: "string \<Rightarrow> string option"
  c_locked :: "string list"
  c_environ :: "(string \<times> string) list"
  c_log :: "(string \<times> int) option"
  c_writes :: "cop_write list"
  c_forks :: nat
  c_trace :: "child_event list"

record flags =
  first_run :: bool
  restart :: bool
  force_restart :: bool
  start :: bool
  done_flag :: bool

record run_state =
  r_flags :: flags
  pid_child :: int
  exit_status :: int

text \<open>
  A part of the program goes on with a result, exits, turns into the child's program, or waits for a
  signal when no more arrive.
\<close>

datatype 'a cop_run =
    Cop_exit int cop
  | Cop_exec string "string list" cop
  | Cop_waits run_state cop
  | Cop_go 'a cop

primrec cop_then :: "'a cop_run \<Rightarrow> ('a \<Rightarrow> cop \<Rightarrow> 'b cop_run) \<Rightarrow> 'b cop_run" where
  "cop_then (Cop_exit n c) f = Cop_exit n c"
| "cop_then (Cop_exec prog as c) f = Cop_exec prog as c"
| "cop_then (Cop_waits st c) f = Cop_waits st c"
| "cop_then (Cop_go x c) f = f x c"

definition in_proc :: "(proc \<Rightarrow> 'a run) \<Rightarrow> cop \<Rightarrow> 'a cop_run" where
  "in_proc f c =
     (case f (c_proc c) of Exit n p \<Rightarrow> Cop_exit n (c\<lparr>c_proc := p\<rparr>) | Go x p \<Rightarrow> Cop_go x (c\<lparr>c_proc := p\<rparr>))"

definition on_proc :: "(proc \<Rightarrow> proc) \<Rightarrow> cop \<Rightarrow> cop" where
  "on_proc f c = c\<lparr>c_proc := f (c_proc c)\<rparr>"

definition cop_log :: "int \<Rightarrow> string \<Rightarrow> cop \<Rightarrow> cop" where
  "cop_log level msg c = on_proc (ACH_LOG level msg) c"

definition cop_die :: "string \<Rightarrow> cop \<Rightarrow> 'a cop_run" where
  "cop_die msg c = in_proc (ACH_DIE msg) c"

definition cop_fails :: "cop \<Rightarrow> bool \<times> cop" where
  "cop_fails c = (let r = call_fails (c_proc c) in (fst r, c\<lparr>c_proc := snd r\<rparr>))"

text \<open>A call whose failure is only logged.\<close>

definition cop_try :: "string \<Rightarrow> (cop \<Rightarrow> cop) \<Rightarrow> cop \<Rightarrow> cop" where
  "cop_try msg act c =
     (let (failed, c) = cop_fails c in if failed then cop_log LOG_ERR msg c else act c)"

definition history :: "child_event \<Rightarrow> cop \<Rightarrow> cop" where
  "history e c = c\<lparr>c_trace := c_trace c @ [e]\<rparr>"

section \<open>Files\<close>

definition FILE_NOP_NAME :: string where "FILE_NOP_NAME = ''-''"

text \<open>The kernel gives out the lowest descriptor that is not in use.\<close>

function lowest_free :: "(nat \<Rightarrow> open_file option) \<Rightarrow> nat \<Rightarrow> nat option" where
  "lowest_free fds n =
     (if n \<ge> 1024 then None else if fds n = None then Some n else lowest_free fds (Suc n))"
  by pat_completeness auto
termination by (relation "measure (\<lambda>(fds, n). 1024 - n)") auto

declare lowest_free.simps [simp del]

text \<open>A descriptor of the program, or \<open>-1\<close>.\<close>

definition open_file_cop :: "string option \<Rightarrow> bool \<Rightarrow> cop \<Rightarrow> int cop_run" where
  "open_file_cop name at_end c =
     (case name of
        None \<Rightarrow> Cop_go (-1) c
      | Some f \<Rightarrow>
          let (failed, c) = cop_fails c
          in case (if failed then None else lowest_free (c_fds c) 0) of
               None \<Rightarrow> cop_die (''Could not open file '' @ f) c
             | Some fd \<Rightarrow>
                 Cop_go (int fd)
                   (c\<lparr>c_fds := (c_fds c)(fd := Some \<lparr>of_name = f, of_off = 0, of_append = at_end\<rparr>),
                      c_files := (if c_files c f = None then (c_files c)(f := Some []) else c_files c)\<rparr>))"

definition open_out_file :: "string option \<Rightarrow> cop \<Rightarrow> int cop_run" where
  "open_out_file name c =
     (if name = None \<or> name = Some FILE_NOP_NAME then Cop_go (-1) c else open_file_cop name True c)"

definition close_fd :: "nat \<Rightarrow> cop \<Rightarrow> cop" where
  "close_fd fd c = c\<lparr>c_fds := (c_fds c)(fd := None)\<rparr>"

definition redirect :: "string option \<Rightarrow> int \<Rightarrow> nat \<Rightarrow> cop \<Rightarrow> cop" where
  "redirect name oldfd newfd c =
     (case name of
        None \<Rightarrow> cop_try ''Couldn't close file descriptor'' (close_fd newfd) c
      | Some f \<Rightarrow>
          if f = FILE_NOP_NAME \<or> oldfd = -1 then c
          else let c = cop_try ''Could not dup output''
                         (\<lambda>c. c\<lparr>c_fds := (c_fds c)(newfd := c_fds c (nat oldfd))\<rparr>) c
               in cop_try ''Couldn't close dup'ed file descriptor'' (close_fd (nat oldfd)) c)"

definition lock_pid :: "int \<Rightarrow> cop \<Rightarrow> unit cop_run" where
  "lock_pid fd c =
     (if fd = -1 then Cop_go () c
      else let (failed, c) = cop_fails c
           in case (if failed then None else c_fds c (nat fd)) of
                None \<Rightarrow> cop_die ''Could not lock pid file'' c
              | Some f \<Rightarrow> Cop_go () (c\<lparr>c_locked := c_locked c @ [of_name f]\<rparr>))"

text \<open>Bytes written at an offset; a gap behind the end of the file is filled with zeros.\<close>

definition splice :: "nat \<Rightarrow> string \<Rightarrow> string \<Rightarrow> string" where
  "splice off new old =
     take off old @ replicate (off - length old) (CHR 0x00) @ new @ drop (off + length new) old"

definition write_bytes :: "nat \<Rightarrow> string \<Rightarrow> cop \<Rightarrow> cop" where
  "write_bytes fd s c =
     (case c_fds c fd of
        None \<Rightarrow> c
      | Some f \<Rightarrow>
          let old = (case c_files c (of_name f) of None \<Rightarrow> [] | Some t \<Rightarrow> t);
              off = (if of_append f then length old else of_off f)
          in c\<lparr>c_files := (c_files c)(of_name f \<mapsto> splice off s old),
               c_fds := (c_fds c)(fd := Some (f\<lparr>of_off := off + length s\<rparr>))\<rparr>)"

text \<open>The loop that writes the text, and whether all was written.\<close>

fun write_text :: "nat \<Rightarrow> cop_write list \<Rightarrow> string \<Rightarrow> cop \<Rightarrow> bool \<times> cop" where
  "write_text fd ws [] c = (True, c\<lparr>c_writes := ws\<rparr>)"
| "write_text fd [] s c = (True, write_bytes fd s (c\<lparr>c_writes := []\<rparr>))"
| "write_text fd (w # ws) s c =
     (case w of
        Wrote k \<Rightarrow> write_text fd ws (drop (Suc k) s) (write_bytes fd (take (Suc k) s) c)
      | Wr_intr \<Rightarrow> write_text fd ws s c
      | Wr_err \<Rightarrow> (False, c\<lparr>c_writes := ws\<rparr>))"

definition truncate_file :: "nat \<Rightarrow> cop \<Rightarrow> cop" where
  "truncate_file fd c =
     (case c_fds c fd of None \<Rightarrow> c | Some f \<Rightarrow> c\<lparr>c_files := (c_files c)(of_name f \<mapsto> [])\<rparr>)"

definition seek_start :: "nat \<Rightarrow> cop \<Rightarrow> cop" where
  "seek_start fd c =
     (case c_fds c fd of None \<Rightarrow> c | Some f \<Rightarrow> c\<lparr>c_fds := (c_fds c)(fd := Some (f\<lparr>of_off := 0\<rparr>))\<rparr>)"

text \<open>A pid has at most eleven characters, so the buffer of 32 bytes holds it.\<close>

definition write_pid :: "int \<Rightarrow> int \<Rightarrow> cop \<Rightarrow> unit cop_run" where
  "write_pid fd pid c =
     (if fd = -1 then Cop_go () c
      else let (failed, c) = cop_fails c
           in if failed then cop_die ''Could truncate pid file'' c
              else let c = truncate_file (nat fd) c;
                       c = cop_try ''Could seek pid file'' (seek_start (nat fd)) c;
                       s = show_int pid
                   in if length s \<ge> 32 then Cop_go () (cop_log LOG_ERR ''PID buffer overflow'' c)
                      else let (ok, c) = write_text (nat fd) (c_writes c) s c
                           in Cop_go () (if ok then c else cop_log LOG_ERR (''Could not write pid '' @ s) c))"

section \<open>The child\<close>

definition achcop_signals :: "int list" where
  "achcop_signals = [SIGINT, SIGTERM, SIGCHLD, ACH_SIG_OK, ACH_SIG_FAIL, SIGALRM, SIGHUP]"

definition ACH_CHILD_TIMEOUT_SEC :: nat where "ACH_CHILD_TIMEOUT_SEC = 1"

text \<open>The call numbered \<open>n\<close> of \<open>fork\<close> returns \<open>forks n\<close>.\<close>

definition start_child ::
  "(nat \<Rightarrow> int) \<Rightarrow> int \<Rightarrow> string \<Rightarrow> string list \<Rightarrow> cop \<Rightarrow> int cop_run" where
  "start_child forks fd_pid prog args c =
     (let cpid = forks (c_forks c); c = c\<lparr>c_forks := Suc (c_forks c)\<rparr>
      in if cpid = 0
         then cop_then (in_proc (ach_sig_dfl_unblock achcop_signals) c) (\<lambda>_ c.
              let (failed, c) = cop_fails c
              in if failed then Cop_exit 1 (cop_log LOG_ERR ''Could not exec'' c)
                 else Cop_exec prog args c)
         else if cpid > 0
         then cop_then (write_pid fd_pid cpid (history (Started cpid) c)) (\<lambda>_ c. Cop_go cpid c)
         else cop_die ''Could not fork child'' c)"

text \<open>How \<open>waitpid\<close> answers, without waiting.\<close>

datatype wait_status = Exited int | Signaled int | Other_status int

datatype wait_result = Wait_intr | Wait_err | Wait_none | Wait_pid int wait_status

fun wait_retry :: "wait_result list \<Rightarrow> wait_result" where
  "wait_retry [] = Wait_none"
| "wait_retry (w # ws) = (if w = Wait_intr then wait_retry ws else w)"

definition waitloop :: "int \<Rightarrow> wait_result list \<Rightarrow> cop \<Rightarrow> int cop_run" where
  "waitloop pid ws c =
     (case wait_retry ws of
        Wait_pid p status \<Rightarrow>
          if p \<noteq> pid then cop_die (''Unexpected wait pid: '' @ show_int p) c
          else let c = history (Reaped p) c
               in (case status of
                     Exited n \<Rightarrow> Cop_go n c
                   | Signaled s \<Rightarrow> Cop_go 1 (cop_log LOG_NOTICE (''child signaled: '' @ show_int s) c)
                   | Other_status s \<Rightarrow> Cop_go 1 (cop_log LOG_ERR (''Unexpexted wait status: '' @ show_int s) c))
      | Wait_none \<Rightarrow> cop_die ''Unexpected wait pid: 0'' c
      | _ \<Rightarrow> cop_die ''Could not wait for child'' c)"

definition terminate_child :: "int \<Rightarrow> cop \<Rightarrow> cop" where
  "terminate_child pid c =
     cop_try ''Couldn't kill child''
       (\<lambda>c. history (Killed pid) (on_proc (\<lambda>p. p\<lparr>p_kills := p_kills p @ [(pid, SIGTERM)]\<rparr>) c)) c"

section \<open>The run loop\<close>

definition run_start ::
  "(nat \<Rightarrow> int) \<Rightarrow> int \<Rightarrow> string \<Rightarrow> string list \<Rightarrow> run_state \<Rightarrow> cop \<Rightarrow> run_state cop_run" where
  "run_start forks fd_pid prog args st c =
     (if start (r_flags st)
      then cop_then (start_child forks fd_pid prog args c) (\<lambda>pid c.
           let c = (if first_run (r_flags st)
                    then on_proc (\<lambda>p. p\<lparr>p_alarm := Some ACH_CHILD_TIMEOUT_SEC\<rparr>) c else c)
           in Cop_go (st\<lparr>pid_child := pid,
                r_flags := (r_flags st)\<lparr>start := False, force_restart := False\<rparr>\<rparr>) c)
      else Cop_go st c)"

text \<open>The decision after the death of the child.\<close>

definition child_died :: "string \<Rightarrow> run_state \<Rightarrow> cop \<Rightarrow> run_state \<times> cop" where
  "child_died prog st c =
     (let f = r_flags st
      in if force_restart f
         then (st\<lparr>r_flags := f\<lparr>start := True\<rparr>\<rparr>, cop_log LOG_NOTICE ''Child returned, restarting'' c)
         else if exit_status st = 0
         then (st\<lparr>r_flags := f\<lparr>done_flag := True\<rparr>\<rparr>, cop_log LOG_NOTICE (''Child returned success: '' @ prog) c)
         else if first_run f
         then (st\<lparr>r_flags := f\<lparr>done_flag := True\<rparr>\<rparr>, cop_log LOG_ERR (''Child died too fast: '' @ prog) c)
         else if restart f
         then (st\<lparr>r_flags := f\<lparr>start := True\<rparr>\<rparr>, cop_log LOG_NOTICE ''Restarting child'' c)
         else (st\<lparr>r_flags := f\<lparr>done_flag := True\<rparr>\<rparr>, cop_log LOG_NOTICE ''Exiting'' c))"

definition handle_signal ::
  "string \<Rightarrow> int \<Rightarrow> wait_result list \<Rightarrow> run_state \<Rightarrow> cop \<Rightarrow> run_state cop_run" where
  "handle_signal prog sig ws st c =
     (let f = r_flags st
      in if sig = SIGTERM \<or> sig = SIGINT
         then Cop_go (st\<lparr>r_flags := f\<lparr>restart := False\<rparr>\<rparr>) (terminate_child (pid_child st) c)
         else if sig = SIGCHLD
         then cop_then (waitloop (pid_child st) ws c) (\<lambda>n c.
              let r = child_died prog (st\<lparr>exit_status := n\<rparr>) c in Cop_go (fst r) (snd r))
         else if sig = SIGHUP
         then Cop_go (st\<lparr>r_flags := f\<lparr>force_restart := True\<rparr>\<rparr>) (terminate_child (pid_child st) c)
         else if sig = SIGALRM \<or> sig = ACH_SIG_OK
         then Cop_go (st\<lparr>r_flags := f\<lparr>first_run := False\<rparr>\<rparr>)
                (on_proc (ach_notify ACH_SIG_OK)
                  (cop_log LOG_INFO (''Child started ok: '' @ show_int (pid_child st)) c))
         else Cop_go st (cop_log LOG_WARNING (''Spurious signal received: '' @ show_int sig) c))"

text \<open>The signals that arrive, each with what \<open>waitpid\<close> would answer to it.\<close>

type_synonym arrivals = "(int \<times> wait_result list) list"

fun run_loop ::
  "(nat \<Rightarrow> int) \<Rightarrow> int \<Rightarrow> string \<Rightarrow> string list \<Rightarrow> arrivals \<Rightarrow> run_state \<Rightarrow> cop \<Rightarrow> run_state cop_run" where
  "run_loop forks fd_pid prog args [] st c =
     (if done_flag (r_flags st) then Cop_go st c
      else cop_then (run_start forks fd_pid prog args st c) Cop_waits)"
| "run_loop forks fd_pid prog args (a # as) st c =
     (if done_flag (r_flags st) then Cop_go st c
      else cop_then (run_start forks fd_pid prog args st c) (\<lambda>st c.
           cop_then (in_proc (ach_sig_wait achcop_signals (fst a)) c) (\<lambda>sig c.
           cop_then (handle_signal prog sig (snd a) st c) (run_loop forks fd_pid prog args as))))"

definition first_state :: "bool \<Rightarrow> run_state" where
  "first_state again =
     \<lparr>r_flags = \<lparr>first_run = True, restart = again, force_restart = False, start = True,
                 done_flag = False\<rparr>,
      pid_child = -1, exit_status = 1\<rparr>"

definition cop_run_child ::
  "(nat \<Rightarrow> int) \<Rightarrow> arrivals \<Rightarrow> bool \<Rightarrow> int \<Rightarrow> string \<Rightarrow> string list \<Rightarrow> cop \<Rightarrow> int cop_run" where
  "cop_run_child forks as again fd_pid prog args c =
     cop_then (in_proc (ach_sig_block_dummy achcop_signals) c) (\<lambda>_ c.
     cop_then (run_loop forks fd_pid prog args as (first_state again) c) (\<lambda>st c.
     Cop_go (exit_status st)
       (on_proc (ach_notify (if exit_status st = 0 then ACH_SIG_OK else ACH_SIG_FAIL)) c)))"

section \<open>The main program\<close>

definition LOG_USER :: int where "LOG_USER = 8"
definition LOG_DAEMON :: int where "LOG_DAEMON = 24"

record cop_opt =
  file_cop_pid :: "string option"
  file_child_pid :: "string option"
  file_stderr :: "string option"
  file_stdout :: "string option"
  child_args :: "string list"
  log_ident :: string
  log_facility :: int
  opt_detach :: bool
  opt_restart :: bool

definition cop_defaults :: cop_opt where
  "cop_defaults =
     \<lparr>file_cop_pid = None, file_child_pid = None, file_stderr = None, file_stdout = None,
      child_args = [], log_ident = ''achcop'', log_facility = LOG_USER, opt_detach = False,
      opt_restart = False\<rparr>"

definition achcop_optstring :: string where "achcop_optstring = ''P:p:o:e:rvdhi:f:H?V''"

definition child_arg :: "string \<Rightarrow> cop_opt \<Rightarrow> cop_opt" where
  "child_arg arg opt = opt\<lparr>child_args := child_args opt @ [arg]\<rparr>"

definition cop_facility :: "string \<Rightarrow> cop_opt \<Rightarrow> cop \<Rightarrow> cop_opt cop_run" where
  "cop_facility arg opt c =
     (if strcaseeq ''user'' arg then Cop_go (opt\<lparr>log_facility := LOG_USER\<rparr>) c
      else if strcaseeq ''daemon'' arg \<or> strcaseeq ''demon'' arg
      then Cop_go (opt\<lparr>log_facility := LOG_DAEMON\<rparr>) c
      else cop_die (''Invalid logging facility: '' @ arg) c)"

text \<open>One option; an unknown one, or one without its argument, asks for the usage text.\<close>

definition cop_option :: "opt_call \<Rightarrow> cop_opt \<Rightarrow> cop \<Rightarrow> cop_opt cop_run" where
  "cop_option oc opt c =
     (case oc of
        (x, Some arg) \<Rightarrow>
          if x = CHR ''P'' then Cop_go (opt\<lparr>file_cop_pid := Some arg\<rparr>) c
          else if x = CHR ''p'' then Cop_go (opt\<lparr>file_child_pid := Some arg\<rparr>) c
          else if x = CHR ''o'' then Cop_go (opt\<lparr>file_stdout := Some arg\<rparr>) c
          else if x = CHR ''e'' then Cop_go (opt\<lparr>file_stderr := Some arg\<rparr>) c
          else if x = CHR ''i'' then Cop_go (opt\<lparr>log_ident := arg\<rparr>) c
          else if x = CHR ''f'' then cop_facility arg opt c
          else Cop_go (child_arg arg opt) c
      | (x, None) \<Rightarrow>
          if x = CHR ''d'' then Cop_go (opt\<lparr>opt_detach := True\<rparr>) c
          else if x = CHR ''r'' then Cop_go (opt\<lparr>opt_restart := True\<rparr>) c
          else if x = CHR ''v''
          then Cop_go opt (on_proc (\<lambda>p. p\<lparr>p_verbosity := p_verbosity p + 1\<rparr>) c)
          else Cop_exit 0 c)"

fun cop_options :: "opt_call list \<Rightarrow> cop_opt \<Rightarrow> cop \<Rightarrow> cop_opt cop_run" where
  "cop_options [] opt c = Cop_go opt c"
| "cop_options (oc # ocs) opt c = cop_then (cop_option oc opt c) (cop_options ocs)"

definition cop_detach :: "fork_side \<Rightarrow> fork_side \<Rightarrow> int \<Rightarrow> cop \<Rightarrow> unit cop_run" where
  "cop_detach fork1 fork2 arrived c =
     cop_then (in_proc (ach_detach ACH_PARENT_TIMEOUT_SEC fork1 fork2 arrived)
                 (c\<lparr>c_log := Some (''achcop'', LOG_DAEMON)\<rparr>))
       (\<lambda>gp c. Cop_go () (on_proc (\<lambda>p. p\<lparr>p_notify := gp\<rparr>) c))"

definition achcop_main ::
  "string list \<Rightarrow> fork_side \<Rightarrow> fork_side \<Rightarrow> int \<Rightarrow> (nat \<Rightarrow> int) \<Rightarrow> arrivals \<Rightarrow> cop \<Rightarrow> int cop_run" where
  "achcop_main argv fork1 fork2 arrived forks as c =
     (let (ocs, rest) = getopt_all achcop_optstring argv
      in cop_then (cop_options ocs cop_defaults c) (\<lambda>opt c.
         let opt = fold child_arg rest opt
         in case child_args opt of
              [] \<Rightarrow> cop_die ''No child process given'' c
            | prog # _ \<Rightarrow>
                cop_then (open_file_cop (file_cop_pid opt) False c) (\<lambda>fd_cop_pid c.
                cop_then (open_file_cop (file_child_pid opt) False c) (\<lambda>fd_child_pid c.
                cop_then (open_out_file (file_stdout opt) c) (\<lambda>fd_out c.
                cop_then (open_out_file (file_stderr opt) c) (\<lambda>fd_err c.
                cop_then (if opt_detach opt then cop_detach fork1 fork2 arrived c else Cop_go () c) (\<lambda>_ c.
                cop_then (lock_pid fd_cop_pid c) (\<lambda>_ c.
                cop_then (lock_pid fd_child_pid c) (\<lambda>_ c.
                cop_then (write_pid fd_cop_pid (p_pid (c_proc c))
                            (cop_log LOG_NOTICE (''achcop running '' @ prog) c)) (\<lambda>_ c.
                let c = cop_try ''could not set environment''
                          (\<lambda>c. c\<lparr>c_environ := c_environ c @ [(''ACHCOP'', ''1'')]\<rparr>) c;
                    c = redirect (file_stdout opt) fd_out 1 c;
                    c = redirect (file_stderr opt) fd_err 2 c
                in cop_run_child forks as (opt_restart opt) fd_child_pid prog (child_args opt) c))))))))))"

end
