(* ===== verification/Achcop_Watch.thy ===== *)
theory Achcop_Watch
  imports Achcop
begin

text \<open>
  What the watchdog promises: it never has two children, it signals only the one it has, and its
  decisions are those of a small supervisor that knows nothing of processes, files and signals.
\<close>

section \<open>Postconditions\<close>

text \<open>
  A condition on each way a part of the program can end; conditions compose along \<open>cop_then\<close>.
\<close>

primrec cop_post ::
  "(cop \<Rightarrow> bool) \<Rightarrow> (run_state \<Rightarrow> cop \<Rightarrow> bool) \<Rightarrow> ('a \<Rightarrow> cop \<Rightarrow> bool) \<Rightarrow> 'a cop_run \<Rightarrow> bool" where
  "cop_post E W Q (Cop_exit n c) = E c"
| "cop_post E W Q (Cop_exec prog as c) = E c"
| "cop_post E W Q (Cop_waits st c) = W st c"
| "cop_post E W Q (Cop_go x c) = Q x c"

lemma cop_post_then:
  assumes "cop_post E W P m" and "\<And>x c. P x c \<Longrightarrow> cop_post E W Q (f x c)"
  shows "cop_post E W Q (cop_then m f)"
  using assms by (cases m) auto

lemma cop_post_mono:
  assumes "cop_post E W P m" and "\<And>x c. P x c \<Longrightarrow> Q x c"
  shows "cop_post E W Q m"
  using assms by (cases m) auto

lemma cop_post_in_proc:
  assumes "\<And>n p. f (c_proc c) = Exit n p \<Longrightarrow> E (c\<lparr>c_proc := p\<rparr>)"
    and "\<And>x p. f (c_proc c) = Go x p \<Longrightarrow> Q x (c\<lparr>c_proc := p\<rparr>)"
  shows "cop_post E W Q (in_proc f c)"
  using assms by (auto simp: in_proc_def split: run.split)

abbreviation goes :: "('a \<Rightarrow> cop \<Rightarrow> bool) \<Rightarrow> 'a cop_run \<Rightarrow> bool" where
  "goes Q m \<equiv> cop_post (\<lambda>_. False) (\<lambda>_ _. False) Q m"

lemma goesE:
  assumes "goes Q m" obtains x c where "m = Cop_go x c" "Q x c"
  using assms by (cases m) auto

section \<open>One child at a time\<close>

text \<open>
  Reading the history: the child that is alive, and no result when a second child is started or a
  process that is not the living child is signalled or reaped.
\<close>

fun watch :: "int option \<Rightarrow> child_event list \<Rightarrow> int option option" where
  "watch a [] = Some a"
| "watch a (e # es) =
     (case (a, e) of
        (None, Started p) \<Rightarrow> watch (Some p) es
      | (Some q, Killed p) \<Rightarrow> if p = q then watch a es else None
      | (Some q, Reaped p) \<Rightarrow> if p = q then watch None es else None
      | _ \<Rightarrow> None)"

lemma watch_append:
  "watch a (xs @ ys) = (case watch a xs of None \<Rightarrow> None | Some b \<Rightarrow> watch b ys)"
  by (induction xs arbitrary: a) (auto split: option.splits child_event.splits)

text \<open>The child that is alive according to the history of a state.\<close>

definition alive :: "cop \<Rightarrow> int option option" where
  "alive c = watch None (c_trace c)"

definition sane :: "cop \<Rightarrow> bool" where
  "sane c \<longleftrightarrow> alive c \<noteq> None"

lemma alive_sane: "alive c = Some a \<Longrightarrow> sane c"
  by (simp add: sane_def)

lemma alive_history: "alive (history e c) = (case alive c of None \<Rightarrow> None | Some b \<Rightarrow> watch b [e])"
  by (simp add: alive_def history_def watch_append)

lemma c_trace_helpers [simp]:
  "c_trace (on_proc f c) = c_trace c" "c_trace (cop_log l m c) = c_trace c"
  "c_trace (snd (cop_fails c)) = c_trace c" "c_trace (truncate_file fd c) = c_trace c"
  "c_trace (seek_start fd c) = c_trace c" "c_trace (write_bytes fd s c) = c_trace c"
  by (auto simp: on_proc_def cop_log_def cop_fails_def truncate_file_def seek_start_def
      write_bytes_def Let_def split: option.split)

lemma alive_cong: "c_trace c = c_trace c' \<Longrightarrow> alive c = alive c'"
  by (simp add: alive_def)

lemma alive_helpers [simp]:
  "alive (on_proc f c) = alive c" "alive (cop_log l m c) = alive c" "alive (snd (cop_fails c)) = alive c"
  "alive (c\<lparr>c_proc := p\<rparr>) = alive c" "alive (c\<lparr>c_forks := n\<rparr>) = alive c"
  by (simp_all add: alive_def)

lemma cop_fails_alive:
  "cop_fails c = (b, c') \<Longrightarrow> c_trace c' = c_trace c" "cop_fails c = (b, c') \<Longrightarrow> alive c' = alive c"
  using c_trace_helpers(3) [of c] alive_helpers(3) [of c] by simp_all

lemma c_trace_try: "(\<And>c. c_trace (act c) = c_trace c) \<Longrightarrow> c_trace (cop_try m act c) = c_trace c"
  by (auto simp: cop_try_def cop_fails_alive split: prod.split)

lemma c_trace_write_text: "c_trace (snd (write_text fd ws s c)) = c_trace c"
  by (induction fd ws s c rule: write_text.induct) (auto split: cop_write.split)

lemma die_post: "(\<And>p. E (c\<lparr>c_proc := p\<rparr>)) \<Longrightarrow> cop_post E W Q (cop_die m c)"
  by (simp add: cop_die_def in_proc_def ACH_DIE_def ach_die_def)

lemma write_pid_alive:
  assumes "alive c = Some a"
  shows "cop_post sane W (\<lambda>_ c. alive c = Some a) (write_pid fd pid c)"
proof -
  obtain failed c1 where f: "cop_fails c = (failed, c1)" by force
  then have 1: "alive c1 = Some a" using alive_helpers(3) [of c] assms by simp
  have 2: "c_trace (cop_try m (seek_start fd) (truncate_file fd c1)) = c_trace c1" for m fd
    by (simp add: c_trace_try)
  have 3: "alive (snd (write_text fd ws s (cop_try m (seek_start fd) (truncate_file fd c1)))) = Some a"
    for fd ws s m using 1 2 by (simp add: alive_def c_trace_write_text)
  show ?thesis
    using assms 1 3 2 [THEN alive_cong]
    by (auto simp: write_pid_def f Let_def split_beta intro!: die_post alive_sane)
qed

lemma start_child_alive:
  assumes "alive c = Some None"
  shows "cop_post sane W (\<lambda>pid c. alive c = Some (Some pid))
           (start_child forks fd prog args c)"
proof -
  let ?c = "c\<lparr>c_forks := Suc (c_forks c)\<rparr>"
  have die: "cop_post sane W Q (cop_die m ?c)" for m and Q :: "int \<Rightarrow> cop \<Rightarrow> bool"
    using assms by (intro die_post) (simp add: sane_def)
  have parent: "cop_post sane W (\<lambda>pid c. alive c = Some (Some pid))
      (cop_then (write_pid fd pid (history (Started pid) ?c)) (\<lambda>_ c. Cop_go pid c))" for pid
    by (rule cop_post_then [OF write_pid_alive [of _ "Some pid"]]) (simp_all add: alive_history assms)
  have child: "cop_post sane W Q
      (cop_then (in_proc (ach_sig_dfl_unblock achcop_signals) ?c) (\<lambda>_ c.
        let (failed, c) = cop_fails c
        in if failed then Cop_exit 1 (cop_log LOG_ERR m c) else Cop_exec prog args c))"
    for m and Q :: "int \<Rightarrow> cop \<Rightarrow> bool"
    by (rule cop_post_then [OF cop_post_in_proc [where Q = "\<lambda>_ c. alive c = Some None"]])
      (auto simp: assms sane_def cop_fails_alive split: prod.split)
  show ?thesis unfolding start_child_def Let_def
    using die parent child [unfolded Let_def] by (simp split del: if_split split: if_split)
qed

lemma run_start_alive:
  assumes "alive c = Some (if start (r_flags st) then None else Some (pid_child st))"
  shows "cop_post sane W
           (\<lambda>st' c. alive c = Some (Some (pid_child st')) \<and> \<not> start (r_flags st') \<and>
              (done_flag (r_flags st') \<longleftrightarrow> done_flag (r_flags st)))
           (run_start forks fd prog args st c)"
proof (cases "start (r_flags st)")
  case True
  then have a: "alive c = Some None" using assms by simp
  show ?thesis
    using True by (simp add: run_start_def Let_def) (rule cop_post_then [OF start_child_alive [OF a]], simp)
qed (use assms in \<open>simp add: run_start_def\<close>)

lemma terminate_alive: "alive c = Some (Some pid) \<Longrightarrow> alive (terminate_child pid c) = Some (Some pid)"
  by (auto simp: terminate_child_def cop_try_def cop_fails_alive alive_history split: prod.split)

lemma waitloop_alive:
  assumes "alive c = Some (Some pid)"
  shows "cop_post sane W (\<lambda>_ c. alive c = Some None) (waitloop pid ws c)"
  using assms
  by (auto simp: waitloop_def Let_def alive_history sane_def intro!: die_post
      split: wait_result.split wait_status.split)

lemma child_died_alive:
  "alive (snd (child_died prog st c)) = alive c \<and>
   (start (r_flags (fst (child_died prog st c))) \<or> done_flag (r_flags (fst (child_died prog st c))))"
  by (simp add: child_died_def Let_def)

text \<open>The loop starts an iteration with a living child, or with none when it will start one or end.\<close>

definition watching :: "run_state \<Rightarrow> cop \<Rightarrow> bool" where
  "watching st c \<longleftrightarrow>
     alive c = Some (if start (r_flags st) \<or> done_flag (r_flags st) then None else Some (pid_child st))"

lemma handle_signal_alive:
  assumes "alive c = Some (Some (pid_child st))" "\<not> start (r_flags st)" "\<not> done_flag (r_flags st)"
  shows "cop_post sane W watching (handle_signal prog sig ws st c)"
proof (cases "sig = SIGCHLD")
  case True
  have "cop_post sane W watching
      (cop_then (waitloop (pid_child st) ws c) (\<lambda>n c.
         let r = child_died prog (st\<lparr>exit_status := n\<rparr>) c in Cop_go (fst r) (snd r)))"
    by (rule cop_post_then [OF waitloop_alive [OF assms(1)]])
      (use child_died_alive in \<open>auto simp: Let_def watching_def\<close>)
  then show ?thesis
    using True by (simp add: handle_signal_def Let_def SIGCHLD_def SIGTERM_def SIGINT_def)
qed (use assms in \<open>auto simp: handle_signal_def Let_def watching_def terminate_alive\<close>)

lemma run_loop_alive:
  assumes "watching st c"
  shows "cop_post sane (\<lambda>st c. alive c = Some (Some (pid_child st)))
           (\<lambda>_ c. alive c = Some None) (run_loop forks fd prog args as st c)"
  using assms
proof (induction as arbitrary: st c)
  case Nil
  then show ?case
    by (cases "done_flag (r_flags st)")
      (auto simp: watching_def intro!: cop_post_then [OF run_start_alive])
next
  case (Cons a as)
  show ?case
  proof (cases "done_flag (r_flags st)")
    case False
    then have c: "alive c = Some (if start (r_flags st) then None else Some (pid_child st))"
      using Cons.prems by (simp add: watching_def)
    have "cop_post sane (\<lambda>st c. alive c = Some (Some (pid_child st)))
        (\<lambda>_ c. alive c = Some None)
        (cop_then (in_proc (ach_sig_wait achcop_signals (fst a)) c1) (\<lambda>sig c.
         cop_then (handle_signal prog sig (snd a) st1 c) (run_loop forks fd prog args as)))"
      if "alive c1 = Some (Some (pid_child st1))" "\<not> start (r_flags st1)" "\<not> done_flag (r_flags st1)"
      for st1 c1
      by (rule cop_post_then [OF cop_post_in_proc [where Q = "\<lambda>_ c. alive c = Some (Some (pid_child st1))"]])
        (use that in \<open>auto simp: sane_def intro!: cop_post_then [OF handle_signal_alive] Cons.IH\<close>)
    then show ?thesis using False by (auto intro!: cop_post_then [OF run_start_alive [OF c]])
  qed (use Cons.prems in \<open>simp add: watching_def\<close>)
qed

text \<open>
  C27. One child at a time.  Whatever signals arrive, calls fail and waits say, the watchdog never
  starts a child while another is alive, and never signals or reaps any process but the child that is
  alive.  When it returns an exit status no child is left, and while it waits the child it remembers
  is the living one.
\<close>

theorem cop_one_child:
  assumes "c_trace c = []"
  shows "case cop_run_child forks as again fd prog args c of
           Cop_go n c' \<Rightarrow> watch None (c_trace c') = Some None
         | Cop_waits st c' \<Rightarrow> watch None (c_trace c') = Some (Some (pid_child st))
         | Cop_exit n c' \<Rightarrow> watch None (c_trace c') \<noteq> None
         | Cop_exec f as' c' \<Rightarrow> watch None (c_trace c') \<noteq> None"
proof -
  have a: "alive c = Some None" using assms by (simp add: alive_def)
  have "cop_post sane (\<lambda>st c. alive c = Some (Some (pid_child st)))
      (\<lambda>_ c. alive c = Some None) (cop_run_child forks as again fd prog args c)"
    unfolding cop_run_child_def
    by (rule cop_post_then [OF cop_post_in_proc [where Q = "\<lambda>_ c. alive c = Some None"]])
      (auto simp: a sane_def watching_def first_state_def intro!: cop_post_then [OF run_loop_alive])
  then show ?thesis by (auto simp: alive_def sane_def split: cop_run.split)
qed

definition a_cop :: cop where
  "a_cop = \<lparr>c_proc = a_process, c_fds = (\<lambda>_. None), c_files = (\<lambda>_. None), c_locked = [], c_environ = [],
     c_log = None, c_writes = [], c_forks = 0, c_trace = []\<rparr>"

theorem cop_one_child_witness:
  "case cop_run_child (\<lambda>n. 200 + int n) [(SIGHUP, []), (SIGCHLD, [Wait_intr, Wait_pid 200 (Signaled 15)])]
      True (-1) ''x'' [''x''] a_cop of
     Cop_go n c' \<Rightarrow> watch None (c_trace c') = Some None
   | Cop_waits st c' \<Rightarrow> watch None (c_trace c') = Some (Some (pid_child st))
   | Cop_exit n c' \<Rightarrow> watch None (c_trace c') \<noteq> None
   | Cop_exec f as' c' \<Rightarrow> watch None (c_trace c') \<noteq> None"
  by (rule cop_one_child) (simp add: a_cop_def)

end
