(* ===== verification/Achcop_Spec.thy ===== *)
theory Achcop_Spec
  imports Achcop_Watch
begin

text \<open>
  The watchdog refines a supervisor.  The supervisor knows four facts about its child and one about
  its own report, and five kinds of events; the lemmas show that the run loop takes the same decisions,
  starts the same number of children and sends the same report.
\<close>

section \<open>The supervisor\<close>

record sup =
  trial :: bool
  keep_up :: bool
  again :: bool
  starts :: nat
  report :: "int option"

datatype sup_event = Stop | Again | Up | Died int | Noise

datatype sup_result = Watching sup | Ended int sup

text \<open>Only the first report is sent.\<close>

definition tell :: "int \<Rightarrow> sup \<Rightarrow> sup" where
  "tell sig s = (if report s = None then s\<lparr>report := Some sig\<rparr> else s)"

primrec sup_step :: "sup_event \<Rightarrow> sup \<Rightarrow> sup_result" where
  "sup_step Stop s = Watching (s\<lparr>keep_up := False\<rparr>)"
| "sup_step Again s = Watching (s\<lparr>again := True\<rparr>)"
| "sup_step Up s = Watching (tell ACH_SIG_OK (s\<lparr>trial := False\<rparr>))"
| "sup_step Noise s = Watching s"
| "sup_step (Died n) s =
     (if again s \<or> n \<noteq> 0 \<and> \<not> trial s \<and> keep_up s
      then Watching (s\<lparr>again := False, starts := starts s + 1\<rparr>)
      else Ended n (tell (if n = 0 then ACH_SIG_OK else ACH_SIG_FAIL) s))"

fun sup_run :: "sup_event list \<Rightarrow> sup \<Rightarrow> sup_result" where
  "sup_run [] s = Watching s"
| "sup_run (e # es) s = (case sup_step e s of Ended n s \<Rightarrow> Ended n s | Watching s \<Rightarrow> sup_run es s)"

definition sup_init :: "bool \<Rightarrow> sup" where
  "sup_init r = \<lparr>trial = True, keep_up = r, again = False, starts = 1, report = None\<rparr>"

section \<open>What the events stand for\<close>

primrec status_code :: "wait_status \<Rightarrow> int" where
  "status_code (Exited n) = n"
| "status_code (Signaled s) = 1"
| "status_code (Other_status s) = 1"

text \<open>The event a signal stands for; a death must be of the child.\<close>

definition event_of :: "int \<Rightarrow> int \<times> wait_result list \<Rightarrow> sup_event option" where
  "event_of pid a =
     (let sig = fst a
      in if sig = SIGTERM \<or> sig = SIGINT then Some Stop
         else if sig = SIGCHLD
         then (case wait_retry (snd a) of
                 Wait_pid p status \<Rightarrow> if p = pid then Some (Died (status_code status)) else None
               | _ \<Rightarrow> None)
         else if sig = SIGHUP then Some Again
         else if sig = SIGALRM \<or> sig = ACH_SIG_OK then Some Up
         else Some Noise)"

fun realises :: "(nat \<Rightarrow> int) \<Rightarrow> sup \<Rightarrow> arrivals \<Rightarrow> sup_event list \<Rightarrow> bool" where
  "realises forks s [] es = (es = [])"
| "realises forks s (a # as) [] = False"
| "realises forks s (a # as) (e # es) =
     (event_of (forks (starts s - 1)) a = Some e \<and>
      (case sup_step e s of Watching s \<Rightarrow> realises forks s as es | Ended n s \<Rightarrow> True))"

section \<open>Steps in which no call fails\<close>

definition reports :: "cop \<Rightarrow> (int \<times> int) list" where
  "reports c = filter (\<lambda>k. snd k \<noteq> SIGTERM) (p_kills (c_proc c))"

text \<open>What the relation below needs to know of a state.\<close>

definition core :: "cop \<Rightarrow> bool list \<times> (int \<times> int) list \<times> int \<times> nat" where
  "core c = (p_script (c_proc c), reports c, p_notify (c_proc c), c_forks c)"

lemma core_helpers [simp]:
  "core (cop_log l m c) = core c" "core (history e c) = core c" "core (truncate_file fd c) = core c"
  "core (seek_start fd c) = core c" "core (write_bytes fd s c) = core c" "core (c\<lparr>c_writes := ws\<rparr>) = core c"
  "core (on_proc (\<lambda>p. p\<lparr>p_alarm := al\<rparr>) c) = core c"
  by (auto simp: core_def reports_def cop_log_def on_proc_def history_def truncate_file_def
      seek_start_def write_bytes_def Let_def split: option.split)

lemma core_write_text [simp]: "core (snd (write_text fd ws s c)) = core c"
  by (induction fd ws s c rule: write_text.induct) (auto split: cop_write.split)

lemma cop_fails_quiet [simp]: "p_script (c_proc c) = [] \<Longrightarrow> cop_fails c = (False, c)"
  by (simp add: cop_fails_def)

lemma quiet_core: "core c = ([], r) \<Longrightarrow> p_script (c_proc c) = []"
  by (simp add: core_def)

lemma cop_try_quiet: "p_script (c_proc c) = [] \<Longrightarrow> cop_try m act c = act c"
  by (simp add: cop_try_def)

lemma write_pid_core:
  assumes "core c = ([], r)" shows "goes (\<lambda>_ c'. core c' = ([], r)) (write_pid fd pid c)"
proof -
  have q: "p_script (c_proc c) = []" "p_script (c_proc (truncate_file fd c)) = []" for fd
    using assms quiet_core [of c] quiet_core [of "truncate_file fd c"] by auto
  show ?thesis using assms q
    by (auto simp: write_pid_def cop_try_quiet Let_def split: prod.split) (metis core_write_text core_helpers snd_conv)+
qed

lemma terminate_core: "core c = ([], r) \<Longrightarrow> core (terminate_child pid c) = ([], r)"
  by (simp add: terminate_child_def cop_try_quiet quiet_core)
    (simp add: core_def reports_def on_proc_def)

lemma achcop_signals_ok: "list_all valid_signal achcop_signals" "distinct achcop_signals"
  by (simp_all add: achcop_signals_def valid_signal_def ACH_SIG_OK_def ACH_SIG_FAIL_def SIGUSR1_def
      SIGUSR2_def SIGALRM_def SIGINT_def SIGTERM_def SIGCHLD_def SIGHUP_def)

lemma sig_wait_core:
  assumes "core c = ([], r)"
  shows "\<exists>c'. in_proc (ach_sig_wait achcop_signals sig) c = Cop_go sig c' \<and> core c' = ([], r)"
  using assms quiet_core [OF assms]
  by (simp add: in_proc_def ach_sig_wait_def ach_sig_mask_quiet achcop_signals_ok Let_def core_def reports_def)

lemma block_core:
  assumes "core c = ([], r)"
  shows "\<exists>c'. in_proc (ach_sig_block_dummy achcop_signals) c = Cop_go () c' \<and> core c' = ([], r)"
  using assms quiet_core [OF assms]
  by (simp add: in_proc_def ach_sig_block_dummy_def ach_sig_mask_quiet achcop_signals_ok
      install_dummy_quiet Let_def core_def reports_def)

lemma start_child_core:
  assumes "core c = ([], k, m, n)" "0 < forks n"
  shows "goes (\<lambda>pid c'. pid = forks n \<and> core c' = ([], k, m, Suc n)) (start_child forks fd prog args c)"
proof -
  let ?c = "history (Started (forks n)) (c\<lparr>c_forks := Suc (c_forks c)\<rparr>)"
  have "core ?c = ([], k, m, Suc n)" "c_forks c = n" using assms by (auto simp: core_def reports_def history_def)
  then show ?thesis using assms(2)
    by (auto simp: start_child_def Let_def intro!: cop_post_then [OF write_pid_core])
qed

section \<open>The simulation\<close>

text \<open>The report as it shows in the process that waits for it.\<close>

definition told :: "int \<Rightarrow> sup \<Rightarrow> (int \<times> int) list \<Rightarrow> int \<Rightarrow> bool" where
  "told gp s k m \<longleftrightarrow>
     (case report s of None \<Rightarrow> k = [] \<and> m = gp | Some sig \<Rightarrow> k = [(gp, sig)] \<and> m = 0)"

definition sim :: "(nat \<Rightarrow> int) \<Rightarrow> int \<Rightarrow> run_state \<Rightarrow> cop \<Rightarrow> sup \<Rightarrow> bool" where
  "sim forks gp st c s \<longleftrightarrow>
     r_flags st = \<lparr>first_run = trial s, restart = keep_up s, force_restart = again s, start = False,
                   done_flag = False\<rparr> \<and>
     pid_child st = forks (starts s - 1) \<and>
     (\<exists>k m. core c = ([], k, m, starts s) \<and> told gp s k m)"

lemma notify_core:
  assumes "core c = ([], k, m, n)" "told gp s k m" "0 < gp" "sig \<noteq> SIGTERM"
  shows "\<exists>k m. core (on_proc (ach_notify sig) c) = ([], k, m, n) \<and> told gp (tell sig s) k m"
  using assms
  by (auto simp: core_def reports_def told_def tell_def on_proc_def ach_notify_def split: option.splits)

text \<open>The loop before a child that is to be started has been.\<close>

definition sim_head :: "(nat \<Rightarrow> int) \<Rightarrow> int \<Rightarrow> run_state \<Rightarrow> cop \<Rightarrow> sup \<Rightarrow> bool" where
  "sim_head forks gp st c s \<longleftrightarrow>
     sim forks gp st c s \<or>
     start (r_flags st) \<and> \<not> done_flag (r_flags st) \<and> first_run (r_flags st) = trial s \<and>
     restart (r_flags st) = keep_up s \<and> \<not> again s \<and> 0 < starts s \<and>
     (\<exists>k m. core c = ([], k, m, starts s - 1) \<and> told gp s k m)"

lemma sim_not_done: "sim_head forks gp st c s \<Longrightarrow> \<not> done_flag (r_flags st)"
  by (auto simp: sim_head_def sim_def)

lemma run_start_sim:
  assumes "sim_head forks gp st c s" "\<And>n. 0 < forks n"
  shows "goes (\<lambda>st' c'. sim forks gp st' c' s) (run_start forks fd prog args st c)"
proof (cases "sim forks gp st c s")
  case True
  then show ?thesis by (simp add: run_start_def sim_def)
next
  case False
  with assms(1) obtain k m where c: "core c = ([], k, m, starts s - 1)" "told gp s k m"
    and f: "start (r_flags st)" "\<not> done_flag (r_flags st)" "first_run (r_flags st) = trial s"
      "restart (r_flags st) = keep_up s" "\<not> again s" "0 < starts s"
    by (auto simp: sim_head_def)
  show ?thesis using f
    by (simp add: run_start_def Let_def)
      (rule cop_post_then [OF start_child_core [OF c(1) assms(2)]], use c(2) in \<open>auto simp: sim_def\<close>)
qed

text \<open>A death, with the decision that follows from it.\<close>

lemma wait_core:
  assumes "core c = ([], r)" "wait_retry ws = Wait_pid pid status"
  shows "\<exists>c'. waitloop pid ws c = Cop_go (status_code status) c' \<and> core c' = ([], r)"
  using assms by (cases status) (simp_all add: waitloop_def Let_def)

lemma death_sim:
  assumes "sim forks gp st c s" "wait_retry ws = Wait_pid (pid_child st) status"
  shows "goes (\<lambda>st' c'. case sup_step (Died (status_code status)) s of
      Watching s' \<Rightarrow> sim_head forks gp st' c' s'
    | Ended n s' \<Rightarrow> done_flag (r_flags st') \<and> exit_status st' = n \<and>
        (\<exists>k m. core c' = ([], k, m, starts s) \<and> told gp s k m))
    (cop_then (waitloop (pid_child st) ws c) (\<lambda>n c.
       let r = child_died prog (st\<lparr>exit_status := n\<rparr>) c in Cop_go (fst r) (snd r)))"
proof -
  obtain k m where c: "core c = ([], k, m, starts s)" "told gp s k m"
    using assms(1) by (auto simp: sim_def)
  then obtain c' where w: "waitloop (pid_child st) ws c = Cop_go (status_code status) c'"
    and c': "core c' = ([], k, m, starts s)"
    using wait_core [OF _ assms(2)] by blast
  have "told gp (s\<lparr>again := False, starts := n\<rparr>) k m" for n using c(2) by (simp add: told_def)
  moreover have "r_flags st = \<lparr>first_run = trial s, restart = keep_up s, force_restart = again s,
      start = False, done_flag = False\<rparr>" using assms(1) by (simp add: sim_def)
  ultimately show ?thesis using c(2) c'
    unfolding w Let_def cop_then.simps cop_post.simps sup_step.simps child_died_def sim_head_def
    by (cases "again s"; cases "status_code status = 0"; cases "trial s"; cases "keep_up s") auto
qed

lemma step_sim:
  assumes "sim forks gp st c s" "event_of (pid_child st) (sig, ws) = Some e" "0 < gp"
  shows "goes (\<lambda>st' c'. case sup_step e s of
      Watching s' \<Rightarrow> sim_head forks gp st' c' s'
    | Ended n s' \<Rightarrow> done_flag (r_flags st') \<and> exit_status st' = n \<and>
        (\<exists>k m. core c' = ([], k, m, starts s) \<and> told gp s k m))
    (handle_signal prog sig ws st c)"
proof -
  obtain k m where c: "core c = ([], k, m, starts s)" "told gp s k m"
    using assms(1) by (auto simp: sim_def)
  consider (stop) "sig = SIGTERM \<or> sig = SIGINT" | (died) "sig = SIGCHLD" | (hup) "sig = SIGHUP"
    | (up) "sig = SIGALRM \<or> sig = ACH_SIG_OK"
    | (other) "sig \<notin> {SIGTERM, SIGINT, SIGCHLD, SIGHUP, SIGALRM, ACH_SIG_OK}" by blast
  then show ?thesis
  proof cases
    case stop
    then show ?thesis using assms c terminate_core [OF c(1), of "pid_child st"]
      by (auto simp: event_of_def handle_signal_def sim_head_def sim_def told_def)
  next
    case died
    then have n: "sig \<noteq> SIGTERM" "sig \<noteq> SIGINT" by (simp_all add: SIGCHLD_def SIGTERM_def SIGINT_def)
    with died assms(2) obtain status where e: "wait_retry ws = Wait_pid (pid_child st) status"
      "e = Died (status_code status)"
      by (auto simp: event_of_def split: wait_result.splits if_splits)
    show ?thesis using death_sim [OF assms(1) e(1), of prog] died n
      by (simp add: handle_signal_def e(2) Let_def)
  next
    case hup
    then have n: "sig \<noteq> SIGTERM" "sig \<noteq> SIGINT" "sig \<noteq> SIGCHLD"
      by (simp_all add: SIGCHLD_def SIGTERM_def SIGINT_def SIGHUP_def)
    then show ?thesis using hup assms c terminate_core [OF c(1), of "pid_child st"]
      by (auto simp: event_of_def handle_signal_def sim_head_def sim_def told_def)
  next
    case up
    then have n: "sig \<noteq> SIGTERM" "sig \<noteq> SIGINT" "sig \<noteq> SIGCHLD" "sig \<noteq> SIGHUP"
      by (auto simp: SIGCHLD_def SIGTERM_def SIGINT_def SIGHUP_def SIGALRM_def ACH_SIG_OK_def SIGUSR1_def)
    have "ACH_SIG_OK \<noteq> SIGTERM" by (simp add: ACH_SIG_OK_def SIGUSR1_def SIGTERM_def)
    from notify_core [OF _ _ assms(3) this, of "cop_log l msg c" k m "starts s" "s\<lparr>trial := False\<rparr>" for l msg]
    show ?thesis using up n assms c
      by (auto simp: event_of_def handle_signal_def sim_head_def sim_def told_def tell_def)
  next
    case other
    then show ?thesis using assms c
      by (auto simp: event_of_def handle_signal_def sim_head_def sim_def)
  qed
qed

text \<open>How the loop has ended, or where it waits.\<close>

definition loop_result :: "(nat \<Rightarrow> int) \<Rightarrow> int \<Rightarrow> sup_result \<Rightarrow> run_state cop_run \<Rightarrow> bool" where
  "loop_result forks gp r m \<longleftrightarrow>
     (case r of
        Watching s \<Rightarrow> \<exists>st c. m = Cop_waits st c \<and> sim forks gp st c s
      | Ended n s \<Rightarrow> \<exists>st c s' k b. m = Cop_go st c \<and> exit_status st = n \<and>
          s = tell (if n = 0 then ACH_SIG_OK else ACH_SIG_FAIL) s' \<and>
          core c = ([], k, b, starts s) \<and> told gp s' k b)"

lemma sup_step_Ended:
  "sup_step e s = Ended n s' \<Longrightarrow> s' = tell (if n = 0 then ACH_SIG_OK else ACH_SIG_FAIL) s \<and> starts s' = starts s"
  by (cases e) (auto simp: tell_def split: if_splits)

lemma run_loop_sim:
  assumes "sim_head forks gp st c s" "realises forks s as es" "0 < gp" "\<And>n. 0 < forks n"
  shows "loop_result forks gp (sup_run es s) (run_loop forks fd prog args as st c)"
  using assms(1,2)
proof (induction as arbitrary: st c s es)
  case Nil
  from goesE [OF run_start_sim [OF Nil(1) assms(4)]] obtain st1 c1 where
    "run_start forks fd prog args st c = Cop_go st1 c1" "sim forks gp st1 c1 s" .
  then show ?case using Nil sim_not_done by (fastforce simp: loop_result_def)
next
  case (Cons a as)
  then obtain e es' where es: "es = e # es'" by (cases es) auto
  from goesE [OF run_start_sim [OF Cons.prems(1) assms(4)]] obtain st1 c1 where
    1: "run_start forks fd prog args st c = Cop_go st1 c1" "sim forks gp st1 c1 s" .
  then obtain c2 where 2: "in_proc (ach_sig_wait achcop_signals (fst a)) c1 = Cop_go (fst a) c2"
    "core c2 = core c1"
    using sig_wait_core by (metis sim_def)
  then have s2: "sim forks gp st1 c2 s" using 1 by (simp add: sim_def)
  have ev: "event_of (pid_child st1) (fst a, snd a) = Some e"
    using Cons.prems(2) 1(2) by (simp add: es sim_def)
  from goesE [OF step_sim [OF s2 ev assms(3)]] obtain st3 c3 where 3: "handle_signal prog (fst a) (snd a) st1 c2 = Cop_go st3 c3"
    and q: "case sup_step e s of
      Watching s' \<Rightarrow> sim_head forks gp st3 c3 s'
    | Ended n s' \<Rightarrow> done_flag (r_flags st3) \<and> exit_status st3 = n \<and>
        (\<exists>k m. core c3 = ([], k, m, starts s) \<and> told gp s k m)" .
  have loop: "run_loop forks fd prog args (a # as) st c = run_loop forks fd prog args as st3 c3"
    using sim_not_done [OF Cons.prems(1)] 1 2 3 by simp
  show ?case
  proof (cases "sup_step e s")
    case (Watching s')
    then show ?thesis using Cons.IH [of st3 c3 s' es'] q Cons.prems(2) loop by (simp add: es)
  next
    case (Ended n s')
    then have "run_loop forks fd prog args as st3 c3 = Cop_go st3 c3" using q by (cases as) auto
    then show ?thesis using Ended q loop sup_step_Ended [OF Ended] by (auto simp: es loop_result_def)
  qed
qed

lemma run_child_sim:
  assumes "p_script (c_proc c) = []" "p_kills (c_proc c) = []" "p_notify (c_proc c) = gp" "0 < gp"
    "c_forks c = 0" "\<And>n. 0 < forks n" "realises forks (sup_init r) as es"
  shows "case sup_run es (sup_init r) of
    Watching s \<Rightarrow> \<exists>st c'. cop_run_child forks as r fd prog args c = Cop_waits st c' \<and> sim forks gp st c' s
  | Ended n s \<Rightarrow> \<exists>c'. cop_run_child forks as r fd prog args c = Cop_go n c' \<and>
      c_forks c' = starts s \<and> reports c' = [(gp, the (report s))]"
proof -
  have c: "core c = ([], [], gp, 0)" using assms by (simp add: core_def reports_def)
  then obtain c1 where 1: "in_proc (ach_sig_block_dummy achcop_signals) c = Cop_go () c1"
    "core c1 = ([], [], gp, 0)" using block_core by blast
  then have h: "sim_head forks gp (first_state r) c1 (sup_init r)"
    by (simp add: sim_head_def first_state_def sup_init_def told_def)
  have l: "loop_result forks gp (sup_run es (sup_init r)) (run_loop forks fd prog args as (first_state r) c1)"
    by (rule run_loop_sim [OF h assms(7,4,6)])
  show ?thesis
  proof (cases "sup_run es (sup_init r)")
    case (Watching s)
    then show ?thesis using l by (auto simp: cop_run_child_def 1 loop_result_def)
  next
    case (Ended n s)
    then obtain st c2 s' k b where 2: "run_loop forks fd prog args as (first_state r) c1 = Cop_go st c2"
      "exit_status st = n" "s = tell (if n = 0 then ACH_SIG_OK else ACH_SIG_FAIL) s'"
      "core c2 = ([], k, b, starts s)" "told gp s' k b"
      using l by (auto simp: loop_result_def)
    let ?sig = "if n = 0 then ACH_SIG_OK else ACH_SIG_FAIL"
    have "?sig \<noteq> SIGTERM" by (simp add: ACH_SIG_OK_def ACH_SIG_FAIL_def SIGUSR1_def SIGUSR2_def SIGTERM_def)
    from notify_core [OF 2(4,5) assms(4) this] 2(3) obtain k' b' where
      3: "core (on_proc (ach_notify ?sig) c2) = ([], k', b', starts s)" "told gp s k' b'" by auto
    have "report s \<noteq> None" using 2(3) by (auto simp: tell_def)
    with 3 have "reports (on_proc (ach_notify ?sig) c2) = [(gp, the (report s))]"
      "c_forks (on_proc (ach_notify ?sig) c2) = starts s"
      by (auto simp: core_def told_def)
    then show ?thesis using Ended 1 2(1,2) by (simp add: cop_run_child_def)
  qed
qed

section \<open>Properties\<close>

text \<open>
  C8. The watchdog refines the supervisor.  When no call fails and each death reported is that of
  the child, the run loop does what the supervisor does: it waits, having started as many children and
  holding the pid of the last, or ends with the exit status of the child (failure for one killed by a
  signal); and the process that waits for its report gets exactly the supervisor's first report.
\<close>

theorem cop_refines:
  assumes "p_script (c_proc c) = []" "p_kills (c_proc c) = []" "p_notify (c_proc c) = gp" "0 < gp"
    "c_forks c = 0" "\<forall>n. 0 < forks n" "realises forks (sup_init r) as es"
  shows "case sup_run es (sup_init r) of
    Watching s \<Rightarrow> \<exists>st c'. cop_run_child forks as r fd prog args c = Cop_waits st c' \<and>
      c_forks c' = starts s \<and> pid_child st = forks (starts s - 1) \<and>
      reports c' = (case report s of None \<Rightarrow> [] | Some sig \<Rightarrow> [(gp, sig)])
  | Ended n s \<Rightarrow> \<exists>c'. cop_run_child forks as r fd prog args c = Cop_go n c' \<and>
      c_forks c' = starts s \<and> reports c' = [(gp, the (report s))]"
proof (cases "sup_run es (sup_init r)")
  case (Watching s)
  then obtain st c' where "cop_run_child forks as r fd prog args c = Cop_waits st c'" "sim forks gp st c' s"
    using run_child_sim [OF assms(1-5) _ assms(7)] assms(6) by fastforce
  then show ?thesis using Watching by (auto simp: sim_def core_def told_def split: option.splits)
next
  case (Ended n s)
  then show ?thesis using run_child_sim [OF assms(1-5) _ assms(7)] assms(6) by fastforce
qed

definition detached_cop :: cop where
  "detached_cop = a_cop\<lparr>c_proc := a_process\<lparr>p_notify := 50\<rparr>\<rparr>"

lemmas signal_numbers = SIGHUP_def SIGINT_def SIGTERM_def SIGCHLD_def SIGALRM_def SIGUSR1_def SIGUSR2_def
  ACH_SIG_OK_def ACH_SIG_FAIL_def

text \<open>A child that comes up, fails, is restarted and then succeeds.\<close>

theorem cop_refines_witness:
  "\<exists>c'. cop_run_child (\<lambda>n. 200 + int n)
      [(SIGALRM, []), (SIGCHLD, [Wait_pid 200 (Exited 3)]), (SIGCHLD, [Wait_intr, Wait_pid 201 (Exited 0)])]
      True (-1) ''x'' [''x''] detached_cop = Cop_go 0 c' \<and> c_forks c' = 2 \<and> reports c' = [(50, SIGUSR1)]"
  using cop_refines [of detached_cop 50 "\<lambda>n. 200 + int n" True
      "[(SIGALRM, []), (SIGCHLD, [Wait_pid 200 (Exited 3)]), (SIGCHLD, [Wait_intr, Wait_pid 201 (Exited 0)])]"
      "[Up, Died 3, Died 0]" "-1" "''x''" "[''x'']"]
  by (simp add: detached_cop_def a_cop_def a_process_def sup_init_def event_of_def signal_numbers tell_def numeral_2_eq_2)

text \<open>
  A termination request can be lost.  A watchdog that was told to restart its child and, before
  the child has died, is told to terminate, starts the child again when it dies and goes on, although
  the signal is documented to terminate the child and exit.
\<close>

lemma cop_term_lost:
  assumes "p_script (c_proc c) = []" "p_kills (c_proc c) = []" "0 < p_notify (c_proc c)"
    "c_forks c = 0" "\<forall>n. 0 < forks n"
  shows "\<exists>st c'. cop_run_child forks [(SIGHUP, []), (SIGTERM, []), (SIGCHLD, [Wait_pid (forks 0) status])]
           r fd prog args c = Cop_waits st c' \<and> c_forks c' = 2 \<and> pid_child st = forks 1"
proof -
  have "realises forks (sup_init r) [(SIGHUP, []), (SIGTERM, []), (SIGCHLD, [Wait_pid (forks 0) status])]
      [Again, Stop, Died (status_code status)]"
    by (simp add: sup_init_def event_of_def signal_numbers)
  from run_child_sim [OF assms(1,2) refl assms(3,4) _ this] assms(5) show ?thesis
    by (fastforce simp: sup_init_def sim_def core_def)
qed

lemma cop_term_lost_witness:
  "\<exists>st c'. cop_run_child (\<lambda>n. 200 + int n)
      [(SIGHUP, []), (SIGTERM, []), (SIGCHLD, [Wait_pid 200 (Signaled 15)])]
      False (-1) ''x'' [''x''] detached_cop = Cop_waits st c' \<and> c_forks c' = 2 \<and> pid_child st = 201"
  using cop_term_lost [of detached_cop "\<lambda>n. 200 + int n" "Signaled 15" False "-1" "''x''" "[''x'']"]
  by (simp add: detached_cop_def a_cop_def a_process_def)

section \<open>The file that holds the pid\<close>

lemma splice_end: "splice (length old) new old = old @ new"
  by (simp add: splice_def)

lemma write_bytes_end:
  assumes "c_fds c fd = Some f" "\<not> of_append f" "c_files c (of_name f) = Some old" "of_off f = length old"
  shows "write_bytes fd s c = c\<lparr>c_files := (c_files c)(of_name f \<mapsto> old @ s),
           c_fds := (c_fds c)(fd := Some (f\<lparr>of_off := length (old @ s)\<rparr>))\<rparr>"
  using assms by (simp add: write_bytes_def splice_end)

lemma write_text_ok:
  assumes "c_fds c fd = Some f" "\<not> of_append f" "c_files c (of_name f) = Some old"
    "of_off f = length old" "Wr_err \<notin> set ws"
  shows "\<exists>c'. write_text fd ws s c = (True, c') \<and> c_files c' = (c_files c)(of_name f \<mapsto> old @ s)"
  using assms
proof (induction fd ws s c arbitrary: f old rule: write_text.induct)
  case (1 fd ws c)
  then show ?case by (auto simp: fun_eq_iff)
next
  case (2 fd v va c)
  then show ?case by (auto simp: fun_eq_iff write_bytes_end [where f = f and old = old])
next
  case (3 fd w ws v va c)
  show ?case
  proof (cases w)
    case (Wrote n)
    show ?thesis
      using 3(1) [OF Wrote, of "f\<lparr>of_off := length (old @ take (Suc n) (v # va))\<rparr>" "old @ take (Suc n) (v # va)"]
        3(3-) Wrote by (simp add: write_bytes_end [where f = f and old = old] cong: if_cong)
  qed (use 3 in auto)
qed

text \<open>
  The pid file.  When no call fails other than writes that are interrupted or write only some of
  the bytes, the file is left holding exactly the pid in decimal, whatever it held before and wherever
  its descriptor stood, and no other file changes.
\<close>

lemma write_pid_ok:
  assumes "c_fds c fd = Some f" "\<not> of_append f" "p_script (c_proc c) = []" "Wr_err \<notin> set (c_writes c)"
    "0 \<le> pid" "pid < 2 ^ 31"
  shows "\<exists>c'. write_pid (int fd) pid c = Cop_go () c' \<and>
           c_files c' = (c_files c)(of_name f \<mapsto> show_int pid)"
proof -
  let ?c = "seek_start fd (truncate_file fd c)"
  have q: "p_script (c_proc (truncate_file fd c)) = []"
    using assms(1,3) by (simp add: truncate_file_def)
  have len: "length (show_int pid) < 32"
    using length_show_nat [of "nat pid" 10] assms(5,6) nat_less_iff [of pid "10 ^ 10"]
    by (simp add: show_int_def)
  have c: "c_fds ?c fd = Some (f\<lparr>of_off := 0\<rparr>)" "c_files ?c = (c_files c)(of_name f \<mapsto> [])"
    "c_writes ?c = c_writes c"
    using assms(1) by (simp_all add: seek_start_def truncate_file_def)
  then obtain c' where "write_text fd (c_writes c) (show_int pid) ?c = (True, c')"
    "c_files c' = (c_files c)(of_name f \<mapsto> show_int pid)"
    using write_text_ok [of ?c fd "f\<lparr>of_off := 0\<rparr>" "[]" "c_writes c" "show_int pid"] assms(2,4) by auto
  then show ?thesis using assms(3) q len c(3) by (simp add: write_pid_def cop_try_quiet Let_def)
qed

lemma write_pid_ok_witness:
  "\<exists>c'. write_pid 3 4711
      (a_cop\<lparr>c_fds := [3 \<mapsto> \<lparr>of_name = ''p'', of_off = 7, of_append = False\<rparr>],
             c_files := [''p'' \<mapsto> ''1234567''], c_writes := [Wrote 0, Wr_intr, Wrote 1]\<rparr>) = Cop_go () c' \<and>
     c_files c' = [''p'' \<mapsto> ''1234567'', ''p'' \<mapsto> show_int 4711]"
  using write_pid_ok [of "a_cop\<lparr>c_fds := [3 \<mapsto> \<lparr>of_name = ''p'', of_off = 7, of_append = False\<rparr>],
             c_files := [''p'' \<mapsto> ''1234567''], c_writes := [Wrote 0, Wr_intr, Wrote 1]\<rparr>" 3
      "\<lparr>of_name = ''p'', of_off = 7, of_append = False\<rparr>" 4711]
  by (simp add: a_cop_def a_process_def)

end
