(* ===== verification/Ach_Tool.thy ===== *)
theory Ach_Tool
  imports Ach_Frames Ach_Lifecycle
begin

text \<open>
  What the command-line programs share: how a part of a program can end, and the buffered streams of
  the C library over the streams of the message layer.
\<close>

section \<open>Ways to end\<close>

text \<open>A part of the program goes on, exits, aborts, waits for ever or crashes.\<close>

datatype ('a, 'w) tool =
    P_go 'a 'w
  | P_exit int 'w
  | P_abort 'w
  | P_block 'w
  | P_crash c_fault 'w

primrec p_then :: "('a, 'w) tool \<Rightarrow> ('a \<Rightarrow> 'w \<Rightarrow> ('b, 'w) tool) \<Rightarrow> ('b, 'w) tool" where
  "p_then (P_go x w) f = f x w"
| "p_then (P_exit n w) f = P_exit n w"
| "p_then (P_abort w) f = P_abort w"
| "p_then (P_block w) f = P_block w"
| "p_then (P_crash e w) f = P_crash e w"

lemma p_then_cong [fundef_cong]:
  "m = m' \<Longrightarrow> (\<And>x w. m' = P_go x w \<Longrightarrow> f x w = g x w) \<Longrightarrow> p_then m f = p_then m' g"
  by (cases m') auto

definition p_of :: "'a outcome \<Rightarrow> ('a \<Rightarrow> 'w \<Rightarrow> ('b, 'w) tool) \<Rightarrow> 'w \<Rightarrow> ('b, 'w) tool" where
  "p_of m f w = (case m of Ret x \<Rightarrow> f x w | Blocked \<Rightarrow> P_block w | Fault e \<Rightarrow> P_crash e w)"

definition p_assert :: "nat \<Rightarrow> bool \<Rightarrow> 'w \<Rightarrow> (unit, 'w) tool" where
  "p_assert line b w = (if b then P_go () w else P_crash (Assert_failed line) w)"

lemma p_then_go:
  "p_then m f = P_go y u \<longleftrightarrow> (\<exists>z v. m = P_go z v \<and> f z v = P_go y u)"
  by (cases m) auto

lemma p_of_go: "p_of m f w = P_go y u \<longleftrightarrow> (\<exists>x. m = Ret x \<and> f x w = P_go y u)"
  by (cases m) (simp_all add: p_of_def)

lemma p_assert_go: "p_assert line b w = P_go u w' \<longleftrightarrow> b \<and> w' = w"
  by (auto simp: p_assert_def)

lemmas go_simps = p_then_go p_of_go p_assert_go Let_def

section \<open>Streams of the C library\<close>

lemma sys_read_positive: "sys_read n s = (r, bs, s') \<Longrightarrow> 0 < r \<Longrightarrow> 0 < n \<and> bs \<noteq> [] \<and> nat r = length bs"
  by (induction n s rule: sys_read.induct) (auto split: if_splits)

text \<open>\<open>fread\<close> of single bytes: it ends short at the end of the stream or at an error.\<close>

function fread :: "nat \<Rightarrow> in_stream \<Rightarrow> byte list \<times> in_stream" where
  "fread n s =
     (if n = 0 then ([], s)
      else case sys_read n s of
             (r, bs, s') \<Rightarrow>
               if 0 < r then let (more, s'') = fread (n - nat r) s' in (bs @ more, s'')
               else ([], s'))"
  by pat_completeness auto
termination
  by (relation "measure fst") (auto dest!: sym [of "(_, _, _)"] sys_read_positive)

declare fread.simps [simp del]

text \<open>
  \<open>fwrite\<close> followed by \<open>fflush\<close>, and whether both succeed: the bytes go out until a call fails.  At
  which of the two the failure shows makes no difference to the program.
\<close>

function emit :: "byte list \<Rightarrow> out_stream \<Rightarrow> bool \<times> out_stream" where
  "emit bs s =
     (if bs = [] then (True, s)
      else case sys_write bs s of
             (r, s') \<Rightarrow> if 0 < r then emit (drop (nat r) bs) s' else (False, s'))"
  by pat_completeness auto
termination
  by (relation "measure (length \<circ> fst)") auto

declare emit.simps [simp del]

text \<open>What is left to read; reading uses some of it up.\<close>

primrec in_weight :: "in_event \<Rightarrow> nat" where
  "in_weight (In_data bs) = Suc (length bs)"
| "in_weight (In_err e) = 1"

definition in_left :: "in_stream \<Rightarrow> nat" where
  "in_left s = sum_list (map in_weight s)"

lemma sys_read_left:
  "sys_read n s = (r, bs, s') \<Longrightarrow> in_left s' \<le> in_left s \<and> (0 < r \<longrightarrow> in_left s' < in_left s)"
  by (induction n s rule: sys_read.induct) (auto simp: in_left_def split: if_splits)

lemma fread_left: "fread n s = (bs, s') \<Longrightarrow> in_left s' \<le> in_left s \<and> (bs \<noteq> [] \<longrightarrow> in_left s' < in_left s)"
proof (induction n s arbitrary: bs s' rule: fread.induct)
  case (1 n s)
  obtain r b s1 where r: "sys_read n s = (r, b, s1)" by (cases "sys_read n s") auto
  note l = sys_read_left [OF r]
  show ?case
  proof (cases "0 < r")
    case True
    obtain more s2 where m: "fread (n - nat r) s1 = (more, s2)" by force
    have n: "n \<noteq> 0" using sys_read_positive [OF r True] by simp
    have "bs = b @ more" "s' = s2" using 1(2) r m True n by (simp_all add: fread.simps [of n s])
    with 1(1) [OF n r [symmetric] refl True m] l True show ?thesis by force
  next
    case False
    then show ?thesis using 1(2) r l by (auto simp: fread.simps [of n s] split: if_splits)
  qed
qed

lemma fread_pending:
  "pending s = bs @ rest \<Longrightarrow> length bs = n \<Longrightarrow> \<exists>s'. fread n s = (bs, s') \<and> pending s' = rest"
proof (induction n s arbitrary: bs rule: fread.induct)
  case (1 n s)
  show ?case
  proof (cases "n = 0")
    case False
    then have "pending s \<noteq> []" using 1(2,3) by auto
    then obtain k s1 where k: "sys_read n s = (int k, take k (pending s), s1)" "0 < k" "k \<le> n"
      "pending s1 = drop k (pending s)" using sys_read_pending [of n s] False by auto
    have "pending s1 = drop k bs @ rest" "length (drop k bs) = n - k" using k 1(2,3) by auto
    then obtain s2 where "fread (n - k) s1 = (drop k bs, s2)" "pending s2 = rest"
      using 1(1) [OF False k(1) [symmetric] refl, of "drop k bs"] k(2) by auto
    moreover have "take k (pending s) = take k bs" using k(3) 1(2,3) by simp
    ultimately show ?thesis using k False by (simp add: fread.simps [of n s])
  qed (use 1(2,3) in \<open>simp add: fread.simps\<close>)
qed

lemma sys_read_end: "pending s = [] \<Longrightarrow> \<exists>r s'. sys_read n s = (r, [], s') \<and> r \<le> 0"
  by (induction n s rule: sys_read.induct) (auto split: if_splits)

lemma fread_end: "pending s = [] \<Longrightarrow> 0 < n \<Longrightarrow> \<exists>s'. fread n s = ([], s')"
  using sys_read_end [of s n] by (auto simp: fread.simps [of n s])

lemma emit_ok:
  "no_out_errors s \<Longrightarrow> \<exists>s'. emit bs s = (True, s') \<and> no_out_errors s' \<and> out_bytes s' = out_bytes s @ bs"
proof (induction bs s rule: emit.induct)
  case (1 bs s)
  show ?case
  proof (cases "bs = []")
    case False
    then obtain k s1 where k: "sys_write bs s = (int k, s1)" "0 < k" "k \<le> length bs"
      "no_out_errors s1" "out_bytes s1 = out_bytes s @ take k bs" using sys_write_ok 1(2) by blast
    from 1(1) [OF False k(1) [symmetric]] k obtain s2 where
      "emit (drop k bs) s1 = (True, s2)" "no_out_errors s2" "out_bytes s2 = (out_bytes s @ take k bs) @ drop k bs"
      by auto
    then show ?thesis using False k(1,2) by (simp add: emit.simps [of bs s])
  qed (use 1(2) in \<open>simp add: emit.simps\<close>)
qed

text \<open>
  A file open for writing: the bytes it has accepted, how many bytes each coming write accepts (all of
  them without an entry), and whether each coming flush fails.
\<close>

record out_file =
  lf_bytes :: "byte list"
  lf_writes :: "nat option list"
  lf_flushes :: "bool list"

definition file_write :: "byte list \<Rightarrow> 'a out_file_scheme \<Rightarrow> nat \<times> 'a out_file_scheme" where
  "file_write bs f =
     (case lf_writes f of
        Some n # ns \<Rightarrow> (min n (length bs), f\<lparr>lf_bytes := lf_bytes f @ take n bs, lf_writes := ns\<rparr>)
      | ns \<Rightarrow> (length bs, f\<lparr>lf_bytes := lf_bytes f @ bs, lf_writes := drop 1 ns\<rparr>))"

definition file_flush :: "'a out_file_scheme \<Rightarrow> bool \<times> 'a out_file_scheme" where
  "file_flush f = (case lf_flushes f of [] \<Rightarrow> (False, f) | b # bs \<Rightarrow> (b, f\<lparr>lf_flushes := bs\<rparr>))"

lemma file_write_good:
  "lf_writes f = [] \<Longrightarrow> file_write bs f = (length bs, f\<lparr>lf_bytes := lf_bytes f @ bs\<rparr>)"
  by (cases f) (simp add: file_write_def)

text \<open>
  \<open>fgets\<close> with room for \<open>n\<close> characters: a line with its newline, less when the room or the stream
  ends, nothing at the end of the stream or after an error.
\<close>

fun fgets_from :: "nat \<Rightarrow> in_stream \<Rightarrow> byte list option \<times> in_stream" where
  "fgets_from 0 s = (Some [], s)"
| "fgets_from (Suc n) s =
     (case sys_read 1 s of
        (r, bs, s') \<Rightarrow>
          if r < 0 then (None, s')
          else if r = 0 then (Some [], s')
          else if bs = [10] then (Some bs, s')
          else let (line, s'') = fgets_from n s' in (map_option (\<lambda>l. bs @ l) line, s''))"

definition fgets :: "nat \<Rightarrow> in_stream \<Rightarrow> byte list option \<times> in_stream" where
  "fgets n s = (case fgets_from n s of (line, s') \<Rightarrow> (if line = Some [] then None else line, s'))"

lemma fgets_left: "fgets n s = (Some line, s') \<Longrightarrow> in_left s' < in_left s"
proof -
  have le: "fgets_from n s = (line, s') \<Longrightarrow> in_left s' \<le> in_left s" for n s line s'
    by (induction n s arbitrary: line s' rule: fgets_from.induct)
       (fastforce split: prod.splits if_splits dest: sys_read_left)+
  assume a: "fgets n s = (Some line, s')"
  then have "fgets_from n s = (Some line, s')" "line \<noteq> []" by (auto simp: fgets_def split: prod.splits if_splits)
  then obtain k r bs s1 where k: "n = Suc k" "sys_read 1 s = (r, bs, s1)" "0 < r" "s' = s1 \<or> (\<exists>l. fgets_from k s1 = (l, s'))"
    by (cases n) (auto split: prod.splits if_splits)
  then show ?thesis using sys_read_left [OF k(2)] le by fastforce
qed

end
