(* ===== verification/Achlog.thy ===== *)
theory Achlog
  imports Ach_Tool Ach_Getopt Ach_CLib Ach_Util
begin

text \<open>
  The logger \<^verbatim>\<open>src/achlog.c\<close>: one thread for each channel writes the frames it reads to a file,
  after a header, until a signal arrives and the main thread cancels the reads.  What a thread finds in
  its channel at each read, and whether the main thread has cancelled the handle by then, is a script of
  the thread; how the writes to its file end is a script of the file.  The calls of the process fail as
  its script says.  The lines that the threads log are shown in the order in which the threads are
  joined, and texts of messages are shortened; the header of the file is not.
\<close>

section \<open>Files\<close>

text \<open>The file of a channel, or the filter that writes to it.\<close>

record log_file = out_file +
  lf_path :: string
  lf_filter :: "string option"

section \<open>The thread of a channel\<close>

record log_desc =
  ld_name :: string
  ld_chan :: ach_channel_t
  ld_shm :: ach_header_t
  ld_fout :: log_file

text \<open>What the main thread finds out before the threads start.\<close>

record log_env =
  now_ach :: "nat \<times> nat"
  now_real :: "nat \<times> nat"
  now_real_str :: string
  log_host :: string
  log_passwd :: "(string \<times> string) option"

record log_thread =
  lt_desc :: log_desc
  lt_heap :: "nat \<Rightarrow> byte list option"
  lt_proc :: proc

type_synonym 'a log_act = "('a, log_thread) tool"

text \<open>For each read: whether the handle is cancelled by then, the block, what happens while it waits.\<close>

type_synonym log_reads = "(bool \<times> ach_header_t \<times> wake list) list"

definition show_time :: "nat \<times> nat \<Rightarrow> string" where
  "show_time t = show_nat (fst t) @ ''.'' @ show_nat_width 9 (snd t)"

definition header_fields :: "string \<Rightarrow> log_env \<Rightarrow> string" where
  "header_fields name env =
     ''ACHLOG'' @ newline @
     ''channel-name: '' @ name @ newline @
     ''log-version: 0'' @ newline @
     ''log-time-ach: '' @ show_time (now_ach env) @ newline @
     ''log-time-real: '' @ show_time (now_real env) @ '' # '' @ now_real_str env @
     ''local-host: '' @ log_host env @ newline"

definition header_user :: "string \<times> string \<Rightarrow> string" where
  "header_user u = ''user: '' @ fst u @ '' # '' @ snd u @ newline"

definition lt_write :: "byte list \<Rightarrow> log_thread \<Rightarrow> nat \<times> log_thread" where
  "lt_write bs w =
     (let (n, f) = file_write bs (ld_fout (lt_desc w))
      in (n, w\<lparr>lt_desc := (lt_desc w)\<lparr>ld_fout := f\<rparr>\<rparr>))"

definition lt_log :: "string \<Rightarrow> log_thread \<Rightarrow> log_thread" where
  "lt_log msg w = w\<lparr>lt_proc := ACH_LOG LOG_ERR (msg @ ld_name (lt_desc w)) (lt_proc w)\<rparr>"

definition lt_flush :: "log_thread \<Rightarrow> log_thread" where
  "lt_flush w =
     (let (failed, f) = file_flush (ld_fout (lt_desc w)); w = w\<lparr>lt_desc := (lt_desc w)\<lparr>ld_fout := f\<rparr>\<rparr>
      in if failed then lt_log ''Could not flush file '' w else w)"

text \<open>The results of the writes of the header are not looked at.\<close>

definition write_header :: "log_env \<Rightarrow> log_thread \<Rightarrow> log_thread" where
  "write_header env w =
     (let w = snd (lt_write (ascii (header_fields (ld_name (lt_desc w)) env)) w);
          w = (case log_passwd env of None \<Rightarrow> w | Some u \<Rightarrow> snd (lt_write (ascii (header_user u)) w));
          w = snd (lt_write (ascii (''.'' @ newline)) w)
      in lt_flush w)"

definition lt_alloc :: "nat \<Rightarrow> log_thread \<Rightarrow> ach_pipe_frame_t log_act" where
  "lt_alloc n w = p_of (ach_pipe_alloc (lt_heap w) n) P_go w"

text \<open>Writing \<open>n\<close> bytes of the frame; whether they were all written.\<close>

definition write_frame :: "nat \<Rightarrow> ach_pipe_frame_t \<Rightarrow> log_thread \<Rightarrow> bool log_act" where
  "write_frame n frame w =
     (if length (frame_bytes frame) < n then P_crash Out_of_bounds w
      else let (s, w) = lt_write (take n (frame_bytes frame)) w
           in if s \<noteq> n then P_go False (lt_log ''Could not write frame to '' w) else P_go True w)"

fun worker_loop :: "bool \<Rightarrow> nat \<Rightarrow> ach_pipe_frame_t \<Rightarrow> log_reads \<Rightarrow> log_thread \<Rightarrow> unit log_act" where
  "worker_loop opt_last cap frame [] w = P_block w"
| "worker_loop opt_last cap frame ((cancelled, shm, wakes) # es) w =
     (let chan = ld_chan (lt_desc w)
      in p_of (ach_get 0 (chan\<lparr>ch_cancel := ch_cancel chan \<or> cancelled\<rparr>) shm (pf_data frame) (of_nat cap) 0 None
                 (ACH_O_WAIT OR (if opt_last then ACH_O_LAST else 0)) wakes) (\<lambda>g w.
         let w = w\<lparr>lt_desc := (lt_desc w)\<lparr>ld_chan := g_chan g, ld_shm := g_shm g\<rparr>\<rparr>;
             frame = frame\<lparr>pf_data := g_buf g\<rparr>; frame_size = unat (g_frame_size g)
         in if g_status g = ACH_OVERFLOW
            then p_then (p_assert 132 (frame_size > cap) w) (\<lambda>_ w.
                 p_then (lt_alloc frame_size w) (\<lambda>frame w.
                 worker_loop opt_last frame_size frame es w))
            else if g_status g = ACH_MISSED_FRAME \<or> g_status g = ACH_OK
            then let frame = ach_pipe_set_size frame (g_frame_size g)
                 in p_then (write_frame (16 + frame_size) frame w) (\<lambda>ok w.
                    if ok then worker_loop opt_last cap frame es w else P_go () w)
            else if g_status g = ACH_CANCELED then P_go () w
            else P_go () (lt_log ''Could not get frame from '' w)) w)"

definition worker :: "bool \<Rightarrow> log_env \<Rightarrow> log_reads \<Rightarrow> log_thread \<Rightarrow> unit log_act" where
  "worker opt_last env es w =
     p_then (lt_alloc 512 (write_header env w)) (\<lambda>frame w.
     p_then (worker_loop opt_last 512 frame es w) (\<lambda>_ w.
     P_go () (lt_flush w)))"

section \<open>The main thread\<close>

record log_world =
  lw_os :: os_state
  lw_proc :: proc
  lw_heap :: "nat \<Rightarrow> byte list option"
  lw_fopen :: "string \<Rightarrow> (nat option list \<times> bool list) option"
  lw_descs :: "log_desc list"

record log_opts =
  lo_last :: bool
  lo_gzip :: bool

definition achlog_optstring :: string where "achlog_optstring = ''zlnh?V''"

text \<open>The case \<^verbatim>\<open>'v'\<close> is never reached, because the option string has no such letter.\<close>

definition achlog_option :: "opt_call \<Rightarrow> log_opts \<Rightarrow> log_world \<Rightarrow> (log_opts, log_world) tool" where
  "achlog_option oc opts w =
     (if fst oc = CHR ''v'' then P_go opts (w\<lparr>lw_proc := (lw_proc w)\<lparr>p_verbosity := p_verbosity (lw_proc w) + 1\<rparr>\<rparr>)
      else if fst oc = CHR ''l'' then P_go (opts\<lparr>lo_last := True\<rparr>) w
      else if fst oc = CHR ''n'' then P_go (opts\<lparr>lo_last := False\<rparr>) w
      else if fst oc = CHR ''z'' then P_go (opts\<lparr>lo_gzip := True\<rparr>) w
      else P_exit EXIT_SUCCESS w)"

fun achlog_options :: "opt_call list \<Rightarrow> log_opts \<Rightarrow> log_world \<Rightarrow> (log_opts, log_world) tool" where
  "achlog_options [] opts w = P_go opts w"
| "achlog_options (oc # ocs) opts w = p_then (achlog_option oc opts w) (achlog_options ocs)"

text \<open>A helper of the process layer, on the process of the program.\<close>

definition lw_run :: "(proc \<Rightarrow> 'a run) \<Rightarrow> log_world \<Rightarrow> ('a, log_world) tool" where
  "lw_run f w =
     (case f (lw_proc w) of Exit c p \<Rightarrow> P_exit c (w\<lparr>lw_proc := p\<rparr>) | Go x p \<Rightarrow> P_go x (w\<lparr>lw_proc := p\<rparr>))"

definition lw_die :: "string \<Rightarrow> log_world \<Rightarrow> ('a, log_world) tool" where
  "lw_die msg = lw_run (ACH_DIE msg)"

text \<open>A system call that ends the program when it fails, and one whose failure is logged.\<close>

definition lw_must :: "string \<Rightarrow> log_world \<Rightarrow> (unit, log_world) tool" where
  "lw_must msg = lw_run (\<lambda>p. let (failed, p) = call_fails p in if failed then ACH_DIE msg p else Go () p)"

definition lw_try :: "int \<Rightarrow> string \<Rightarrow> log_world \<Rightarrow> log_world" where
  "lw_try level msg w =
     (let (failed, p) = call_fails (lw_proc w)
      in w\<lparr>lw_proc := (if failed then ACH_LOG level msg p else p)\<rparr>)"

definition new_log_file :: "string \<Rightarrow> string option \<Rightarrow> nat option list \<times> bool list \<Rightarrow> log_file" where
  "new_log_file path prog s =
     \<lparr>lf_bytes = [], lf_writes = fst s, lf_flushes = snd s, lf_path = path, lf_filter = prog\<rparr>"

text \<open>A file opened for the standard output of a program, with the own standard output put back after.\<close>

definition log_filter :: "string \<Rightarrow> string \<Rightarrow> string \<Rightarrow> log_world \<Rightarrow> (log_file, log_world) tool" where
  "log_filter program channel ext w =
     (let buf = channel @ ext
      in case lw_fopen w buf of
           None \<Rightarrow> lw_die (''Could not open log file '' @ buf) w
         | Some s \<Rightarrow>
             p_then (lw_must ''Could not dup stdout'' w) (\<lambda>_ w.
             p_then (lw_must ''Could not dup output'' w) (\<lambda>_ w.
             p_then (lw_must (''Could not popen '' @ program) w) (\<lambda>_ w.
             p_then (lw_must ''Could not dup stdout back'' w) (\<lambda>_ w.
             let w = lw_try LOG_WARNING ''Could not close duplicate of stdout'' w;
                 w = lw_try LOG_WARNING ''Could not close duplicate of output file'' w
             in P_go (new_log_file buf (Some program) s) w)))))"

definition open_log :: "bool \<Rightarrow> string \<Rightarrow> log_world \<Rightarrow> (log_file, log_world) tool" where
  "open_log gzip name w =
     (if gzip then log_filter ''gzip -c'' name ''.gz'' w
      else case lw_fopen w name of
             None \<Rightarrow> lw_die (''Could not open log file for '' @ name) w
           | Some s \<Rightarrow> P_go (new_log_file name None s) w)"

definition open_channel :: "bool \<Rightarrow> string \<Rightarrow> log_world \<Rightarrow> (unit, log_world) tool" where
  "open_channel gzip name w =
     p_of (ach_open no_handle name None (lw_os w)) (\<lambda>(r, chan, os) w.
       let w = w\<lparr>lw_os := os\<rparr>
       in if r \<noteq> ACH_OK
          then lw_die (''Could not open channel '' @ name @ '': '' @ ach_result_to_string (ach_status_code r)) w
          else case Option.bind (ch_shm chan) (block_at os) of
                 None \<Rightarrow> P_crash Unmapped w
               | Some shm \<Rightarrow>
                   p_then (open_log gzip name w) (\<lambda>f w.
                   P_go () (w\<lparr>lw_descs := lw_descs w @ [\<lparr>ld_name = name, ld_chan = chan, ld_shm = shm, ld_fout = f\<rparr>]\<rparr>))) w"

fun open_channels :: "bool \<Rightarrow> string list \<Rightarrow> log_world \<Rightarrow> (unit, log_world) tool" where
  "open_channels gzip [] w = P_go () w"
| "open_channels gzip (name # names) w =
     p_then (open_channel gzip name w) (\<lambda>_ w. open_channels gzip names w)"

text \<open>The part of the gecos field before the first comma, as \<open>strtok\<close> leaves it.\<close>

definition gecos_name :: "string \<Rightarrow> string" where
  "gecos_name s =
     takeWhile (\<lambda>c. c = CHR '','') s @ takeWhile (\<lambda>c. c \<noteq> CHR '','') (dropWhile (\<lambda>c. c = CHR '','') s)"

definition log_facts :: "log_env \<Rightarrow> log_world \<Rightarrow> (log_env, log_world) tool" where
  "log_facts env w =
     p_then (lw_must ''Could not get time'' w) (\<lambda>_ w.
     p_then (lw_must ''Could not get time'' w) (\<lambda>_ w.
     P_go (env\<lparr>log_passwd := map_option (\<lambda>(n, g). (n, gecos_name g)) (log_passwd env)\<rparr>)
       (lw_try LOG_ERR ''Could not get host name'' w)))"

fun start_workers :: "log_desc list \<Rightarrow> log_world \<Rightarrow> (unit, log_world) tool" where
  "start_workers [] w = P_go () w"
| "start_workers (d # ds) w =
     p_then (lw_must ''Couldn't start worker thread'' w) (\<lambda>_ w. start_workers ds w)"

definition cancel_attr :: ach_cancel_attr_t where
  "cancel_attr = ach_cancel_attr_init\<lparr>async_unsafe := True\<rparr>"

text \<open>Cancelling the reads of each channel; the blocks are those found then.\<close>

fun cancel_workers :: "(log_desc \<times> ach_header_t) list \<Rightarrow> log_world \<Rightarrow> (unit, log_world) tool" where
  "cancel_workers [] w = P_go () w"
| "cancel_workers ((d, shm) # ds) w =
     p_of (ach_cancel 1 (ld_chan d) shm (Some cancel_attr) True) (\<lambda>_ w. cancel_workers ds w) w"

text \<open>
  Waiting for a thread: it has run from the state it was started in, and what the main thread did to
  its handle meanwhile is in its reads.
\<close>

definition lw_join :: "bool \<Rightarrow> log_env \<Rightarrow> log_reads \<Rightarrow> log_desc \<Rightarrow> log_world \<Rightarrow> (log_desc, log_world) tool" where
  "lw_join opt_last env es d w =
     (case worker opt_last env es \<lparr>lt_desc = d, lt_heap = lw_heap w, lt_proc = lw_proc w\<rparr> of
        P_go _ t \<Rightarrow> P_go (lt_desc t) (w\<lparr>lw_proc := lt_proc t\<rparr>)
      | P_exit c t \<Rightarrow> P_exit c (w\<lparr>lw_proc := lt_proc t\<rparr>)
      | P_abort t \<Rightarrow> P_abort (w\<lparr>lw_proc := lt_proc t\<rparr>)
      | P_block t \<Rightarrow> P_block (w\<lparr>lw_proc := lt_proc t\<rparr>)
      | P_crash e t \<Rightarrow> P_crash e (w\<lparr>lw_proc := lt_proc t\<rparr>))"

fun join_workers ::
  "log_opts \<Rightarrow> log_env \<Rightarrow> (log_desc \<times> log_reads) list \<Rightarrow> log_world \<Rightarrow> (log_desc list, log_world) tool" where
  "join_workers opts env [] w = P_go [] w"
| "join_workers opts env ((d, es) # ds) w =
     p_then (lw_join (lo_last opts) env es d w) (\<lambda>d w.
     p_then (lw_must ''Couldn't join worker thread'' w) (\<lambda>_ w.
     let w = (if lo_gzip opts then lw_try LOG_ERR (''Could not pclose output for '' @ ld_name d) w else w)
     in p_then (join_workers opts env ds w) (\<lambda>ds w. P_go (d # ds) w)))"

definition log_sigs :: "int list" where "log_sigs = [SIGTERM, SIGINT]"

text \<open>
  The arguments after the words of the command line: whether the watchdog runs the program, the facts
  for the headers, the signal that ends it, and for each channel the block that the cancellation finds
  and the reads of its thread.
\<close>

definition achlog_main ::
  "string list \<Rightarrow> bool \<Rightarrow> log_env \<Rightarrow> int \<Rightarrow> (ach_header_t \<times> log_reads) list \<Rightarrow> log_world \<Rightarrow>
   (int, log_world) tool" where
  "achlog_main args achcop env arrived runs w =
     (let w = (if achcop then w\<lparr>lw_proc := (lw_proc w)\<lparr>p_notify := p_ppid (lw_proc w)\<rparr>\<rparr> else w);
          (ocs, names) = getopt_all achlog_optstring args
      in p_then (achlog_options ocs \<lparr>lo_last = False, lo_gzip = False\<rparr> w) (\<lambda>opts w.
         if names = [] then lw_die ''No channels to log'' w
         else p_then (lw_run (ach_sig_block_dummy log_sigs) w) (\<lambda>_ w.
              p_then (open_channels (lo_gzip opts) names w) (\<lambda>_ w.
              p_then (log_facts env w) (\<lambda>env w.
              let descs = lw_descs w
              in p_then (start_workers descs w) (\<lambda>_ w.
                 p_then (lw_run (\<lambda>p. ach_sig_wait log_sigs arrived (ach_notify ACH_SIG_OK p)) w) (\<lambda>_ w.
                 p_then (cancel_workers (zip descs (map fst runs)) w) (\<lambda>_ w.
                 p_then (join_workers opts env (zip descs (map snd runs)) w) (\<lambda>ds w.
                 P_go 0 (w\<lparr>lw_descs := ds\<rparr>))))))))))"

section \<open>Facts\<close>

text \<open>A thread whose allocations and writes succeed.\<close>

definition log_machine :: "log_thread \<Rightarrow> bool" where
  "log_machine w \<longleftrightarrow> (\<forall>n. \<exists>bs. lt_heap w n = Some bs \<and> n \<le> length bs) \<and>
     lf_writes (ld_fout (lt_desc w)) = [] \<and> lf_flushes (ld_fout (lt_desc w)) = []"

abbreviation logged_bytes :: "log_thread \<Rightarrow> byte list" where
  "logged_bytes w \<equiv> lf_bytes (ld_fout (lt_desc w))"

lemma lt_write_good:
  "log_machine w \<Longrightarrow> lt_write bs w =
     (length bs, w\<lparr>lt_desc := (lt_desc w)\<lparr>ld_fout := (ld_fout (lt_desc w))\<lparr>lf_bytes := logged_bytes w @ bs\<rparr>\<rparr>\<rparr>)"
  by (simp add: lt_write_def file_write_good log_machine_def)

lemma lt_flush_good: "log_machine w \<Longrightarrow> lt_flush w = w"
  by (simp add: lt_flush_def file_flush_def log_machine_def)

lemma lt_alloc_good:
  assumes "log_machine w" "n < 2 ^ 32"
  shows "\<exists>frame. lt_alloc n w = P_go frame w \<and> send_buffer n frame"
  using alloc_buffer [of "lt_heap w" n] assms
  by (auto simp: log_machine_def lt_alloc_def p_of_def send_buffer_def pipe_buffer_def)

text \<open>
  The reads of a thread that finds one block after the other: a frame that does not fit is read again
  into a larger buffer.
\<close>

fun fitting_reads :: "nat \<Rightarrow> ach_channel_t \<Rightarrow> ach_header_t list \<Rightarrow> log_reads" where
  "fitting_reads cap chan [] = []"
| "fitting_reads cap chan (shm # shms) =
     (let n = length (snd (next_frame chan shm))
      in if n \<le> cap then (False, shm, []) # fitting_reads cap (advance chan shm) shms
         else (False, shm, []) # (False, shm, []) # fitting_reads n (advance chan shm) shms)"

definition logging :: "proc \<Rightarrow> nat \<Rightarrow> nat \<times> ach_pipe_frame_t \<times> log_thread \<Rightarrow> bool" where
  "logging p n s \<longleftrightarrow>
     (case s of (cap, frame, w) \<Rightarrow>
        lt_proc w = p \<and> n < 2 ^ 32 \<and> send_buffer cap frame \<and> log_machine w \<and> \<not> ch_cancel (ld_chan (lt_desc w)))"

lemma worker_fits:
  assumes "logging p n (cap, frame, w)" "feeds n (ld_chan (lt_desc w)) (shm # shms) (m # ms)" "length m \<le> cap"
  shows "\<exists>frame' w'. worker_loop False cap frame ((False, shm, []) # es) w = worker_loop False cap frame' es w' \<and>
           logging p n (cap, frame', w') \<and> ld_chan (lt_desc w') = advance (ld_chan (lt_desc w)) shm \<and>
           logged_bytes w' = logged_bytes w @ pipe_bytes m"
proof -
  let ?chan = "ld_chan (lt_desc w)"
  have a: "n < 2 ^ 32" "send_buffer cap frame" "log_machine w" "\<not> ch_cancel ?chan" "lt_proc w = p"
    using assms(1) by (simp_all add: logging_def)
  have c: "length (pf_data frame) = cap" "cap < 2 ^ 32" using a(2) by (simp_all add: send_buffer_def pipe_buffer_def)
  have f: "feeds cap ?chan [shm] [m]" using assms(2,3) by simp
  have sz: "unat (of_nat (length m) :: size_t) = length m"
    using c(2) assms(3) by (simp add: unsigned_of_nat take_bit_nat_eq_self)
  obtain st where g: "ach_get 0 ?chan shm (pf_data frame) (of_nat cap) 0 None ACH_O_WAIT [] =
      Ret \<lparr>g_status = st, g_chan = advance ?chan shm, g_shm = shm,
           g_buf = m @ drop (length m) (pf_data frame), g_frame_size = of_nat (length m)\<rparr>"
    "st = ACH_OK \<or> st = ACH_MISSED_FRAME"
    using get_next [OF f a(4) c] by blast
  define frame' where "frame' = ach_pipe_set_size (frame\<lparr>pf_data := m @ drop (length m) (pf_data frame)\<rparr>) (of_nat (length m))"
  note b = filled_buffer [OF a(2) assms(3), folded frame'_def]
  define w1 where "w1 = w\<lparr>lt_desc := (lt_desc w)\<lparr>ld_chan := advance ?chan shm, ld_shm := shm\<rparr>\<rparr>"
  have w1: "log_machine w1" "logged_bytes w1 = logged_bytes w" using a(3) by (simp_all add: w1_def log_machine_def)
  define w2 where "w2 = snd (lt_write (pipe_bytes m) w1)"
  have "write_frame (16 + length m) frame' w1 = P_go True w2"
    using b(4,5) w1(1) by (simp add: write_frame_def lt_write_good w2_def pipe_bytes_def)
  then have "worker_loop False cap frame ((False, shm, []) # es) w = worker_loop False cap frame' es w2"
    using g a(4) sz by (auto simp: p_of_def Let_def w1_def frame'_def)
  moreover have "logging p n (cap, frame', w2)" "ld_chan (lt_desc w2) = advance ?chan shm"
    "logged_bytes w2 = logged_bytes w @ pipe_bytes m"
    using a b(1) w1 by (simp_all add: w2_def lt_write_good logging_def log_machine_def)
      (simp_all add: w1_def advance_def Let_def)
  ultimately show ?thesis by blast
qed

lemma worker_grows:
  assumes "logging p n (cap, frame, w)" "feeds n (ld_chan (lt_desc w)) (shm # shms) (m # ms)" "cap < length m"
  shows "\<exists>frame' w'. worker_loop False cap frame ((False, shm, []) # es) w = worker_loop False (length m) frame' es w' \<and>
           logging p n (length m, frame', w') \<and> ld_chan (lt_desc w') = ld_chan (lt_desc w) \<and>
           logged_bytes w' = logged_bytes w"
proof -
  let ?chan = "ld_chan (lt_desc w)"
  have a: "n < 2 ^ 32" "send_buffer cap frame" "log_machine w" "\<not> ch_cancel ?chan" "lt_proc w = p"
    using assms(1) by (simp_all add: logging_def)
  have c: "length (pf_data frame) = cap" using a(2) by (simp add: send_buffer_def pipe_buffer_def)
  have m: "length m < 2 ^ 32" using assms(2) a(1) by simp
  have sz: "unat (of_nat (length m) :: size_t) = length m" using m by (simp add: unsigned_of_nat take_bit_nat_eq_self)
  note g = get_overflow [OF assms(2) a(4) c assms(3) a(1), of 0]
  let ?w = "w\<lparr>lt_desc := (lt_desc w)\<lparr>ld_chan := ?chan, ld_shm := shm\<rparr>\<rparr>"
  have w: "log_machine ?w" using a(3) by (simp add: log_machine_def)
  obtain frame' where f: "lt_alloc (length m) ?w = P_go frame' ?w" "send_buffer (length m) frame'"
    using lt_alloc_good [OF w m] by blast
  have "worker_loop False cap frame ((False, shm, []) # es) w = worker_loop False (length m) frame' es ?w"
    using g a(4) sz f(1) assms(3) by (auto simp: p_of_def Let_def p_assert_def)
  moreover have "logging p n (length m, frame', ?w)" using a w f(2) by (simp add: logging_def)
  ultimately show ?thesis by (intro exI [of _ frame'] exI [of _ ?w]) simp
qed

text \<open>
  The thread is a source of frames that ends when it is cancelled: its state is the size of the buffer,
  the buffer and the thread.
\<close>

definition log_from ::
  "ach_header_t \<Rightarrow> ach_header_t list \<Rightarrow> nat \<times> ach_pipe_frame_t \<times> log_thread \<Rightarrow> unit log_act" where
  "log_from stop shms s =
     (case s of (cap, frame, w) \<Rightarrow>
        worker_loop False cap frame (fitting_reads cap (ld_chan (lt_desc w)) shms @ [(True, stop, [])]) w)"

definition log_ended :: "proc \<Rightarrow> unit log_act \<Rightarrow> byte list \<Rightarrow> bool" where
  "log_ended p r bs \<longleftrightarrow> (\<exists>w'. r = P_go () w' \<and> log_machine w' \<and> lt_proc w' = p \<and> logged_bytes w' = bs)"

lemma log_stop:
  assumes "logging p n (cap, frame, w)" "at_rest stop"
  shows "log_ended p (log_from stop [] (cap, frame, w)) (logged_bytes w)"
  using assms get_cancelled [OF assms(2)]
  by (simp add: log_from_def log_ended_def p_of_def Let_def logging_def log_machine_def)

lemma log_frame:
  assumes "logging p n (cap, frame, w)" "feeds n (ld_chan (lt_desc w)) (shm # shms) (m # ms)"
  shows "\<exists>s'. log_from stop (shm # shms) (cap, frame, w) = log_from stop shms s' \<and> logging p n s' \<and>
           ld_chan (lt_desc (snd (snd s'))) = advance (ld_chan (lt_desc w)) shm \<and>
           logged_bytes (snd (snd s')) = logged_bytes w @ pipe_bytes m"
proof -
  let ?chan = "ld_chan (lt_desc w)"
  let ?rest = "\<lambda>c. fitting_reads c (advance ?chan shm) shms @ [(True, stop, [])]"
  have m: "length (snd (next_frame ?chan shm)) = length m" using assms(2) by simp
  show ?thesis
  proof (cases "length m \<le> cap")
    case True
    from worker_fits [OF assms this, of "?rest cap"] obtain frame' w' where
      "worker_loop False cap frame ((False, shm, []) # ?rest cap) w = worker_loop False cap frame' (?rest cap) w'"
      "logging p n (cap, frame', w')" "ld_chan (lt_desc w') = advance ?chan shm"
      "logged_bytes w' = logged_bytes w @ pipe_bytes m" by blast
    with True m show ?thesis by (intro exI [of _ "(cap, frame', w')"]) (simp add: log_from_def Let_def)
  next
    case False
    let ?n = "length m"
    from worker_grows [OF assms, of "(False, shm, []) # ?rest ?n"] False obtain f1 w1 where
      g: "worker_loop False cap frame ((False, shm, []) # (False, shm, []) # ?rest ?n) w =
            worker_loop False ?n f1 ((False, shm, []) # ?rest ?n) w1"
      "logging p n (?n, f1, w1)" "ld_chan (lt_desc w1) = ?chan" "logged_bytes w1 = logged_bytes w" by auto
    from worker_fits [OF g(2), of shm shms m ms "?rest ?n"] assms(2) g(3) obtain frame' w' where
      "worker_loop False ?n f1 ((False, shm, []) # ?rest ?n) w1 = worker_loop False ?n frame' (?rest ?n) w'"
      "logging p n (?n, frame', w')" "ld_chan (lt_desc w') = advance ?chan shm"
      "logged_bytes w' = logged_bytes w1 @ pipe_bytes m" by auto
    with g False m show ?thesis by (intro exI [of _ "(?n, frame', w')"]) (simp add: log_from_def Let_def)
  qed
qed

interpretation logger: frame_source pipe_bytes "log_from stop" "\<lambda>n s. at_rest stop \<and> logging p n s"
  "\<lambda>s. ld_chan (lt_desc (snd (snd s)))" "\<lambda>s. logged_bytes (snd (snd s))" "log_ended p" for stop p
proof unfold_locales
  fix n and s :: "nat \<times> ach_pipe_frame_t \<times> log_thread" and shm shms m ms
  obtain cap frame w where s: "s = (cap, frame, w)" by (cases s)
  assume a: "at_rest stop \<and> logging p n s"
  then show "log_ended p (log_from stop [] s) (logged_bytes (snd (snd s)))" using log_stop [of p n cap frame w stop] by (simp add: s)
  assume "feeds n (ld_chan (lt_desc (snd (snd s)))) (shm # shms) (m # ms)"
  with a log_frame [of p n cap frame w shm shms m ms stop]
  show "\<exists>s'. log_from stop (shm # shms) s = log_from stop shms s' \<and> (at_rest stop \<and> logging p n s') \<and>
      ld_chan (lt_desc (snd (snd s'))) = advance (ld_chan (lt_desc (snd (snd s)))) shm \<and>
      logged_bytes (snd (snd s')) = logged_bytes (snd (snd s)) @ pipe_bytes m"
    by (simp add: s)
qed

text \<open>The header as a whole.\<close>

definition header_text :: "string \<Rightarrow> log_env \<Rightarrow> string" where
  "header_text name env =
     header_fields name env @ (case log_passwd env of None \<Rightarrow> [] | Some u \<Rightarrow> header_user u) @ ''.'' @ newline"

lemma write_header_good:
  assumes "log_machine w"
  shows "\<exists>w'. write_header env w = w' \<and> log_machine w' \<and> ld_chan (lt_desc w') = ld_chan (lt_desc w) \<and>
           lt_proc w' = lt_proc w \<and>
           logged_bytes w' = logged_bytes w @ ascii (header_text (ld_name (lt_desc w)) env)"
proof -
  have step: "log_machine (snd (lt_write bs v)) \<and> lt_proc (snd (lt_write bs v)) = lt_proc v \<and> ld_chan (lt_desc (snd (lt_write bs v))) = ld_chan (lt_desc v) \<and>
      logged_bytes (snd (lt_write bs v)) = logged_bytes v @ bs" if "log_machine v" for bs v
    using that by (simp add: lt_write_good) (simp add: log_machine_def)
  show ?thesis using assms
    by (cases "log_passwd env") (simp_all add: write_header_def Let_def step lt_flush_good header_text_def ascii_def)
qed

lemma worker_log:
  assumes "log_machine w" "\<not> ch_cancel (ld_chan (lt_desc w))" "feeds n (ld_chan (lt_desc w)) shms ms"
    and "n < 2 ^ 32" "at_rest stop"
  shows "\<exists>w'. worker False env (fitting_reads 512 (ld_chan (lt_desc w)) shms @ [(True, stop, [])]) w = P_go () w' \<and>
           lt_proc w' = lt_proc w \<and> logged_bytes w' = logged_bytes w @ ascii (header_text (ld_name (lt_desc w)) env) @ concat (map pipe_bytes ms)"
proof -
  obtain w1 where h: "write_header env w = w1" "log_machine w1" "ld_chan (lt_desc w1) = ld_chan (lt_desc w)"
    "lt_proc w1 = lt_proc w" "logged_bytes w1 = logged_bytes w @ ascii (header_text (ld_name (lt_desc w)) env)"
    using write_header_good [OF assms(1), of env] by blast
  obtain frame where f: "lt_alloc 512 w1 = P_go frame w1" "send_buffer 512 frame"
    using lt_alloc_good [OF h(2), of 512] by auto
  have "logging (lt_proc w) n (512, frame, w1)" using assms(2,4) h f(2) by (simp add: logging_def)
  with logger.source_all [of stop "lt_proc w" n "(512, frame, w1)" shms ms] assms(3,5) h(3)
  obtain w2 where l: "worker_loop False 512 frame (fitting_reads 512 (ld_chan (lt_desc w)) shms @ [(True, stop, [])]) w1 = P_go () w2"
    "log_machine w2" "lt_proc w2 = lt_proc w" "logged_bytes w2 = logged_bytes w1 @ concat (map pipe_bytes ms)"
    by (auto simp: log_ended_def log_from_def)
  then show ?thesis using h f(1) by (simp add: worker_def lt_flush_good)
qed

text \<open>
  The main thread waits for all its threads: when each was fed with messages and then cancelled, every
  file is complete.
\<close>

definition log_job :: "log_env \<Rightarrow> log_desc \<times> log_reads \<Rightarrow> byte list \<Rightarrow> bool" where
  "log_job env job out \<longleftrightarrow>
     (\<exists>n shms ms stop. snd job = fitting_reads 512 (ld_chan (fst job)) shms @ [(True, stop, [])] \<and>
        lf_bytes (ld_fout (fst job)) = [] \<and> lf_writes (ld_fout (fst job)) = [] \<and> lf_flushes (ld_fout (fst job)) = [] \<and>
        \<not> ch_cancel (ld_chan (fst job)) \<and> feeds n (ld_chan (fst job)) shms ms \<and> n < 2 ^ 32 \<and> at_rest stop \<and>
        out = ascii (header_text (ld_name (fst job)) env) @ concat (map pipe_bytes ms))"

lemma join_job:
  assumes "log_job env (d, es) out" "\<forall>n. \<exists>bs. lw_heap w n = Some bs \<and> n \<le> length bs"
  shows "\<exists>d'. lw_join False env es d w = P_go d' w \<and> lf_bytes (ld_fout d') = out"
proof -
  obtain n shms ms stop where j: "es = fitting_reads 512 (ld_chan d) shms @ [(True, stop, [])]" "lf_bytes (ld_fout d) = []"
    "lf_writes (ld_fout d) = []" "lf_flushes (ld_fout d) = []" "\<not> ch_cancel (ld_chan d)" "feeds n (ld_chan d) shms ms"
    "n < 2 ^ 32" "at_rest stop" "out = ascii (header_text (ld_name d) env) @ concat (map pipe_bytes ms)"
    using assms(1) by (auto simp: log_job_def)
  let ?t = "\<lparr>lt_desc = d, lt_heap = lw_heap w, lt_proc = lw_proc w\<rparr>"
  have "log_machine ?t" using assms(2) j(3,4) by (simp add: log_machine_def)
  from worker_log [OF this, of n shms ms stop env] j(5-8) obtain t' where
    "worker False env es ?t = P_go () t'" "lt_proc t' = lw_proc w" "logged_bytes t' = out" using j(1,2,9) by auto
  then show ?thesis by (simp add: lw_join_def)
qed

lemma join_all:
  assumes "list_all2 (log_job env) jobs outs" "\<forall>n. \<exists>bs. lw_heap w n = Some bs \<and> n \<le> length bs"
    and "p_script (lw_proc w) = []" "\<not> lo_last opts" "\<not> lo_gzip opts"
  shows "\<exists>ds. join_workers opts env jobs w = P_go ds w \<and> map (\<lambda>d. lf_bytes (ld_fout d)) ds = outs"
  using assms(1)
proof (induction rule: list_all2_induct)
  case (Cons job jobs out outs)
  obtain d es where j: "job = (d, es)" by (cases job)
  obtain d' where "lw_join False env es d w = P_go d' w" "lf_bytes (ld_fout d') = out"
    using join_job [OF Cons.hyps(1) [unfolded j] assms(2)] by blast
  moreover have "lw_must msg w = P_go () w" for msg using assms(3) by (simp add: lw_must_def lw_run_def)
  ultimately show ?case using Cons.IH assms(4,5) by (auto simp: j)
qed simp

end
