(* ===== verification/Achpipe.thy ===== *)
theory Achpipe
  imports Complex_Main Ach_Tool Ach_Getopt
begin

text \<open>
  The program \<^verbatim>\<open>src/achpipe-bin.c\<close>, which turns a stream of frames into puts on a channel and
  the frames of a channel into a stream.  Standard input and output are the streams of the message
  layer; what the channel holds at each read, when a signal has arrived, and which calls fail are
  scripts.  The texts of messages are shortened.  The time between frames is not modelled, only that a
  frequency was asked for; the number of the option is a rational.
\<close>

section \<open>The state\<close>

datatype nap = Nap_done | Nap_intr | Nap_err

record pipe_world =
  pw_os :: os_state
  pw_chan :: ach_channel_t
  pw_in :: in_stream
  pw_out :: out_stream
  pw_shift :: "uint32 \<Rightarrow> nat \<Rightarrow> uint32"
  pw_heap :: "nat \<Rightarrow> byte list option"
  pw_stops :: "bool list"
  pw_naps :: "nap list"
  pw_verbosity :: int
  pw_err :: "string list"

type_synonym 'a pipe_act = "('a, pipe_world) tool"

text \<open>Whether a signal has arrived by the next test of \<^verbatim>\<open>sig_received\<close>.\<close>

definition sig_seen :: "pipe_world \<Rightarrow> bool \<times> pipe_world" where
  "sig_seen w = (case pw_stops w of [] \<Rightarrow> (False, w) | b # bs \<Rightarrow> (b, w\<lparr>pw_stops := bs\<rparr>))"

definition verbprintf :: "int \<Rightarrow> string \<Rightarrow> pipe_world \<Rightarrow> pipe_world" where
  "verbprintf level msg w =
     (if level \<le> pw_verbosity w then w\<lparr>pw_err := pw_err w @ [''achpipe: '' @ msg]\<rparr> else w)"

definition hard_assert :: "bool \<Rightarrow> string \<Rightarrow> pipe_world \<Rightarrow> unit pipe_act" where
  "hard_assert test msg w =
     (if test then P_go () w else P_abort (w\<lparr>pw_err := pw_err w @ [''ERR: '' @ msg]\<rparr>))"

section \<open>Input and sleeping\<close>

definition pw_fread :: "nat \<Rightarrow> pipe_world \<Rightarrow> byte list \<times> pipe_world" where
  "pw_fread n w = (let (bs, s) = fread n (pw_in w) in (bs, w\<lparr>pw_in := s\<rparr>))"

fun relsleep_from :: "nap list \<Rightarrow> pipe_world \<Rightarrow> unit pipe_act" where
  "relsleep_from [] w = P_go () (w\<lparr>pw_naps := []\<rparr>)"
| "relsleep_from (x # xs) w =
     (case x of
        Nap_done \<Rightarrow> P_go () (w\<lparr>pw_naps := xs\<rparr>)
      | Nap_intr \<Rightarrow> relsleep_from xs w
      | Nap_err \<Rightarrow> P_crash (Assert_failed 126) (w\<lparr>pw_naps := xs\<rparr>))"

definition relsleep :: "pipe_world \<Rightarrow> unit pipe_act" where
  "relsleep w = relsleep_from (pw_naps w) w"

section \<open>Channels and frames\<close>

definition INIT_BUF_SIZE :: nat where "INIT_BUF_SIZE = 512"

definition pw_alloc :: "nat \<Rightarrow> pipe_world \<Rightarrow> ach_pipe_frame_t pipe_act" where
  "pw_alloc n w = p_of (ach_pipe_alloc (pw_heap w) n) P_go w"

definition pw_open :: "string \<Rightarrow> pipe_world \<Rightarrow> ach_status_t pipe_act" where
  "pw_open name w =
     p_of (ach_open (pw_chan w) name None (pw_os w))
       (\<lambda>(r, chan, os) w. P_go r (w\<lparr>pw_chan := chan, pw_os := os\<rparr>)) w"

definition pw_close :: "pipe_world \<Rightarrow> ach_status_t pipe_act" where
  "pw_close w =
     p_of (ach_close (pw_chan w) (pw_os w))
       (\<lambda>(r, chan, os) w. P_go r (w\<lparr>pw_chan := chan, pw_os := os\<rparr>)) w"

text \<open>A call on the open channel and its block.\<close>

definition on_channel ::
  "(ach_channel_t \<Rightarrow> ach_header_t \<Rightarrow> ('a \<times> ach_channel_t \<times> ach_header_t) outcome) \<Rightarrow> pipe_world \<Rightarrow>
   'a pipe_act" where
  "on_channel f w =
     (case ch_shm (pw_chan w) of
        None \<Rightarrow> P_crash Unmapped w
      | Some k \<Rightarrow>
          (case block_at (pw_os w) k of
             None \<Rightarrow> P_crash Unmapped w
           | Some shm \<Rightarrow>
               p_of (f (pw_chan w) shm)
                 (\<lambda>(r, chan, shm) w. P_go r (w\<lparr>pw_chan := chan, pw_os := set_block k shm (pw_os w)\<rparr>)) w))"

section \<open>Publishing\<close>

text \<open>Making sure the buffer can hold \<open>cnt\<close> bytes.\<close>

definition publish_fit ::
  "nat \<Rightarrow> nat \<Rightarrow> ach_pipe_frame_t \<Rightarrow> pipe_world \<Rightarrow> (nat \<times> ach_pipe_frame_t) pipe_act" where
  "publish_fit cnt cap frame w =
     (if cnt > cap then p_then (pw_alloc cnt w) (\<lambda>frame w. P_go (cnt, frame) w) else P_go (cap, frame) w)"

text \<open>
  Reading a frame from the stream: whether there was one, its size, the size of the buffer and the
  buffer.
\<close>

definition publish_read ::
  "nat \<Rightarrow> ach_pipe_frame_t \<Rightarrow> pipe_world \<Rightarrow> (bool \<times> uint64 \<times> nat \<times> ach_pipe_frame_t) pipe_act" where
  "publish_read cap frame w =
     (let (got, w) = pw_fread 16 w;
          frame = over_header got frame;
          w = verbprintf 2 (''Read '' @ show_nat (length got)) w
      in if length got \<noteq> 16 \<or> pf_magic frame \<noteq> pipe_magic then P_go (False, 0, cap, frame) w
         else let cnt = ach_pipe_get_size (pw_shift w) frame
              in p_then (publish_fit (unat cnt) cap frame w) (\<lambda>(cap, frame) w.
                 let (got, w) = pw_fread (unat cnt) w
                 in P_go (length got = unat cnt, cnt, cap, over_data got frame) w))"

definition publish_put :: "uint64 \<Rightarrow> ach_pipe_frame_t \<Rightarrow> pipe_world \<Rightarrow> unit pipe_act" where
  "publish_put cnt frame w =
     p_then (on_channel (\<lambda>chan shm.
         and_then (ach_put 0 chan shm (Some (pf_data frame)) cnt) (\<lambda>(r, shm). Ret (r, chan, shm))) w)
       (\<lambda>r w. hard_assert (r = ACH_OK) ''Invalid ach put'' w)"

lemma pw_in_same:
  "pw_in (verbprintf l msg w) = pw_in w"
  "pw_alloc n w = P_go frame w' \<Longrightarrow> pw_in w' = pw_in w"
  "on_channel f w = P_go x w' \<Longrightarrow> pw_in w' = pw_in w"
  "hard_assert b msg w = P_go () w' \<Longrightarrow> w' = w"
  by (auto simp: verbprintf_def pw_alloc_def on_channel_def p_of_def hard_assert_def
      split: option.splits outcome.splits if_splits)

lemma publish_read_left:
  assumes "publish_read cap frame w = P_go (True, x) w'"
  shows "in_left (pw_in w') < in_left (pw_in w)"
proof -
  obtain got s where r: "fread 16 (pw_in w) = (got, s)" by force
  have "got \<noteq> []" using assms r by (auto simp: publish_read_def pw_fread_def Let_def)
  then have "in_left s < in_left (pw_in w)" using fread_left [OF r] by simp
  moreover have "in_left (pw_in w') \<le> in_left s"
    using assms r
    by (auto simp: publish_read_def publish_fit_def pw_fread_def Let_def p_then_go pw_in_same
        dest!: pw_in_same(2) split: if_splits prod.splits dest: fread_left)
  ultimately show ?thesis by simp
qed

lemma publish_put_in: "publish_put cnt frame w = P_go () w' \<Longrightarrow> pw_in w' = pw_in w"
  by (auto simp: publish_put_def p_then_go dest!: pw_in_same(3,4))

lemma sig_seen_in: "sig_seen w = (b, w') \<Longrightarrow> pw_in w' = pw_in w"
  by (auto simp: sig_seen_def split: list.splits)

function publish_loop :: "nat \<Rightarrow> ach_pipe_frame_t \<Rightarrow> pipe_world \<Rightarrow> unit pipe_act" where
  "publish_loop cap frame w =
     (let (stop, w1) = sig_seen w
      in if stop then P_go () w1
         else p_then (publish_read cap frame w1) (\<lambda>p w2. case p of (ok, cnt, cap', frame') \<Rightarrow>
              if \<not> ok then P_go () w2
              else p_then (publish_put cnt frame' w2) (\<lambda>_ w3. publish_loop cap' frame' w3)))"
  by pat_completeness auto
termination
  by (relation "measure (\<lambda>(cap, frame, w). in_left (pw_in w))")
     (auto dest!: publish_read_left publish_put_in sig_seen_in [OF sym])

declare publish_loop.simps [simp del]

definition publish :: "string \<Rightarrow> pipe_world \<Rightarrow> unit pipe_act" where
  "publish chan_name w =
     p_then (pw_open chan_name (verbprintf 1 ''Publishing()'' w)) (\<lambda>r w.
     p_then (hard_assert (r = ACH_OK) (''Failed to open channel for publish: '' @ chan_name) w) (\<lambda>_ w.
     p_then (pw_alloc INIT_BUF_SIZE w) (\<lambda>frame w.
     p_then (publish_loop INIT_BUF_SIZE frame w) (\<lambda>_ w.
     p_then (pw_close w) (\<lambda>_ w. P_go () w)))))"

section \<open>Subscribing\<close>

record pipe_opts =
  opt_chan_name :: string
  opt_remote_chan_name :: string
  opt_pub :: bool
  opt_sub :: bool
  opt_last :: bool
  opt_sync :: bool
  opt_freq :: rat

text \<open>The flags of the read that a command of the synchronous mode asks for.\<close>

definition command_flags :: "byte list \<Rightarrow> uint32 option" where
  "command_flags cmd =
     (if cmd = ascii ''next'' then Some ACH_O_WAIT
      else if cmd = ascii ''last'' then Some (ACH_O_WAIT OR ACH_O_LAST)
      else if cmd = ascii ''poll'' then Some (ACH_O_COPY OR ACH_O_LAST)
      else None)"

definition read_flags :: "pipe_opts \<Rightarrow> byte list \<Rightarrow> uint32 option" where
  "read_flags opts cmd =
     (if opt_sync opts then command_flags cmd
      else if opt_last opts \<or> 0 < opt_freq opts then Some (ACH_O_WAIT OR ACH_O_LAST)
      else Some ACH_O_WAIT)"

text \<open>The block each read finds, with what happens while it waits.\<close>

type_synonym pipe_reads = "(ach_header_t \<times> wake list) list"

text \<open>
  Reading a frame from the channel, with a larger buffer when it does not fit.  In the first round of
  the program (\<open>t0\<close>) any other failure counts as a frame of no bytes.
\<close>

fun subscribe_get ::
  "uint32 option \<Rightarrow> bool \<Rightarrow> nat \<Rightarrow> ach_pipe_frame_t \<Rightarrow> pipe_reads \<Rightarrow> pipe_world \<Rightarrow>
   (nat \<times> ach_pipe_frame_t \<times> pipe_reads) pipe_act" where
  "subscribe_get None t0 cap frame es w =
     p_then (hard_assert False ''Invalid command'' w) (\<lambda>_ w. P_go (cap, frame, es) w)"
| "subscribe_get (Some flags) t0 cap frame [] w = P_block w"
| "subscribe_get (Some flags) t0 cap frame ((shm, wakes) # es) w =
     (case ch_shm (pw_chan w) of
        None \<Rightarrow> P_crash Unmapped w
      | Some k \<Rightarrow>
          p_of (ach_get 0 (pw_chan w) shm (pf_data frame) (of_nat cap) 0 None flags wakes) (\<lambda>g w.
            let w = w\<lparr>pw_chan := g_chan g, pw_os := set_block k (g_shm g) (pw_os w)\<rparr>;
                frame = frame\<lparr>pf_data := g_buf g\<rparr>
            in if g_status g = ACH_OVERFLOW
               then p_then (p_assert 444 (unat (g_frame_size g) > cap) w) (\<lambda>_ w.
                    p_then (pw_alloc (unat (g_frame_size g)) w) (\<lambda>frame w.
                    subscribe_get (Some flags) t0 (unat (g_frame_size g)) frame es w))
               else if g_status g = ACH_OK \<or> g_status g = ACH_MISSED_FRAME \<or> t0
               then P_go (cap, ach_pipe_set_size frame (g_frame_size g), es)
                      (verbprintf 2 ''Got ach frame'' w)
               else p_then (hard_assert False ''sub: ach_error'' w) (\<lambda>_ w. P_go (cap, frame, es) w)) w)"

text \<open>Writing the frame out; whether that succeeded.\<close>

definition subscribe_send :: "ach_pipe_frame_t \<Rightarrow> pipe_world \<Rightarrow> bool pipe_act" where
  "subscribe_send frame w =
     (let n = 16 + unat (ach_pipe_get_size (pw_shift w) frame)
      in if length (frame_bytes frame) < n then P_crash Out_of_bounds w
         else let (ok, s) = emit (take n (frame_bytes frame)) (pw_out w); w = w\<lparr>pw_out := s\<rparr>
              in P_go ok (if ok then verbprintf 2 ''Printed output'' w else w))"

text \<open>
  The command of the synchronous mode; four zero bytes otherwise.  The message that shows the command
  prints four characters without a terminator, so what follows them in the message is left open.
\<close>

definition read_command :: "pipe_opts \<Rightarrow> pipe_world \<Rightarrow> byte list pipe_act" where
  "read_command opts w =
     (if opt_sync opts
      then let (cmd, w) = pw_fread 4 w
           in p_then (hard_assert (length cmd = 4) ''Invalid command read'' w) (\<lambda>_ w.
              P_go cmd (verbprintf 2 ''Command'' w))
      else P_go [0, 0, 0, 0] w)"

lemma subscribe_get_shrinks:
  "subscribe_get flags t0 cap frame es w = P_go (cap', frame', es') w' \<Longrightarrow> length es' < length es"
  by (induction flags t0 cap frame es w rule: subscribe_get.induct)
     (fastforce simp: p_of_def p_then_go hard_assert_def Let_def
        split: option.splits outcome.splits if_splits)+

function subscribe_loop ::
  "pipe_opts \<Rightarrow> bool \<Rightarrow> nat \<Rightarrow> ach_pipe_frame_t \<Rightarrow> pipe_reads \<Rightarrow> pipe_world \<Rightarrow> unit pipe_act" where
  "subscribe_loop opts t0 cap frame es w =
     (let (stop, w1) = sig_seen w
      in if stop then P_go () w1
         else p_then (read_command opts w1) (\<lambda>cmd w2.
              p_then (subscribe_get (read_flags opts cmd) t0 cap frame es w2) (\<lambda>p w3. case p of (cap', frame', es') \<Rightarrow>
              p_then (subscribe_send frame' w3) (\<lambda>ok w4.
              if \<not> ok then P_go () w4
              else p_then (if 0 < opt_freq opts
                           then p_then (p_assert 477 (\<not> opt_sync opts) w4) (\<lambda>_ w. relsleep w)
                           else P_go () w4) (\<lambda>_ w5.
                   subscribe_loop opts False cap' frame' es' w5)))))"
  by pat_completeness auto
termination
  by (relation "measure (\<lambda>(opts, t0, cap, frame, es, w). length es)") (auto dest!: subscribe_get_shrinks)

declare subscribe_loop.simps [simp del]

definition subscribe :: "pipe_opts \<Rightarrow> pipe_reads \<Rightarrow> string \<Rightarrow> pipe_world \<Rightarrow> unit pipe_act" where
  "subscribe opts es chan_name w =
     (let w = verbprintf 1 ''Subscribing()'' w;
          w = verbprintf 1 (''Synchronous: '' @ (if opt_sync opts then ''yes'' else ''no'')) w
      in p_then (pw_open chan_name w) (\<lambda>r w.
         p_then (hard_assert (r = ACH_OK) (''Failed to open channel for subscribe: '' @ chan_name) w) (\<lambda>_ w.
         p_then (on_channel (ach_flush 0) w) (\<lambda>r w.
         p_then (hard_assert (r = ACH_OK) (''Failed to flush channel: '' @ chan_name) w) (\<lambda>_ w.
         p_then (pw_alloc INIT_BUF_SIZE w) (\<lambda>frame w.
         p_then (subscribe_loop opts True INIT_BUF_SIZE frame es w) (\<lambda>_ w.
         p_then (pw_close w) (\<lambda>_ w. P_go () w))))))))"

section \<open>The main program\<close>

definition achpipe_optstring :: string where "achpipe_optstring = ''p:s:z:vlcf:h?V''"

definition no_pipe_opts :: pipe_opts where
  "no_pipe_opts = \<lparr>opt_chan_name = [], opt_remote_chan_name = [], opt_pub = False, opt_sub = False,
     opt_last = False, opt_sync = False, opt_freq = 0\<rparr>"

text \<open>The name of a channel on the command line, refused when it is too long.\<close>

definition name_arg :: "string \<Rightarrow> (string \<Rightarrow> pipe_opts) \<Rightarrow> pipe_world \<Rightarrow> pipe_opts pipe_act" where
  "name_arg arg f w =
     p_then (hard_assert (length arg < ACH_CHAN_NAME_MAX - 1) ''Channel name argument to long'' w)
       (\<lambda>_ w. P_go (f arg) w)"

definition louder :: "pipe_world \<Rightarrow> pipe_world" where
  "louder w = w\<lparr>pw_verbosity := pw_verbosity w + 1\<rparr>"

text \<open>The case \<^verbatim>\<open>'z'\<close> has no \<open>break\<close> and falls through to \<^verbatim>\<open>'v'\<close>.\<close>

definition achpipe_option ::
  "(string \<Rightarrow> rat) \<Rightarrow> opt_call \<Rightarrow> pipe_opts \<Rightarrow> pipe_world \<Rightarrow> pipe_opts pipe_act" where
  "achpipe_option atof oc opts w =
     (case oc of
        (x, Some arg) \<Rightarrow>
          if x = CHR ''p'' then name_arg arg (\<lambda>s. opts\<lparr>opt_pub := True, opt_chan_name := s\<rparr>) w
          else if x = CHR ''s'' then name_arg arg (\<lambda>s. opts\<lparr>opt_sub := True, opt_chan_name := s\<rparr>) w
          else if x = CHR ''z''
          then p_then (name_arg arg (\<lambda>s. opts\<lparr>opt_remote_chan_name := s\<rparr>) w) (\<lambda>opts w. P_go opts (louder w))
          else if x = CHR ''f'' then P_go (opts\<lparr>opt_freq := atof arg\<rparr>) w
          else P_exit 0 w
      | (x, None) \<Rightarrow>
          if x = CHR ''v'' then P_go opts (louder w)
          else if x = CHR ''l'' then P_go (opts\<lparr>opt_last := True\<rparr>) w
          else if x = CHR ''c'' then P_go (opts\<lparr>opt_sync := True\<rparr>) w
          else P_exit 0 w)"

fun achpipe_options ::
  "(string \<Rightarrow> rat) \<Rightarrow> opt_call list \<Rightarrow> pipe_opts \<Rightarrow> pipe_world \<Rightarrow> pipe_opts pipe_act" where
  "achpipe_options atof [] opts w = P_go opts w"
| "achpipe_options atof (oc # ocs) opts w =
     p_then (achpipe_option atof oc opts w) (achpipe_options atof ocs)"

definition check_options :: "pipe_opts \<Rightarrow> pipe_world \<Rightarrow> unit pipe_act" where
  "check_options opts w =
     p_then (hard_assert (opt_chan_name opts \<noteq> []) ''must specify channel'' w) (\<lambda>_ w.
     p_then (hard_assert (\<not> (opt_pub opts \<and> opt_sub opts)) ''must specify publish or subscribe mode'' w) (\<lambda>_ w.
     p_then (hard_assert (opt_pub opts \<or> opt_sub opts) ''must specify publish xor subscribe mode'' w) (\<lambda>_ w.
     p_then (hard_assert (\<not> (0 > opt_freq opts \<or> 0 < opt_freq opts) \<or> \<not> opt_sync opts \<and> opt_sub opts)
               ''frequency only valid on async subscribe mode'' w) (\<lambda>_ w.
     hard_assert (opt_freq opts \<ge> 0) ''frequency must be positive'' w))))"

text \<open>Installing the handler for \<open>SIGTERM\<close> and \<open>SIGINT\<close>; \<open>fails\<close> says which call fails.\<close>

definition pipe_sighandler_install :: "bool \<times> bool \<Rightarrow> pipe_world \<Rightarrow> unit pipe_act" where
  "pipe_sighandler_install fails w =
     (if fst fails \<or> snd fails then P_abort (w\<lparr>pw_err := pw_err w @ [''Couldn't install handler'']\<rparr>)
      else P_go () w)"

definition achpipe_main ::
  "(string \<Rightarrow> rat) \<Rightarrow> string list \<Rightarrow> bool \<times> bool \<Rightarrow> pipe_reads \<Rightarrow> pipe_world \<Rightarrow> int pipe_act" where
  "achpipe_main atof args fails es w =
     p_then (achpipe_options atof (fst (getopt_all achpipe_optstring args)) no_pipe_opts w) (\<lambda>opts w.
     p_then (check_options opts w) (\<lambda>_ w.
     let w = verbprintf 1 (''Channel: '' @ opt_chan_name opts) w;
         w = verbprintf 1 (''Publish: '' @ (if opt_pub opts then ''yes'' else ''no'')) w;
         w = verbprintf 1 (''Subscribe: '' @ (if opt_sub opts then ''yes'' else ''no'')) w
     in p_then (pipe_sighandler_install fails w) (\<lambda>_ w.
        p_then (if opt_pub opts then publish (opt_chan_name opts) w
                else if opt_sub opts then subscribe opts es (opt_chan_name opts) w
                else P_crash (Assert_failed 608) w) (\<lambda>_ w.
        P_go 0 w))))"

end
