(* ===== verification/Achpipe_Forward.thy ===== *)
theory Achpipe_Forward
  imports Achpipe
begin

text \<open>
  What \<^verbatim>\<open>achpipe\<close> achieves: a subscriber writes the frames of its channel to its output, a
  publisher puts the frames of its input into its channel, and the two joined by a pipe carry the
  messages of one channel into another.
\<close>

section \<open>Publishing\<close>

definition pipe_machine :: "pipe_world \<Rightarrow> bool" where
  "pipe_machine w \<longleftrightarrow> (\<forall>k. pw_shift w 0 k = 0) \<and> (\<forall>n. \<exists>bs. pw_heap w n = Some bs \<and> n \<le> length bs) \<and>
     pw_stops w = []"

definition pipe_chan :: "pipe_world \<Rightarrow> nat \<Rightarrow> ach_header_t \<Rightarrow> bool" where
  "pipe_chan w k shm \<longleftrightarrow> ch_shm (pw_chan w) = Some k \<and> block_at (pw_os w) k = Some shm"

lemma verbprintf_fields [simp]:
  "pw_os (verbprintf l m w) = pw_os w" "pw_chan (verbprintf l m w) = pw_chan w"
  "pw_in (verbprintf l m w) = pw_in w" "pw_out (verbprintf l m w) = pw_out w"
  "pw_shift (verbprintf l m w) = pw_shift w" "pw_heap (verbprintf l m w) = pw_heap w"
  "pw_stops (verbprintf l m w) = pw_stops w"
  by (simp_all add: verbprintf_def)

lemma pw_alloc_good:
  assumes "pipe_machine w" "n < 2 ^ 32"
  shows "\<exists>frame. pw_alloc n w = P_go frame w \<and> pf_magic frame = pipe_magic \<and>
           size_bytes frame = size_field n \<and> length (pf_data frame) = n"
  using alloc_buffer [of "pw_heap w" n] assms by (auto simp: pipe_machine_def pw_alloc_def p_of_def)

lemma publish_fit_good:
  assumes "pipe_machine w" "pipe_buffer cap frame" "n < 2 ^ 32"
  shows "\<exists>cap' frame'. publish_fit n cap frame w = P_go (cap', frame') w \<and> pipe_buffer cap' frame' \<and> n \<le> cap'"
proof (cases "n > cap")
  case True
  obtain f where "pw_alloc n w = P_go f w" "pf_magic f = pipe_magic" "size_bytes f = size_field n"
    "length (pf_data f) = n" using pw_alloc_good [OF assms(1,3)] by blast
  with True show ?thesis by (simp add: publish_fit_def pipe_buffer_def)
qed (use assms(2) in \<open>simp add: publish_fit_def\<close>)

lemma publish_read_good:
  assumes "pipe_machine w" "pipe_buffer cap frame" "length m < 2 ^ 32" "pending (pw_in w) = pipe_bytes m @ rest"
  shows "\<exists>cap' frame' w'. publish_read cap frame w = P_go (True, of_nat (length m), cap', frame') w' \<and>
           pipe_buffer cap' frame' \<and> length m \<le> cap' \<and> take (length m) (pf_data frame') = m \<and>
           pipe_machine w' \<and> pw_chan w' = pw_chan w \<and> pw_os w' = pw_os w \<and> pending (pw_in w') = rest"
proof -
  let ?n = "length m" and ?head = "pipe_magic @ size_field (length m)"
  have n: "unat (of_nat ?n :: uint64) = ?n" using assms(3) by (simp add: unsigned_of_nat take_bit_nat_eq_self)
  obtain s1 where r1: "fread 16 (pw_in w) = (?head, s1)" "pending s1 = m @ rest"
    using fread_pending [of "pw_in w" ?head "m @ rest" 16] assms(4) by (auto simp: pipe_bytes_def)
  obtain s2 where r2: "fread ?n s1 = (m, s2)" "pending s2 = rest" using fread_pending [OF r1(2)] by auto
  let ?f = "over_header ?head frame"
  have f: "?f = frame\<lparr>pf_magic := pipe_magic, size_bytes := size_field ?n\<rparr>"
    using assms(2) by (simp add: over_header_def pipe_buffer_def)
  have sz: "ach_pipe_get_size (pw_shift w) ?f = of_nat ?n"
    using get_size_field [of "pw_shift w" ?n ?f] assms(1,3) f by (simp add: pipe_machine_def)
  let ?w1 = "verbprintf 2 (''Read '' @ show_nat 16) (w\<lparr>pw_in := s1\<rparr>)"
  have w1: "pipe_machine ?w1" using assms(1) by (simp add: pipe_machine_def)
  have "pipe_buffer cap ?f" using assms(2) f by (simp add: pipe_buffer_def)
  from publish_fit_good [OF w1 this assms(3)] obtain cap' frame' where
    c: "publish_fit ?n cap ?f ?w1 = P_go (cap', frame') ?w1" "pipe_buffer cap' frame'" "?n \<le> cap'" by blast
  have "publish_read cap frame w = P_go (True, of_nat ?n, cap', over_data m frame') (?w1\<lparr>pw_in := s2\<rparr>)"
    using c(1) r2(1) n by (simp add: publish_read_def pw_fread_def r1(1) sz Let_def) (simp add: f)
  moreover have "pipe_machine (?w1\<lparr>pw_in := s2\<rparr>)" using w1 by (simp add: pipe_machine_def)
  ultimately show ?thesis using c(2,3) r2(2) by (auto simp: pipe_buffer_def over_data_def)
qed

lemma publish_put_good:
  assumes "pipe_chan w k shm" "at_rest shm" "lseq shm + 1 < 2 ^ 64" "m \<noteq> []" "length m \<le> dsize shm"
    and "length m < 2 ^ 32" "length m \<le> length (pf_data frame)" "take (length m) (pf_data frame) = m"
  shows "\<exists>shm'. publish_put (of_nat (length m)) frame w = P_go () (w\<lparr>pw_os := set_block k shm' (pw_os w)\<rparr>) \<and>
           at_rest shm' \<and> frames shm' = keep (icnt shm) (dsize shm) (frames shm @ [(lseq shm + 1, m)]) \<and>
           icnt shm' = icnt shm \<and> dsize shm' = dsize shm \<and> lseq shm' = lseq shm + 1"
proof -
  have n: "unat (of_nat (length m) :: size_t) = length m"
    using assms(6) by (simp add: unsigned_of_nat take_bit_nat_eq_self)
  obtain shm' where p: "ach_put 0 (pw_chan w) shm (Some (pf_data frame)) (of_nat (length m)) = Ret (ACH_OK, shm')"
      "at_rest shm'" "frames shm' = keep (icnt shm) (dsize shm) (frames shm @ [(lseq shm + 1, m)])"
      "index_cnt shm' = index_cnt shm" "data_size shm' = data_size shm" "lseq shm' = lseq shm + 1"
    using ach_put_keep [of shm "of_nat (length m)" "pf_data frame" "pw_chan w" 0] assms n
    by (auto simp: pipe_chan_def)
  then have "publish_put (of_nat (length m)) frame w = P_go () (w\<lparr>pw_os := set_block k shm' (pw_os w)\<rparr>)"
    using assms(1) by (simp add: publish_put_def on_channel_def pipe_chan_def p_of_def hard_assert_def)
  with p show ?thesis by auto
qed

text \<open>The publisher is a sink: its state is the size of the buffer, the buffer and the world.\<close>

definition publishing :: "nat \<Rightarrow> nat \<times> ach_pipe_frame_t \<times> pipe_world \<Rightarrow> ach_header_t \<Rightarrow> bool" where
  "publishing k s shm \<longleftrightarrow>
     (case s of (cap, frame, w) \<Rightarrow> pipe_machine w \<and> pipe_buffer cap frame \<and> pipe_chan w k shm \<and> at_rest shm)"

definition published :: "nat \<Rightarrow> unit pipe_act \<Rightarrow> ach_header_t \<Rightarrow> bool" where
  "published k r shm \<longleftrightarrow> (\<exists>w'. r = P_go () w' \<and> pipe_chan w' k shm \<and> at_rest shm)"

lemma publish_end:
  assumes "publishing k (cap, frame, w) shm" "pending (pw_in w) = []"
  shows "published k (publish_loop cap frame w) shm"
proof -
  obtain s where s: "fread 16 (pw_in w) = ([], s)" using fread_end [OF assms(2)] by fastforce
  have "publish_loop cap frame w = P_go () (verbprintf 2 (''Read '' @ show_nat 0) (w\<lparr>pw_in := s\<rparr>))"
    using assms(1) s
    by (simp add: publish_loop.simps [of cap] publishing_def sig_seen_def pipe_machine_def publish_read_def
        pw_fread_def Let_def)
  then show ?thesis using assms(1) by (simp add: publishing_def published_def pipe_chan_def)
qed

lemma publish_frame:
  assumes "publishing k (cap, frame, w) shm" "message_ok (dsize shm) m" "lseq shm + 1 < 2 ^ 64"
    and "pending (pw_in w) = pipe_bytes m @ rest"
  shows "\<exists>cap' frame' w' shm'. publish_loop cap frame w = publish_loop cap' frame' w' \<and>
           publishing k (cap', frame', w') shm' \<and> pending (pw_in w') = rest \<and>
           frames shm' = keep (icnt shm) (dsize shm) (frames shm @ [(lseq shm + 1, m)]) \<and>
           icnt shm' = icnt shm \<and> dsize shm' = dsize shm \<and> lseq shm' = lseq shm + 1"
proof -
  have a: "pipe_machine w" "pipe_buffer cap frame" "pipe_chan w k shm" "at_rest shm"
    using assms(1) by (simp_all add: publishing_def)
  obtain cap1 frame1 w1 where r: "publish_read cap frame w = P_go (True, of_nat (length m), cap1, frame1) w1"
    "pipe_buffer cap1 frame1" "length m \<le> cap1" "take (length m) (pf_data frame1) = m" "pipe_machine w1"
    "pw_chan w1 = pw_chan w" "pw_os w1 = pw_os w" "pending (pw_in w1) = rest"
    using publish_read_good [OF a(1,2) _ assms(4)] assms(2) by (auto simp: message_ok_def)
  have "pipe_chan w1 k shm" using a(3) r(6,7) by (simp add: pipe_chan_def)
  then obtain shm1 where p: "publish_put (of_nat (length m)) frame1 w1 =
      P_go () (w1\<lparr>pw_os := set_block k shm1 (pw_os w1)\<rparr>)" "at_rest shm1"
    "frames shm1 = keep (icnt shm) (dsize shm) (frames shm @ [(lseq shm + 1, m)])"
    "icnt shm1 = icnt shm" "dsize shm1 = dsize shm" "lseq shm1 = lseq shm + 1"
    using publish_put_good [of w1 k shm m frame1] r a(4) assms(2,3) by (auto simp: pipe_buffer_def message_ok_def)
  let ?w2 = "w1\<lparr>pw_os := set_block k shm1 (pw_os w1)\<rparr>"
  have "publish_loop cap frame w = publish_loop cap1 frame1 ?w2"
    using a(1) r(1) p(1) by (simp add: publish_loop.simps [of cap] sig_seen_def pipe_machine_def)
  moreover have "publishing k (cap1, frame1, ?w2) shm1"
    using a(3) r(2,5-7) p(2) block_at_set_block [of "pw_os w1" k shm]
    by (auto simp: publishing_def pipe_chan_def pipe_machine_def)
  ultimately show ?thesis using r(8) p(3-6) by (intro exI [of _ cap1] exI [of _ frame1] exI [of _ ?w2] exI [of _ shm1]) auto
qed

definition publish_from :: "nat \<times> ach_pipe_frame_t \<times> pipe_world \<Rightarrow> unit pipe_act" where
  "publish_from s = (case s of (cap, frame, w) \<Rightarrow> publish_loop cap frame w)"

definition publish_input :: "nat \<times> ach_pipe_frame_t \<times> pipe_world \<Rightarrow> byte list \<Rightarrow> bool" where
  "publish_input s bs \<longleftrightarrow> pending (pw_in (snd (snd s))) = bs"

interpretation publisher: frame_sink pipe_bytes message_ok publish_from "publishing k" publish_input "published k" for k
proof unfold_locales
  fix s :: "nat \<times> ach_pipe_frame_t \<times> pipe_world" and shm m rest
  obtain cap frame w where s: "s = (cap, frame, w)" by (cases s)
  show "publishing k s shm \<Longrightarrow> at_rest shm" by (simp add: s publishing_def)
  show "publishing k s shm \<Longrightarrow> publish_input s [] \<Longrightarrow> published k (publish_from s) shm"
    by (simp add: s publish_input_def publish_from_def publish_end)
  assume "publishing k s shm" "message_ok (dsize shm) m" "lseq shm + 1 < 2 ^ 64"
    "publish_input s (pipe_bytes m @ rest)"
  from publish_frame [OF this(1) [unfolded s] this(2,3), of rest] this(4)
  show "\<exists>s' shm'. publish_from s = publish_from s' \<and> publishing k s' shm' \<and> publish_input s' rest \<and>
      frames shm' = keep (icnt shm) (dsize shm) (frames shm @ [(lseq shm + 1, m)]) \<and>
      icnt shm' = icnt shm \<and> dsize shm' = dsize shm \<and> lseq shm' = lseq shm + 1"
    by (auto simp: s publish_input_def publish_from_def)
qed

lemma publish_all:
  assumes "pipe_machine v" "pipe_buffer cap buf" "pipe_chan v k shm" "at_rest shm"
    and "list_all (message_ok (dsize shm)) ms" "lseq shm + length ms < 2 ^ 64"
    and "pending s = concat (map pipe_bytes ms)"
  shows "\<exists>v' shm'. publish_loop cap buf (v\<lparr>pw_in := s\<rparr>) = P_go () v' \<and> pipe_chan v' k shm' \<and> at_rest shm' \<and>
           frames shm' = keep (icnt shm) (dsize shm) (frames shm @ number (lseq shm) ms)"
proof -
  have "publishing k (cap, buf, v\<lparr>pw_in := s\<rparr>) shm"
    using assms(1-4) by (simp add: publishing_def pipe_machine_def pipe_chan_def)
  from publisher.sink_all [OF this assms(5,6)] assms(7) show ?thesis
    by (auto simp: publish_input_def publish_from_def published_def)
qed

section \<open>Subscribing\<close>

text \<open>A subscriber in the simple mode.\<close>

definition simple_mode :: "pipe_opts \<Rightarrow> bool" where
  "simple_mode opts \<longleftrightarrow> \<not> opt_sync opts \<and> \<not> opt_last opts \<and> opt_freq opts = 0"

definition quiet_reads :: "ach_header_t list \<Rightarrow> pipe_reads" where
  "quiet_reads shms = map (\<lambda>shm. (shm, [])) shms"

lemma subscribe_get_good:
  assumes "send_buffer cap frame" "ch_shm (pw_chan w) = Some k" "\<not> ch_cancel (pw_chan w)"
    and "feeds cap (pw_chan w) (shm # shms) (m # ms)"
  shows "\<exists>frame'. subscribe_get (Some ACH_O_WAIT) t0 cap frame ((shm, []) # es) w = P_go (cap, frame', es)
           (verbprintf 2 ''Got ach frame''
             (w\<lparr>pw_chan := advance (pw_chan w) shm, pw_os := set_block k shm (pw_os w)\<rparr>)) \<and>
           send_buffer cap frame' \<and> size_bytes frame' = size_field (length m) \<and>
           take (length m) (pf_data frame') = m \<and> length m \<le> cap"
proof -
  have b: "length (pf_data frame) = cap" "cap < 2 ^ 32" "length m \<le> cap"
    using assms(1,4) by (simp_all add: send_buffer_def pipe_buffer_def)
  obtain st where g: "ach_get 0 (pw_chan w) shm (pf_data frame) (of_nat cap) 0 None ACH_O_WAIT [] =
      Ret \<lparr>g_status = st, g_chan = advance (pw_chan w) shm, g_shm = shm,
           g_buf = m @ drop (length m) (pf_data frame), g_frame_size = of_nat (length m)\<rparr>"
    "st = ACH_OK \<or> st = ACH_MISSED_FRAME"
    using get_next [OF assms(4,3) b(1,2)] by blast
  then have "subscribe_get (Some ACH_O_WAIT) t0 cap frame ((shm, []) # es) w =
      P_go (cap, ach_pipe_set_size (frame\<lparr>pf_data := m @ drop (length m) (pf_data frame)\<rparr>) (of_nat (length m)), es)
        (verbprintf 2 ''Got ach frame''
          (w\<lparr>pw_chan := advance (pw_chan w) shm, pw_os := set_block k shm (pw_os w)\<rparr>))"
    using assms(2) by (auto simp: p_of_def Let_def)
  then show ?thesis using filled_buffer(1-3) [OF assms(1) b(3)] b(3) by blast
qed

lemma subscribe_send_good:
  assumes "send_buffer cap frame" "pipe_machine w" "no_out_errors (pw_out w)"
    and "size_bytes frame = size_field (length m)" "take (length m) (pf_data frame) = m" "length m \<le> cap"
  shows "\<exists>s. subscribe_send frame w = P_go True (verbprintf 2 ''Printed output'' (w\<lparr>pw_out := s\<rparr>)) \<and>
           no_out_errors s \<and> out_bytes s = out_bytes (pw_out w) @ pipe_bytes m"
proof -
  let ?n = "length m"
  have b: "length (pf_data frame) = cap" "?n < 2 ^ 32" "pf_magic frame = pipe_magic"
    using assms(1,6) by (simp_all add: send_buffer_def pipe_buffer_def)
  have n: "unat (of_nat ?n :: uint64) = ?n" using b(2) by (simp add: unsigned_of_nat take_bit_nat_eq_self)
  have sz: "ach_pipe_get_size (pw_shift w) frame = of_nat ?n"
    using get_size_field [of "pw_shift w" ?n frame] assms(2,4) b(2) by (simp add: pipe_machine_def)
  have "take (16 + ?n) (frame_bytes frame) = pipe_bytes m"
    using assms(4,5) b(3) by (simp add: frame_bytes_def pipe_bytes_def)
  moreover have "\<not> length (frame_bytes frame) < 16 + ?n"
    using assms(4,6) b(1,3) by (simp add: frame_bytes_def)
  ultimately show ?thesis
    using emit_ok [OF assms(3), of "pipe_bytes m"] n by (auto simp: subscribe_send_def sz Let_def)
qed

text \<open>The subscriber is a source: its state is the flag of the first round, the buffer and the world.\<close>

definition subscribing :: "pipe_opts \<Rightarrow> nat \<Rightarrow> nat \<Rightarrow> bool \<times> ach_pipe_frame_t \<times> pipe_world \<Rightarrow> bool" where
  "subscribing opts k cap s \<longleftrightarrow>
     (case s of (t0, frame, w) \<Rightarrow>
        simple_mode opts \<and> send_buffer cap frame \<and> pipe_machine w \<and> no_out_errors (pw_out w) \<and>
        ch_shm (pw_chan w) = Some k \<and> \<not> ch_cancel (pw_chan w))"

definition subscribe_from ::
  "pipe_opts \<Rightarrow> nat \<Rightarrow> ach_header_t list \<Rightarrow> bool \<times> ach_pipe_frame_t \<times> pipe_world \<Rightarrow> unit pipe_act" where
  "subscribe_from opts cap shms s =
     (case s of (t0, frame, w) \<Rightarrow> subscribe_loop opts t0 cap frame (quiet_reads shms) w)"

definition subscribed :: "unit pipe_act \<Rightarrow> byte list \<Rightarrow> bool" where
  "subscribed r bs \<longleftrightarrow> (\<exists>w'. r = P_block w' \<and> out_bytes (pw_out w') = bs)"

lemma subscribe_frame:
  assumes "subscribing opts k cap (t0, frame, w)" "feeds cap (pw_chan w) (shm # shms) (m # ms)"
  shows "\<exists>frame' w'. subscribe_loop opts t0 cap frame (quiet_reads (shm # shms)) w =
           subscribe_loop opts False cap frame' (quiet_reads shms) w' \<and>
           subscribing opts k cap (False, frame', w') \<and> pw_chan w' = advance (pw_chan w) shm \<and>
           out_bytes (pw_out w') = out_bytes (pw_out w) @ pipe_bytes m"
proof -
  have a: "simple_mode opts" "send_buffer cap frame" "pipe_machine w" "no_out_errors (pw_out w)"
    "ch_shm (pw_chan w) = Some k" "\<not> ch_cancel (pw_chan w)"
    using assms(1) by (simp_all add: subscribing_def)
  obtain f1 where g: "subscribe_get (Some ACH_O_WAIT) t0 cap frame ((shm, []) # quiet_reads shms) w =
      P_go (cap, f1, quiet_reads shms) (verbprintf 2 ''Got ach frame''
        (w\<lparr>pw_chan := advance (pw_chan w) shm, pw_os := set_block k shm (pw_os w)\<rparr>))"
    and f1: "send_buffer cap f1" "size_bytes f1 = size_field (length m)" "take (length m) (pf_data f1) = m"
      "length m \<le> cap"
    using subscribe_get_good [OF a(2,5,6) assms(2)] by blast
  let ?w1 = "verbprintf 2 ''Got ach frame''
        (w\<lparr>pw_chan := advance (pw_chan w) shm, pw_os := set_block k shm (pw_os w)\<rparr>)"
  have w1: "pipe_machine ?w1" "no_out_errors (pw_out ?w1)" using a(3,4) by (simp_all add: pipe_machine_def)
  obtain s where s: "subscribe_send f1 ?w1 = P_go True (verbprintf 2 ''Printed output'' (?w1\<lparr>pw_out := s\<rparr>))"
    "no_out_errors s" "out_bytes s = out_bytes (pw_out w) @ pipe_bytes m"
    using subscribe_send_good [OF f1(1) w1 f1(2-4)] by auto
  let ?w2 = "verbprintf 2 ''Printed output'' (?w1\<lparr>pw_out := s\<rparr>)"
  have "subscribe_loop opts t0 cap frame (quiet_reads (shm # shms)) w =
      subscribe_loop opts False cap f1 (quiet_reads shms) ?w2"
    using a(1,3) g s(1)
    by (simp add: subscribe_loop.simps [of opts t0] quiet_reads_def sig_seen_def pipe_machine_def
        read_command_def read_flags_def simple_mode_def)
  moreover have "subscribing opts k cap (False, f1, ?w2)"
    using a f1(1) s(2) by (simp add: subscribing_def pipe_machine_def advance_def Let_def)
  ultimately show ?thesis using s(3) by (intro exI [of _ f1] exI [of _ ?w2]) simp
qed

lemma subscribe_wait: "subscribing opts k cap s \<Longrightarrow> subscribed (subscribe_from opts cap [] s) (out_bytes (pw_out (snd (snd s))))"
  by (auto simp: subscribing_def subscribed_def subscribe_from_def subscribe_loop.simps [of opts] quiet_reads_def
      sig_seen_def pipe_machine_def read_command_def read_flags_def simple_mode_def)

text \<open>The size of the buffer is fixed before the run.\<close>

interpretation subscriber: frame_source pipe_bytes "subscribe_from opts cap" "\<lambda>n s. n = cap \<and> subscribing opts k cap s"
  "\<lambda>s. pw_chan (snd (snd s))" "\<lambda>s. out_bytes (pw_out (snd (snd s)))" subscribed for opts cap k
proof unfold_locales
  fix n and s :: "bool \<times> ach_pipe_frame_t \<times> pipe_world" and shm shms m ms
  obtain t0 frame w where s: "s = (t0, frame, w)" by (cases s)
  show "n = cap \<and> subscribing opts k cap s \<Longrightarrow>
      subscribed (subscribe_from opts cap [] s) (out_bytes (pw_out (snd (snd s))))"
    using subscribe_wait by blast
  assume "n = cap \<and> subscribing opts k cap s" "feeds n (pw_chan (snd (snd s))) (shm # shms) (m # ms)"
  then show "\<exists>s'. subscribe_from opts cap (shm # shms) s = subscribe_from opts cap shms s' \<and>
      (n = cap \<and> subscribing opts k cap s') \<and> pw_chan (snd (snd s')) = advance (pw_chan (snd (snd s))) shm \<and>
      out_bytes (pw_out (snd (snd s'))) = out_bytes (pw_out (snd (snd s))) @ pipe_bytes m"
    using subscribe_frame [of opts k cap t0 frame w shm shms m ms] by (fastforce simp: s subscribe_from_def)
qed

section \<open>Properties\<close>

text \<open>
  C9. From channel to channel.  Let one \<^verbatim>\<open>achpipe\<close> subscribe to a channel and find, read after
  read, unseen frames in it; let another, with another channel, read what the first wrote, in whatever
  pieces the pipe delivers it.  Then the first waits for more frames, and the second puts exactly these
  messages into its channel, in their order, and returns at the end of its input; its channel then
  holds the longest run of newest frames that fits.
\<close>

theorem achpipe_end_to_end:
  assumes sub: "simple_mode opts" "send_buffer n frame" "pipe_machine w" "pw_out w = \<lparr>out_events = evs, out_bytes = []\<rparr>"
      "no_out_errors (pw_out w)" "ch_shm (pw_chan w) = Some j" "\<not> ch_cancel (pw_chan w)"
      "feeds n (pw_chan w) shms ms"
    and pub: "pipe_machine v" "pipe_buffer cap buf" "pipe_chan v k shm" "at_rest shm"
      "\<forall>m\<in>set ms. m \<noteq> [] \<and> length m \<le> dsize shm \<and> length m < 2 ^ 32" "lseq shm + length ms < 2 ^ 64"
  shows "\<exists>w'. subscribe_loop opts t0 n frame (quiet_reads shms) w = P_block w' \<and>
           (\<forall>s. pending s = out_bytes (pw_out w') \<longrightarrow>
              (\<exists>v' shm'. publish_loop cap buf (v\<lparr>pw_in := s\<rparr>) = P_go () v' \<and> pipe_chan v' k shm' \<and>
                 at_rest shm' \<and>
                 frames shm' = keep (icnt shm) (dsize shm) (frames shm @ number (lseq shm) ms)))"
proof -
  have "subscribing opts j n (t0, frame, w)" using sub by (simp add: subscribing_def)
  with subscriber.source_all [of n n opts j "(t0, frame, w)" shms ms] sub(4,8)
  obtain w' where w': "subscribe_loop opts t0 n frame (quiet_reads shms) w = P_block w'"
    "out_bytes (pw_out w') = concat (map pipe_bytes ms)"
    by (auto simp: subscribe_from_def subscribed_def)
  have "list_all (message_ok (dsize shm)) ms" using pub(5) by (simp add: message_ok_def list_all_iff)
  from publish_all [OF pub(1-4) this pub(6)] w' show ?thesis by auto
qed

definition pipe_demo :: pipe_world where
  "pipe_demo = \<lparr>pw_os = empty_os\<lparr>os_objects := (\<lambda>k. if k = 0
       then Some \<lparr>o_len = 400, o_block = fresh_block ''a'' 2 4, o_mode = 0\<rparr> else None)\<rparr>,
     pw_chan = fresh_handle 0 400 3 ach_attr_init, pw_in = [], pw_out = \<lparr>out_events = [Out_accept 4], out_bytes = []\<rparr>,
     pw_shift = (\<lambda>w k. push_bit (k mod 32) w), pw_heap = (\<lambda>n. Some (replicate n 0)), pw_stops = [],
     pw_naps = [], pw_verbosity = 0, pw_err = []\<rparr>"

definition pipe_demo_frame :: ach_pipe_frame_t where
  "pipe_demo_frame = \<lparr>pf_magic = pipe_magic, size_bytes = replicate 8 0, pf_data = replicate 8 0\<rparr>"

lemma written_feed: "feeds 8 (fresh_handle 0 400 3 ach_attr_init) [written_block] [[1, 2, 3]]"
  using written_block_at_rest fresh_handle_ok [of written_block 0 400 3 ach_attr_init]
  by (simp add: written_block_fields written_block_frames next_frame_def pick_frame_def)
     (simp add: fresh_handle_def written_block_frames)

theorem achpipe_end_to_end_witness:
  "\<exists>w'. subscribe_loop no_pipe_opts True 8 pipe_demo_frame (quiet_reads [written_block]) pipe_demo = P_block w' \<and>
     (\<exists>v' shm'. publish_loop 8 pipe_demo_frame (pipe_demo\<lparr>pw_in := [In_data (out_bytes (pw_out w'))]\<rparr>) = P_go () v' \<and>
        pipe_chan v' 0 shm' \<and> frames shm' = [(1, [1, 2, 3])])"
proof -
  let ?chan = "fresh_handle 0 400 3 ach_attr_init" and ?b = "fresh_block ''a'' 2 4"
  have rest: "at_rest ?b" "frames ?b = []" "icnt ?b = 2" "dsize ?b = 8" "lseq ?b = 0"
    using fresh_block_at_rest [of 2 4 "''a''"] by (simp_all add: sizes_ok_def)
  have w: "pipe_machine pipe_demo" "pw_chan pipe_demo = ?chan" "pipe_chan pipe_demo 0 ?b"
    "no_out_errors (pw_out pipe_demo)" "pw_out pipe_demo = \<lparr>out_events = [Out_accept 4], out_bytes = []\<rparr>"
    "ch_shm ?chan = Some 0" "\<not> ch_cancel ?chan"
    by (simp_all add: pipe_demo_def pipe_machine_def pipe_chan_def block_at_def no_out_errors_def fresh_handle_def)
  have f: "send_buffer 8 pipe_demo_frame" "pipe_buffer 8 pipe_demo_frame" "simple_mode no_pipe_opts"
    by (simp_all add: send_buffer_def pipe_buffer_def pipe_demo_frame_def simple_mode_def no_pipe_opts_def)
  have k: "keep 2 8 ([] @ number 0 [[1, 2, 3]]) = [(1, [1, 2, 3])]" by (simp add: fits_def)
  have ms: "\<forall>m\<in>set [[1, 2, 3 :: byte]]. m \<noteq> [] \<and> length m \<le> dsize ?b \<and> length m < 2 ^ 32"
    "lseq ?b + length [[1, 2, 3 :: byte]] < 2 ^ 64"
    unfolding rest by simp_all
  note t = achpipe_end_to_end [OF f(3,1) w(1,5,4) w(6,7) [folded w(2)] written_feed [folded w(2)] w(1) f(2) w(3) rest(1) ms,
      of True, unfolded rest k]
  then obtain w' where w': "subscribe_loop no_pipe_opts True 8 pipe_demo_frame (quiet_reads [written_block]) pipe_demo = P_block w'"
    "\<forall>s. pending s = out_bytes (pw_out w') \<longrightarrow> (\<exists>v' shm'. publish_loop 8 pipe_demo_frame (pipe_demo\<lparr>pw_in := s\<rparr>) = P_go () v' \<and>
       pipe_chan v' 0 shm' \<and> at_rest shm' \<and> frames shm' = [(1, [1, 2, 3])])" by blast
  have "pending [In_data (out_bytes (pw_out w'))] = out_bytes (pw_out w')" by simp
  with w' show ?thesis by blast
qed

end
