(* ===== verification/Achlog_Replay.thy ===== *)
theory Achlog_Replay
  imports Achlog Achpipe_Forward
begin

text \<open>
  What a log is good for: the header of a log ends at the line that is a single dot, and
  \<^verbatim>\<open>achpipe\<close> puts what follows it back into a channel.
\<close>

section \<open>The end of the header\<close>

text \<open>What follows the first line that is a single dot.\<close>

function skip_header :: "byte list \<Rightarrow> byte list" where
  "skip_header bs =
     (case dropWhile (\<lambda>b. b \<noteq> 10) bs of
        [] \<Rightarrow> []
      | _ # rest \<Rightarrow> if takeWhile (\<lambda>b. b \<noteq> 10) bs = [46] then rest else skip_header rest)"
  by pat_completeness auto
termination
proof (relation "measure length", simp)
  fix bs rest :: "byte list" and b
  assume "dropWhile (\<lambda>b. b \<noteq> 10) bs = b # rest"
  then have "length (b # rest) \<le> length bs" by (metis length_dropWhile_le)
  then show "(rest, bs) \<in> measure length" by simp
qed

declare skip_header.simps [simp del]

lemma skip_line:
  assumes "10 \<notin> set l"
  shows "skip_header (l @ 10 # rest) = (if l = [46] then rest else skip_header rest)"
proof -
  have "dropWhile (\<lambda>b. b \<noteq> 10) (l @ 10 # rest) = 10 # rest" "takeWhile (\<lambda>b. b \<noteq> 10) (l @ 10 # rest) = l"
    using assms by (induction l) auto
  then show ?thesis by (subst skip_header.simps) simp
qed

text \<open>A text that stays on one line.\<close>

definition one_line :: "string \<Rightarrow> bool" where
  "one_line s \<longleftrightarrow> CHR 0x0A \<notin> set s"

lemma one_line_simps [simp]:
  "one_line []" "one_line (c # s) \<longleftrightarrow> c \<noteq> CHR 0x0A \<and> one_line s" "one_line (s @ t) \<longleftrightarrow> one_line s \<and> one_line t"
  by (auto simp: one_line_def)

lemma one_line_ascii: "one_line s \<Longrightarrow> 10 \<notin> set (ascii s)"
proof -
  have "(of_nat (of_char c) :: byte) = 10 \<Longrightarrow> c = CHR 0x0A" for c
  proof -
    assume "(of_nat (of_char c) :: byte) = 10"
    then have "unat (of_nat (of_char c) :: byte) = 10" by simp
    then have "(of_char c :: nat) = 10"
      by (simp add: unsigned_of_nat take_bit_nat_eq_self)
    then have "of_char c = (of_char (CHR 0x0A) :: nat)" by simp
    then show "c = CHR 0x0A" by (simp only: of_char_eq_iff)
  qed
  then show "one_line s \<Longrightarrow> 10 \<notin> set (ascii s)" by (auto simp: one_line_def ascii_def)
qed

lemma skip_text:
  assumes "one_line l" "l \<noteq> ''.''"
  shows "skip_header (ascii l @ 10 # rest) = skip_header rest"
proof -
  have "ascii l \<noteq> [46]"
  proof
    assume "ascii l = [46]"
    then obtain c where c: "l = [c]" "(of_nat (of_char c) :: byte) = 46" by (auto simp: ascii_def)
    then have "unat (of_nat (of_char c) :: byte) = 46" by simp
    then have "(of_char c :: nat) = of_char (CHR ''.'')" by (simp add: unsigned_of_nat take_bit_nat_eq_self)
    then show False using c(1) assms(2) by (simp only: of_char_eq_iff)
  qed
  then show ?thesis using skip_line [OF one_line_ascii [OF assms(1)]] by simp
qed

lemma one_line_show_nat: "one_line (show_nat n)"
  using show_nat_digits [of n] by (auto simp: one_line_def list_all_iff is_digit_def)

lemma one_line_time: "one_line (show_time t)"
  by (simp add: show_time_def show_nat_width_def one_line_show_nat) (simp add: one_line_def)

text \<open>The facts for the header as the C library and the system give them.\<close>

definition env_ok :: "log_env \<Rightarrow> bool" where
  "env_ok env \<longleftrightarrow>
     (\<exists>t. now_real_str env = t @ newline \<and> one_line t) \<and> one_line (log_host env) \<and>
     (case log_passwd env of None \<Rightarrow> True | Some u \<Rightarrow> one_line (fst u) \<and> one_line (snd u))"

lemma skip_lines:
  "list_all (\<lambda>l. one_line l \<and> l \<noteq> ''.'') ls \<Longrightarrow>
   skip_header (ascii (concat (map (\<lambda>l. l @ newline) ls) @ ''.'' @ newline) @ rest) = rest"
proof (induction ls)
  case Nil
  show ?case using skip_line [of "[46]" rest] by (simp add: ascii_def newline_def)
next
  case (Cons l ls)
  then show ?case using skip_text [of l] by simp
qed

lemma skip_header_text:
  assumes "one_line name" "env_ok env"
  shows "skip_header (ascii (header_text name env) @ rest) = rest"
proof -
  obtain t where t: "now_real_str env = t @ newline" "one_line t" using assms(2) by (auto simp: env_ok_def)
  let ?ls = "[''ACHLOG'', ''channel-name: '' @ name, ''log-version: 0'', ''log-time-ach: '' @ show_time (now_ach env),
      ''log-time-real: '' @ show_time (now_real env) @ '' # '' @ t, ''local-host: '' @ log_host env] @
      (case log_passwd env of None \<Rightarrow> [] | Some u \<Rightarrow> [''user: '' @ fst u @ '' # '' @ snd u])"
  have "header_text name env = concat (map (\<lambda>l. l @ newline) ?ls) @ ''.'' @ newline"
    by (cases "log_passwd env") (simp_all add: header_text_def header_fields_def header_user_def t(1))
  moreover have "list_all (\<lambda>l. one_line l \<and> l \<noteq> ''.'') ?ls"
    using assms t(2) by (cases "log_passwd env") (simp_all add: env_ok_def one_line_time)
  ultimately show ?thesis by (simp only: skip_lines)
qed

section \<open>Properties\<close>

text \<open>
  C10. Recording and replaying.  Let the thread of \<^verbatim>\<open>achlog\<close> for a channel find unseen frames in
  it, read after read, of any size below \<open>2\<^sup>3\<^sup>2\<close>, until it is cancelled.  Then it ends, its file is the
  header followed by these messages as frames, and the header ends where the documented format says, at
  the first line that is a single dot.  What follows, read by \<^verbatim>\<open>achpipe\<close> in whatever pieces,
  puts exactly these messages into another channel, in their order.
\<close>

theorem achlog_replay:
  assumes log: "log_machine w" "ld_name (lt_desc w) = name" "channel_name_ok name" "env_ok env"
      "logged_bytes w = []" "\<not> ch_cancel (ld_chan (lt_desc w))"
      "feeds n (ld_chan (lt_desc w)) shms ms" "n < 2 ^ 32" "at_rest stop"
    and pub: "pipe_machine v" "pipe_buffer cap buf" "pipe_chan v k shm" "at_rest shm"
      "\<forall>m\<in>set ms. m \<noteq> [] \<and> length m \<le> dsize shm" "lseq shm + length ms < 2 ^ 64"
  shows "\<exists>w'. worker False env (fitting_reads 512 (ld_chan (lt_desc w)) shms @ [(True, stop, [])]) w = P_go () w' \<and>
           logged_bytes w' = ascii (header_text name env) @ concat (map pipe_bytes ms) \<and>
           (\<forall>s. pending s = skip_header (logged_bytes w') \<longrightarrow>
              (\<exists>v' shm'. publish_loop cap buf (v\<lparr>pw_in := s\<rparr>) = P_go () v' \<and> pipe_chan v' k shm' \<and>
                 at_rest shm' \<and>
                 frames shm' = keep (icnt shm) (dsize shm) (frames shm @ number (lseq shm) ms)))"
proof -
  obtain w' where w': "worker False env (fitting_reads 512 (ld_chan (lt_desc w)) shms @ [(True, stop, [])]) w = P_go () w'"
    "logged_bytes w' = ascii (header_text name env) @ concat (map pipe_bytes ms)"
    using worker_log [OF log(1,6-9), of env] log(2,5) by auto
  have "one_line name" using log(3) by (auto simp: channel_name_ok_def one_line_def list_all_iff is_alnum_def split: if_splits)
  then have skip: "skip_header (logged_bytes w') = concat (map pipe_bytes ms)"
    using skip_header_text log(4) w'(2) by simp
  have "length m < 2 ^ 32" if "m \<in> set ms" for m using feeds_size [OF log(7) that] log(8) by simp
  then have "list_all (message_ok (dsize shm)) ms" using pub(5) by (simp add: message_ok_def list_all_iff)
  then have "\<exists>v' shm'. publish_loop cap buf (v\<lparr>pw_in := s\<rparr>) = P_go () v' \<and> pipe_chan v' k shm' \<and> at_rest shm' \<and>
        frames shm' = keep (icnt shm) (dsize shm) (frames shm @ number (lseq shm) ms)"
    if "pending s = concat (map pipe_bytes ms)" for s
    using publish_all [OF pub(1-4) _ pub(6) that] by simp
  with w' skip show ?thesis by simp
qed

definition log_demo :: log_thread where
  "log_demo = \<lparr>lt_desc = \<lparr>ld_name = ''imu'', ld_chan = fresh_handle 0 400 3 ach_attr_init, ld_shm = written_block,
       ld_fout = new_log_file ''imu'' None ([], [])\<rparr>,
     lt_heap = (\<lambda>n. Some (replicate n 0)), lt_proc = a_process\<rparr>"

definition env_demo :: log_env where
  "env_demo = \<lparr>now_ach = (6226133, 801454417), now_real = (1371238788, 956337009),
     now_real_str = ''Fri Jun 14'' @ newline, log_host = ''daneel'', log_passwd = None\<rparr>"

theorem achlog_replay_witness:
  "\<exists>w'. worker False env_demo (fitting_reads 512 (fresh_handle 0 400 3 ach_attr_init) [written_block] @
            [(True, written_block, [])]) log_demo = P_go () w' \<and>
     (\<exists>v' shm'. publish_loop 8 pipe_demo_frame (pipe_demo\<lparr>pw_in := [In_data (skip_header (logged_bytes w'))]\<rparr>) = P_go () v' \<and>
        pipe_chan v' 0 shm' \<and> frames shm' = [(1, [1, 2, 3])])"
proof -
  let ?b = "fresh_block ''a'' 2 4"
  have rest: "at_rest ?b" "frames ?b = []" "icnt ?b = 2" "dsize ?b = 8" "lseq ?b = 0"
    using fresh_block_at_rest [of 2 4 "''a''"] by (simp_all add: sizes_ok_def)
  have v: "pipe_machine pipe_demo" "pipe_buffer 8 pipe_demo_frame" "pipe_chan pipe_demo 0 ?b"
    by (simp_all add: pipe_demo_def pipe_machine_def pipe_chan_def block_at_def fresh_handle_def
        pipe_buffer_def pipe_demo_frame_def)
  have w: "log_machine log_demo" "ld_name (lt_desc log_demo) = ''imu''" "env_ok env_demo" "logged_bytes log_demo = []"
    "ld_chan (lt_desc log_demo) = fresh_handle 0 400 3 ach_attr_init" "\<not> ch_cancel (ld_chan (lt_desc log_demo))"
    by (simp_all add: log_demo_def log_machine_def new_log_file_def env_demo_def env_ok_def fresh_handle_def)
  have k: "keep 2 8 ([] @ number 0 [[1, 2, 3]]) = [(1, [1, 2, 3])]" by (simp add: fits_def)
  have ms: "\<forall>m\<in>set [[1, 2, 3 :: byte]]. m \<noteq> [] \<and> length m \<le> dsize ?b" "lseq ?b + length [[1, 2, 3 :: byte]] < 2 ^ 64"
    unfolding rest by simp_all
  note t = achlog_replay [OF w(1,2) name_imu w(3,4,6) written_feed [folded w(5)] _ written_block_at_rest v rest(1) ms,
      unfolded rest k w(5)]
  then obtain w' where w': "worker False env_demo (fitting_reads 512 (fresh_handle 0 400 3 ach_attr_init) [written_block] @
            [(True, written_block, [])]) log_demo = P_go () w'"
    "\<forall>s. pending s = skip_header (logged_bytes w') \<longrightarrow> (\<exists>v' shm'. publish_loop 8 pipe_demo_frame (pipe_demo\<lparr>pw_in := s\<rparr>) = P_go () v' \<and>
       pipe_chan v' 0 shm' \<and> at_rest shm' \<and> frames shm' = [(1, [1, 2, 3])])" by auto
  have "pending [In_data (skip_header (logged_bytes w'))] = skip_header (logged_bytes w')" by simp
  with w' show ?thesis by blast
qed

end
