(* ===== verification/Achtool.thy ===== *)
theory Achtool
  imports Ach_Tool Ach_Getopt Ach_CLib
begin

text \<open>
  The command \<^verbatim>\<open>ach\<close>, \<^verbatim>\<open>src/achtool.c\<close>: creating, removing, showing and protecting
  channels from a shell.  The commands run on the life-cycle operations of the library.  The texts of
  messages are shortened, and the usage text is left out.
\<close>

section \<open>The state\<close>

record tool_world =
  tl_os :: os_state
  tl_build :: build_config
  tl_err :: "string list"
  tl_out :: "string list"

datatype tool_cmd = Cmd_create | Cmd_unlink | Cmd_dump | Cmd_file | Cmd_chmod

record tool_opts =
  tl_msg_cnt :: size_t
  tl_truncate :: nat
  tl_msg_size :: size_t
  tl_chan_name :: "string option"
  tl_verbosity :: nat
  tl_once :: nat
  tl_mode :: int
  tl_command :: "tool_cmd option"

definition tool_defaults :: tool_opts where
  "tool_defaults =
     \<lparr>tl_msg_cnt = word_of_int ACH_DEFAULT_FRAME_COUNT, tl_truncate = 0, tl_msg_size = word_of_int ACH_DEFAULT_FRAME_SIZE,
      tl_chan_name = None, tl_verbosity = 0, tl_once = 0, tl_mode = -1, tl_command = None\<rparr>"

definition tool_say :: "string \<Rightarrow> tool_world \<Rightarrow> tool_world" where
  "tool_say msg w = w\<lparr>tl_err := tl_err w @ [msg]\<rparr>"

definition tool_say_if :: "bool \<Rightarrow> string \<Rightarrow> tool_world \<Rightarrow> tool_world" where
  "tool_say_if b msg w = (if b then tool_say msg w else w)"

type_synonym 'a tool_act = "('a, tool_world) tool"

text \<open>Without a name on the command line the library is called with a null pointer, which it reads.\<close>

definition with_name :: "tool_opts \<Rightarrow> (string \<Rightarrow> tool_world \<Rightarrow> 'a tool_act) \<Rightarrow> tool_world \<Rightarrow> 'a tool_act" where
  "with_name opts f w = (case tl_chan_name opts of None \<Rightarrow> P_crash Unmapped w | Some name \<Rightarrow> f name w)"

definition tool_check_status :: "ach_status_t \<Rightarrow> string \<Rightarrow> tool_world \<Rightarrow> unit tool_act" where
  "tool_check_status r msg w =
     (if r \<noteq> ACH_OK
      then P_exit EXIT_FAILURE
             (tool_say (msg @ '': '' @ ach_result_to_string (ach_status_code r) @
                   (if os_errno (tl_os w) \<noteq> EOK then '', errno'' else [])) w)
      else P_go () w)"

definition clear_errno :: "tool_world \<Rightarrow> tool_world" where
  "clear_errno w = w\<lparr>tl_os := (tl_os w)\<lparr>os_errno := EOK\<rparr>\<rparr>"

section \<open>The commands\<close>

definition tool_open :: "string \<Rightarrow> tool_world \<Rightarrow> (ach_status_t \<times> ach_channel_t) tool_act" where
  "tool_open name w =
     p_of (ach_open no_handle name None (tl_os w)) (\<lambda>(r, chan, os) w. P_go (r, chan) (w\<lparr>tl_os := os\<rparr>)) w"

definition tool_close :: "ach_channel_t \<Rightarrow> tool_world \<Rightarrow> ach_status_t tool_act" where
  "tool_close chan w =
     p_of (ach_close chan (tl_os w)) (\<lambda>(r, chan, os) w. P_go r (w\<lparr>tl_os := os\<rparr>)) w"

definition cmd_chmod :: "tool_opts \<Rightarrow> tool_world \<Rightarrow> int tool_act" where
  "cmd_chmod opts w =
     p_then (p_assert 347 (tl_mode opts \<ge> 0) w) (\<lambda>_ w.
     with_name opts (\<lambda>name w.
       p_then (tool_open name (clear_errno w)) (\<lambda>(r, chan) w.
       p_then (tool_check_status r (''Error opening channel '' @ name) w) (\<lambda>_ w.
       let (r, os) = ach_chmod chan (nat (tl_mode opts)) (tl_os w); w = w\<lparr>tl_os := os\<rparr>
       in p_then (tool_check_status r (''Error chmodding channel '' @ name) w) (\<lambda>_ w.
          p_then (tool_close chan w) (\<lambda>r w.
          p_then (tool_check_status r (''Error closing channel '' @ name) w) (\<lambda>_ w.
          P_go (ach_status_code r) w))))))
       (tool_say_if (tl_verbosity opts > 0) ''Changing mode'' w))"

definition create_attr :: "tool_opts \<Rightarrow> ach_create_attr_t" where
  "create_attr opts =
     (if tl_truncate opts \<noteq> 0 then ach_create_attr_init\<lparr>c_truncate := True\<rparr> else ach_create_attr_init)"

definition cmd_create :: "tool_opts \<Rightarrow> tool_world \<Rightarrow> int tool_act" where
  "cmd_create opts w =
     (let w = tool_say_if (tl_verbosity opts > 0) ''Creating Channel'' w
      in if tl_msg_cnt opts < 1 then P_go (-1) (tool_say ''Message count must be greater than zero'' w)
         else if tl_msg_size opts < 1 then P_go (-1) (tool_say ''Message size must be greater than zero'' w)
         else with_name opts (\<lambda>name w.
              p_of (ach_create (tl_build w) name (tl_msg_cnt opts) (tl_msg_size opts)
                      (Some (create_attr opts)) (tl_os w)) (\<lambda>(i, _, os) w.
              p_then (if \<not> (tl_once opts \<noteq> 0 \<and> i = ACH_EEXIST)
                      then p_then (tool_check_status i (''Error creating channel '' @ name) (w\<lparr>tl_os := os\<rparr>))
                             (\<lambda>_ w. P_go (ach_status_code i) w)
                      else P_go (ach_status_code ACH_OK) (w\<lparr>tl_os := os\<rparr>)) (\<lambda>i w.
              if tl_mode opts > 0 then cmd_chmod opts w else P_go i w)) w) w)"

definition cmd_unlink :: "tool_opts \<Rightarrow> tool_world \<Rightarrow> int tool_act" where
  "cmd_unlink opts w =
     with_name opts (\<lambda>name w.
       let (r, os) = ach_unlink name (tl_os w)
       in p_then (tool_check_status r (''Failed to remove channel '' @ name) (w\<lparr>tl_os := os\<rparr>)) (\<lambda>_ w.
          P_go 0 w)) (tool_say_if (tl_verbosity opts > 0) ''Unlinking Channel'' w)"

text \<open>The block of the channel, as \<^verbatim>\<open>ach_dump\<close> prints it.\<close>

definition dump_lines :: "(string \<times> nat) list \<Rightarrow> string list" where
  "dump_lines = map (\<lambda>(key, v). key @ '': '' @ show_nat v)"

definition tool_dump :: "ach_channel_t \<Rightarrow> tool_world \<Rightarrow> unit tool_act" where
  "tool_dump chan w =
     (case Option.bind (ch_shm chan) (block_at (tl_os w)) of
        None \<Rightarrow> P_crash Unmapped w
      | Some shm \<Rightarrow> p_of (ach_dump shm) (\<lambda>ls w. P_go () (w\<lparr>tl_err := tl_err w @ dump_lines ls\<rparr>)) w)"

definition cmd_dump :: "tool_opts \<Rightarrow> tool_world \<Rightarrow> int tool_act" where
  "cmd_dump opts w =
     with_name opts (\<lambda>name w.
       p_then (tool_open name w) (\<lambda>(r, chan) w.
       p_then (tool_check_status r (''Error opening ach channel '' @ name) w) (\<lambda>_ w.
       p_then (tool_dump chan w) (\<lambda>_ w.
       p_then (tool_close chan w) (\<lambda>r w.
       p_then (tool_check_status r (''Error closing ach channel '' @ name) w) (\<lambda>_ w.
       P_go (ach_status_code r) w)))))) (tool_say_if (tl_verbosity opts > 0) ''Dumping Channel'' w)"

text \<open>A null pointer prints as the GNU library prints it.\<close>

definition cmd_file :: "tool_opts \<Rightarrow> tool_world \<Rightarrow> int tool_act" where
  "cmd_file opts w =
     (let w = tool_say_if (tl_verbosity opts > 0) ''Printing file'' w;
          name = (case tl_chan_name opts of None \<Rightarrow> ''(null)'' | Some n \<Rightarrow> n)
      in P_go 0 (w\<lparr>tl_out := tl_out w @ [''/dev/shm/'' @ ACH_CHAN_NAME_PREFIX @ name]\<rparr>))"

primrec run_cmd :: "tool_cmd \<Rightarrow> tool_opts \<Rightarrow> tool_world \<Rightarrow> int tool_act" where
  "run_cmd Cmd_create = cmd_create"
| "run_cmd Cmd_unlink = cmd_unlink"
| "run_cmd Cmd_dump = cmd_dump"
| "run_cmd Cmd_file = cmd_file"
| "run_cmd Cmd_chmod = cmd_chmod"

section \<open>The command line\<close>

definition parse_mode :: "string \<Rightarrow> tool_world \<Rightarrow> int tool_act" where
  "parse_mode arg w =
     (let (i, bad) = strtol8 arg; w = clear_errno w
      in if bad then P_exit EXIT_FAILURE (tool_say (''Invalid mode '' @ arg) w) else P_go (to_int i) w)"

definition set_cmd :: "tool_cmd \<Rightarrow> tool_opts \<Rightarrow> tool_world \<Rightarrow> tool_opts tool_act" where
  "set_cmd cmd opts w =
     (if tl_command opts = None then P_go (opts\<lparr>tl_command := Some cmd\<rparr>) w
      else P_exit EXIT_FAILURE (tool_say ''Can only specify one command'' w))"

definition parse_cmd :: "tool_cmd \<Rightarrow> string \<Rightarrow> tool_opts \<Rightarrow> tool_world \<Rightarrow> tool_opts tool_act" where
  "parse_cmd cmd arg opts w =
     p_then (set_cmd cmd opts w) (\<lambda>opts w. P_go (opts\<lparr>tl_chan_name := Some arg\<rparr>) w)"

definition command_named :: "string \<Rightarrow> tool_cmd option" where
  "command_named arg =
     (if strcaseeq arg ''chmod'' then Some Cmd_chmod
      else if strcaseeq arg ''create'' \<or> strcaseeq arg ''mk'' \<or> strcaseeq arg ''make'' then Some Cmd_create
      else if strcaseeq arg ''unlink'' \<or> strcaseeq arg ''rm'' \<or> strcaseeq arg ''remove'' then Some Cmd_unlink
      else if strcaseeq arg ''dump'' then Some Cmd_dump
      else if strcaseeq arg ''file'' then Some Cmd_file
      else None)"

definition invalid_arg :: "string \<Rightarrow> tool_world \<Rightarrow> 'a tool_act" where
  "invalid_arg arg w = P_exit EXIT_FAILURE (tool_say (''Invalid argument: '' @ arg) w)"

definition tool_posarg :: "nat \<Rightarrow> string \<Rightarrow> tool_opts \<Rightarrow> tool_world \<Rightarrow> tool_opts tool_act" where
  "tool_posarg i arg opts w =
     (if i = 0
      then let w = tool_say_if (tl_verbosity opts \<noteq> 0) (''Setting command: '' @ arg) w
           in (case command_named arg of Some cmd \<Rightarrow> set_cmd cmd opts w | None \<Rightarrow> invalid_arg arg w)
      else if i = 1
      then if tl_command opts = Some Cmd_chmod
           then p_then (parse_mode arg w) (\<lambda>m w. P_go (opts\<lparr>tl_mode := m\<rparr>) w)
           else P_go (opts\<lparr>tl_chan_name := Some arg\<rparr>) w
      else if i = 2 \<and> tl_command opts = Some Cmd_chmod
      then P_go (opts\<lparr>tl_chan_name := Some arg\<rparr>) w
      else invalid_arg arg w)"

fun tool_posargs :: "nat \<Rightarrow> string list \<Rightarrow> tool_opts \<Rightarrow> tool_world \<Rightarrow> tool_opts tool_act" where
  "tool_posargs i [] opts w = P_go opts w"
| "tool_posargs i (arg # args) opts w = p_then (tool_posarg i arg opts w) (tool_posargs (Suc i) args)"

definition achtool_optstring :: string where "achtool_optstring = ''C:U:D:F:vn:m:o:1thH?V''"

definition tool_option :: "opt_call \<Rightarrow> tool_opts \<Rightarrow> tool_world \<Rightarrow> tool_opts tool_act" where
  "tool_option oc opts w =
     (case oc of
        (x, Some arg) \<Rightarrow>
          if x = CHR ''C'' then parse_cmd Cmd_create arg opts w
          else if x = CHR ''U'' then parse_cmd Cmd_unlink arg opts w
          else if x = CHR ''D'' then parse_cmd Cmd_dump arg opts w
          else if x = CHR ''F'' then parse_cmd Cmd_file arg opts w
          else if x = CHR ''n'' then P_go (opts\<lparr>tl_msg_size := word_of_int (atoi arg)\<rparr>) w
          else if x = CHR ''m'' then P_go (opts\<lparr>tl_msg_cnt := word_of_int (atoi arg)\<rparr>) w
          else if x = CHR ''o'' then p_then (parse_mode arg w) (\<lambda>m w. P_go (opts\<lparr>tl_mode := m\<rparr>) w)
          else P_exit EXIT_SUCCESS w
      | (x, None) \<Rightarrow>
          if x = CHR ''t'' then P_go (opts\<lparr>tl_truncate := tl_truncate opts + 1\<rparr>) w
          else if x = CHR ''v'' then P_go (opts\<lparr>tl_verbosity := tl_verbosity opts + 1\<rparr>) w
          else if x = CHR ''1'' then P_go (opts\<lparr>tl_once := tl_once opts + 1\<rparr>) w
          else P_exit EXIT_SUCCESS w)"

fun tool_options :: "opt_call list \<Rightarrow> tool_opts \<Rightarrow> tool_world \<Rightarrow> tool_opts tool_act" where
  "tool_options [] opts w = P_go opts w"
| "tool_options (oc # ocs) opts w = p_then (tool_option oc opts w) (tool_options ocs)"

definition achtool_main :: "string list \<Rightarrow> tool_world \<Rightarrow> int tool_act" where
  "achtool_main args w =
     (let (ocs, rest) = getopt_all achtool_optstring args
      in p_then (tool_options ocs tool_defaults w) (\<lambda>opts w.
         p_then (tool_posargs 0 rest opts w) (\<lambda>opts w.
         let w = tool_say_if (tl_verbosity opts \<ge> 2) ''Verbosity, channel name, message size and count'' w;
             w = clear_errno w
         in case tl_command opts of
              Some cmd \<Rightarrow> run_cmd cmd opts w
            | None \<Rightarrow>
                if tl_chan_name opts \<noteq> None \<and> tl_mode opts \<ge> 0 then cmd_chmod opts w
                else P_go EXIT_FAILURE (tool_say ''Must specify a command'' w))))"

section \<open>Facts\<close>

lemma getopt_words: "(\<forall>a\<in>set args. \<not> is_option a) \<Longrightarrow> getopt_all spec args = ([], args)"
  by (induction args) (auto simp: is_option_def)

lemma word_mk: "\<not> is_option ''mk''" "\<not> is_option ''rm''" "\<not> is_option ''chmod''"
  by (simp_all add: is_option_def)

lemma commands: "command_named ''mk'' = Some Cmd_create" "command_named ''rm'' = Some Cmd_unlink"
    "command_named ''chmod'' = Some Cmd_chmod"
  by code_simp+

lemma default_sizes:
  "sizes_ok 16 512" "full_len 16 512 \<le> page_round (body_len 16 512)"
  by (simp_all add: sizes_ok_def full_len_def body_len_def page_round_def page_size_def)

lemma tool_defaults_fields:
  "tl_msg_cnt tool_defaults = 16" "tl_msg_size tool_defaults = 512" "tl_mode tool_defaults = -1"
  "tl_truncate tool_defaults = 0" "tl_verbosity tool_defaults = 0" "tl_once tool_defaults = 0"
  by (simp_all add: tool_defaults_def ACH_DEFAULT_FRAME_COUNT_def ACH_DEFAULT_FRAME_SIZE_def)

lemmas tool_steps = tool_posarg_def tool_say_if_def set_cmd_def tool_defaults_def Let_def

text \<open>What the command line means when the options are read.\<close>

lemma main_command:
  assumes "\<not> is_option cmd" "\<not> is_option name" "command_named cmd = Some c" "c \<noteq> Cmd_chmod"
  shows "achtool_main [cmd, name] w =
         run_cmd c (tool_defaults\<lparr>tl_command := Some c, tl_chan_name := Some name\<rparr>) (clear_errno w)"
  using assms getopt_words [of "[cmd, name]" achtool_optstring]
  by (simp add: achtool_main_def tool_steps)

lemma main_mk_once:
  assumes "\<not> is_option name"
  shows "achtool_main [''mk'', ''-1'', name] w =
         cmd_create (tool_defaults\<lparr>tl_once := 1, tl_command := Some Cmd_create,
           tl_chan_name := Some name\<rparr>) (clear_errno w)"
proof -
  have "getopt_all achtool_optstring [''mk'', ''-1'', name] = ([(CHR ''1'', None)], [''mk'', name])"
    using assms getopt_words [of "[name]" achtool_optstring]
    by (simp add: is_option_def achtool_optstring_def)
  then show ?thesis by (simp add: achtool_main_def tool_steps tool_option_def commands)
qed

lemma main_mk_mode:
  assumes "\<not> is_option name" "strtol8 arg = (m, False)"
  shows "achtool_main [''mk'', ''-o'', arg, name] w =
         cmd_create (tool_defaults\<lparr>tl_mode := to_int m, tl_command := Some Cmd_create,
           tl_chan_name := Some name\<rparr>) (clear_errno w)"
proof -
  have "getopt_all achtool_optstring [''mk'', ''-o'', arg, name] = ([(CHR ''o'', Some arg)], [''mk'', name])"
    using assms(1) getopt_words [of "[name]" achtool_optstring]
    by (simp add: is_option_def achtool_optstring_def)
  then show ?thesis using assms(2)
    by (simp add: achtool_main_def tool_steps tool_option_def commands parse_mode_def clear_errno_def)
qed

lemma main_chmod:
  assumes "\<not> is_option name" "\<not> is_option arg" "strtol8 arg = (m, False)"
  shows "achtool_main [''chmod'', arg, name] w =
         cmd_chmod (tool_defaults\<lparr>tl_mode := to_int m, tl_command := Some Cmd_chmod,
           tl_chan_name := Some name\<rparr>) (clear_errno w)"
proof -
  have "getopt_all achtool_optstring [''chmod'', arg, name] = ([], [''chmod'', arg, name])"
    using assms(1,2) word_mk(3) by (intro getopt_words) simp
  then show ?thesis
    using assms(3) by (simp add: achtool_main_def tool_steps commands parse_mode_def clear_errno_def
        del: getopt_all.simps)
qed

lemma create_attr_plain: "tl_truncate opts = 0 \<Longrightarrow> plain (Some (create_attr opts))"
  by (simp add: create_attr_def)

lemma cmd_create_new:
  assumes "quiet (tl_os w)" "channel_name_ok name" "os_dir (tl_os w) (shm_file name) = None"
    and "tl_chan_name opts = Some name" "tl_truncate opts = 0" "tl_verbosity opts = 0"
    and sz: "sizes_ok (tl_msg_cnt opts) (tl_msg_size opts)"
  defines "w1 \<equiv> w\<lparr>tl_os := after_create (tl_os w) name (tl_msg_cnt opts) (tl_msg_size opts)\<rparr>"
  shows "cmd_create opts w = (if 0 < tl_mode opts then cmd_chmod opts w1 else P_go 0 w1)"
proof -
  have "\<not> tl_msg_cnt opts < 1" "\<not> tl_msg_size opts < 1"
    using sz by (auto simp: sizes_ok_def word_less_nat_alt)
  then show ?thesis
    using ach_create_quiet [OF assms(1-3) sz create_attr_plain [OF assms(5)], of "tl_build w"] assms(4,6)
    by (simp add: cmd_create_def tool_say_if_def with_name_def p_of_def tool_check_status_def w1_def)
qed

lemma cmd_create_exists:
  assumes "os_script (tl_os w) = []" "channel_name_ok name" "os_dir (tl_os w) (shm_file name) = Some k"
    and "tl_chan_name opts = Some name" "tl_truncate opts = 0" "tl_verbosity opts = 0"
    and "1 \<le> tl_msg_cnt opts" "1 \<le> tl_msg_size opts" "tl_mode opts \<le> 0"
  defines "w1 \<equiv> w\<lparr>tl_os := (tl_os w)\<lparr>os_errno := EEXIST\<rparr>\<rparr>"
  shows "cmd_create opts w =
         (if tl_once opts \<noteq> 0 then P_go 0 w1
          else P_exit EXIT_FAILURE (tool_say (''Error creating channel '' @ name @ '': '' @
                 ach_result_to_string (ach_status_code ACH_EEXIST) @ '', errno'') w1))"
proof -
  have "\<not> tl_msg_cnt opts < 1" "\<not> tl_msg_size opts < 1" using assms(7,8) by (simp_all only: not_less)
  then show ?thesis
    using ach_create_exists [OF assms(1-3) create_attr_plain [OF assms(5)], of "tl_build w"] assms(4,6,9)
    by (simp add: cmd_create_def tool_say_if_def with_name_def p_of_def tool_check_status_def w1_def)
qed

lemma cmd_unlink_exists:
  assumes "os_script (tl_os w) = []" "channel_name_ok name" "os_dir (tl_os w) (shm_file name) = Some k"
    and "tl_chan_name opts = Some name" "tl_verbosity opts = 0"
  shows "cmd_unlink opts w =
         P_go 0 (w\<lparr>tl_os := (tl_os w)\<lparr>os_dir := (os_dir (tl_os w))(shm_file name := None)\<rparr>\<rparr>)"
  using ach_unlink_exists [OF assms(1-3)] assms(4,5)
  by (simp add: cmd_unlink_def tool_say_if_def with_name_def tool_check_status_def)

text \<open>The mode of a channel just created is changed, and the handle used for it is gone again.\<close>

definition with_mode :: "nat \<Rightarrow> nat \<Rightarrow> os_state \<Rightarrow> os_state" where
  "with_mode k m os = os\<lparr>os_objects := (os_objects os)(k := map_option (o_mode_update (\<lambda>_. m)) (os_objects os k))\<rparr>"

lemma cmd_chmod_created:
  assumes q: "quiet os" and name: "channel_name_ok name" and sz: "sizes_ok n s"
    and len: "full_len n s \<le> page_round (body_len n s)" and fd: "os_fds os (os_fresh_fd os + 1) = None"
    and "os_errno os = EOK" "tl_os w = after_create os name n s"
    and "tl_chan_name opts = Some name" "0 \<le> tl_mode opts" "tl_verbosity opts = 0"
  shows "\<exists>w'. cmd_chmod opts w = P_go 0 w' \<and>
           tl_os w' = (with_mode (os_fresh_id os) (nat (tl_mode opts)) (after_create os name n s))
             \<lparr>os_fresh_fd := os_fresh_fd os + 2\<rparr>"
proof -
  define os1 where "os1 = (after_create os name n s)
     \<lparr>os_fds := (os_fds os)(os_fresh_fd os + 1 := Some (os_fresh_id os)), os_fresh_fd := os_fresh_fd os + 2,
      os_maps := (os_fresh_id os, body_len n s) # os_maps os\<rparr>"
  define h where "h = fresh_handle (os_fresh_id os) (open_len (fresh_block name n s)) (os_fresh_fd os + 1) ach_attr_init"
  define os2 where "os2 = (with_mode (os_fresh_id os) (nat (tl_mode opts)) (after_create os name n s))
     \<lparr>os_fresh_fd := os_fresh_fd os + 2\<rparr>"
  have sc: "os_script os = []" using q by (simp add: quiet_def)
  have "clear_errno w = w" using assms(6,7) by (simp add: clear_errno_def after_create_def)
  moreover have "ach_open no_handle name None (tl_os w) = Ret (ACH_OK, h, os1)"
    using ach_open_created [OF q name sz, of no_handle] len assms(7) by (simp add: h_def os1_def)
  moreover have "ach_chmod h (nat (tl_mode opts)) os1 =
      (ACH_OK, with_mode (os_fresh_id os) (nat (tl_mode opts)) os1)"
    using sc by (simp add: ach_chmod_def fchmod_def on_fd_def h_def os1_def fresh_handle_def after_create_def with_mode_def)
  moreover have "ach_close h (with_mode (os_fresh_id os) (nat (tl_mode opts)) os1) = Ret (ACH_OK, h\<lparr>ch_shm := None\<rparr>, os2)"
    using sc fd sz
    by (simp add: ach_close_def h_def fresh_handle_def block_at_def with_mode_def os1_def os2_def after_create_def
        fresh_block_fields ach_attr_init_def munmap_def open_len_fresh sys_close_def retry_eintr.simps fun_upd_idem)
  ultimately show ?thesis using assms(8-)
    by (simp add: cmd_chmod_def p_assert_def tool_say_if_def with_name_def tool_open_def tool_close_def p_of_def
        tool_check_status_def os2_def)
qed

lemma main_mk:
  assumes "quiet (tl_os w)" "channel_name_ok name" "\<not> is_option name" "os_dir (tl_os w) (shm_file name) = None"
  defines "w0 \<equiv> clear_errno w"
  shows "achtool_main [''mk'', name] w = P_go 0 (w0\<lparr>tl_os := after_create (tl_os w0) name 16 512\<rparr>)"
proof -
  have "quiet (tl_os w0)" "os_dir (tl_os w0) (shm_file name) = None"
    using assms(1,4) by (simp_all add: w0_def clear_errno_def quiet_def)
  from cmd_create_new [OF this(1) assms(2) this(2), of "tool_defaults\<lparr>tl_command := Some Cmd_create, tl_chan_name := Some name\<rparr>"]
  show ?thesis using default_sizes(1) main_command [OF word_mk(1) assms(3) commands(1)]
    by (simp add: tool_defaults_fields w0_def)
qed

text \<open>Without a channel name the library is given a null pointer.\<close>

lemma missing_name: "\<exists>w'. achtool_main [''mk''] w = P_crash Unmapped w'"
proof -
  have "getopt_all achtool_optstring [''mk''] = ([], [''mk''])" using word_mk by (intro getopt_words) simp
  then show ?thesis
    by (simp add: achtool_main_def tool_steps commands cmd_create_def with_name_def ACH_DEFAULT_FRAME_COUNT_def
        ACH_DEFAULT_FRAME_SIZE_def del: getopt_all.simps)
qed

section \<open>Properties\<close>

text \<open>
  C21. Making and removing a channel from the shell.  When no system call fails, \<^verbatim>\<open>ach mk\<close>
  of a valid, unused name returns zero and leaves exactly the empty channel with the default sizes;
  repeated, it exits with failure and the channel is untouched, but with \<^verbatim>\<open>-1\<close> it accepts
  the channel and returns zero; \<^verbatim>\<open>ach rm\<close> returns zero and the name is unused again.
\<close>

theorem ach_mk_rm:
  assumes "quiet (tl_os w)" "channel_name_ok name" "\<not> is_option name"
    and "os_dir (tl_os w) (shm_file name) = None"
  shows "\<exists>w1. achtool_main [''mk'', name] w = P_go 0 w1 \<and>
           tl_os w1 = (after_create (tl_os w) name 16 512)\<lparr>os_errno := EOK\<rparr> \<and>
           (\<exists>w2. achtool_main [''mk'', name] w1 = P_exit EXIT_FAILURE w2 \<and>
                 tl_os w2 = (tl_os w1)\<lparr>os_errno := EEXIST\<rparr>) \<and>
           (\<exists>w2. achtool_main [''mk'', ''-1'', name] w1 = P_go 0 w2 \<and>
                 tl_os w2 = (tl_os w1)\<lparr>os_errno := EEXIST\<rparr>) \<and>
           (\<exists>w2. achtool_main [''rm'', name] w1 = P_go 0 w2 \<and>
                 tl_os w2 = (tl_os w1)\<lparr>os_dir := os_dir (tl_os w)\<rparr>)"
proof -
  define w1 where "w1 = (clear_errno w)\<lparr>tl_os := after_create (tl_os (clear_errno w)) name 16 512\<rparr>"
  have d: "clear_errno w1 = w1" "os_script (tl_os w1) = []" "os_dir (tl_os w1) (shm_file name) = Some (os_fresh_id (tl_os w))"
    "tl_os w1 = (after_create (tl_os w) name 16 512)\<lparr>os_errno := EOK\<rparr>"
    "os_dir (tl_os w1) = (os_dir (tl_os w))(shm_file name := Some (os_fresh_id (tl_os w)))"
    using assms(1) by (simp_all add: w1_def clear_errno_def after_create_def quiet_def)
  note mk = main_command [OF word_mk(1) assms(3) commands(1)]
    and rm = main_command [OF word_mk(2) assms(3) commands(2)] and once = main_mk_once [OF assms(3)]
  note dflt = tool_defaults_fields
  have "achtool_main [''mk'', name] w = P_go 0 w1"
    unfolding w1_def by (rule main_mk [OF assms(1-4)])
  moreover have "\<exists>w2. achtool_main [''mk'', name] w1 = P_exit EXIT_FAILURE w2 \<and> tl_os w2 = (tl_os w1)\<lparr>os_errno := EEXIST\<rparr>"
    using cmd_create_exists [OF d(2) assms(2) d(3), of "tool_defaults\<lparr>tl_command := Some Cmd_create, tl_chan_name := Some name\<rparr>"]
    by (simp add: mk dflt d(1) tool_say_def)
  moreover have "\<exists>w2. achtool_main [''mk'', ''-1'', name] w1 = P_go 0 w2 \<and> tl_os w2 = (tl_os w1)\<lparr>os_errno := EEXIST\<rparr>"
    using cmd_create_exists [OF d(2) assms(2) d(3), of "tool_defaults\<lparr>tl_once := 1, tl_command := Some Cmd_create,
        tl_chan_name := Some name\<rparr>"] by (simp add: once dflt d(1))
  moreover have "\<exists>w2. achtool_main [''rm'', name] w1 = P_go 0 w2 \<and> tl_os w2 = (tl_os w1)\<lparr>os_dir := os_dir (tl_os w)\<rparr>"
    using cmd_unlink_exists [OF d(2) assms(2) d(3), of "tool_defaults\<lparr>tl_command := Some Cmd_unlink, tl_chan_name := Some name\<rparr>"]
      assms(4) by (simp add: rm dflt d(1,5) fun_upd_idem)
  ultimately show ?thesis using d(4) by blast
qed

theorem ach_mk_rm_witness:
  "\<exists>w1. achtool_main [''mk'', ''imu''] \<lparr>tl_os = empty_os, tl_build = debug_build, tl_err = [], tl_out = []\<rparr> = P_go 0 w1 \<and>
     (\<exists>w2. achtool_main [''mk'', ''imu''] w1 = P_exit EXIT_FAILURE w2) \<and>
     (\<exists>w2. achtool_main [''rm'', ''imu''] w1 = P_go 0 w2)"
  using ach_mk_rm [of "\<lparr>tl_os = empty_os, tl_build = debug_build, tl_err = [], tl_out = []\<rparr>" "''imu''"]
    quiet_empty_os name_imu by (simp add: is_option_def del: getopt_all.simps) blast

text \<open>
  The mode of a channel.  For an argument that reads as an octal number \<open>m\<close>,
  \<^verbatim>\<open>ach mk -o\<close> with it, and \<^verbatim>\<open>ach mk\<close> followed by \<^verbatim>\<open>ach chmod\<close>
  with it, return zero and end in the same system: the empty channel has the mode \<open>m\<close> and no
  descriptor and no mapping is left over.
\<close>

lemma ach_mk_mode_is_chmod:
  assumes "quiet (tl_os w)" "channel_name_ok name" "\<not> is_option name"
    and "os_dir (tl_os w) (shm_file name) = None" "os_fds (tl_os w) (os_fresh_fd (tl_os w) + 1) = None"
    and "strtol8 arg = (m, False)" "\<not> is_option arg" "0 < m" "m < 2 ^ 31"
  shows "\<exists>w1 w2. achtool_main [''mk'', name] w = P_go 0 w1 \<and>
           achtool_main [''chmod'', arg, name] w1 = P_go 0 w2 \<and>
           achtool_main [''mk'', ''-o'', arg, name] w = P_go 0 w2 \<and>
           map_option o_mode (os_objects (tl_os w2) (os_fresh_id (tl_os w))) = Some (nat m) \<and>
           block_at (tl_os w2) (os_fresh_id (tl_os w)) = Some (fresh_block name 16 512) \<and>
           os_fds (tl_os w2) = os_fds (tl_os w) \<and> os_maps (tl_os w2) = os_maps (tl_os w)"
proof -
  define w0 where "w0 = clear_errno w"
  define w1 where "w1 = w0\<lparr>tl_os := after_create (tl_os w0) name 16 512\<rparr>"
  have f: "quiet (tl_os w0)" "os_dir (tl_os w0) (shm_file name) = None" "os_errno (tl_os w0) = EOK"
    "os_fds (tl_os w0) (os_fresh_fd (tl_os w0) + 1) = None" "os_fresh_id (tl_os w0) = os_fresh_id (tl_os w)"
    "os_fds (tl_os w0) = os_fds (tl_os w)" "os_maps (tl_os w0) = os_maps (tl_os w)"
    using assms(1,4,5) by (simp_all add: w0_def clear_errno_def quiet_def)
  have d: "clear_errno w1 = w1" "tl_os w1 = after_create (tl_os w0) name 16 512"
    by (simp_all add: w1_def w0_def clear_errno_def after_create_def)
  note dflt = tool_defaults_fields
  have m: "to_int m = m" using assms(8,9) by (simp add: to_int_def signed_of_int signed_take_bit_int_eq_self)
  let ?oc = "tool_defaults\<lparr>tl_mode := m, tl_command := Some Cmd_chmod, tl_chan_name := Some name\<rparr>"
  let ?om = "tool_defaults\<lparr>tl_mode := m, tl_command := Some Cmd_create, tl_chan_name := Some name\<rparr>"
  obtain w2 where c: "cmd_chmod ?oc w1 = P_go 0 w2"
      "tl_os w2 = (with_mode (os_fresh_id (tl_os w0)) (nat m) (after_create (tl_os w0) name 16 512))
             \<lparr>os_fresh_fd := os_fresh_fd (tl_os w0) + 2\<rparr>"
    using cmd_chmod_created [OF f(1) assms(2) default_sizes f(4,3) d(2), of ?oc] assms(8) dflt by auto
  have "achtool_main [''mk'', name] w = P_go 0 w1"
    unfolding w1_def w0_def by (rule main_mk [OF assms(1-4)])
  moreover have "achtool_main [''chmod'', arg, name] w1 = P_go 0 w2"
    using main_chmod [OF assms(3,7,6), of w1] c(1) m d(1) by simp
  moreover have "achtool_main [''mk'', ''-o'', arg, name] w = cmd_chmod ?om w1"
    using cmd_create_new [OF f(1) assms(2) f(2), of ?om] default_sizes(1) main_mk_mode [OF assms(3,6), of w] m assms(8) dflt
    by (simp add: w1_def w0_def)
  moreover have "cmd_chmod ?om w1 = cmd_chmod ?oc w1" by (simp add: cmd_chmod_def with_name_def)
  ultimately show ?thesis using c f
    by (intro exI [of _ w1] exI [of _ w2]) (simp add: with_mode_def after_create_def block_at_def)
qed

lemma ach_mk_mode_is_chmod_witness:
  "\<exists>w2. achtool_main [''mk'', ''-o'', ''600'', ''imu'']
          \<lparr>tl_os = empty_os, tl_build = debug_build, tl_err = [], tl_out = []\<rparr> = P_go 0 w2 \<and>
        map_option o_mode (os_objects (tl_os w2) 0) = Some 384"
proof -
  have "strtol8 ''600'' = (384, False)" by code_simp
  then show ?thesis
    using ach_mk_mode_is_chmod [of "\<lparr>tl_os = empty_os, tl_build = debug_build, tl_err = [], tl_out = []\<rparr>" "''imu''"
        "''600''" 384] quiet_empty_os name_imu
    by (simp add: is_option_def del: getopt_all.simps) (auto simp: empty_os_def)
qed

end
