(* ===== verification/Achcat.thy ===== *)
theory Achcat
  imports Ach_Tool Ach_Getopt
begin

text \<open>
  The program \<^verbatim>\<open>src/achcat.c\<close>, which copies lines of text into a channel and the frames of a
  channel to the standard output, in one direction or, over an anonymous channel, in both.  What the
  channel holds when a subscriber polls it is a script; with both directions the two threads take turns
  as a schedule says, a round of their loops at a time, since the channel calls exclude each other and
  the rest of a round is private to its thread.  Texts of messages are shortened, and the time that
  \<open>usleep\<close> takes is not modelled.
\<close>

section \<open>The state\<close>

record cat_world =
  cw_os :: os_state
  cw_build :: build_config
  cw_fin :: in_stream
  cw_fout :: out_file
  cw_pbuffer :: "byte list"
  cw_sbuffer :: "byte list"
  cw_err :: "string list"

type_synonym 'a cat_act = "('a, cat_world) tool"

definition cat_say :: "string \<Rightarrow> cat_world \<Rightarrow> cat_world" where
  "cat_say msg w = w\<lparr>cw_err := cw_err w @ [msg]\<rparr>"

definition sizeof_buffer :: nat where "sizeof_buffer = 4096"

definition cat_open :: "string \<Rightarrow> ach_attr_t \<Rightarrow> cat_world \<Rightarrow> (ach_status_t \<times> ach_channel_t) cat_act" where
  "cat_open name attr w =
     p_of (ach_open no_handle name (Some attr) (cw_os w)) (\<lambda>(r, chan, os) w. P_go (r, chan) (w\<lparr>cw_os := os\<rparr>)) w"

definition cat_close :: "ach_channel_t \<Rightarrow> cat_world \<Rightarrow> unit cat_act" where
  "cat_close chan w = p_of (ach_close chan (cw_os w)) (\<lambda>(r, chan, os) w. P_go () (w\<lparr>cw_os := os\<rparr>)) w"

text \<open>The block behind a handle.\<close>

definition cat_block :: "ach_channel_t \<Rightarrow> cat_world \<Rightarrow> (nat \<times> ach_header_t) cat_act" where
  "cat_block chan w =
     (case ch_shm chan of
        None \<Rightarrow> P_crash Unmapped w
      | Some k \<Rightarrow> (case block_at (cw_os w) k of None \<Rightarrow> P_crash Unmapped w | Some shm \<Rightarrow> P_go (k, shm) w))"

section \<open>Publishing\<close>

text \<open>The line and its terminator over the old contents of the buffer.\<close>

definition over_buffer :: "byte list \<Rightarrow> byte list \<Rightarrow> byte list" where
  "over_buffer bs buf = bs @ drop (length bs) buf"

definition strlen :: "byte list \<Rightarrow> nat" where
  "strlen buf = length (takeWhile (\<lambda>b. b \<noteq> 0) buf)"

text \<open>One round: whether the loop ends with it, and the result so far.\<close>

definition publish_round :: "ach_status_t \<Rightarrow> ach_channel_t \<Rightarrow> cat_world \<Rightarrow> (bool \<times> ach_status_t) cat_act" where
  "publish_round r chan w =
     (case fgets (sizeof_buffer - 1) (cw_fin w) of
        (None, s) \<Rightarrow> P_go (True, r) (w\<lparr>cw_fin := s\<rparr>)
      | (Some line, s) \<Rightarrow>
          let buf = over_buffer (line @ [0]) (cw_pbuffer w); w = w\<lparr>cw_fin := s, cw_pbuffer := buf\<rparr>
          in p_then (cat_block chan w) (\<lambda>(k, shm) w.
             p_of (ach_put 0 chan shm (Some buf) (of_nat (strlen buf))) (\<lambda>(r, shm) w.
             P_go (r \<noteq> ACH_OK, r) (w\<lparr>cw_os := set_block k shm (cw_os w)\<rparr>)) w))"

lemma publish_round_left:
  assumes "publish_round r chan w = P_go (False, r') w'"
  shows "in_left (cw_fin w') < in_left (cw_fin w)"
proof -
  obtain line s where f: "fgets (sizeof_buffer - 1) (cw_fin w) = (Some line, s)"
    using assms by (auto simp: publish_round_def split: prod.splits option.splits)
  then have "cw_fin w' = s"
    using assms by (auto simp: publish_round_def p_then_go cat_block_def p_of_def Let_def
        split: option.splits outcome.splits)
  then show ?thesis using fgets_left [OF f] by simp
qed

function cat_publish_loop :: "ach_status_t \<Rightarrow> ach_channel_t \<Rightarrow> cat_world \<Rightarrow> ach_status_t cat_act" where
  "cat_publish_loop r chan w =
     p_then (publish_round r chan w) (\<lambda>p w'. case p of (done, r') \<Rightarrow>
     if done then P_go r' w' else cat_publish_loop r' chan w')"
  by pat_completeness auto
termination
  by (relation "measure (\<lambda>(r, chan, w). in_left (cw_fin w))") (auto dest: publish_round_left)

declare cat_publish_loop.simps [simp del]

definition cat_publish :: "ach_channel_t \<Rightarrow> cat_world \<Rightarrow> ach_status_t cat_act" where
  "cat_publish chan w =
     p_then (cat_publish_loop ACH_OK chan w) (\<lambda>r w. p_then (cat_close chan w) (\<lambda>_ w. P_go r w))"

section \<open>Subscribing\<close>

text \<open>
  One round on the block found: whether the loop ends, the result and the handle.  The flag
  \<^verbatim>\<open>t0\<close> of the code is never cleared, so that a missed frame is never reported.
\<close>

definition report_status :: "ach_status_t \<Rightarrow> cat_world \<Rightarrow> cat_world" where
  "report_status r w =
     (if r \<noteq> ACH_MISSED_FRAME \<and> r \<noteq> ACH_CLOSED
      then cat_say (''sub: ach_error: '' @ ach_result_to_string (ach_status_code r)) w else w)"

definition subscribe_round ::
  "nat \<Rightarrow> ach_header_t \<Rightarrow> ach_channel_t \<Rightarrow> cat_world \<Rightarrow> (bool \<times> ach_status_t \<times> ach_channel_t) cat_act" where
  "subscribe_round k shm chan w =
     p_of (ach_get 1 chan shm (cw_sbuffer w) (of_nat sizeof_buffer) 0 None 0 []) (\<lambda>g w.
       let r = g_status g; chan = g_chan g;
           w = w\<lparr>cw_os := set_block k (g_shm g) (cw_os w), cw_sbuffer := g_buf g\<rparr>;
           w = (if r \<noteq> ACH_OK \<and> r \<noteq> ACH_STALE_FRAMES then report_status r w else w)
       in if r \<noteq> ACH_OK \<and> r \<noteq> ACH_STALE_FRAMES \<and> r \<noteq> ACH_MISSED_FRAME then P_go (True, r, chan) w
          else let n = unat (g_frame_size g)
               in if length (cw_sbuffer w) < n then P_crash Out_of_bounds w
                  else let (fr, f) = file_write (take n (cw_sbuffer w)) (cw_fout w)
                       in if fr \<noteq> n then P_go (True, ACH_OK, chan) (w\<lparr>cw_fout := f\<rparr>)
                          else P_go (False, r, chan) (w\<lparr>cw_fout := snd (file_flush f)\<rparr>)) w"

text \<open>The blocks that the polls find; when they run out the program goes on polling.\<close>

fun cat_subscribe_loop :: "ach_header_t list \<Rightarrow> ach_channel_t \<Rightarrow> cat_world \<Rightarrow> (ach_status_t \<times> ach_channel_t) cat_act" where
  "cat_subscribe_loop [] chan w = P_block w"
| "cat_subscribe_loop (shm # shms) chan w =
     p_then (cat_block chan w) (\<lambda>(k, _) w.
     p_then (subscribe_round k shm chan w) (\<lambda>(done, r, chan) w.
     if done then P_go (r, chan) w else cat_subscribe_loop shms chan w))"

definition cat_subscribe :: "ach_header_t list \<Rightarrow> ach_channel_t \<Rightarrow> cat_world \<Rightarrow> ach_status_t cat_act" where
  "cat_subscribe shms chan w =
     p_then (cat_subscribe_loop shms chan w) (\<lambda>(r, chan) w. p_then (cat_close chan w) (\<lambda>_ w. P_go r w))"

section \<open>Both directions\<close>

text \<open>The thread that publishes ends the whole program.\<close>

definition cat_publish_thread :: "ach_status_t \<Rightarrow> ach_channel_t \<Rightarrow> cat_world \<Rightarrow> ach_status_t cat_act" where
  "cat_publish_thread r chan w =
     p_then (publish_round r chan w) (\<lambda>(done, r) w.
     if done then p_then (cat_close chan w) (\<lambda>_ w. P_exit 0 w) else P_go r w)"

text \<open>
  The turns of the schedule: \<open>True\<close> for the publisher.  A subscriber that has ended, marked by
  \<open>None\<close>, closes its handle and waits for the publisher.
\<close>

fun cat_both :: "bool list \<Rightarrow> ach_status_t \<Rightarrow> ach_channel_t \<Rightarrow> ach_channel_t option \<Rightarrow> cat_world \<Rightarrow> int cat_act" where
  "cat_both [] r pub sub w = P_block w"
| "cat_both (True # turns) r pub sub w =
     p_then (cat_publish_thread r pub w) (\<lambda>r w. cat_both turns r pub sub w)"
| "cat_both (False # turns) r pub None w = cat_both turns r pub None w"
| "cat_both (False # turns) r pub (Some sub) w =
     p_then (cat_block sub w) (\<lambda>(k, shm) w.
     p_then (subscribe_round k shm sub w) (\<lambda>(done, _, sub) w.
     if done then p_then (cat_close sub w) (\<lambda>_ w. cat_both turns r pub None w)
     else cat_both turns r pub (Some sub) w))"

section \<open>The main program\<close>

record cat_opts =
  co_chan_name :: "string option"
  co_pub :: bool
  co_sub :: bool

definition achcat_optstring :: string where "achcat_optstring = ''p:s:hH?V''"

definition cat_option :: "opt_call \<Rightarrow> cat_opts \<Rightarrow> cat_world \<Rightarrow> cat_opts cat_act" where
  "cat_option oc opts w =
     (case oc of
        (x, Some arg) \<Rightarrow>
          if x = CHR ''p'' then P_go (opts\<lparr>co_pub := True, co_chan_name := Some arg\<rparr>) w
          else if x = CHR ''s'' then P_go (opts\<lparr>co_sub := True, co_chan_name := Some arg\<rparr>) w
          else P_exit EXIT_SUCCESS w
      | (x, None) \<Rightarrow> P_exit EXIT_SUCCESS w)"

fun cat_options :: "opt_call list \<Rightarrow> cat_opts \<Rightarrow> cat_world \<Rightarrow> cat_opts cat_act" where
  "cat_options [] opts w = P_go opts w"
| "cat_options (oc # ocs) opts w = p_then (cat_option oc opts w) (cat_options ocs)"

definition anon_attr :: ach_create_attr_t where
  "anon_attr = ach_create_attr_init\<lparr>c_map_anon := True\<rparr>"

text \<open>The anonymous channel and its two handles, the subscriber's first.\<close>

definition open_both :: "string \<Rightarrow> cat_world \<Rightarrow> (ach_channel_t \<times> ach_channel_t) cat_act" where
  "open_both name w =
     p_of (ach_create (cw_build w) name 10 512 (Some anon_attr) (cw_os w)) (\<lambda>(_, cattr, os) w.
       let block = Option.bind cattr c_shm; attr = ach_attr_init\<lparr>map_anon := True, attr_shm := block\<rparr>
       in p_then (p_assert 220 (block \<noteq> None) (w\<lparr>cw_os := os\<rparr>)) (\<lambda>_ w.
          p_then (cat_open name attr w) (\<lambda>(r, sub) w.
          p_then (p_assert 224 (r = ACH_OK) w) (\<lambda>_ w.
          p_then (cat_open name attr w) (\<lambda>(r, pub) w.
          p_then (p_assert 226 (r = ACH_OK) w) (\<lambda>_ w. P_go (sub, pub) w)))))) w"

text \<open>
  The scripts: the blocks that polls of a named channel find, and the turns of the two threads.
\<close>

definition achcat_main :: "string list \<Rightarrow> ach_header_t list \<Rightarrow> bool list \<Rightarrow> cat_world \<Rightarrow> int cat_act" where
  "achcat_main args shms turns w =
     p_then (cat_options (fst (getopt_all achcat_optstring args))
               \<lparr>co_chan_name = None, co_pub = False, co_sub = False\<rparr> w) (\<lambda>opts w.
     case co_chan_name opts of
       None \<Rightarrow> P_go 1 (cat_say ''Error: must specify channel'' w)
     | Some name \<Rightarrow>
         if \<not> co_pub opts \<and> \<not> co_sub opts
         then P_go 1 (cat_say ''Error: must specify publish or subscribe mode'' w)
         else if co_pub opts \<and> co_sub opts
         then p_then (open_both name w) (\<lambda>(sub, pub) w. cat_both turns ACH_OK pub (Some sub) w)
         else p_then (cat_open name ach_attr_init w) (\<lambda>(r, chan) w.
              p_then (p_assert (if co_pub opts then 211 else 214) (r = ACH_OK) w) (\<lambda>_ w.
              p_then (if co_sub opts then cat_subscribe shms chan w else cat_publish chan w) (\<lambda>r w.
              P_go (ach_status_code r) w))))"

section \<open>Facts\<close>

lemma fgets_from_line:
  "pending s = l @ 10 # rest \<Longrightarrow> 10 \<notin> set l \<Longrightarrow> length l < n \<Longrightarrow>
   \<exists>s'. fgets_from n s = (Some (l @ [10]), s') \<and> pending s' = rest"
proof (induction l arbitrary: n s)
  case Nil
  obtain k s1 where "sys_read 1 s = (int k, take k (pending s), s1)" "0 < k" "k \<le> 1" "pending s1 = drop k (pending s)"
    using sys_read_pending [of 1 s] Nil(1) by auto
  moreover from this have "k = 1" by simp
  ultimately show ?case using Nil by (cases n) auto
next
  case (Cons b l)
  obtain k s1 where "sys_read 1 s = (int k, take k (pending s), s1)" "0 < k" "k \<le> 1" "pending s1 = drop k (pending s)"
    using sys_read_pending [of 1 s] Cons.prems(1) by auto
  moreover from this have "k = 1" by simp
  ultimately have r: "sys_read 1 s = (1, [b], s1)" "pending s1 = l @ 10 # rest" using Cons.prems(1) by simp_all
  obtain j where j: "n = Suc j" "length l < j" using Cons.prems(3) by (cases n) auto
  have "10 \<notin> set l" using Cons.prems(2) by simp
  from Cons.IH [OF r(2) this j(2)] show ?case using r(1) Cons.prems(2) j(1) by auto
qed

lemma fgets_end: "pending s = [] \<Longrightarrow> \<exists>s'. fgets n s = (None, s')"
  using sys_read_end [of s 1] by (cases n) (auto simp: fgets_def split: prod.splits)

text \<open>A line of text that fits into the buffer.\<close>

definition text_line :: "byte list \<Rightarrow> bool" where
  "text_line m \<longleftrightarrow> (\<exists>l. m = l @ [10] \<and> 10 \<notin> set l \<and> 0 \<notin> set l) \<and> length m < 4096"

definition line_ok :: "nat \<Rightarrow> byte list \<Rightarrow> bool" where
  "line_ok D m \<longleftrightarrow> text_line m \<and> length m \<le> D"

lemma fgets_line:
  assumes "text_line m" "pending s = m @ rest"
  shows "\<exists>s'. fgets (sizeof_buffer - 1) s = (Some m, s') \<and> pending s' = rest"
proof -
  obtain l where l: "m = l @ [10]" "10 \<notin> set l" "length l < 4095" using assms(1) by (auto simp: text_line_def)
  with fgets_from_line [of s l rest 4095] assms(2) show ?thesis
    by (auto simp: fgets_def sizeof_buffer_def)
qed

lemma strlen_line: "0 \<notin> set m \<Longrightarrow> strlen (over_buffer (m @ [0]) buf) = length m"
proof -
  have "takeWhile (\<lambda>b. b \<noteq> 0) (m @ 0 # t) = m" if "0 \<notin> set m" for t using that by (induction m) auto
  then show "0 \<notin> set m \<Longrightarrow> ?thesis" by (simp add: strlen_def over_buffer_def)
qed

text \<open>The publisher is a sink of lines: its state is the result so far and the world.\<close>

definition cat_publishing :: "ach_channel_t \<Rightarrow> nat \<Rightarrow> ach_status_t \<times> cat_world \<Rightarrow> ach_header_t \<Rightarrow> bool" where
  "cat_publishing chan k s shm \<longleftrightarrow>
     fst s = ACH_OK \<and> ch_shm chan = Some k \<and> block_at (cw_os (snd s)) k = Some shm \<and> at_rest shm"

definition cat_published :: "nat \<Rightarrow> ach_status_t cat_act \<Rightarrow> ach_header_t \<Rightarrow> bool" where
  "cat_published k a shm \<longleftrightarrow> (\<exists>w'. a = P_go ACH_OK w' \<and> block_at (cw_os w') k = Some shm \<and> at_rest shm)"

lemma publish_round_line:
  assumes "cat_publishing chan k (r, w) shm" "line_ok (dsize shm) m" "lseq shm + 1 < 2 ^ 64"
    and "pending (cw_fin w) = m @ rest"
  shows "\<exists>w' shm'. publish_round r chan w = P_go (False, ACH_OK) w' \<and>
           cat_publishing chan k (ACH_OK, w') shm' \<and> pending (cw_fin w') = rest \<and> cw_fout w' = cw_fout w \<and>
           frames shm' = keep (icnt shm) (dsize shm) (frames shm @ [(lseq shm + 1, m)]) \<and>
           icnt shm' = icnt shm \<and> dsize shm' = dsize shm \<and> lseq shm' = lseq shm + 1"
proof -
  have a: "ch_shm chan = Some k" "block_at (cw_os w) k = Some shm" "at_rest shm"
    using assms(1) by (simp_all add: cat_publishing_def)
  have m: "m \<noteq> []" "0 \<notin> set m" "length m < 4096" "length m \<le> dsize shm" "text_line m"
    using assms(2) by (auto simp: line_ok_def text_line_def)
  obtain s where f: "fgets (sizeof_buffer - 1) (cw_fin w) = (Some m, s)" "pending s = rest"
    using fgets_line [OF m(5) assms(4)] by blast
  define buf where "buf = over_buffer (m @ [0]) (cw_pbuffer w)"
  have b: "strlen buf = length m" "take (length m) buf = m" "length m \<le> length buf"
    using strlen_line [OF m(2)] by (simp_all add: buf_def over_buffer_def)
  have n: "unat (of_nat (length m) :: size_t) = length m" using m(3) by (simp add: unsigned_of_nat take_bit_nat_eq_self)
  obtain shm' where p: "ach_put 0 chan shm (Some buf) (of_nat (length m)) = Ret (ACH_OK, shm')" "at_rest shm'"
      "frames shm' = keep (icnt shm) (dsize shm) (frames shm @ [(lseq shm + 1, m)])"
      "index_cnt shm' = index_cnt shm" "data_size shm' = data_size shm" "lseq shm' = lseq shm + 1"
    using ach_put_keep [of shm "of_nat (length m)" buf chan 0] a(1,3) assms(3) m(1,4) n b by auto
  let ?w = "w\<lparr>cw_fin := s, cw_pbuffer := buf, cw_os := set_block k shm' (cw_os w)\<rparr>"
  have "publish_round r chan w = P_go (False, ACH_OK) ?w"
    using f(1) a(1,2) p(1) b(1) by (simp add: publish_round_def cat_block_def p_of_def Let_def buf_def)
  moreover have "cat_publishing chan k (ACH_OK, ?w) shm'"
    using a(1,2) p(2) by (simp add: cat_publishing_def block_at_set_block)
  ultimately show ?thesis using f(2) p(3-6) by (intro exI [of _ ?w] exI [of _ shm']) simp
qed

lemma cat_publish_frame:
  assumes "cat_publishing chan k (r, w) shm" "line_ok (dsize shm) m" "lseq shm + 1 < 2 ^ 64"
    and "pending (cw_fin w) = m @ rest"
  shows "\<exists>w' shm'. cat_publish_loop r chan w = cat_publish_loop ACH_OK chan w' \<and>
           cat_publishing chan k (ACH_OK, w') shm' \<and> pending (cw_fin w') = rest \<and>
           frames shm' = keep (icnt shm) (dsize shm) (frames shm @ [(lseq shm + 1, m)]) \<and>
           icnt shm' = icnt shm \<and> dsize shm' = dsize shm \<and> lseq shm' = lseq shm + 1"
  using publish_round_line [OF assms] by (auto simp: cat_publish_loop.simps [of r chan w])

lemma cat_publish_end:
  assumes "cat_publishing chan k (r, w) shm" "pending (cw_fin w) = []"
  shows "cat_published k (cat_publish_loop r chan w) shm"
proof -
  obtain s where "fgets (sizeof_buffer - 1) (cw_fin w) = (None, s)" using fgets_end [OF assms(2)] by blast
  then have "cat_publish_loop r chan w = P_go r (w\<lparr>cw_fin := s\<rparr>)"
    by (simp add: cat_publish_loop.simps [of r chan w] publish_round_def)
  then show ?thesis using assms(1) by (simp add: cat_publishing_def cat_published_def)
qed

interpretation cat_publisher: frame_sink "\<lambda>m. m" line_ok "\<lambda>s. cat_publish_loop (fst s) chan (snd s)"
  "cat_publishing chan k" "\<lambda>s bs. pending (cw_fin (snd s)) = bs" "cat_published k" for chan k
proof unfold_locales
  fix s :: "ach_status_t \<times> cat_world" and shm m rest
  show "cat_publishing chan k s shm \<Longrightarrow> at_rest shm" by (simp add: cat_publishing_def)
  show "cat_publishing chan k s shm \<Longrightarrow> pending (cw_fin (snd s)) = [] \<Longrightarrow>
      cat_published k (cat_publish_loop (fst s) chan (snd s)) shm"
    using cat_publish_end [of chan k "fst s" "snd s"] by simp
  assume "cat_publishing chan k s shm" "line_ok (dsize shm) m" "lseq shm + 1 < 2 ^ 64"
    "pending (cw_fin (snd s)) = m @ rest"
  from cat_publish_frame [of chan k "fst s" "snd s", unfolded prod.collapse, OF this] 
  show "\<exists>s' shm'. cat_publish_loop (fst s) chan (snd s) = cat_publish_loop (fst s') chan (snd s') \<and>
      cat_publishing chan k s' shm' \<and> pending (cw_fin (snd s')) = rest \<and>
      frames shm' = keep (icnt shm) (dsize shm) (frames shm @ [(lseq shm + 1, m)]) \<and>
      icnt shm' = icnt shm \<and> dsize shm' = dsize shm \<and> lseq shm' = lseq shm + 1"
    by (metis fst_conv snd_conv)
qed

text \<open>Publishing changes nothing of the system but the block of the channel.\<close>

lemma publish_round_os: "publish_round r chan w = P_go x w' \<Longrightarrow> same_but_objects (cw_os w) (cw_os w')"
  by (auto simp: publish_round_def p_then_go cat_block_def p_of_def Let_def same_but_objects_def set_block_def
      split: option.splits outcome.splits prod.splits)

lemma cat_publish_loop_os: "cat_publish_loop r chan w = P_go x w' \<Longrightarrow> same_but_objects (cw_os w) (cw_os w')"
proof (induction r chan w rule: cat_publish_loop.induct)
  case (1 r chan w)
  obtain d r1 w1 where p: "publish_round r chan w = P_go (d, r1) w1"
    and l: "if d then w1 = w' else cat_publish_loop r1 chan w1 = P_go x w'"
    using 1(2) by (auto simp: cat_publish_loop.simps [of r chan w] p_then_go split: if_splits)
  show ?case using publish_round_os [OF p] 1(1) [OF p refl] l
    by (cases d) (auto intro: same_but_objects_trans)
qed

text \<open>The subscriber is a source of text: its state is the handle and the world.\<close>

definition cat_subscribing :: "nat \<Rightarrow> nat \<Rightarrow> ach_channel_t \<times> cat_world \<Rightarrow> bool" where
  "cat_subscribing k n s \<longleftrightarrow>
     n = 4096 \<and> length (cw_sbuffer (snd s)) = 4096 \<and> lf_writes (cw_fout (snd s)) = [] \<and>
     ch_shm (fst s) = Some k \<and> block_at (cw_os (snd s)) k \<noteq> None \<and> \<not> ch_cancel (fst s)"

definition cat_polls :: "(ach_status_t \<times> ach_channel_t) cat_act \<Rightarrow> byte list \<Rightarrow> bool" where
  "cat_polls a bs \<longleftrightarrow> (\<exists>w'. a = P_block w' \<and> lf_bytes (cw_fout w') = bs)"

lemma no_options: "\<not> o_last 0" "\<not> o_wait 0"
  by (simp_all add: o_last_def o_wait_def)

lemma cat_subscribe_frame:
  assumes "cat_subscribing k n (chan, w)" "feeds n chan (shm # shms) (m # ms)"
  shows "\<exists>w'. cat_subscribe_loop (shm # rest) chan w = cat_subscribe_loop rest (advance chan shm) w' \<and>
           cat_subscribing k n (advance chan shm, w') \<and> lf_bytes (cw_fout w') = lf_bytes (cw_fout w) @ m"
proof -
  have a: "n = 4096" "length (cw_sbuffer w) = 4096" "lf_writes (cw_fout w) = []" "ch_shm chan = Some k"
    "block_at (cw_os w) k \<noteq> None" "\<not> ch_cancel chan" using assms(1) by (simp_all add: cat_subscribing_def)
  have m: "length m \<le> 4096" using assms(2) a(1) by simp
  have sz: "unat (of_nat (length m) :: size_t) = length m" using m by (simp add: unsigned_of_nat take_bit_nat_eq_self)
  obtain st where g: "ach_get 1 chan shm (cw_sbuffer w) (of_nat sizeof_buffer) 0 None 0 [] =
      Ret \<lparr>g_status = st, g_chan = advance chan shm, g_shm = shm, g_buf = m @ drop (length m) (cw_sbuffer w),
           g_frame_size = of_nat (length m)\<rparr>" "st = ACH_OK \<or> st = ACH_MISSED_FRAME"
    using get_next_frame [OF assms(2) a(6) _ _ no_options(1), of "cw_sbuffer w" 1] a(1,2) by (auto simp: sizeof_buffer_def)
  define w' where "w' = w\<lparr>cw_os := set_block k shm (cw_os w), cw_sbuffer := m @ drop (length m) (cw_sbuffer w),
      cw_fout := snd (file_flush ((cw_fout w)\<lparr>lf_bytes := lf_bytes (cw_fout w) @ m\<rparr>))\<rparr>"
  have "subscribe_round k shm chan w = P_go (False, st, advance chan shm) w'"
    using g a(2,3) m sz
    by (auto simp: subscribe_round_def p_of_def Let_def report_status_def file_write_good w'_def)
  then have "cat_subscribe_loop (shm # rest) chan w = cat_subscribe_loop rest (advance chan shm) w'"
    using a(4,5) by (auto simp: cat_block_def)
  moreover have "block_at (cw_os w') k \<noteq> None" using a(5) by (auto simp: w'_def block_at_set_block)
  moreover have "length (cw_sbuffer w') = 4096" "lf_writes (cw_fout w') = []" "lf_bytes (cw_fout w') = lf_bytes (cw_fout w) @ m"
    using a(2,3) m by (simp_all add: w'_def file_flush_def split: list.split)
  ultimately show ?thesis using a by (intro exI [of _ w']) (simp add: cat_subscribing_def advance_def Let_def)
qed

interpretation cat_subscriber: frame_source "\<lambda>m. m" "\<lambda>shms s. cat_subscribe_loop shms (fst s) (snd s)"
  "cat_subscribing k" fst "\<lambda>s. lf_bytes (cw_fout (snd s))" cat_polls for k
proof unfold_locales
  fix n and s :: "ach_channel_t \<times> cat_world" and shm shms m ms
  show "cat_polls (cat_subscribe_loop [] (fst s) (snd s)) (lf_bytes (cw_fout (snd s)))" by (simp add: cat_polls_def)
  assume "cat_subscribing k n s" "feeds n (fst s) (shm # shms) (m # ms)"
  from cat_subscribe_frame [of k n "fst s" "snd s", unfolded prod.collapse, OF this]
  show "\<exists>s'. cat_subscribe_loop (shm # shms) (fst s) (snd s) = cat_subscribe_loop shms (fst s') (snd s') \<and>
      cat_subscribing k n s' \<and> fst s' = advance (fst s) shm \<and>
      lf_bytes (cw_fout (snd s')) = lf_bytes (cw_fout (snd s)) @ m"
    by (metis fst_conv snd_conv)
qed

text \<open>A poll that finds nothing new writes nothing.\<close>

lemma cat_subscribe_stale:
  assumes "cat_subscribing k n (chan, w)" "at_rest shm" "chan_ok chan shm" "lseq shm + 1 < 2 ^ 64" "cseq chan = lseq shm"
  shows "\<exists>w'. cat_subscribe_loop (shm # rest) chan w = cat_subscribe_loop rest chan w' \<and>
           cat_subscribing k n (chan, w') \<and> lf_bytes (cw_fout w') = lf_bytes (cw_fout w)"
proof -
  have a: "length (cw_sbuffer w) = 4096" "lf_writes (cw_fout w) = []" "ch_shm chan = Some k"
    "block_at (cw_os w) k \<noteq> None" "\<not> ch_cancel chan" using assms(1) by (simp_all add: cat_subscribing_def)
  have "ach_get 1 chan shm (cw_sbuffer w) (of_nat sizeof_buffer) 0 None 0 [] =
      Ret \<lparr>g_status = ACH_STALE_FRAMES, g_chan = chan, g_shm = shm, g_buf = cw_sbuffer w, g_frame_size = 0\<rparr>"
    using ach_get_correct [OF assms(2-4), of "of_nat sizeof_buffer" "cw_sbuffer w" 0] a(1,5) assms(5) no_options
    by (simp add: spec_get_def sizeof_buffer_def o_copy_def)
  moreover define w' where "w' = w\<lparr>cw_os := set_block k shm (cw_os w), cw_sbuffer := cw_sbuffer w,
      cw_fout := snd (file_flush ((cw_fout w)\<lparr>lf_bytes := lf_bytes (cw_fout w) @ []\<rparr>))\<rparr>"
  ultimately have "cat_subscribe_loop (shm # rest) chan w = cat_subscribe_loop rest chan w'"
    using a by (auto simp: cat_block_def subscribe_round_def p_of_def Let_def file_write_good)
  moreover have "cat_subscribing k n (chan, w')" "lf_bytes (cw_fout w') = lf_bytes (cw_fout w)"
    using assms(1) block_at_set_block [of "cw_os w" k]
    by (auto simp: cat_subscribing_def w'_def file_flush_def split: list.split)
  ultimately show ?thesis by blast
qed

section \<open>Properties\<close>

text \<open>
  C18. Text through a channel.  Let \<^verbatim>\<open>achcat -p\<close> read a text whose lines have no zero byte and
  are shorter than its buffer, and let the channel have room for them all.  It puts each line into the
  channel as one message and returns zero at the end of the text.  An \<^verbatim>\<open>achcat -s\<close> on the channel
  that had seen everything before, and polls it afterwards once for each line, then has printed exactly
  the text.
\<close>

theorem achcat_text:
  assumes pub: "ch_shm chan = Some k" "block_at (cw_os w) k = Some shm" "at_rest shm"
      "pending (cw_fin w) = concat ls" "\<forall>l\<in>set ls. text_line l" "lseq shm + length ls + 1 < 2 ^ 64"
      "length ls \<le> icnt shm" "length (concat ls) \<le> dsize shm"
    and sub: "cat_subscribing j 4096 (sub, v)" "chan_ok sub shm" "cseq sub = lseq shm" "lf_bytes (cw_fout v) = []"
  shows "\<exists>w' shm' v'. cat_publish_loop ACH_OK chan w = P_go ACH_OK w' \<and> block_at (cw_os w') k = Some shm' \<and>
           frames shm' = keep (icnt shm) (dsize shm) (frames shm @ number (lseq shm) ls) \<and>
           cat_subscribe_loop (replicate (length ls) shm') sub v = P_block v' \<and> lf_bytes (cw_fout v') = concat ls"
proof -
  have "length l \<le> dsize shm" if "l \<in> set ls" for l
    using member_le_sum_list [of "length l" "map length ls"] that pub(8) by (simp add: length_concat)
  then have "list_all (line_ok (dsize shm)) ls" using pub(5) by (simp add: line_ok_def list_all_iff)
  moreover have "cat_publishing chan k (ACH_OK, w) shm" using pub(1-3) by (simp add: cat_publishing_def)
  ultimately obtain w' shm' where p: "cat_publish_loop ACH_OK chan w = P_go ACH_OK w'" "block_at (cw_os w') k = Some shm'"
      "at_rest shm'" "frames shm' = keep (icnt shm) (dsize shm) (frames shm @ number (lseq shm) ls)"
      "icnt shm' = icnt shm" "lseq shm' = lseq shm + length ls"
    using cat_publisher.sink_all [of chan k "(ACH_OK, w)" shm ls] pub(4,6) by (auto simp: cat_published_def)
  have "fits (icnt shm) (dsize shm) (number (lseq shm) ls)" using pub(7,8) by (simp add: fits_def)
  from keep_new [OF this, of "frames shm"] obtain pre where
    pre: "frames shm' = pre @ number (cseq sub) ls" "set pre \<subseteq> set (frames shm)" using p(4) sub(3) by auto
  have ring: "ring_inv shm" using pub(3) by (simp add: at_rest_def shm_inv_def)
  have "\<forall>f\<in>set pre. fst f \<le> cseq sub" using frames_seq_range(2) [OF ring] pre(2) sub(3) by fastforce
  moreover have "chan_ok sub shm'" using chan_ok_mono [OF sub(2)] p(5,6) by (simp add: word_unat_eq_iff)
  moreover have "\<forall>l\<in>set ls. length l \<le> 4096" using pub(5) by (auto simp: text_line_def)
  ultimately have "feeds 4096 sub (replicate (length ls) shm') ls"
    using p(3,6) pub(6) sub(3) pre(1) by (intro feeds_stored [of shm' pre]) simp_all
  with cat_subscriber.source_all [of j 4096 "(sub, v)" "replicate (length ls) shm'" ls] sub(1,4) p(1,2,4)
  show ?thesis by (fastforce simp: cat_polls_def)
qed

definition cat_demo :: cat_world where
  "cat_demo = \<lparr>cw_os = empty_os\<lparr>os_objects := (\<lambda>k. if k = 0
       then Some \<lparr>o_len = 400, o_block = fresh_block ''a'' 2 4, o_mode = 0\<rparr> else None)\<rparr>, cw_build = debug_build,
     cw_fin = [In_data [97], In_data [10, 98, 99, 10]], cw_fout = \<lparr>lf_bytes = [], lf_writes = [], lf_flushes = []\<rparr>,
     cw_pbuffer = replicate 4096 0, cw_sbuffer = replicate 4096 0, cw_err = []\<rparr>"

lemma cat_demo_ok:
  "block_at (cw_os cat_demo) 0 = Some (fresh_block ''a'' 2 4)" "pending (cw_fin cat_demo) = [97, 10, 98, 99, 10]"
  "lf_bytes (cw_fout cat_demo) = []" "cat_subscribing 0 4096 (fresh_handle 0 400 3 ach_attr_init, cat_demo)"
  by (simp_all add: cat_demo_def block_at_def cat_subscribing_def fresh_handle_def)

lemma text_line_demo: "text_line [97, 10]" "text_line [98, 99, 10]"
proof -
  show "text_line [97, 10]" unfolding text_line_def by (intro conjI exI [of _ "[97]"]) simp_all
  show "text_line [98, 99, 10]" unfolding text_line_def by (intro conjI exI [of _ "[98, 99]"]) simp_all
qed

theorem achcat_text_witness:
  "\<exists>w' shm' v'. cat_publish_loop ACH_OK (fresh_handle 0 400 3 ach_attr_init) cat_demo = P_go ACH_OK w' \<and>
     block_at (cw_os w') 0 = Some shm' \<and>
     cat_subscribe_loop [shm', shm'] (fresh_handle 0 400 3 ach_attr_init) cat_demo = P_block v' \<and>
     lf_bytes (cw_fout v') = [97, 10, 98, 99, 10]"
proof -
  let ?h = "fresh_handle 0 400 3 ach_attr_init" and ?b = "fresh_block ''a'' 2 4" and ?ls = "[[97, 10], [98, 99, 10]] :: byte list list"
  have rest: "at_rest ?b" "icnt ?b = 2" "dsize ?b = 8" "lseq ?b = 0"
    using fresh_block_at_rest [of 2 4 "''a''"] by (simp_all add: sizes_ok_def)
  have h: "ch_shm ?h = Some 0" "cseq ?h = 0" by (simp_all add: fresh_handle_def)
  have ok: "chan_ok ?h ?b" by (rule fresh_handle_ok) (simp add: rest)
  have t: "\<forall>l\<in>set ?ls. text_line l" using text_line_demo by simp
  have p: "pending (cw_fin cat_demo) = concat ?ls" using cat_demo_ok(2) by simp
  have n: "lseq ?b + length ?ls + 1 < 2 ^ 64" "length ?ls \<le> icnt ?b" "length (concat ?ls) \<le> dsize ?b"
    "cseq ?h = lseq ?b" by (simp_all add: rest h)
  have r: "replicate (length ?ls) x = [x, x]" "concat ?ls = [97, 10, 98, 99, 10]" for x :: ach_header_t by simp_all
  from achcat_text [OF h(1) cat_demo_ok(1) rest(1) p t n(1-3) cat_demo_ok(4) ok n(4) cat_demo_ok(3), unfolded r]
  show ?thesis by blast
qed

text \<open>
  Both directions at once.  With \<^verbatim>\<open>-p\<close> and \<^verbatim>\<open>-s\<close> the thread that publishes ends the
  whole program when it has read its input, whether or not the other thread has printed what was put
  into the channel: if it gets two turns in a row, a line that was put is never printed, and the program
  exits with success all the same.
\<close>

lemma cat_both_loses_input:
  assumes "ch_shm pub = Some k" "block_at (cw_os w) k = Some shm" "at_rest shm" "map_anon (ch_attr pub)"
    and "pending (cw_fin w) = m" "text_line m" "length m \<le> dsize shm" "lseq shm + 1 < 2 ^ 64"
  shows "\<exists>w' shm'. cat_both ([True, True] @ turns) ACH_OK pub (Some sub) w = P_exit 0 w' \<and>
           block_at (cw_os w') k = Some shm' \<and>
           frames shm' = keep (icnt shm) (dsize shm) (frames shm @ [(lseq shm + 1, m)]) \<and> cw_fout w' = cw_fout w"
proof -
  obtain w1 shm1 where p: "publish_round ACH_OK pub w = P_go (False, ACH_OK) w1" "block_at (cw_os w1) k = Some shm1"
      "at_rest shm1" "frames shm1 = keep (icnt shm) (dsize shm) (frames shm @ [(lseq shm + 1, m)])"
      "pending (cw_fin w1) = []" "cw_fout w1 = cw_fout w"
    using publish_round_line [of pub k ACH_OK w shm m "[]"] assms
    by (auto simp: cat_publishing_def line_ok_def)
  obtain s where s: "fgets (sizeof_buffer - 1) (cw_fin w1) = (None, s)" using fgets_end [OF p(5)] by blast
  have "check_guards shm1 = ACH_OK" using p(3) by (simp add: at_rest_def shm_inv_def)
  then have "cat_close pub (w1\<lparr>cw_fin := s\<rparr>) = P_go () (w1\<lparr>cw_fin := s\<rparr>)"
    using assms(1,4) p(2) by (simp add: cat_close_def ach_close_def p_of_def)
  moreover have "publish_round ACH_OK pub w1 = P_go (True, ACH_OK) (w1\<lparr>cw_fin := s\<rparr>)"
    using s by (simp add: publish_round_def)
  ultimately show ?thesis using p by (simp add: cat_publish_thread_def)
qed

lemma cat_both_loses_input_witness:
  "\<exists>w'. cat_both [True, True] ACH_OK (fresh_handle 0 400 (-1) (ach_attr_init\<lparr>map_anon := True\<rparr>))
          (Some no_handle) (cat_demo\<lparr>cw_fin := [In_data [97, 10]]\<rparr>) = P_exit 0 w' \<and> lf_bytes (cw_fout w') = []"
proof -
  let ?h = "fresh_handle 0 400 (-1) (ach_attr_init\<lparr>map_anon := True\<rparr>)" and ?b = "fresh_block ''a'' 2 4"
  let ?w = "cat_demo\<lparr>cw_fin := [In_data [97, 10]]\<rparr>"
  have rest: "at_rest ?b" "dsize ?b = 8" "lseq ?b = 0"
    using fresh_block_at_rest [of 2 4 "''a''"] by (simp_all add: sizes_ok_def)
  have h: "ch_shm ?h = Some 0" "map_anon (ch_attr ?h)" by (simp_all add: fresh_handle_def)
  have w: "block_at (cw_os ?w) 0 = Some ?b" "pending (cw_fin ?w) = [97, 10]" "lf_bytes (cw_fout ?w) = []"
    using cat_demo_ok by simp_all
  from cat_both_loses_input [OF h(1) w(1) rest(1) h(2) w(2) text_line_demo(1), of "[]" no_handle]
  show ?thesis using w(3) by (auto simp: rest)
qed

end
