(* ===== verification/Ach_Binding.thy ===== *)
theory Ach_Binding
  imports Ach_Lifecycle Ach_Frames
begin

text \<open>
  What the bindings for other languages share: a put that adds one frame to the block behind a handle, a
  get that takes the one frame that is unread, and the interface a binding offers to its programs.
\<close>

section \<open>One message\<close>

definition stores :: "ach_header_t \<Rightarrow> byte list \<Rightarrow> ach_header_t \<Rightarrow> bool" where
  "stores shm m shm' \<longleftrightarrow>
     at_rest shm' \<and> frames shm' = keep (icnt shm) (dsize shm) (frames shm @ [(lseq shm + 1, m)]) \<and>
     index_cnt shm' = index_cnt shm \<and> data_size shm' = data_size shm \<and> lseq shm' = lseq shm + 1"

text \<open>A handle that has seen all frames but the newest, and the handle after it was read.\<close>

definition one_unread :: "ach_channel_t \<Rightarrow> ach_header_t \<Rightarrow> byte list \<Rightarrow> bool" where
  "one_unread chan shm m \<longleftrightarrow>
     lseq shm + 1 < 2 ^ 64 \<and> cseq chan + 1 = lseq shm \<and>
     (\<exists>pre. frames shm = pre @ [(cseq chan + 1, m)] \<and> (\<forall>f\<in>set pre. fst f \<le> cseq chan))"

definition read_on :: "ach_channel_t \<Rightarrow> ach_header_t \<Rightarrow> ach_channel_t" where
  "read_on chan shm =
     chan\<lparr>ch_seq_num := of_nat (cseq chan + 1), ch_next_index := of_nat ((cseq chan + 1) mod icnt shm)\<rparr>"

lemma read_on_fields [simp]:
  "ch_shm (read_on chan shm) = ch_shm chan" "ch_len (read_on chan shm) = ch_len chan"
  "ch_fd (read_on chan shm) = ch_fd chan" "ch_attr (read_on chan shm) = ch_attr chan"
  "ch_cancel (read_on chan shm) = ch_cancel chan"
  by (simp_all add: read_on_def)

lemma put_stores:
  assumes "at_rest shm" "m \<noteq> []" "length m \<le> dsize shm" "lseq shm + 1 < 2 ^ 64" "ch_shm chan \<noteq> None"
  shows "\<exists>shm'. ach_put t chan shm (Some m) (of_nat (length m)) = Ret (ACH_OK, shm') \<and> stores shm m shm'"
proof -
  have "length m < 2 ^ 64" using assms(3) size_t_bound [of "data_size shm"] by simp
  then have "unat (of_nat (length m) :: size_t) = length m" by (simp add: unsigned_of_nat take_bit_nat_eq_self)
  then show ?thesis using ach_put_keep [of shm "of_nat (length m)" m chan t] assms by (auto simp: stores_def)
qed

lemma stores_unread:
  assumes "at_rest shm" "cseq chan = lseq shm" "length m \<le> dsize shm" "stores shm m shm'" "lseq shm + 2 < 2 ^ 64"
  shows "one_unread chan shm' m"
proof -
  have inv: "ring_inv shm" using assms(1) by (simp add: at_rest_def shm_inv_def)
  have "fits (icnt shm) (dsize shm) [(lseq shm + 1, m)]" using ring_invD(3) [OF inv] assms(3) by (simp add: fits_def)
  then obtain pre where "keep (icnt shm) (dsize shm) (frames shm @ [(lseq shm + 1, m)]) = pre @ [(lseq shm + 1, m)]"
      "set pre \<subseteq> set (frames shm)"
    using keep_new by blast
  moreover from this(2) have "\<forall>f\<in>set pre. fst f \<le> cseq chan" using frames_seq_range(2) [OF inv] assms(2) by fastforce
  ultimately show ?thesis using assms(2,4,5) by (auto simp: one_unread_def stores_def)
qed

lemma get_unread:
  assumes "at_rest shm" "chan_ok chan shm" "\<not> ch_cancel chan" "\<not> o_last options" "one_unread chan shm m"
    and "length m \<le> length buf" "length buf < 2 ^ 64"
  shows "ach_get t chan shm buf (of_nat (length buf)) fsz abstime options wakes =
      Ret \<lparr>g_status = ACH_OK, g_chan = read_on chan shm, g_shm = shm, g_buf = m @ drop (length m) buf,
           g_frame_size = of_nat (length m)\<rparr>"
    and "chan_ok (read_on chan shm) shm" and "cseq (read_on chan shm) = lseq shm"
proof -
  obtain pre where p: "frames shm = pre @ [(cseq chan + 1, m)]" "\<forall>f\<in>set pre. fst f \<le> cseq chan"
    and l: "lseq shm + 1 < 2 ^ 64" "cseq chan + 1 = lseq shm" "cseq chan < lseq shm"
    using assms(5) by (auto simp: one_unread_def)
  note g = get_one_new [OF assms(1,2) l(1) assms(3,4) p l(3) assms(6,7), folded read_on_def]
  show "ach_get t chan shm buf (of_nat (length buf)) fsz abstime options wakes =
      Ret \<lparr>g_status = ACH_OK, g_chan = read_on chan shm, g_shm = shm, g_buf = m @ drop (length m) buf,
           g_frame_size = of_nat (length m)\<rparr>"
    by (rule g(1))
  show "chan_ok (read_on chan shm) shm" by (rule g(2))
  show "cseq (read_on chan shm) = lseq shm"
    using l(1) unfolding read_on_def l(2) by (simp add: unsigned_of_nat take_bit_nat_eq_self)
qed

section \<open>A handle on a channel that was created\<close>

text \<open>The handle that was opened after the channel was created, with its block and the system of now.\<close>

definition opened_on ::
  "os_state \<Rightarrow> string \<Rightarrow> size_t \<Rightarrow> size_t \<Rightarrow> ach_channel_t \<Rightarrow> ach_header_t \<Rightarrow> os_state \<Rightarrow> bool" where
  "opened_on os name n s chan shm now \<longleftrightarrow>
     ch_shm chan = Some (os_fresh_id os) \<and> ch_len chan = open_len (fresh_block name n s) \<and>
     ch_fd chan = os_fresh_fd os + 1 \<and> ch_attr chan = ach_attr_init \<and> \<not> ch_cancel chan \<and>
     same_but_objects (reopened os name n s) now \<and> block_at now (os_fresh_id os) = Some shm \<and>
     at_rest shm \<and> chan_ok chan shm"

lemma set_block_same: "same_but_objects a b \<Longrightarrow> same_but_objects a (set_block k shm b)"
  by (auto simp: same_but_objects_def set_block_def split: option.splits)

lemma opened_on_open:
  assumes "quiet os" "channel_name_ok name" "sizes_ok n s" "1 < unat n" "full_len n s \<le> page_round (body_len n s)"
  shows "\<exists>chan' now. ach_open chan name None (after_create os name n s) = Ret (ACH_OK, chan', now) \<and>
           opened_on os name n s chan' (fresh_block name n s) now \<and> cseq chan' = 0"
proof -
  let ?b = "fresh_block name n s" and ?os = "reopened os name n s"
  let ?h = "fresh_handle (os_fresh_id os) (open_len ?b) (os_fresh_fd os + 1) ach_attr_init"
  have "ach_open chan name None (after_create os name n s) = Ret (ACH_OK, ?h, ?os)"
    using ach_open_created [OF assms(1-3), of chan] assms(5) by (simp add: reopened_def)
  moreover have "chan_ok ?h ?b" using fresh_block_at_rest(4) [OF assms(3)] assms(4) by (intro fresh_handle_ok) simp
  moreover have "block_at ?os (os_fresh_id os) = Some ?b" by (simp add: block_at_def reopened_def after_create_def)
  ultimately show ?thesis using fresh_block_at_rest(1) [OF assms(3), of name]
    by (simp add: opened_on_def same_but_objects_def) (simp add: fresh_handle_def)
qed

lemma opened_on_stores:
  assumes "opened_on os name n s chan shm now" "stores shm m shm'"
  shows "opened_on os name n s chan shm' (set_block (os_fresh_id os) shm' now)"
  using assms chan_ok_mono [of chan shm shm'] by (simp add: opened_on_def stores_def block_at_set_block set_block_same)

lemma opened_on_read:
  assumes "opened_on os name n s chan shm now" "chan_ok (read_on chan shm) shm"
  shows "opened_on os name n s (read_on chan shm) shm (set_block (os_fresh_id os) shm now)"
  using assms by (simp add: opened_on_def block_at_set_block set_block_same)

lemma opened_on_block:
  "opened_on os name n s chan shm now \<Longrightarrow> chan_block chan now = Ret (os_fresh_id os, shm)"
  by (simp add: opened_on_def chan_block_def)

lemma opened_on_close:
  assumes "quiet os" "sizes_ok n s" "os_fds os (os_fresh_fd os + 1) = None" "opened_on os name n s chan shm now"
  shows "\<exists>os'. ach_close chan now = Ret (ACH_OK, chan\<lparr>ch_shm := None\<rparr>, os') \<and> os_fds os' = os_fds os \<and>
           os_maps os' = os_maps os \<and> block_at os' (os_fresh_id os) = Some shm"
proof -
  have a: "same_but_objects (reopened os name n s) now" "block_at now (os_fresh_id os) = Some shm" "at_rest shm"
    "ch_shm chan = Some (os_fresh_id os)" "ch_len chan = open_len (fresh_block name n s)" "ch_fd chan = os_fresh_fd os + 1"
    "ch_attr chan = ach_attr_init"
    using assms(4) by (simp_all add: opened_on_def)
  show ?thesis using close_reopened [OF assms(1-3) a] a(2) by (auto simp: block_at_def)
qed

section \<open>The interface of a binding\<close>

text \<open>
  A program that puts a message and gets it back, message after message, and what it got: the functions
  stand for a put of some bytes and for a get, in the language of the binding, and fail when the call
  does not report success.
\<close>

fun exchange ::
  "(byte list \<Rightarrow> 'w \<Rightarrow> 'w option) \<Rightarrow> ('w \<Rightarrow> (byte list \<times> 'w) option) \<Rightarrow> byte list list \<Rightarrow> 'w \<Rightarrow>
   (byte list list \<times> 'w) option" where
  "exchange put get [] w = Some ([], w)"
| "exchange put get (m # ms) w =
     Option.bind (put m w) (\<lambda>w.
     Option.bind (get w) (\<lambda>(x, w).
     map_option (\<lambda>(xs, w). (x # xs, w)) (exchange put get ms w)))"

text \<open>
  What a binding promises to a program that has a handle on a block at rest and room for \<open>room\<close> bytes:
  a put stores, a get returns the unread message.
\<close>

locale channel_binding =
  fixes opened :: "ach_channel_t \<Rightarrow> ach_header_t \<Rightarrow> 'w \<Rightarrow> bool" and room :: nat
    and put :: "byte list \<Rightarrow> 'w \<Rightarrow> 'w option" and get :: "'w \<Rightarrow> (byte list \<times> 'w) option"
  assumes opened_rest: "opened chan shm w \<Longrightarrow> at_rest shm"
    and put_law: "\<lbrakk>opened chan shm w; m \<noteq> []; length m \<le> dsize shm; lseq shm + 1 < 2 ^ 64\<rbrakk> \<Longrightarrow>
      \<exists>w' shm'. put m w = Some w' \<and> stores shm m shm' \<and> opened chan shm' w'"
    and get_law: "\<lbrakk>opened chan shm w; one_unread chan shm m; length m \<le> room\<rbrakk> \<Longrightarrow>
      \<exists>w' chan'. get w = Some (m, w') \<and> cseq chan' = lseq shm \<and> opened chan' shm w'"
begin

lemma exchange_all:
  assumes "opened chan shm w" "cseq chan = lseq shm" "lseq shm + length ms + 1 < 2 ^ 64"
    and "\<forall>m\<in>set ms. m \<noteq> [] \<and> length m \<le> dsize shm \<and> length m \<le> room"
  shows "\<exists>w' chan' shm'. exchange put get ms w = Some (ms, w') \<and> opened chan' shm' w' \<and>
           frames shm' = keep (icnt shm) (dsize shm) (frames shm @ number (lseq shm) ms)"
  using assms
proof (induction ms arbitrary: chan shm w)
  case Nil
  have "keep (icnt shm) (dsize shm) (frames shm) = frames shm"
    using opened_rest [OF Nil(1)] by (intro keep_id frames_fits) (simp add: at_rest_def shm_inv_def)
  then show ?case using Nil(1) by auto
next
  case (Cons m ms)
  obtain w1 shm1 where p: "put m w = Some w1" "stores shm m shm1" "opened chan shm1 w1"
    using put_law [OF Cons.prems(1), of m] Cons.prems(3,4) by auto
  have "one_unread chan shm1 m"
    using stores_unread [OF opened_rest [OF Cons.prems(1)] Cons.prems(2) _ p(2)] Cons.prems(3,4) by simp
  with get_law [OF p(3), of m] Cons.prems(4) obtain w2 chan2 where
      g: "get w1 = Some (m, w2)" "cseq chan2 = lseq shm1" "opened chan2 shm1 w2" by auto
  have s: "lseq shm1 = lseq shm + 1" "icnt shm1 = icnt shm" "dsize shm1 = dsize shm"
    "frames shm1 = keep (icnt shm) (dsize shm) (frames shm @ [(lseq shm + 1, m)])"
    using p(2) by (simp_all add: stores_def)
  obtain w3 chan3 shm3 where "exchange put get ms w2 = Some (ms, w3)" "opened chan3 shm3 w3"
      "frames shm3 = keep (icnt shm1) (dsize shm1) (frames shm1 @ number (lseq shm1) ms)"
    using Cons.IH [OF g(3,2)] Cons.prems(3,4) s(1,3) by auto
  then show ?case using p(1) g(1) s by (auto simp: keep_append)
qed

end

end
