(* ===== verification/Ach_Python.thy ===== *)
theory Ach_Python
  imports Ach_Binding
begin

text \<open>
  The extension module of \<^verbatim>\<open>python/ach_py.c\<close> over the library.  The interpreter is not part of the
  repository: what it says of an object is a record of functions, \<open>py_api\<close>; the arguments of a call come
  as it has parsed them, \<open>None\<close> when it could not; the bytes behind an object and the views of it that
  have not been given back are part of the state.
\<close>

section \<open>The interpreter\<close>

record 'o py_api =
  PyInt_Check :: "'o \<Rightarrow> bool"
  PyInt_AsLong :: "'o \<Rightarrow> int"
  PyLong_Check :: "'o \<Rightarrow> bool"
  PyLong_AsVoidPtr :: "'o \<Rightarrow> size_t"
  PyObject_CheckBuffer :: "'o \<Rightarrow> bool"
  PyObject_GetBuffer :: "'o \<Rightarrow> bool \<Rightarrow> bool"

datatype py_exn = Ach_exception | Type_error | Buffer_error | Argument_error

text \<open>What a function returns: a null pointer is \<open>None\<close>.\<close>

datatype py_value = Py_none | Py_ptr size_t | Py_pair int size_t | Py_string string

text \<open>
  The state: the system, the handles on the heap, the addresses that \<open>malloc\<close> returns next (it fails when
  there is none), the bytes of the objects, how many views of each are held, and the exception that is set.
\<close>

record 'o py_world =
  py_os :: os_state
  py_build :: build_config
  py_heap :: "size_t \<Rightarrow> ach_channel_t option"
  py_malloc :: "size_t list"
  py_bytes :: "'o \<Rightarrow> byte list"
  py_views :: "'o \<Rightarrow> nat"
  py_err :: "(py_exn \<times> string) option"

type_synonym 'o py_result = "(py_value option \<times> 'o py_world) outcome"

definition py_raise :: "py_exn \<Rightarrow> string \<Rightarrow> 'o py_world \<Rightarrow> 'o py_world" where
  "py_raise exn msg w = w\<lparr>py_err := Some (exn, msg)\<rparr>"

definition py_parse :: "'a option \<Rightarrow> ('a \<Rightarrow> 'o py_world \<Rightarrow> 'o py_result) \<Rightarrow> 'o py_world \<Rightarrow> 'o py_result" where
  "py_parse args f w =
     (case args of None \<Rightarrow> Ret (None, py_raise Argument_error [] w) | Some a \<Rightarrow> f a w)"

section \<open>Helpers of the module\<close>

definition parse_channel_pointer :: "'o py_api \<Rightarrow> 'o \<Rightarrow> 'o py_world \<Rightarrow> size_t \<times> 'o py_world" where
  "parse_channel_pointer api i w =
     (if PyInt_Check api i then (word_of_int (PyInt_AsLong api i), w)
      else if PyLong_Check api i then (PyLong_AsVoidPtr api i, w)
      else (0, py_raise Type_error ''invalid channel pointer'' w))"

definition raise_error :: "int \<Rightarrow> 'o py_world \<Rightarrow> py_value option \<times> 'o py_world" where
  "raise_error r w = (None, py_raise Ach_exception (ach_result_to_string r) w)"

text \<open>What the functions on an open channel begin with: the handle behind the object, or a null pointer.\<close>

definition with_channel_pointer ::
  "'o py_api \<Rightarrow> 'o \<Rightarrow> (size_t \<Rightarrow> 'o py_world \<Rightarrow> 'o py_result) \<Rightarrow> 'o py_world \<Rightarrow> 'o py_result" where
  "with_channel_pointer api i f w =
     (let (c, w) = parse_channel_pointer api i w in if c = 0 then Ret (None, w) else f c w)"

definition py_handle :: "size_t \<Rightarrow> 'o py_world \<Rightarrow> ach_channel_t outcome" where
  "py_handle c w = (case py_heap w c of None \<Rightarrow> Fault Unmapped | Some chan \<Rightarrow> Ret chan)"

text \<open>The end of the functions that return nothing.\<close>

definition none_or_error :: "ach_status_t \<Rightarrow> 'o py_world \<Rightarrow> py_value option \<times> 'o py_world" where
  "none_or_error r w = (if r \<noteq> ACH_OK then raise_error (ach_status_code r) w else (Some Py_none, w))"

section \<open>The functions of the module\<close>

definition ach_error :: "int option \<Rightarrow> 'o py_world \<Rightarrow> 'o py_result" where
  "ach_error args = py_parse args (\<lambda>r w. Ret (raise_error r w))"

definition result_string :: "int option \<Rightarrow> 'o py_world \<Rightarrow> 'o py_result" where
  "result_string args = py_parse args (\<lambda>r w. Ret (Some (Py_string (ach_result_to_string r)), w))"

text \<open>Opening; a channel that does not exist is created first.  A failure leaves the handle allocated.\<close>

definition open_or_create ::
  "build_config \<Rightarrow> string \<Rightarrow> size_t \<Rightarrow> size_t \<Rightarrow> os_state \<Rightarrow> (ach_status_t \<times> ach_channel_t \<times> os_state) outcome" where
  "open_or_create cfg name n s os =
     and_then (ach_open no_handle name None os) (\<lambda>(r, c, os).
     if r = ACH_ENOENT
     then and_then (ach_create cfg name n s None os) (\<lambda>(r, _, os).
          if r = ACH_OK \<or> r = ACH_EEXIST then ach_open c name None os else Ret (r, c, os))
     else Ret (r, c, os))"

definition py_open_channel :: "(string \<times> int \<times> int) option \<Rightarrow> 'o py_world \<Rightarrow> 'o py_result" where
  "py_open_channel args = py_parse args (\<lambda>(name, frame_count, frame_size) w.
     case py_malloc w of
       [] \<Rightarrow> Fault Unmapped
     | c # cs \<Rightarrow>
         and_then (open_or_create (py_build w) name (word_of_int frame_count) (word_of_int frame_size) (py_os w))
           (\<lambda>(r, chan, os).
            let w = w\<lparr>py_os := os, py_malloc := cs, py_heap := (py_heap w)(c := Some chan)\<rparr>
            in Ret (if r \<noteq> ACH_OK then raise_error (ach_status_code r) w else (Some (Py_ptr c), w))))"

definition py_close_channel :: "'o py_api \<Rightarrow> 'o option \<Rightarrow> 'o py_world \<Rightarrow> 'o py_result" where
  "py_close_channel api args = py_parse args (\<lambda>i.
     with_channel_pointer api i (\<lambda>c w.
     and_then (py_handle c w) (\<lambda>chan.
     and_then (ach_close chan (py_os w)) (\<lambda>(r, chan, os).
     let w = w\<lparr>py_os := os, py_heap := (py_heap w)(c := Some chan)\<rparr>
     in Ret (if r \<noteq> ACH_OK then raise_error (ach_status_code r) w
             else (Some Py_none, w\<lparr>py_heap := (py_heap w)(c := None)\<rparr>))))))"

text \<open>A view of the bytes of an object.\<close>

definition with_view ::
  "'o py_api \<Rightarrow> 'o \<Rightarrow> bool \<Rightarrow> string \<Rightarrow> ('o py_world \<Rightarrow> 'o py_result) \<Rightarrow> 'o py_world \<Rightarrow> 'o py_result" where
  "with_view api b writable msg f w =
     (if \<not> PyObject_CheckBuffer api b then Ret (None, py_raise Type_error ''invalid buffer'' w)
      else if \<not> PyObject_GetBuffer api b writable then Ret (None, py_raise Buffer_error msg w)
      else f (w\<lparr>py_views := (py_views w)(b := py_views w b + 1)\<rparr>))"

definition py_release :: "'o \<Rightarrow> 'o py_world \<Rightarrow> 'o py_world" where
  "py_release b w = w\<lparr>py_views := (py_views w)(b := py_views w b - 1)\<rparr>"

text \<open>The view is given back only when the write succeeds.\<close>

definition put_buf :: "'o py_api \<Rightarrow> ('o \<times> 'o) option \<Rightarrow> 'o py_world \<Rightarrow> 'o py_result" where
  "put_buf api args = py_parse args (\<lambda>(i, b).
     with_channel_pointer api i (\<lambda>c.
     with_view api b False ''couldn't view buffer'' (\<lambda>w.
     and_then (py_handle c w) (\<lambda>chan.
     and_then (chan_put 0 chan (Some (py_bytes w b)) (of_nat (length (py_bytes w b))) (py_os w)) (\<lambda>(r, os).
     let w = w\<lparr>py_os := os\<rparr>
     in Ret (if r \<noteq> ACH_OK then raise_error (ach_status_code r) w else (Some Py_none, py_release b w)))))))"

text \<open>
  How a status of \<^verbatim>\<open>ach_get\<close> is handed on.  \<^verbatim>\<open>ACH_CANCELED\<close> is not among the cases, so
  that a null pointer is returned and no exception set.
\<close>

definition get_returns :: "ach_status_t \<Rightarrow> bool" where
  "get_returns r \<longleftrightarrow> r \<in> {ACH_OK, ACH_STALE_FRAMES, ACH_MISSED_FRAME, ACH_TIMEOUT}"

definition get_raises :: "ach_status_t \<Rightarrow> bool" where
  "get_raises r \<longleftrightarrow> r \<in> {ACH_OVERFLOW, ACH_INVALID_NAME, ACH_BAD_SHM_FILE, ACH_FAILED_SYSCALL, ACH_CLOSED,
     ACH_EEXIST, ACH_ENOENT, ACH_BUG, ACH_EINVAL, ACH_CORRUPT, ACH_BAD_HEADER, ACH_EACCES}"

definition get_opts :: "int \<Rightarrow> int \<Rightarrow> uint32" where
  "get_opts wait latest =
     (let opts = 0; opts = (if wait \<noteq> 0 then opts OR ACH_O_WAIT else opts)
      in if latest \<noteq> 0 then opts OR ACH_O_LAST else opts)"

text \<open>
  \<open>wakes\<close> is what happens while the call waits; \<open>junk\<close> is what the variable for the size holds at first, which is
  what the caller gets when there is no frame.
\<close>

definition get_buf ::
  "'o py_api \<Rightarrow> size_t \<Rightarrow> wake list \<Rightarrow> ('o \<times> 'o \<times> int \<times> int) option \<Rightarrow> 'o py_world \<Rightarrow> 'o py_result" where
  "get_buf api junk wakes args = py_parse args (\<lambda>(i, b, wait, latest).
     with_channel_pointer api i (\<lambda>c.
     with_view api b True ''couldn't view writable buffer'' (\<lambda>w.
     and_then (py_handle c w) (\<lambda>chan.
     and_then (chan_block chan (py_os w)) (\<lambda>(k, shm).
     and_then (ach_get 0 chan shm (py_bytes w b) (of_nat (length (py_bytes w b))) junk None (get_opts wait latest) wakes)
       (\<lambda>g.
        let w = w\<lparr>py_os := set_block k (g_shm g) (py_os w), py_heap := (py_heap w)(c := Some (g_chan g)),
                  py_bytes := (py_bytes w)(b := g_buf g)\<rparr>;
            w = py_release b w
        in Ret (if get_returns (g_status g)
                then (Some (Py_pair (ach_status_code (g_status g)) (g_frame_size g)), w)
                else if get_raises (g_status g) then raise_error (ach_status_code (g_status g)) w
                else (None, w))))))))"

definition flush_channel :: "'o py_api \<Rightarrow> 'o option \<Rightarrow> 'o py_world \<Rightarrow> 'o py_result" where
  "flush_channel api args = py_parse args (\<lambda>i.
     with_channel_pointer api i (\<lambda>c w.
     and_then (py_handle c w) (\<lambda>chan.
     and_then (chan_block chan (py_os w)) (\<lambda>(k, shm).
     and_then (ach_flush 0 chan shm) (\<lambda>(r, chan, shm).
     Ret (none_or_error r (w\<lparr>py_os := set_block k shm (py_os w), py_heap := (py_heap w)(c := Some chan)\<rparr>)))))))"

definition chmod_channel :: "'o py_api \<Rightarrow> ('o \<times> int) option \<Rightarrow> 'o py_world \<Rightarrow> 'o py_result" where
  "chmod_channel api args = py_parse args (\<lambda>(i, mode).
     with_channel_pointer api i (\<lambda>c w.
     and_then (py_handle c w) (\<lambda>chan.
     let (r, os) = ach_chmod chan (unat (word_of_int mode :: uint32)) (py_os w)
     in Ret (none_or_error r (w\<lparr>py_os := os\<rparr>)))))"

definition unlink_channel :: "string option \<Rightarrow> 'o py_world \<Rightarrow> 'o py_result" where
  "unlink_channel args = py_parse args (\<lambda>name w.
     let (r, os) = ach_unlink name (py_os w) in Ret (none_or_error r (w\<lparr>py_os := os\<rparr>)))"

text \<open>The constants of the module.\<close>

definition ach_py_constants :: "(string \<times> int) list" where
  "ach_py_constants =
     [(''ACH_OK'', ach_status_code ACH_OK), (''ACH_OVERFLOW'', ach_status_code ACH_OVERFLOW),
      (''ACH_INVALID_NAME'', ach_status_code ACH_INVALID_NAME),
      (''ACH_BAD_SHM_FILE'', ach_status_code ACH_BAD_SHM_FILE),
      (''ACH_FAILED_SYSCALL'', ach_status_code ACH_FAILED_SYSCALL),
      (''ACH_STALE_FRAMES'', ach_status_code ACH_STALE_FRAMES),
      (''ACH_MISSED_FRAME'', ach_status_code ACH_MISSED_FRAME), (''ACH_TIMEOUT'', ach_status_code ACH_TIMEOUT),
      (''ACH_EEXIST'', ach_status_code ACH_EEXIST), (''ACH_ENOENT'', ach_status_code ACH_ENOENT),
      (''ACH_CLOSED'', ach_status_code ACH_CLOSED), (''ACH_BUG'', ach_status_code ACH_BUG),
      (''ACH_EINVAL'', ach_status_code ACH_EINVAL), (''ACH_CORRUPT'', ach_status_code ACH_CORRUPT),
      (''ACH_BAD_HEADER'', ach_status_code ACH_BAD_HEADER), (''ACH_EACCES'', ach_status_code ACH_EACCES),
      (''ACH_O_WAIT'', uint ACH_O_WAIT), (''ACH_O_LAST'', uint ACH_O_LAST),
      (''ACH_DEFAULT_FRAME_SIZE'', ACH_DEFAULT_FRAME_SIZE), (''ACH_DEFAULT_FRAME_COUNT'', ACH_DEFAULT_FRAME_COUNT)]"

section \<open>Facts\<close>

text \<open>
  What the interpreter says of the objects in a program that uses the module as it should.  The object that
  \<^verbatim>\<open>PyLong_FromVoidPtr\<close> makes of an address is a plain integer when the address is a \<open>long\<close> and a long
  integer otherwise; a program may also hand in a long integer it made of the plain one.
\<close>

definition points_to :: "'o py_api \<Rightarrow> 'o \<Rightarrow> size_t \<Rightarrow> bool" where
  "points_to api i c \<longleftrightarrow>
     c \<noteq> 0 \<and> (if PyInt_Check api i then PyInt_AsLong api i = uint c else PyLong_Check api i \<and> PyLong_AsVoidPtr api i = c)"

definition viewable :: "'o py_api \<Rightarrow> bool \<Rightarrow> 'o \<Rightarrow> bool" where
  "viewable api writable b \<longleftrightarrow> PyObject_CheckBuffer api b \<and> PyObject_GetBuffer api b writable"

lemma with_pointer: "points_to api i c \<Longrightarrow> with_channel_pointer api i f w = f c w"
  by (simp add: points_to_def with_channel_pointer_def parse_channel_pointer_def)

text \<open>A handle of the module on a block.\<close>

definition py_open :: "'o py_world \<Rightarrow> size_t \<Rightarrow> ach_channel_t \<Rightarrow> nat \<Rightarrow> ach_header_t \<Rightarrow> bool" where
  "py_open w c chan k shm \<longleftrightarrow>
     py_heap w c = Some chan \<and> ch_shm chan = Some k \<and> block_at (py_os w) k = Some shm \<and> at_rest shm \<and>
     chan_ok chan shm \<and> \<not> ch_cancel chan"

lemma py_open_new:
  assumes q: "quiet (py_os w)" and name: "channel_name_ok name" and new: "os_dir (py_os w) (shm_file name) = None"
    and sz: "sizes_ok (word_of_int n) (word_of_int s)" "1 < unat (word_of_int n :: size_t)"
    and fit: "full_len (word_of_int n) (word_of_int s) \<le> page_round (body_len (word_of_int n) (word_of_int s))"
    and m: "py_malloc w = c # cs"
  shows "\<exists>w' chan k. py_open_channel (Some (name, n, s)) w = Ret (Some (Py_ptr c), w') \<and>
           py_open w' c chan k (fresh_block name (word_of_int n) (word_of_int s)) \<and> cseq chan = 0 \<and>
           py_bytes w' = py_bytes w \<and> py_views w' = py_views w \<and> py_err w' = py_err w"
proof -
  let ?n = "word_of_int n :: size_t" and ?s = "word_of_int s :: size_t"
  define os where "os = (py_os w)\<lparr>os_errno := ENOENT\<rparr>"
  let ?b = "fresh_block name ?n ?s" and ?chan = "no_handle\<lparr>ch_attr := ach_attr_init\<rparr>"
  have os: "quiet os" "os_dir os (shm_file name) = None" using q new by (simp_all add: os_def quiet_def)
  have "ach_open no_handle name None (py_os w) = Ret (ACH_ENOENT, ?chan, os)"
    using q unfolding os_def by (intro ach_open_missing name new) (simp add: quiet_def)
  then obtain os2 where o: "open_or_create (py_build w) name ?n ?s (py_os w) =
      Ret (ACH_OK, fresh_handle (os_fresh_id os) (open_len ?b) (os_fresh_fd os + 1) ach_attr_init, os2)"
      "os_objects os2 = os_objects (after_create os name ?n ?s)"
    using ach_create_quiet [OF os(1) name os(2) sz(1) plain_None, of "py_build w"]
      ach_open_created [OF os(1) name sz(1), of ?chan] fit
    by (simp add: open_or_create_def)
  have "chan_ok (fresh_handle (os_fresh_id os) (open_len ?b) (os_fresh_fd os + 1) ach_attr_init) ?b"
    using fresh_block_at_rest(4) [OF sz(1)] sz(2) by (intro fresh_handle_ok) simp
  moreover have "block_at os2 (os_fresh_id os) = Some ?b" using o(2) by (simp add: block_at_def after_create_def)
  ultimately show ?thesis using o(1) m fresh_block_at_rest(1) [OF sz(1), of name]
    by (simp add: py_open_channel_def py_parse_def py_open_def) (simp add: fresh_handle_def)
qed

lemma get_opts_poll: "get_opts 0 0 = 0"
  by (simp add: get_opts_def)

text \<open>A put of a buffer that the program has filled, and a get that returns what the buffer then holds.\<close>

definition py_put :: "'o py_api \<Rightarrow> 'o \<Rightarrow> 'o \<Rightarrow> byte list \<Rightarrow> 'o py_world \<Rightarrow> 'o py_world option" where
  "py_put api i a m w =
     (case put_buf api (Some (i, a)) (w\<lparr>py_bytes := (py_bytes w)(a := m)\<rparr>) of
        Ret (Some Py_none, w) \<Rightarrow> Some w
      | _ \<Rightarrow> None)"

definition py_get :: "'o py_api \<Rightarrow> size_t \<Rightarrow> 'o \<Rightarrow> 'o \<Rightarrow> 'o py_world \<Rightarrow> (byte list \<times> 'o py_world) option" where
  "py_get api junk i b w =
     (case get_buf api junk [] (Some (i, b, 0, 0)) w of
        Ret (Some (Py_pair r n), w) \<Rightarrow> if r = ach_status_code ACH_OK then Some (take (unat n) (py_bytes w b), w) else None
      | _ \<Rightarrow> None)"

text \<open>The state between two calls: no view is held and no exception is set that was not there before.\<close>

definition py_opened ::
  "'o py_api \<Rightarrow> 'o \<Rightarrow> size_t \<Rightarrow> nat \<Rightarrow> 'o \<Rightarrow> 'o \<Rightarrow> nat \<Rightarrow> 'o py_world \<Rightarrow> ach_channel_t \<Rightarrow> ach_header_t \<Rightarrow> 'o py_world \<Rightarrow> bool"
  where
  "py_opened api i c k a b room w0 chan shm w \<longleftrightarrow>
     py_open w c chan k shm \<and> points_to api i c \<and> viewable api False a \<and> viewable api True b \<and> b \<noteq> a \<and>
     length (py_bytes w b) = room \<and> room < 2 ^ 64 \<and> py_views w = py_views w0 \<and> py_err w = py_err w0"

lemma py_put_stores:
  assumes "py_opened api i c k a b room w0 chan shm w"
    and "m \<noteq> []" "length m \<le> dsize shm" "lseq shm + 1 < 2 ^ 64"
  shows "\<exists>w' shm'. py_put api i a m w = Some w' \<and> stores shm m shm' \<and> py_opened api i c k a b room w0 chan shm' w'"
proof -
  have a: "points_to api i c" "viewable api False a" "py_heap w c = Some chan" "ch_shm chan = Some k"
    "block_at (py_os w) k = Some shm" "at_rest shm" "chan_ok chan shm"
    using assms(1) by (simp_all add: py_opened_def py_open_def)
  obtain shm' where p: "ach_put 0 chan shm (Some m) (of_nat (length m)) = Ret (ACH_OK, shm')" "stores shm m shm'"
    using put_stores [OF a(6) assms(2-4), of chan 0] a(4) by auto
  let ?w = "w\<lparr>py_bytes := (py_bytes w)(a := m), py_os := set_block k shm' (py_os w)\<rparr>"
  have "chan_put 0 chan (Some m) (of_nat (length m)) (py_os w) = Ret (ACH_OK, set_block k shm' (py_os w))"
    using a(4,5) p(1) by (intro chan_put_block) (simp_all add: chan_block_def)
  then have "py_put api i a m w = Some ?w"
    using a(1-3)
    by (simp add: py_put_def put_buf_def py_parse_def with_pointer with_view_def viewable_def py_handle_def py_release_def Let_def)
  moreover have "chan_ok chan shm'" "at_rest shm'" using p(2) chan_ok_mono [OF a(7), of shm'] by (simp_all add: stores_def)
  then have "py_opened api i c k a b room w0 chan shm' ?w"
    using assms(1) by (simp add: py_opened_def py_open_def block_at_set_block)
  ultimately show ?thesis using p(2) by blast
qed

lemma py_get_unread:
  assumes "py_opened api i c k a b room w0 chan shm w" "one_unread chan shm m" "length m \<le> room"
  shows "\<exists>w' chan'. py_get api junk i b w = Some (m, w') \<and> cseq chan' = lseq shm \<and> py_opened api i c k a b room w0 chan' shm w'"
proof -
  have a: "points_to api i c" "viewable api True b" "py_heap w c = Some chan" "ch_shm chan = Some k"
    "block_at (py_os w) k = Some shm" "at_rest shm" "chan_ok chan shm" "\<not> ch_cancel chan"
    "length (py_bytes w b) = room" "room < 2 ^ 64"
    using assms(1) by (simp_all add: py_opened_def py_open_def)
  have "\<not> o_last 0" by (simp add: o_last_def)
  note g = get_unread [OF a(6-8) this assms(2) assms(3) [folded a(9)] a(10) [folded a(9)]]
  have m: "unat (of_nat (length m) :: size_t) = length m"
    using assms(3) a(10) by (simp add: unsigned_of_nat take_bit_nat_eq_self)
  let ?w = "w\<lparr>py_os := set_block k shm (py_os w), py_heap := (py_heap w)(c := Some (read_on chan shm)),
    py_bytes := (py_bytes w)(b := m @ drop (length m) (py_bytes w b))\<rparr>"
  have "py_get api junk i b w = Some (m, ?w)"
    using a(1-5) g(1) [of 0 junk None "[]"] m
    by (simp add: py_get_def get_buf_def py_parse_def with_pointer with_view_def viewable_def py_handle_def chan_block_def
        get_opts_poll get_returns_def py_release_def Let_def)
  moreover have "py_opened api i c k a b room w0 (read_on chan shm) shm ?w"
    using assms(1,3) g(2) by (simp add: py_opened_def py_open_def block_at_set_block)
  ultimately show ?thesis using g(3) by blast
qed

interpretation python: channel_binding "py_opened api i c k a b room w0" room "py_put api i a" "py_get api junk i b"
  for api junk i c k a b room w0
proof unfold_locales
  show "py_opened api i c k a b room w0 chan shm w \<Longrightarrow> at_rest shm" for chan shm w
    by (simp add: py_opened_def py_open_def)
qed (fact py_put_stores, fact py_get_unread)

section \<open>Properties\<close>

text \<open>
  C22. From Python and back.  Whatever the interpreter, as long as it takes the handle for the address it
  is, be it a plain or a long integer, and lets the buffers be viewed: opening a channel that does not exist creates it and returns the
  handle; then any number of messages, each put from one buffer and got into another that is large
  enough, come back byte for byte, with their sizes.  The channel holds the newest of them, no view of a
  buffer is left over and no exception is set.
\<close>

theorem python_roundtrip:
  assumes "quiet (py_os w)" "channel_name_ok name" "os_dir (py_os w) (shm_file name) = None"
    and "sizes_ok (word_of_int n) (word_of_int s)" "1 < unat (word_of_int n :: size_t)"
    and "full_len (word_of_int n) (word_of_int s) \<le> page_round (body_len (word_of_int n) (word_of_int s))"
    and "py_malloc w = c # cs" "points_to api i c" "viewable api False a" "viewable api True b" "b \<noteq> a"
    and "\<forall>m\<in>set ms. m \<noteq> [] \<and> length m \<le> unat (word_of_int n :: size_t) * unat (word_of_int s :: size_t) \<and>
           length m \<le> length (py_bytes w b)"
    and "length (py_bytes w b) < 2 ^ 64" "length ms + 1 < 2 ^ 64"
  shows "\<exists>w1 w2 k shm. py_open_channel (Some (name, n, s)) w = Ret (Some (Py_ptr c), w1) \<and>
           exchange (py_put api i a) (py_get api junk i b) ms w1 = Some (ms, w2) \<and>
           block_at (py_os w2) k = Some shm \<and>
           frames shm = keep (unat (word_of_int n :: size_t)) (unat (word_of_int n :: size_t) * unat (word_of_int s :: size_t)) (number 0 ms) \<and>
           py_views w2 = py_views w \<and> py_err w2 = py_err w"
proof -
  let ?b = "fresh_block name (word_of_int n) (word_of_int s)" and ?room = "length (py_bytes w b)"
  obtain w1 chan k where o: "py_open_channel (Some (name, n, s)) w = Ret (Some (Py_ptr c), w1)"
      "py_open w1 c chan k ?b" "cseq chan = 0" "py_bytes w1 = py_bytes w" "py_views w1 = py_views w" "py_err w1 = py_err w"
    using py_open_new [OF assms(1-7)] by blast
  have rest: "frames ?b = []" "icnt ?b = unat (word_of_int n :: size_t)" "lseq ?b = 0"
    "dsize ?b = unat (word_of_int n :: size_t) * unat (word_of_int s :: size_t)"
    using fresh_block_at_rest [OF assms(4), of name] by simp_all
  have "py_opened api i c k a b ?room w chan ?b w1" using o assms(8-11,13) by (simp add: py_opened_def)
  then obtain w2 chan2 shm where "exchange (py_put api i a) (py_get api junk i b) ms w1 = Some (ms, w2)"
      "py_opened api i c k a b ?room w chan2 shm w2" "frames shm = keep (icnt ?b) (dsize ?b) (number 0 ms)"
    using python.exchange_all [of api i c k a b ?room w chan ?b w1 ms, of junk] o(3) rest assms(12,14) by auto
  then show ?thesis using o(1) rest
    by (intro exI [of _ w1] exI [of _ w2] exI [of _ k] exI [of _ shm]) (simp add: py_opened_def py_open_def)
qed

text \<open>Objects of a small interpreter: an integer, a string and an array of bytes.\<close>

datatype demo_object = Demo_int | Demo_string | Demo_array

definition demo_api :: "demo_object py_api" where
  "demo_api = \<lparr>PyInt_Check = (\<lambda>x. x = Demo_int), PyInt_AsLong = (\<lambda>x. if x = Demo_int then 64 else -1),
     PyLong_Check = (\<lambda>_. False), PyLong_AsVoidPtr = (\<lambda>_. 0), PyObject_CheckBuffer = (\<lambda>x. x \<noteq> Demo_int),
     PyObject_GetBuffer = (\<lambda>x writable. writable \<longrightarrow> x = Demo_array)\<rparr>"

definition demo_python :: "demo_object py_world" where
  "demo_python = \<lparr>py_os = empty_os, py_build = debug_build, py_heap = (\<lambda>_. None), py_malloc = [64],
     py_bytes = (\<lambda>x. case x of Demo_string \<Rightarrow> [1, 2, 3] | _ \<Rightarrow> [0, 0, 0, 9]), py_views = (\<lambda>_. 0), py_err = None\<rparr>"

theorem python_roundtrip_witness:
  "\<exists>w1 w2 k shm. py_open_channel (Some (''imu'', 16, 512)) demo_python = Ret (Some (Py_ptr 64), w1) \<and>
     exchange (py_put demo_api Demo_int Demo_string) (py_get demo_api 7 Demo_int Demo_array) [[1, 2, 3], [4]] w1 =
       Some ([[1, 2, 3], [4]], w2) \<and>
     block_at (py_os w2) k = Some shm \<and> frames shm = [(1, [1, 2, 3]), (2, [4])] \<and> py_err w2 = None"
proof -
  have sz: "sizes_ok (word_of_int 16) (word_of_int 512)"
    "full_len (word_of_int 16) (word_of_int 512) \<le> page_round (body_len (word_of_int 16) (word_of_int 512))"
    by (simp_all add: sizes_ok_def full_len_def body_len_def page_round_def page_size_def)
  have w: "quiet (py_os demo_python)" "os_dir (py_os demo_python) (shm_file ''imu'') = None" "py_malloc demo_python = [64]"
    "py_bytes demo_python Demo_array = [0, 0, 0, 9]" "py_err demo_python = None"
    using quiet_empty_os by (simp_all add: demo_python_def)
  have a: "points_to demo_api Demo_int 64" "viewable demo_api False Demo_string" "viewable demo_api True Demo_array"
    "Demo_array \<noteq> Demo_string"
    by (simp_all add: demo_api_def points_to_def viewable_def)
  have m: "1 < unat (word_of_int 16 :: size_t)"
    "\<forall>m\<in>set [[1, 2, 3], [4 :: byte]]. m \<noteq> [] \<and>
       length m \<le> unat (word_of_int 16 :: size_t) * unat (word_of_int 512 :: size_t) \<and>
       length m \<le> length (py_bytes demo_python Demo_array)"
    "length (py_bytes demo_python Demo_array) < 2 ^ 64" "length [[1, 2, 3], [4 :: byte]] + 1 < 2 ^ 64"
    by (simp_all add: w(4))
  have k: "keep (unat (word_of_int 16 :: size_t)) (unat (word_of_int 16 :: size_t) * unat (word_of_int 512 :: size_t))
      (number 0 [[1, 2, 3], [4]]) = [(1, [1, 2, 3]), (2, [4])]" by simp
  from python_roundtrip [OF w(1) name_imu w(2) sz(1) m(1) sz(2) w(3) a m(2-4), unfolded k w(5)] show ?thesis by blast
qed

text \<open>
  A read that is cancelled: the module returns a null pointer and sets no exception, which the
  interpreter takes for an error of its own.
\<close>

lemma cancelled_read_no_exception:
  assumes "py_heap w c = Some chan" "ch_shm chan = Some k" "block_at (py_os w) k = Some shm" "at_rest shm" "ch_cancel chan"
    and "points_to api i c" "viewable api True b" "py_err w = None"
  shows "\<exists>w'. get_buf api junk wakes (Some (i, b, wait, latest)) w = Ret (None, w') \<and> py_err w' = None"
  using assms get_cancelled [OF assms(4,5)]
  by (simp add: get_buf_def py_parse_def with_pointer with_view_def viewable_def py_handle_def chan_block_def
      get_returns_def get_raises_def py_release_def Let_def)

text \<open>A write that fails keeps the view of its buffer.\<close>

lemma failed_write_keeps_view:
  assumes "py_heap w c = Some chan" "ch_shm chan = Some k" "block_at (py_os w) k = Some shm" "at_rest shm"
    and "points_to api i c" "viewable api False a" "py_bytes w a = []"
  shows "\<exists>w'. put_buf api (Some (i, a)) w = Ret (None, w') \<and> py_views w' a = py_views w a + 1"
  using assms
  by (simp add: put_buf_def py_parse_def with_pointer with_view_def viewable_def py_handle_def chan_put_def
      raise_error_def py_raise_def Let_def)

end
