(* ===== verification/Ach_Java.thy ===== *)
theory Ach_Java
  imports Ach_Binding
begin

text \<open>
  The native methods of \<^verbatim>\<open>java/achj.c\<close>.  The virtual machine is not part of the repository: what
  it answers when native code asks for the characters of a string or the elements of an array is a
  record of functions, \<open>jni_env\<close>; the contents of the arrays are part of the state, with the number of
  times native code holds the elements of each.
\<close>

section \<open>The virtual machine\<close>

text \<open>A null pointer is \<open>None\<close> for the characters of a string and \<open>False\<close> for the elements of an array.\<close>

record 'o jni_env =
  GetStringUTFChars :: "'o \<Rightarrow> string option"
  GetArrayElements :: "'o \<Rightarrow> bool"

text \<open>
  The state: the system, the handles on the heap, the addresses that \<open>malloc\<close> returns next (it fails when
  there is none), the arrays of bytes and of long integers, and the elements that are held.
\<close>

record 'o java_world =
  j_os :: os_state
  j_heap :: "size_t \<Rightarrow> ach_channel_t option"
  j_malloc :: "size_t list"
  j_bytes :: "'o \<Rightarrow> byte list"
  j_longs :: "'o \<Rightarrow> size_t list"
  j_held :: "'o \<Rightarrow> nat"

type_synonym 'o java_result = "(int \<times> 'o java_world) outcome"

text \<open>
  Getting and releasing the elements of an array.  The code never looks for a null pointer: it stores
  through it or hands it back to the machine, which is a fault either way.
\<close>

definition get_elements :: "'o jni_env \<Rightarrow> 'o \<Rightarrow> 'o java_world \<Rightarrow> 'o java_world outcome" where
  "get_elements env arr w =
     (if GetArrayElements env arr then Ret (w\<lparr>j_held := (j_held w)(arr := j_held w arr + 1)\<rparr>) else Fault Unmapped)"

definition release_elements :: "'o \<Rightarrow> 'o java_world \<Rightarrow> 'o java_world" where
  "release_elements arr w = w\<lparr>j_held := (j_held w)(arr := j_held w arr - 1)\<rparr>"

text \<open>A store through the elements of an array of long integers.\<close>

definition set_long :: "'o \<Rightarrow> nat \<Rightarrow> size_t \<Rightarrow> 'o java_world \<Rightarrow> 'o java_world outcome" where
  "set_long arr i x w =
     (if i < length (j_longs w arr) then Ret (w\<lparr>j_longs := (j_longs w)(arr := (j_longs w arr)[i := x])\<rparr>)
      else Fault Out_of_bounds)"

definition j_handle :: "size_t \<Rightarrow> 'o java_world \<Rightarrow> ach_channel_t outcome" where
  "j_handle ptr w = (case j_heap w ptr of None \<Rightarrow> Fault Unmapped | Some chan \<Rightarrow> Ret chan)"

section \<open>The native methods\<close>

definition Lib_open :: "'o jni_env \<Rightarrow> 'o \<Rightarrow> 'o \<Rightarrow> 'o java_world \<Rightarrow> 'o java_result" where
  "Lib_open env name arr w =
     (case (j_malloc w, GetStringUTFChars env name) of
        (ptr # ptrs, Some native_name) \<Rightarrow>
          and_then (ach_open no_handle native_name None (j_os w)) (\<lambda>(r, chan, os).
          let w = w\<lparr>j_os := os, j_malloc := ptrs, j_heap := (j_heap w)(ptr := Some chan)\<rparr>
          in if ACH_OK = r
             then and_then (get_elements env arr w) (\<lambda>w.
                  and_then (set_long arr 0 ptr w) (\<lambda>w.
                  Ret (ach_status_code r, release_elements arr w)))
             else Ret (ach_status_code r, w\<lparr>j_heap := (j_heap w)(ptr := None)\<rparr>))
      | _ \<Rightarrow> Fault Unmapped)"

text \<open>The handle is freed whether or not the channel could be closed.\<close>

definition Lib_close :: "size_t \<Rightarrow> 'o java_world \<Rightarrow> 'o java_result" where
  "Lib_close ptr w =
     and_then (j_handle ptr w) (\<lambda>chan.
     and_then (ach_close chan (j_os w)) (\<lambda>(r, chan, os).
     Ret (ach_status_code r, w\<lparr>j_os := os, j_heap := (j_heap w)(ptr := None)\<rparr>)))"

definition Lib_flush :: "size_t \<Rightarrow> 'o java_world \<Rightarrow> 'o java_result" where
  "Lib_flush ptr w =
     and_then (j_handle ptr w) (\<lambda>chan.
     and_then (chan_block chan (j_os w)) (\<lambda>(k, shm).
     and_then (ach_flush 0 chan shm) (\<lambda>(r, chan, shm).
     Ret (ach_status_code r, w\<lparr>j_os := set_block k shm (j_os w), j_heap := (j_heap w)(ptr := Some chan)\<rparr>))))"

definition Lib_put :: "'o jni_env \<Rightarrow> size_t \<Rightarrow> 'o \<Rightarrow> 'o java_world \<Rightarrow> 'o java_result" where
  "Lib_put env ptr arr w =
     (let len = length (j_bytes w arr)
      in and_then (get_elements env arr w) (\<lambda>w.
         and_then (j_handle ptr w) (\<lambda>chan.
         and_then (chan_put 0 chan (Some (j_bytes w arr)) (of_nat len) (j_os w)) (\<lambda>(r, os).
         Ret (ach_status_code r, release_elements arr (w\<lparr>j_os := os\<rparr>))))))"

text \<open>The frame size is stored when there is an array for it that has room; \<open>None\<close> is a null reference.\<close>

definition s_get ::
  "'o jni_env \<Rightarrow> wake list \<Rightarrow> size_t \<Rightarrow> 'o \<Rightarrow> 'o option \<Rightarrow> (int \<times> int) option \<Rightarrow> uint32 \<Rightarrow> 'o java_world \<Rightarrow>
   'o java_result" where
  "s_get env wakes ptr arr fs_ar ts opt w =
     (let len = length (j_bytes w arr)
      in and_then (get_elements env arr w) (\<lambda>w.
         and_then (j_handle ptr w) (\<lambda>chan.
         and_then (chan_block chan (j_os w)) (\<lambda>(k, shm).
         and_then (ach_get 0 chan shm (j_bytes w arr) (of_nat len) 0 ts opt wakes) (\<lambda>g.
         let w = release_elements arr
               (w\<lparr>j_os := set_block k (g_shm g) (j_os w), j_heap := (j_heap w)(ptr := Some (g_chan g)),
                  j_bytes := (j_bytes w)(arr := g_buf g)\<rparr>);
             r = ach_status_code (g_status g)
         in case fs_ar of
              None \<Rightarrow> Ret (r, w)
            | Some fs_ar \<Rightarrow>
                if 0 < length (j_longs w fs_ar)
                then and_then (get_elements env fs_ar w) (\<lambda>w.
                     and_then (set_long fs_ar 0 (g_frame_size g) w) (\<lambda>w.
                     Ret (r, release_elements fs_ar w)))
                else Ret (r, w))))))"

definition Lib_get :: "'o jni_env \<Rightarrow> wake list \<Rightarrow> size_t \<Rightarrow> 'o \<Rightarrow> 'o option \<Rightarrow> int \<Rightarrow> 'o java_world \<Rightarrow> 'o java_result" where
  "Lib_get env wakes ptr arr fs opt = s_get env wakes ptr arr fs None (word_of_int opt)"

definition Lib_get_timed ::
  "'o jni_env \<Rightarrow> wake list \<Rightarrow> size_t \<Rightarrow> 'o \<Rightarrow> 'o option \<Rightarrow> int \<Rightarrow> int \<Rightarrow> int \<Rightarrow> 'o java_world \<Rightarrow> 'o java_result" where
  "Lib_get_timed env wakes ptr buf fs sec nsec opt = s_get env wakes ptr buf fs (Some (sec, nsec)) (word_of_int opt)"

text \<open>\<open>clock\<close> is what \<^verbatim>\<open>clock_gettime\<close> returns, with the time that is then in the struct.\<close>

definition Lib_time :: "'o jni_env \<Rightarrow> int \<times> int \<times> int \<Rightarrow> 'o \<Rightarrow> 'o java_world \<Rightarrow> 'o java_result" where
  "Lib_time env clock arr w =
     (let len = length (j_longs w arr); (r, sec, nsec) = clock
      in if len \<noteq> 0
         then and_then (get_elements env arr w) (\<lambda>w.
              and_then (set_long arr 0 (word_of_int sec) w) (\<lambda>w.
              and_then (if 2 \<le> len then set_long arr 1 (word_of_int nsec) w else Ret w) (\<lambda>w.
              Ret (r, release_elements arr w))))
         else Ret (-2, w))"

text \<open>The methods that return a constant.\<close>

definition java_constants :: "(string \<times> int) list" where
  "java_constants =
     map (\<lambda>r. (ach_result_to_string (ach_status_code r), ach_status_code r))
       [ACH_OK, ACH_OVERFLOW, ACH_INVALID_NAME, ACH_BAD_SHM_FILE, ACH_FAILED_SYSCALL, ACH_STALE_FRAMES,
        ACH_MISSED_FRAME, ACH_TIMEOUT, ACH_EEXIST, ACH_ENOENT, ACH_CLOSED, ACH_BUG, ACH_EINVAL, ACH_CORRUPT,
        ACH_BAD_HEADER, ACH_EACCES, ACH_CANCELED]
     @ [(''ACH_O_WAIT'', uint ACH_O_WAIT), (''ACH_O_LAST'', uint ACH_O_LAST), (''ACH_O_COPY'', uint ACH_O_COPY)]"

section \<open>Facts\<close>

lemma release_held [simp]:
  "j_held (release_elements arr w) = (j_held w)(arr := j_held w arr - 1)"
  "j_os (release_elements arr w) = j_os w" "j_heap (release_elements arr w) = j_heap w"
  "j_malloc (release_elements arr w) = j_malloc w" "j_bytes (release_elements arr w) = j_bytes w"
  "j_longs (release_elements arr w) = j_longs w"
  by (simp_all add: release_elements_def)

text \<open>The address of a handle on the channel that was created under a name, and is now open.\<close>

definition j_open ::
  "os_state \<Rightarrow> string \<Rightarrow> size_t \<Rightarrow> size_t \<Rightarrow> 'o java_world \<Rightarrow> size_t \<Rightarrow> ach_channel_t \<Rightarrow> ach_header_t \<Rightarrow> bool" where
  "j_open os name n s w ptr chan shm \<longleftrightarrow> j_heap w ptr = Some chan \<and> opened_on os name n s chan shm (j_os w)"

lemma j_openD:
  assumes "j_open os name n s w ptr chan shm"
  shows "j_handle ptr w = Ret chan" "chan_block chan (j_os w) = Ret (os_fresh_id os, shm)" "at_rest shm"
    "chan_ok chan shm" "\<not> ch_cancel chan" "ch_shm chan \<noteq> None"
  using assms opened_on_block [of os name n s chan shm "j_os w"]
  by (simp_all add: j_open_def j_handle_def) (simp_all add: opened_on_def)

lemma lib_open_created:
  assumes "quiet os" "channel_name_ok name" "sizes_ok n s" "1 < unat n" "full_len n s \<le> page_round (body_len n s)"
    and "j_os w = after_create os name n s" "j_malloc w = ptr # ptrs" "j_longs w arr \<noteq> []"
    and "GetStringUTFChars env nm = Some name" "GetArrayElements env arr"
  shows "\<exists>w' chan. Lib_open env nm arr w = Ret (ach_status_code ACH_OK, w') \<and>
           j_open os name n s w' ptr chan (fresh_block name n s) \<and> cseq chan = 0 \<and>
           j_longs w' = (j_longs w)(arr := (j_longs w arr)[0 := ptr]) \<and> j_heap w' = (j_heap w)(ptr := Some chan) \<and>
           j_malloc w' = ptrs \<and> j_bytes w' = j_bytes w \<and> j_held w' = j_held w"
proof -
  obtain chan now where "ach_open no_handle name None (j_os w) = Ret (ACH_OK, chan, now)"
      "opened_on os name n s chan (fresh_block name n s) now" "cseq chan = 0"
    using opened_on_open [OF assms(1-5), of no_handle] assms(6) by auto
  then show ?thesis using assms(7-10) by (simp add: Lib_open_def get_elements_def set_long_def j_open_def Let_def)
qed

text \<open>A put of an array that the program has filled, and a get that returns what the array then holds.\<close>

definition java_put :: "'o jni_env \<Rightarrow> size_t \<Rightarrow> 'o \<Rightarrow> byte list \<Rightarrow> 'o java_world \<Rightarrow> 'o java_world option" where
  "java_put env ptr src m w =
     (case Lib_put env ptr src (w\<lparr>j_bytes := (j_bytes w)(src := m)\<rparr>) of
        Ret (r, w) \<Rightarrow> if r = 0 then Some w else None
      | _ \<Rightarrow> None)"

definition java_get :: "'o jni_env \<Rightarrow> size_t \<Rightarrow> 'o \<Rightarrow> 'o \<Rightarrow> 'o java_world \<Rightarrow> (byte list \<times> 'o java_world) option" where
  "java_get env ptr dst fa w =
     (case Lib_get env [] ptr dst (Some fa) 0 w of
        Ret (r, w) \<Rightarrow> if r = 0 then Some (take (unat (j_longs w fa ! 0)) (j_bytes w dst), w) else None
      | _ \<Rightarrow> None)"

text \<open>The state between two calls: what is held and what is on the heap beside the handle does not change.\<close>

definition java_opened ::
  "os_state \<Rightarrow> string \<Rightarrow> size_t \<Rightarrow> size_t \<Rightarrow> 'o jni_env \<Rightarrow> size_t \<Rightarrow> 'o \<Rightarrow> 'o \<Rightarrow> 'o \<Rightarrow> nat \<Rightarrow> 'o java_world \<Rightarrow>
   ach_channel_t \<Rightarrow> ach_header_t \<Rightarrow> 'o java_world \<Rightarrow> bool" where
  "java_opened os name n s env ptr src dst fa room w0 chan shm w \<longleftrightarrow>
     j_open os name n s w ptr chan shm \<and> dst \<noteq> src \<and>
     GetArrayElements env src \<and> GetArrayElements env dst \<and> GetArrayElements env fa \<and> j_longs w fa \<noteq> [] \<and>
     length (j_bytes w dst) = room \<and> room < 2 ^ 64 \<and>
     j_heap w = (j_heap w0)(ptr := Some chan) \<and> j_held w = j_held w0"

lemma java_put_stores:
  assumes "java_opened os name n s env ptr src dst fa room w0 chan shm w"
    and "m \<noteq> []" "length m \<le> dsize shm" "lseq shm + 1 < 2 ^ 64"
  shows "\<exists>w' shm'. java_put env ptr src m w = Some w' \<and> stores shm m shm' \<and>
           java_opened os name n s env ptr src dst fa room w0 chan shm' w'"
proof -
  have a: "j_open os name n s w ptr chan shm" "GetArrayElements env src" using assms(1) by (simp_all add: java_opened_def)
  note o = j_openD [OF a(1)]
  obtain shm' where p: "ach_put 0 chan shm (Some m) (of_nat (length m)) = Ret (ACH_OK, shm')" "stores shm m shm'"
    using put_stores [OF o(3) assms(2-4) o(6)] by blast
  let ?w = "w\<lparr>j_bytes := (j_bytes w)(src := m), j_os := set_block (os_fresh_id os) shm' (j_os w)\<rparr>"
  have "java_put env ptr src m w = Some ?w"
    using o(1) a(2) chan_put_block [OF o(2) p(1)]
    by (simp add: java_put_def Lib_put_def get_elements_def j_handle_def release_elements_def Let_def split: option.splits)
  moreover have "java_opened os name n s env ptr src dst fa room w0 chan shm' ?w"
    using assms(1) opened_on_stores [OF _ p(2)] by (simp add: java_opened_def j_open_def)
  ultimately show ?thesis using p(2) by blast
qed

lemma java_get_unread:
  assumes "java_opened os name n s env ptr src dst fa room w0 chan shm w" "one_unread chan shm m" "length m \<le> room"
  shows "\<exists>w' chan'. java_get env ptr dst fa w = Some (m, w') \<and> cseq chan' = lseq shm \<and>
           java_opened os name n s env ptr src dst fa room w0 chan' shm w'"
proof -
  have a: "j_open os name n s w ptr chan shm" "GetArrayElements env dst" "GetArrayElements env fa" "j_longs w fa \<noteq> []"
    "length (j_bytes w dst) = room" "room < 2 ^ 64" using assms(1) by (simp_all add: java_opened_def)
  note o = j_openD [OF a(1)]
  have "\<not> o_last 0" by (simp add: o_last_def)
  note g = get_unread [OF o(3-5) this assms(2) assms(3) [folded a(5)] a(6) [folded a(5)]]
  have m: "unat (of_nat (length m) :: size_t) = length m"
    using assms(3) a(6) by (simp add: unsigned_of_nat take_bit_nat_eq_self)
  let ?w = "w\<lparr>j_os := set_block (os_fresh_id os) shm (j_os w), j_heap := (j_heap w)(ptr := Some (read_on chan shm)),
    j_bytes := (j_bytes w)(dst := m @ drop (length m) (j_bytes w dst)),
    j_longs := (j_longs w)(fa := (j_longs w fa)[0 := of_nat (length m)])\<rparr>"
  have "java_get env ptr dst fa w = Some (m, ?w)"
    using o(1,2) a(2-4) g(1) [of 0 0 None "[]"] m
    by (simp add: java_get_def Lib_get_def s_get_def get_elements_def j_handle_def set_long_def
        release_elements_def nth_list_update Let_def split: option.splits)
  moreover have "java_opened os name n s env ptr src dst fa room w0 (read_on chan shm) shm ?w"
    using assms(1,3) g(2) by (simp add: java_opened_def j_open_def opened_on_read)
  ultimately show ?thesis using g(3) by blast
qed

interpretation java: channel_binding "java_opened os name n s env ptr src dst fa room w0" room
  "java_put env ptr src" "java_get env ptr dst fa" for os name n s env ptr src dst fa room w0
proof unfold_locales
  show "java_opened os name n s env ptr src dst fa room w0 chan shm w \<Longrightarrow> at_rest shm" for chan shm w
    by (simp add: java_opened_def j_open_def opened_on_def)
qed (fact java_put_stores, fact java_get_unread)

lemma lib_close_open:
  assumes "quiet os" "sizes_ok n s" "os_fds os (os_fresh_fd os + 1) = None" "j_open os name n s w ptr chan shm"
  shows "\<exists>w'. Lib_close ptr w = Ret (ach_status_code ACH_OK, w') \<and> j_heap w' = (j_heap w)(ptr := None) \<and>
           j_held w' = j_held w \<and> j_bytes w' = j_bytes w \<and> j_longs w' = j_longs w \<and>
           os_fds (j_os w') = os_fds os \<and> os_maps (j_os w') = os_maps os \<and>
           block_at (j_os w') (os_fresh_id os) = Some shm"
  using opened_on_close [OF assms(1-3), of name chan shm "j_os w"] assms(4)
  by (auto simp: Lib_close_def j_open_def j_handle_def)

section \<open>Properties\<close>

text \<open>
  C23. A session from Java.  Whatever the virtual machine, as long as it lets native code have the
  characters of the name and the elements of the arrays: opening a channel that was created stores the
  address of its handle in the array; then any number of messages, each put from one array and got into
  another that is large enough, come back byte for byte, with their sizes; and closing frees the handle,
  gives the descriptor and the mapping back and leaves the newest messages in the channel.  No elements
  stay held.
\<close>

theorem java_session:
  assumes "quiet os" "channel_name_ok name" "sizes_ok n s" "1 < unat n" "full_len n s \<le> page_round (body_len n s)"
    and "os_fds os (os_fresh_fd os + 1) = None" "j_os w = after_create os name n s" "j_malloc w = ptr # ptrs"
    and "j_longs w arr \<noteq> []" "j_longs w fa \<noteq> []" "GetStringUTFChars env nm = Some name" "dst \<noteq> src"
    and "GetArrayElements env arr" "GetArrayElements env fa" "GetArrayElements env src" "GetArrayElements env dst"
    and "\<forall>m\<in>set ms. m \<noteq> [] \<and> length m \<le> unat n * unat s \<and> length m \<le> length (j_bytes w dst)"
    and "length (j_bytes w dst) < 2 ^ 64" "length ms + 1 < 2 ^ 64" "j_heap w ptr = None"
  shows "\<exists>w1 w2 w3 shm. Lib_open env nm arr w = Ret (0, w1) \<and> j_longs w1 arr ! 0 = ptr \<and>
           exchange (java_put env ptr src) (java_get env ptr dst fa) ms w1 = Some (ms, w2) \<and>
           Lib_close ptr w2 = Ret (0, w3) \<and> j_heap w3 = j_heap w \<and> j_held w3 = j_held w \<and>
           os_fds (j_os w3) = os_fds os \<and> os_maps (j_os w3) = os_maps os \<and>
           block_at (j_os w3) (os_fresh_id os) = Some shm \<and> frames shm = keep (unat n) (unat n * unat s) (number 0 ms)"
proof -
  let ?b = "fresh_block name n s" and ?room = "length (j_bytes w dst)"
  let ?opened = "java_opened os name n s env ptr src dst fa ?room w"
  have rest: "frames ?b = []" "icnt ?b = unat n" "lseq ?b = 0" "dsize ?b = unat n * unat s"
    using fresh_block_at_rest [OF assms(3), of name] by simp_all
  obtain w1 chan where o: "Lib_open env nm arr w = Ret (ach_status_code ACH_OK, w1)" "j_open os name n s w1 ptr chan ?b"
      "cseq chan = 0" "j_longs w1 = (j_longs w)(arr := (j_longs w arr)[0 := ptr])" "j_heap w1 = (j_heap w)(ptr := Some chan)"
      "j_bytes w1 = j_bytes w" "j_held w1 = j_held w"
    using lib_open_created [OF assms(1-5,7-9,11,13)] by blast
  have "?opened chan ?b w1" using o assms(9,10,12-16,18) by (simp add: java_opened_def)
  then obtain w2 chan2 shm where e: "exchange (java_put env ptr src) (java_get env ptr dst fa) ms w1 = Some (ms, w2)"
      "?opened chan2 shm w2" "frames shm = keep (unat n) (unat n * unat s) (number 0 ms)"
    using java.exchange_all [of os name n s env ptr src dst fa ?room w chan ?b w1 ms] o(3) rest assms(17,19) by auto
  have "j_open os name n s w2 ptr chan2 shm" using e(2) by (simp add: java_opened_def)
  from lib_close_open [OF assms(1,3,6) this]
  obtain w3 where "Lib_close ptr w2 = Ret (ach_status_code ACH_OK, w3)" "j_heap w3 = (j_heap w2)(ptr := None)"
      "j_held w3 = j_held w2" "os_fds (j_os w3) = os_fds os" "os_maps (j_os w3) = os_maps os"
      "block_at (j_os w3) (os_fresh_id os) = Some shm" by blast
  moreover have "(j_heap w2)(ptr := None) = j_heap w" "j_held w2 = j_held w"
    using e(2) assms(20) by (simp_all add: java_opened_def fun_upd_idem)
  moreover have "j_longs w1 arr ! 0 = ptr" using o(4) assms(9) by (simp add: nth_list_update)
  ultimately show ?thesis using o(1) e(1,3)
    by (intro exI [of _ w1] exI [of _ w2] exI [of _ w3] exI [of _ shm]) simp
qed

text \<open>A small virtual machine: a name, arrays of bytes and arrays of long integers.\<close>

datatype demo_ref = Demo_name | Demo_handle | Demo_size | Demo_source | Demo_target

definition demo_env :: "demo_ref jni_env" where
  "demo_env = \<lparr>GetStringUTFChars = (\<lambda>x. if x = Demo_name then Some ''imu'' else None),
     GetArrayElements = (\<lambda>x. x \<noteq> Demo_name)\<rparr>"

definition demo_java :: "demo_ref java_world" where
  "demo_java = \<lparr>j_os = after_create empty_os ''imu'' 16 512, j_heap = (\<lambda>_. None), j_malloc = [64],
     j_bytes = (\<lambda>x. if x = Demo_target then [0, 0, 0, 9] else []),
     j_longs = (\<lambda>x. if x = Demo_handle \<or> x = Demo_size then [0] else []), j_held = (\<lambda>_. 0)\<rparr>"

theorem java_session_witness:
  "\<exists>w1 w2 w3 shm. Lib_open demo_env Demo_name Demo_handle demo_java = Ret (0, w1) \<and> j_longs w1 Demo_handle ! 0 = 64 \<and>
     exchange (java_put demo_env 64 Demo_source) (java_get demo_env 64 Demo_target Demo_size) [[1, 2, 3], [4]] w1 =
       Some ([[1, 2, 3], [4]], w2) \<and>
     Lib_close 64 w2 = Ret (0, w3) \<and> os_maps (j_os w3) = [] \<and>
     block_at (j_os w3) 0 = Some shm \<and> frames shm = [(1, [1, 2, 3]), (2, [4])]"
proof -
  have sz: "sizes_ok 16 512" "full_len 16 512 \<le> page_round (body_len 16 512)" "1 < unat (16 :: size_t)"
    by (simp_all add: sizes_ok_def full_len_def body_len_def page_round_def page_size_def)
  have o: "os_fds empty_os (os_fresh_fd empty_os + 1) = None" "os_fresh_id empty_os = 0" "os_maps empty_os = []"
    by (simp_all add: empty_os_def)
  have w: "j_os demo_java = after_create empty_os ''imu'' 16 512" "j_malloc demo_java = 64 # []"
    "j_longs demo_java Demo_handle \<noteq> []" "j_longs demo_java Demo_size \<noteq> []" "j_heap demo_java 64 = None"
    "length (j_bytes demo_java Demo_target) = 4"
    by (simp_all add: demo_java_def)
  have e: "GetStringUTFChars demo_env Demo_name = Some ''imu''" "Demo_target \<noteq> Demo_source" "GetArrayElements demo_env Demo_handle"
    "GetArrayElements demo_env Demo_size" "GetArrayElements demo_env Demo_source" "GetArrayElements demo_env Demo_target"
    by (simp_all add: demo_env_def)
  have m: "\<forall>m\<in>set [[1, 2, 3], [4 :: byte]]. m \<noteq> [] \<and> length m \<le> unat (16 :: size_t) * unat (512 :: size_t) \<and>
      length m \<le> length (j_bytes demo_java Demo_target)" "length (j_bytes demo_java Demo_target) < 2 ^ 64"
    "length [[1, 2, 3], [4 :: byte]] + 1 < 2 ^ 64"
    by (simp_all add: w(6))
  have k: "keep (unat (16 :: size_t)) (unat (16 :: size_t) * unat (512 :: size_t)) (number 0 [[1, 2, 3], [4]]) = [(1, [1, 2, 3]), (2, [4])]"
    by simp
  from java_session [OF quiet_empty_os(1) name_imu sz(1,3,2) o(1) w(1-4) e m w(5), unfolded k o(2,3)] show ?thesis by blast
qed

section \<open>What the binding does not check\<close>

text \<open>An array without elements: the channel is opened and the handle is stored outside of the array.\<close>

lemma open_empty_array:
  assumes "quiet os" "channel_name_ok name" "sizes_ok n s" "full_len n s \<le> page_round (body_len n s)"
    and "j_os w = after_create os name n s" "j_malloc w = ptr # ptrs" "j_longs w arr = []"
    and "GetStringUTFChars env nm = Some name" "GetArrayElements env arr"
  shows "Lib_open env nm arr w = Fault Out_of_bounds"
  using assms ach_open_created [OF assms(1-3), of no_handle]
  by (simp add: Lib_open_def get_elements_def set_long_def Let_def)

text \<open>A close that fails frees the handle: there is no second try, and the mapping stays.\<close>

lemma failed_close_frees:
  assumes "j_heap w ptr = Some chan" "ach_close chan (j_os w) = Ret (r, chan', os)"
  shows "\<exists>w'. Lib_close ptr w = Ret (ach_status_code r, w') \<and> Lib_close ptr w' = Fault Unmapped"
  using assms by (simp add: Lib_close_def j_handle_def)

text \<open>The time goes where there is room for it.\<close>

lemma lib_time_result:
  assumes "GetArrayElements env arr"
  shows "Lib_time env (r, sec, nsec) arr w =
      (case j_longs w arr of
         [] \<Rightarrow> Ret (-2, w)
       | [x] \<Rightarrow> Ret (r, w\<lparr>j_longs := (j_longs w)(arr := [word_of_int sec])\<rparr>)
       | x # y # zs \<Rightarrow> Ret (r, w\<lparr>j_longs := (j_longs w)(arr := word_of_int sec # word_of_int nsec # zs)\<rparr>))"
  using assms by (simp add: Lib_time_def get_elements_def set_long_def release_elements_def Let_def split: list.split)

text \<open>The constants are the statuses under their names, all of them.\<close>

lemma java_constants_statuses:
  "map_of java_constants (ach_result_to_string (ach_status_code r)) = Some (ach_status_code r)"
  by (cases r) (simp_all add: java_constants_def ach_result_to_string_def)

end
