(* ===== verification/Ach_Cpp.thy ===== *)
theory Ach_Cpp
  imports Ach_Tool Ach_Util Ach_Binding
begin

text \<open>
  The C++ wrapper of \<^verbatim>\<open>include/Ach.hpp\<close> and \<^verbatim>\<open>cpp/achcpp.cpp\<close>: a class around a handle
  whose methods call the library and hand a status that is not wanted to virtual functions.  The
  virtual functions of a class are a record, so that the methods are defined, and the laws of the base
  class proved, for every subclass.
\<close>

section \<open>Masks of statuses\<close>

type_synonym mask = "32 word"

definition ACH_MASK_FROM_STATUS :: "ach_status_t \<Rightarrow> mask" where
  "ACH_MASK_FROM_STATUS r = push_bit (nat (ach_status_code r)) 1"

definition ACH_MASK_OK :: mask where "ACH_MASK_OK = ACH_MASK_FROM_STATUS ACH_OK"
definition ACH_MASK_OVERFLOW :: mask where "ACH_MASK_OVERFLOW = ACH_MASK_FROM_STATUS ACH_OVERFLOW"
definition ACH_MASK_NONE :: mask where "ACH_MASK_NONE = 0"
definition ACH_MASK_ALL :: mask where "ACH_MASK_ALL = 0xffffffff"

text \<open>The enumerators, which the masks above are among.\<close>

definition ach_mask_t :: "(string \<times> mask) list" where
  "ach_mask_t =
     [(''ACH_MASK_OK'', ACH_MASK_FROM_STATUS ACH_OK), (''ACH_MASK_OVERFLOW'', ACH_MASK_FROM_STATUS ACH_OVERFLOW),
      (''ACH_MASK_INVALID_NAME'', ACH_MASK_FROM_STATUS ACH_INVALID_NAME), (''ACH_MASK_BAD_SHM_FILE'', ACH_MASK_FROM_STATUS ACH_BAD_SHM_FILE),
      (''ACH_MASK_FAILED_SYSCALL'', ACH_MASK_FROM_STATUS ACH_FAILED_SYSCALL), (''ACH_MASK_STALE_FRAMES'', ACH_MASK_FROM_STATUS ACH_STALE_FRAMES),
      (''ACH_MASK_MISSED_FRAME'', ACH_MASK_FROM_STATUS ACH_MISSED_FRAME), (''ACH_MASK_TIMEOUT'', ACH_MASK_FROM_STATUS ACH_TIMEOUT),
      (''ACH_MASK_EEXIST'', ACH_MASK_FROM_STATUS ACH_EEXIST), (''ACH_MASK_ENOENT'', ACH_MASK_FROM_STATUS ACH_ENOENT),
      (''ACH_MASK_CLOSED'', ACH_MASK_FROM_STATUS ACH_CLOSED), (''ACH_MASK_BUG'', ACH_MASK_FROM_STATUS ACH_BUG),
      (''ACH_MASK_EINVAL'', ACH_MASK_FROM_STATUS ACH_EINVAL), (''ACH_MASK_CORRUPT'', ACH_MASK_FROM_STATUS ACH_CORRUPT),
      (''ACH_MASK_BAD_HEADER'', ACH_MASK_FROM_STATUS ACH_BAD_HEADER), (''ACH_MASK_EACCES'', ACH_MASK_FROM_STATUS ACH_EACCES),
      (''ACH_MASK_NONE'', ACH_MASK_NONE), (''ACH_MASK_ALL'', ACH_MASK_ALL)]"

datatype status_check_result = STATUS_OK | STATUS_WARN | STATUS_ERR

definition cpp_check_status :: "ach_status_t \<Rightarrow> mask \<Rightarrow> mask \<Rightarrow> status_check_result" where
  "cpp_check_status result allow_mask warn_mask =
     (let r = ACH_MASK_FROM_STATUS result
      in if allow_mask AND r = 0
         then if warn_mask AND r \<noteq> 0 then STATUS_WARN else STATUS_ERR
         else STATUS_OK)"

section \<open>Objects and classes\<close>

text \<open>The program: the system, the handle in the object, and what has been logged.\<close>

record cpp_world =
  cpp_os :: os_state
  cpp_channel :: ach_channel_t
  cpp_cerr :: "string list"
  cpp_syslog :: "(int \<times> string) list"

type_synonym 'a cpp_act = "('a, cpp_world) tool"
type_synonym handler = "ach_status_t \<Rightarrow> cpp_world \<Rightarrow> unit cpp_act"

text \<open>The virtual functions of a class.\<close>

record channel_class =
  warn_open :: handler
  error_open :: handler
  warn_close :: handler
  error_close :: handler
  warn_put :: handler
  error_put :: handler
  warn_get :: handler
  error_get :: handler
  warn_flush :: handler
  error_flush :: handler

definition Channel_class :: channel_class where
  "Channel_class =
     \<lparr>warn_open = (\<lambda>r. P_go ()), error_open = (\<lambda>r. P_go ()),
      warn_close = (\<lambda>r. P_go ()), error_close = (\<lambda>r. P_go ()),
      warn_put = (\<lambda>r. P_go ()), error_put = (\<lambda>r. P_go ()),
      warn_get = (\<lambda>r. P_go ()), error_get = (\<lambda>r. P_go ()),
      warn_flush = (\<lambda>r. P_go ()), error_flush = (\<lambda>r. P_go ())\<rparr>"

text \<open>\<open>LogChannel\<close> leaves \<open>warn\<close> and \<open>error\<close> to its subclasses.\<close>

definition LogChannel_class :: "(string \<Rightarrow> handler) \<Rightarrow> (string \<Rightarrow> handler) \<Rightarrow> channel_class" where
  "LogChannel_class warn error =
     \<lparr>warn_open = warn ''ach_open'', error_open = error ''ach_open'',
      warn_close = warn ''ach_close'', error_close = error ''ach_close'',
      warn_put = warn ''ach_put'', error_put = error ''ach_put'',
      warn_get = warn ''ach_get'', error_get = error ''ach_get'',
      warn_flush = warn ''ach_flush'', error_flush = error ''ach_flush''\<rparr>"

definition cerr_line :: "string \<Rightarrow> string \<Rightarrow> ach_status_t \<Rightarrow> string" where
  "cerr_line kind method r =
     kind @ '': '' @ method @ '' '' @ ach_result_to_string (ach_status_code r)
       @ '' ('' @ show_int (ach_status_code r) @ '')'' @ newline"

definition CerrChannel_warn :: "string \<Rightarrow> handler" where
  "CerrChannel_warn method r w = P_go () (w\<lparr>cpp_cerr := cpp_cerr w @ [cerr_line ''warning'' method r]\<rparr>)"

definition CerrChannel_error :: "string \<Rightarrow> handler" where
  "CerrChannel_error method r w = P_exit 1 (w\<lparr>cpp_cerr := cpp_cerr w @ [cerr_line ''error'' method r]\<rparr>)"

definition CerrChannel_class :: channel_class where
  "CerrChannel_class = LogChannel_class CerrChannel_warn CerrChannel_error"

definition syslog_text :: "string \<Rightarrow> string \<Rightarrow> ach_status_t \<Rightarrow> string" where
  "syslog_text kind method r =
     kind @ '': '' @ method @ '', '' @ ach_result_to_string (ach_status_code r)
       @ '' ('' @ show_int (ach_status_code r) @ '')'' @ newline"

definition SyslogChannel_warn :: "string \<Rightarrow> handler" where
  "SyslogChannel_warn method r w =
     P_go () (w\<lparr>cpp_syslog := cpp_syslog w @ [(LOG_WARNING, syslog_text ''warning'' method r)]\<rparr>)"

definition SyslogChannel_error :: "string \<Rightarrow> handler" where
  "SyslogChannel_error method r w =
     P_exit 1 (w\<lparr>cpp_syslog := cpp_syslog w @ [(LOG_ERR, syslog_text ''error'' method r)]\<rparr>)"

definition SyslogChannel_class :: channel_class where
  "SyslogChannel_class = LogChannel_class SyslogChannel_warn SyslogChannel_error"

section \<open>The methods\<close>

text \<open>What every method does with the status: the \<open>switch\<close>, and the return.\<close>

definition status_switch ::
  "handler \<Rightarrow> handler \<Rightarrow> mask \<Rightarrow> mask \<Rightarrow> ach_status_t \<Rightarrow> 'a \<Rightarrow> cpp_world \<Rightarrow> 'a cpp_act" where
  "status_switch warn error allow_mask warn_mask r x w =
     p_then
       (case cpp_check_status r allow_mask warn_mask of
          STATUS_WARN \<Rightarrow> warn r w
        | STATUS_ERR \<Rightarrow> error r w
        | STATUS_OK \<Rightarrow> P_go () w)
       (\<lambda>_. P_go x)"

definition Channel_open ::
  "channel_class \<Rightarrow> string \<Rightarrow> ach_attr_t option \<Rightarrow> mask \<Rightarrow> mask \<Rightarrow> cpp_world \<Rightarrow> ach_status_t cpp_act" where
  "Channel_open cls channel_name attr allow_mask warn_mask w =
     p_of (ach_open (cpp_channel w) channel_name attr (cpp_os w)) (\<lambda>(r, chan, os) w.
     status_switch (warn_open cls) (error_open cls) allow_mask warn_mask r r
       (w\<lparr>cpp_channel := chan, cpp_os := os\<rparr>)) w"

definition Channel_close :: "channel_class \<Rightarrow> mask \<Rightarrow> mask \<Rightarrow> cpp_world \<Rightarrow> ach_status_t cpp_act" where
  "Channel_close cls allow_mask warn_mask w =
     p_of (ach_close (cpp_channel w) (cpp_os w)) (\<lambda>(r, chan, os) w.
     status_switch (warn_close cls) (error_close cls) allow_mask warn_mask r r
       (w\<lparr>cpp_channel := chan, cpp_os := os\<rparr>)) w"

text \<open>The block of the handle after a call.\<close>

definition keep_block :: "nat \<Rightarrow> ach_channel_t \<Rightarrow> ach_header_t \<Rightarrow> cpp_world \<Rightarrow> cpp_world" where
  "keep_block k chan shm w = w\<lparr>cpp_channel := chan, cpp_os := set_block k shm (cpp_os w)\<rparr>"

definition Channel_flush :: "channel_class \<Rightarrow> mask \<Rightarrow> mask \<Rightarrow> cpp_world \<Rightarrow> ach_status_t cpp_act" where
  "Channel_flush cls allow_mask warn_mask w =
     p_of (chan_block (cpp_channel w) (cpp_os w)) (\<lambda>(k, shm) w.
     p_of (ach_flush 0 (cpp_channel w) shm) (\<lambda>(r, chan, shm) w.
     status_switch (warn_flush cls) (error_flush cls) allow_mask warn_mask r r (keep_block k chan shm w)) w) w"

text \<open>Reading into a buffer also gives the buffer and the size of the frame.\<close>

definition Channel_get ::
  "channel_class \<Rightarrow> byte list \<Rightarrow> size_t \<Rightarrow> size_t \<Rightarrow> (int \<times> int) option \<Rightarrow> uint32 \<Rightarrow> mask \<Rightarrow> mask \<Rightarrow> wake list
   \<Rightarrow> cpp_world \<Rightarrow> (ach_status_t \<times> byte list \<times> size_t) cpp_act" where
  "Channel_get cls buf bufsize frame_size abstime options allow_mask warn_mask wakes w =
     p_of (chan_block (cpp_channel w) (cpp_os w)) (\<lambda>(k, shm) w.
     p_of (ach_get 0 (cpp_channel w) shm buf bufsize frame_size abstime options wakes) (\<lambda>g w.
     status_switch (warn_get cls) (error_get cls) allow_mask warn_mask (g_status g)
       (g_status g, g_buf g, g_frame_size g) (keep_block k (g_chan g) (g_shm g) w)) w) w"

definition Channel_put ::
  "channel_class \<Rightarrow> byte list option \<Rightarrow> size_t \<Rightarrow> mask \<Rightarrow> mask \<Rightarrow> cpp_world \<Rightarrow> ach_status_t cpp_act" where
  "Channel_put cls buf len allow_mask warn_mask w =
     p_of (chan_put 0 (cpp_channel w) buf len (cpp_os w)) (\<lambda>(r, os) w.
     status_switch (warn_put cls) (error_put cls) allow_mask warn_mask r r (w\<lparr>cpp_os := os\<rparr>)) w"

text \<open>
  The constructor does nothing, so that the handle is what the memory held.  The destructor runs when
  the object is a \<open>Channel\<close> again: its virtual calls reach the functions of the base class only.
\<close>

definition Channel_new :: "ach_channel_t \<Rightarrow> cpp_world \<Rightarrow> unit cpp_act" where
  "Channel_new garbage w = P_go () (w\<lparr>cpp_channel := garbage\<rparr>)"

definition Channel_delete :: "cpp_world \<Rightarrow> unit cpp_act" where
  "Channel_delete w =
     (if ch_shm (cpp_channel w) \<noteq> None
      then p_then (Channel_close Channel_class ACH_MASK_OK ACH_MASK_NONE w) (\<lambda>_. P_go ())
      else P_go () w)"

section \<open>Reading into a vector\<close>

text \<open>
  A vector: its number of elements, and its storage, whose length is the capacity.  The allocator gives
  storage for at least as many bytes as it is asked for, or raises an exception that nobody catches.
  Growing copies the elements; what is behind them is not kept.
\<close>

record byte_vector =
  v_size :: nat
  v_mem :: "byte list"

definition v_capacity :: "byte_vector \<Rightarrow> size_t" where
  "v_capacity v = of_nat (length (v_mem v))"

definition v_reserve :: "(nat \<Rightarrow> byte list option) \<Rightarrow> size_t \<Rightarrow> byte_vector \<Rightarrow> byte_vector option" where
  "v_reserve alloc n v =
     (if unat n \<le> length (v_mem v) then Some v
      else map_option (\<lambda>mem. v\<lparr>v_mem := take (v_size v) (v_mem v) @ drop (v_size v) mem\<rparr>) (alloc (unat n)))"

text \<open>Between two rounds of the loop others may write: a turn is the block as the round finds it.\<close>

definition find_block :: "ach_header_t \<Rightarrow> cpp_world \<Rightarrow> cpp_world" where
  "find_block shm w =
     (case ch_shm (cpp_channel w) of None \<Rightarrow> w | Some k \<Rightarrow> w\<lparr>cpp_os := set_block k shm (cpp_os w)\<rparr>)"

fun get_vector_loop ::
  "channel_class \<Rightarrow> (nat \<Rightarrow> byte list option) \<Rightarrow> size_t \<Rightarrow> (int \<times> int) option \<Rightarrow> uint32 \<Rightarrow> mask \<Rightarrow> mask \<Rightarrow>
   (ach_header_t \<times> wake list) list \<Rightarrow> size_t \<Rightarrow> byte_vector \<Rightarrow> cpp_world \<Rightarrow>
   (ach_status_t \<times> byte_vector \<times> size_t) cpp_act" where
  "get_vector_loop cls alloc offset abstime options allow_mask warn_mask [] fs v w = P_block w"
| "get_vector_loop cls alloc offset abstime options allow_mask warn_mask ((shm, wakes) # turns) fs v w =
     (case v_reserve alloc (offset + fs) v of
        None \<Rightarrow> P_abort w
      | Some v \<Rightarrow>
          let room = v_capacity v - offset;
              room = (if room > v_capacity v then 0 else room)
          in p_then (Channel_get cls (v_mem v) room fs abstime options (allow_mask OR ACH_MASK_OVERFLOW)
                       warn_mask wakes (find_block shm w))
               (\<lambda>(r, buf, fs) w.
                let v = v\<lparr>v_mem := buf\<rparr>
                in if ACH_OVERFLOW \<noteq> r then P_go (r, v, fs) w
                   else get_vector_loop cls alloc offset abstime options allow_mask warn_mask turns fs v w))"

text \<open>\<open>frame_size\<close> may be a null pointer.\<close>

definition Channel_get_vector ::
  "channel_class \<Rightarrow> (nat \<Rightarrow> byte list option) \<Rightarrow> byte_vector \<Rightarrow> size_t \<Rightarrow> size_t option \<Rightarrow> (int \<times> int) option \<Rightarrow>
   uint32 \<Rightarrow> mask \<Rightarrow> mask \<Rightarrow> (ach_header_t \<times> wake list) list \<Rightarrow> cpp_world \<Rightarrow>
   (ach_status_t \<times> byte_vector \<times> size_t option) cpp_act" where
  "Channel_get_vector cls alloc vec offset frame_size abstime options allow_mask warn_mask turns w =
     p_then (get_vector_loop cls alloc offset abstime options allow_mask warn_mask turns 0 vec w)
       (\<lambda>(r, v, fs). P_go (r, v, map_option (\<lambda>_. fs) frame_size))"

section \<open>Facts\<close>

lemma cpp_check_status_bits:
  "cpp_check_status r allow_mask warn_mask =
     (if bit allow_mask (nat (ach_status_code r)) then STATUS_OK
      else if bit warn_mask (nat (ach_status_code r)) then STATUS_WARN else STATUS_ERR)"
  by (simp add: cpp_check_status_def ACH_MASK_FROM_STATUS_def bit_iff_and_push_bit_not_eq_0)

lemma mask_of_status: "bit (ACH_MASK_FROM_STATUS r) (nat (ach_status_code s)) \<longleftrightarrow> r = s"
  by (cases r; cases s) (simp_all add: ACH_MASK_FROM_STATUS_def bit_simps)

text \<open>Every status has its mask, of one bit of its own, except the status of a cancelled call.\<close>

lemma masks_of_statuses:
  "map_of ach_mask_t (''ACH_MASK_'' @ drop 4 (ach_result_to_string (ach_status_code r))) =
     (if r = ACH_CANCELED then None else Some (ACH_MASK_FROM_STATUS r))"
  by (cases r) (simp_all add: ach_mask_t_def ach_result_to_string_def)

lemma overflow_allowed: "cpp_check_status ACH_OVERFLOW (allow_mask OR ACH_MASK_OVERFLOW) warn_mask = STATUS_OK"
  by (simp add: cpp_check_status_bits bit_or_iff ACH_MASK_OVERFLOW_def mask_of_status del: ach_status_code.simps)

text \<open>A status that is allowed is returned, whatever the class.\<close>

lemma switch_allowed:
  "cpp_check_status r allow_mask warn_mask = STATUS_OK \<Longrightarrow>
   status_switch warn error allow_mask warn_mask r x w = P_go x w"
  by (simp add: status_switch_def)

subsection \<open>What the methods ask of a class\<close>

text \<open>
  A handler may write down what it likes, but it leaves the channel alone and it comes to an end: a
  warning returns, an error may also end the program.
\<close>

definition harmless :: "bool \<Rightarrow> handler \<Rightarrow> bool" where
  "harmless may_exit h \<longleftrightarrow>
     (\<forall>r w. case h r w of
              P_go _ w' \<Rightarrow> cpp_channel w' = cpp_channel w \<and> cpp_os w' = cpp_os w
            | P_exit _ w' \<Rightarrow> may_exit \<and> cpp_os w' = cpp_os w
            | _ \<Rightarrow> False)"

definition warn_handlers :: "channel_class \<Rightarrow> handler list" where
  "warn_handlers cls = [warn_open cls, warn_close cls, warn_put cls, warn_get cls, warn_flush cls]"

definition error_handlers :: "channel_class \<Rightarrow> handler list" where
  "error_handlers cls = [error_open cls, error_close cls, error_put cls, error_get cls, error_flush cls]"

text \<open>
  How a method ends: it returns with the channel as the library left it, or, where it may, the program
  exits.
\<close>

definition ends_with :: "bool \<Rightarrow> 'a \<Rightarrow> cpp_world \<Rightarrow> 'a cpp_act \<Rightarrow> bool" where
  "ends_with may_exit x w act \<longleftrightarrow>
     (case act of
        P_go y w' \<Rightarrow> y = x \<and> cpp_channel w' = cpp_channel w \<and> cpp_os w' = cpp_os w
      | P_exit _ w' \<Rightarrow> may_exit \<and> cpp_os w' = cpp_os w
      | _ \<Rightarrow> False)"

lemma ends_with_map:
  "ends_with b x w act \<Longrightarrow> ends_with b (f x) w (p_then act (\<lambda>y. P_go (f y)))"
  by (cases act) (simp_all add: ends_with_def)

lemma switch_ends:
  assumes "harmless False warn" "harmless True error"
  shows "ends_with (cpp_check_status r allow_mask warn_mask = STATUS_ERR) x w
           (status_switch warn error allow_mask warn_mask r x w)"
proof -
  have "ends_with b x w (p_then (h r w) (\<lambda>_. P_go x))" if "harmless b h" for b h
    using that [unfolded harmless_def, rule_format, of w r] by (cases "h r w") (auto simp: ends_with_def)
  then show ?thesis using assms
    by (cases "cpp_check_status r allow_mask warn_mask") (simp_all add: status_switch_def ends_with_def)
qed

text \<open>The storage the allocator promises, and rounds in which nobody holds the lock.\<close>

definition allocates :: "(nat \<Rightarrow> byte list option) \<Rightarrow> bool" where
  "allocates alloc \<longleftrightarrow> (\<forall>n. n < 2 ^ 64 \<longrightarrow> (\<exists>mem. alloc n = Some mem \<and> n \<le> length mem \<and> length mem < 2 ^ 64))"

definition good_turn :: "nat \<Rightarrow> ach_channel_t \<Rightarrow> uint32 \<Rightarrow> ach_header_t \<Rightarrow> bool" where
  "good_turn D chan options shm \<longleftrightarrow>
     at_rest shm \<and> chan_ok chan shm \<and> lseq shm + 1 < 2 ^ 64 \<and> dsize shm \<le> D \<and>
     (o_wait options \<longrightarrow> cseq chan \<noteq> lseq shm)"

lemma reserve_grows:
  assumes "allocates alloc" "v_size v \<le> length (v_mem v)" "length (v_mem v) < 2 ^ 64"
  shows "\<exists>v'. v_reserve alloc n v = Some v' \<and> v_size v' = v_size v \<and> unat n \<le> length (v_mem v') \<and>
           length (v_mem v) \<le> length (v_mem v') \<and> length (v_mem v') < 2 ^ 64 \<and>
           take (v_size v) (v_mem v') = take (v_size v) (v_mem v)"
proof (cases "unat n \<le> length (v_mem v)")
  case False
  obtain mem where m: "alloc (unat n) = Some mem" "unat n \<le> length mem" "length mem < 2 ^ 64"
    using assms(1) size_t_bound [of n] by (auto simp: allocates_def)
  with False assms(2) show ?thesis by (simp add: v_reserve_def)
qed (use assms in \<open>simp add: v_reserve_def\<close>)

text \<open>The room behind the offset.\<close>

lemma room_size:
  assumes "unat offset \<le> length mem" "length mem < 2 ^ 64"
  defines "cap \<equiv> of_nat (length mem) :: size_t"
  shows "\<not> cap < cap - offset" "unat (cap - offset) = length mem - unat offset"
proof -
  have c: "unat cap = length mem" using assms(2) by (simp add: cap_def unsigned_of_nat take_bit_nat_eq_self)
  then have "offset \<le> cap" using assms(1) by (simp add: word_le_nat_alt)
  then show "unat (cap - offset) = length mem - unat offset" using c by (simp add: unat_sub)
  then show "\<not> cap < cap - offset" using c by (simp add: word_less_nat_alt)
qed

lemma spec_get_overflow:
  assumes "ring_inv shm" "g_status (spec_get chan shm buf n fs options) = ACH_OVERFLOW"
  shows "\<exists>l. spec_get chan shm buf n fs options =
             \<lparr>g_status = ACH_OVERFLOW, g_chan = chan, g_shm = shm, g_buf = buf, g_frame_size = of_nat l\<rparr> \<and>
           unat n < l \<and> l \<le> dsize shm"
proof -
  obtain q m where p: "pick_frame (o_last options) (cseq chan) (frames shm) = (q, m)" by fastforce
  have f: "frames shm \<noteq> []" "\<not> (cseq chan = lseq shm \<and> \<not> o_copy options)" "unat n < length m"
    using assms(2) p by (auto simp: spec_get_def split: if_splits)
  have "length m \<le> dsize shm"
    using frame_length [OF assms(1)] pick_frame_mem [OF f(1), of "o_last options" "cseq chan"] p by metis
  then show ?thesis using f p by (intro exI [of _ "length m"]) (simp add: spec_get_def)
qed

text \<open>
  How the read into a vector ends that finds the block \<open>shm\<close>: as one read of the library into storage
  with \<open>n\<close> bytes behind the offset, which is not an overflow.  The number of elements is unchanged.
\<close>

definition vector_read ::
  "(ach_status_t \<Rightarrow> bool) \<Rightarrow> ach_channel_t \<Rightarrow> uint32 \<Rightarrow> nat \<Rightarrow> size_t \<Rightarrow> byte_vector \<Rightarrow> (size_t \<Rightarrow> 'f) \<Rightarrow>
   ach_header_t \<Rightarrow> (ach_status_t \<times> byte_vector \<times> 'f) cpp_act \<Rightarrow> bool" where
  "vector_read may_exit chan options k offset v f shm act \<longleftrightarrow>
     (\<exists>v' n fs w. let g = spec_get chan shm (v_mem v') n fs options in
        g_status g \<noteq> ACH_OVERFLOW \<and> cpp_channel w = g_chan g \<and> block_at (cpp_os w) k = Some shm \<and>
        v_size v' = v_size v \<and> length (v_mem v') = unat offset + unat n \<and>
        ends_with (may_exit (g_status g)) (g_status g, v'\<lparr>v_mem := g_buf g\<rparr>, f (g_frame_size g)) w act)"

lemma vector_read_map:
  assumes "vector_read may_exit chan options k offset v (\<lambda>x. x) shm act"
  shows "vector_read may_exit chan options k offset v f shm (p_then act (\<lambda>(r, v, fs). P_go (r, v, f fs)))"
proof -
  obtain v' n fs w where r: "g_status (spec_get chan shm (v_mem v') n fs options) \<noteq> ACH_OVERFLOW"
      "cpp_channel w = g_chan (spec_get chan shm (v_mem v') n fs options)" "block_at (cpp_os w) k = Some shm"
      "v_size v' = v_size v" "length (v_mem v') = unat offset + unat n"
      "ends_with (may_exit (g_status (spec_get chan shm (v_mem v') n fs options)))
         (g_status (spec_get chan shm (v_mem v') n fs options), v'\<lparr>v_mem := g_buf (spec_get chan shm (v_mem v') n fs options)\<rparr>,
          g_frame_size (spec_get chan shm (v_mem v') n fs options)) w act"
    using assms by (auto simp: vector_read_def Let_def)
  note e = ends_with_map [OF r(6), of "\<lambda>(r, v, fs). (r, v, f fs)"]
  show ?thesis unfolding vector_read_def Let_def
    by (intro exI [of _ v'] exI [of _ n] exI [of _ fs] exI [of _ w] conjI r(1-5)) (use e in \<open>simp add: split_def\<close>)
qed

text \<open>The laws of a class, and what its methods then do.\<close>

locale channel_handlers =
  fixes cls :: channel_class
  assumes warn_returns: "h \<in> set (warn_handlers cls) \<Longrightarrow> harmless False h"
    and error_ends: "h \<in> set (error_handlers cls) \<Longrightarrow> harmless True h"
begin

lemma open_ends:
  assumes "ach_open (cpp_channel w) name attr (cpp_os w) = Ret (r, chan, os)"
  shows "ends_with (cpp_check_status r a m = STATUS_ERR) r (w\<lparr>cpp_channel := chan, cpp_os := os\<rparr>)
           (Channel_open cls name attr a m w)"
  using assms warn_returns error_ends
  by (simp add: Channel_open_def p_of_def warn_handlers_def error_handlers_def switch_ends)

lemma close_ends:
  assumes "ach_close (cpp_channel w) (cpp_os w) = Ret (r, chan, os)"
  shows "ends_with (cpp_check_status r a m = STATUS_ERR) r (w\<lparr>cpp_channel := chan, cpp_os := os\<rparr>)
           (Channel_close cls a m w)"
  using assms warn_returns error_ends
  by (simp add: Channel_close_def p_of_def warn_handlers_def error_handlers_def switch_ends)

lemma get_ends:
  assumes "chan_block (cpp_channel w) (cpp_os w) = Ret (k, shm)" "ach_get 0 (cpp_channel w) shm buf n fs ts opts wakes = Ret g"
  shows "ends_with (cpp_check_status (g_status g) a m = STATUS_ERR) (g_status g, g_buf g, g_frame_size g)
           (keep_block k (g_chan g) (g_shm g) w) (Channel_get cls buf n fs ts opts a m wakes w)"
  using assms warn_returns error_ends
  by (simp add: Channel_get_def p_of_def warn_handlers_def error_handlers_def switch_ends)

lemma put_ends:
  assumes "chan_block (cpp_channel w) (cpp_os w) = Ret (k, shm)" "ach_put 0 (cpp_channel w) shm buf n = Ret (r, shm')"
  shows "ends_with (cpp_check_status r a m = STATUS_ERR) r (keep_block k (cpp_channel w) shm' w) (Channel_put cls buf n a m w)"
  using chan_put_block [OF assms] warn_returns error_ends
  by (simp add: Channel_put_def keep_block_def p_of_def warn_handlers_def error_handlers_def switch_ends)

lemma flush_ends:
  assumes "chan_block (cpp_channel w) (cpp_os w) = Ret (k, shm)" "ach_flush 0 (cpp_channel w) shm = Ret (r, chan, shm')"
  shows "ends_with (cpp_check_status r a m = STATUS_ERR) r (keep_block k chan shm' w) (Channel_flush cls a m w)"
  using assms warn_returns error_ends
  by (simp add: Channel_flush_def p_of_def warn_handlers_def error_handlers_def switch_ends)

text \<open>
  The loop that reads into a vector: an overflow makes the vector grow beyond what it was, so that after
  at most as many rounds as the channel has bytes the frame fits.
\<close>

lemma vector_loop_ends:
  assumes "\<forall>t\<in>set turns. good_turn D chan options (fst t)" "allocates alloc" "\<not> ch_cancel chan"
    and "cpp_channel w = chan" "ch_shm chan = Some k" "block_at (cpp_os w) k \<noteq> None"
    and "v_size v \<le> length (v_mem v)" "length (v_mem v) < 2 ^ 64"
    and "unat offset + D < 2 ^ 64" "unat fs \<le> D"
    and "D - (max (length (v_mem v)) (unat offset + unat fs) - unat offset) < length turns"
  shows "\<exists>shm\<in>fst ` set turns.
           vector_read (\<lambda>r. cpp_check_status r (a OR ACH_MASK_OVERFLOW) m = STATUS_ERR) chan options k offset v (\<lambda>x. x) shm
             (get_vector_loop cls alloc offset abstime options a m turns fs v w)"
  using assms
proof (induction turns arbitrary: fs v w)
  case Nil
  then show ?case by simp
next
  case (Cons t turns)
  obtain shm wakes where t: "t = (shm, wakes)" by (cases t)
  have turn: "at_rest shm" "chan_ok chan shm" "lseq shm + 1 < 2 ^ 64" "dsize shm \<le> D" "ring_inv shm"
    "\<not> o_wait options \<or> cseq chan \<noteq> lseq shm"
    using Cons.prems(1) t by (auto simp: good_turn_def at_rest_def shm_inv_def)
  have sum: "unat (offset + fs) = unat offset + unat fs" using Cons.prems(9,10) by (intro unat_add_no_wrap) simp
  obtain v1 where v1: "v_reserve alloc (offset + fs) v = Some v1" "v_size v1 = v_size v"
      "unat offset + unat fs \<le> length (v_mem v1)" "length (v_mem v) \<le> length (v_mem v1)" "length (v_mem v1) < 2 ^ 64"
    using reserve_grows [OF Cons.prems(2,7,8), of "offset + fs"] sum by auto
  let ?n = "v_capacity v1 - offset"
  have n: "\<not> v_capacity v1 < ?n" "unat ?n = length (v_mem v1) - unat offset"
    using room_size [of offset "v_mem v1"] v1(3,5) by (simp_all add: v_capacity_def)
  let ?g = "spec_get chan shm (v_mem v1) ?n fs options" and ?w = "find_block shm w"
  have blk: "chan_block (cpp_channel ?w) (cpp_os ?w) = Ret (k, shm)" "cpp_channel ?w = chan" "block_at (cpp_os ?w) k = Some shm"
    using Cons.prems(4-6) by (auto simp: find_block_def chan_block_def block_at_set_block)
  have get: "ach_get 0 (cpp_channel ?w) shm (v_mem v1) ?n fs abstime options wakes = Ret ?g"
    using ach_get_correct [OF turn(1-3) _ Cons.prems(3) turn(6), of ?n "v_mem v1"] n(2) blk(2) by simp
  show ?case
  proof (cases "g_status ?g = ACH_OVERFLOW")
    case True
    then obtain l where l: "?g = \<lparr>g_status = ACH_OVERFLOW, g_chan = chan, g_shm = shm, g_buf = v_mem v1, g_frame_size = of_nat l\<rparr>"
        "unat ?n < l" "l \<le> dsize shm"
      using spec_get_overflow [OF turn(5)] by blast
    have ul: "unat (of_nat l :: size_t) = l"
      using l(3) turn(4) Cons.prems(9) by (simp add: unsigned_of_nat take_bit_nat_eq_self)
    let ?w' = "keep_block k chan shm ?w"
    have "get_vector_loop cls alloc offset abstime options a m (t # turns) fs v w =
        get_vector_loop cls alloc offset abstime options a m turns (of_nat l) v1 ?w'"
      using v1(1) n(1) blk(1) get l(1)
      by (simp add: t Channel_get_def p_of_def switch_allowed overflow_allowed Let_def)
    moreover have "cpp_channel ?w' = chan" "block_at (cpp_os ?w') k \<noteq> None"
      using blk(3) by (simp_all add: keep_block_def block_at_set_block)
    moreover have "D - (max (length (v_mem v1)) (unat offset + unat (of_nat l :: size_t)) - unat offset) < length turns"
      using Cons.prems(11) l(2,3) n(2) v1(3,4) ul turn(4) by simp
    ultimately show ?thesis
      using Cons.IH [of ?w' v1 "of_nat l"] Cons.prems(1-3,5,9) v1(2,5) v1(4) Cons.prems(7) ul l(3) turn(4) by (auto simp: vector_read_def)
  next
    case False
    let ?w' = "keep_block k (g_chan ?g) shm ?w"
    have "g_shm ?g = shm" by (simp add: spec_get_def split_def Let_def)
    then have "ends_with (cpp_check_status (g_status ?g) (a OR ACH_MASK_OVERFLOW) m = STATUS_ERR) (g_status ?g, g_buf ?g, g_frame_size ?g)
        ?w' (Channel_get cls (v_mem v1) ?n fs abstime options (a OR ACH_MASK_OVERFLOW) m wakes ?w)"
      using get_ends [OF blk(1) get] by simp
    then have "ends_with (cpp_check_status (g_status ?g) (a OR ACH_MASK_OVERFLOW) m = STATUS_ERR)
        (g_status ?g, v1\<lparr>v_mem := g_buf ?g\<rparr>, g_frame_size ?g) ?w'
        (get_vector_loop cls alloc offset abstime options a m (t # turns) fs v w)"
      using v1(1) n(1) False
      by (cases "Channel_get cls (v_mem v1) ?n fs abstime options (a OR ACH_MASK_OVERFLOW) m wakes ?w")
        (auto simp: t ends_with_def Let_def)
    moreover have "block_at (cpp_os ?w') k = Some shm" "cpp_channel ?w' = g_chan ?g"
      using blk(3) by (simp_all add: keep_block_def block_at_set_block)
    ultimately show ?thesis using False v1(2,3) n(2) t unfolding vector_read_def
      by (intro bexI [of _ shm] exI [of _ v1] exI [of _ ?n] exI [of _ fs] exI [of _ ?w']) (simp_all add: Let_def)
  qed
qed

lemma get_vector_ends:
  assumes "\<forall>t\<in>set turns. good_turn D chan options (fst t)" "allocates alloc" "\<not> ch_cancel chan"
    and "cpp_channel w = chan" "ch_shm chan = Some k" "block_at (cpp_os w) k \<noteq> None"
    and "v_size v \<le> length (v_mem v)" "length (v_mem v) < 2 ^ 64"
    and "unat offset + D < 2 ^ 64" "D < length turns"
  shows "\<exists>shm\<in>fst ` set turns.
           vector_read (\<lambda>r. cpp_check_status r (a OR ACH_MASK_OVERFLOW) m = STATUS_ERR) chan options k offset v
             (\<lambda>fs. map_option (\<lambda>_. fs) frame_size) shm
             (Channel_get_vector cls alloc v offset frame_size abstime options a m turns w)"
proof -
  have "D - (max (length (v_mem v)) (unat offset + unat (0 :: size_t)) - unat offset) < length turns" using assms(10) by simp
  from vector_loop_ends [OF assms(1-9) _ this, of a m abstime] show ?thesis
    by (auto simp: Channel_get_vector_def intro!: vector_read_map)
qed

end

text \<open>The laws of a class that logs, which are laws of its two functions.\<close>

locale log_handlers =
  fixes warn error :: "string \<Rightarrow> handler"
  assumes log_warn_returns: "harmless False (warn method)"
    and log_error_ends: "harmless True (error method)"

sublocale log_handlers \<subseteq> channel_handlers "LogChannel_class warn error"
  by unfold_locales (auto simp: warn_handlers_def error_handlers_def LogChannel_class_def log_warn_returns log_error_ends)

interpretation base: channel_handlers Channel_class
  by unfold_locales (auto simp: warn_handlers_def error_handlers_def Channel_class_def harmless_def)

interpretation cerr: log_handlers CerrChannel_warn CerrChannel_error
  by unfold_locales (simp_all add: harmless_def CerrChannel_warn_def CerrChannel_error_def)

interpretation sys: log_handlers SyslogChannel_warn SyslogChannel_error
  by unfold_locales (simp_all add: harmless_def SyslogChannel_warn_def SyslogChannel_error_def)

subsection \<open>The class as a binding\<close>

text \<open>A put and a get with the default masks; a status other than \<^verbatim>\<open>ACH_OK\<close> is the handlers' affair.\<close>

definition cpp_put :: "channel_class \<Rightarrow> byte list \<Rightarrow> cpp_world \<Rightarrow> cpp_world option" where
  "cpp_put cls m w =
     (case Channel_put cls (Some m) (of_nat (length m)) ACH_MASK_OK ACH_MASK_NONE w of
        P_go r w \<Rightarrow> if r = ACH_OK then Some w else None
      | _ \<Rightarrow> None)"

definition cpp_get :: "channel_class \<Rightarrow> byte list \<Rightarrow> cpp_world \<Rightarrow> (byte list \<times> cpp_world) option" where
  "cpp_get cls buf w =
     (case Channel_get cls buf (of_nat (length buf)) 0 None 0 ACH_MASK_OK ACH_MASK_NONE [] w of
        P_go (r, buf, fs) w \<Rightarrow> if r = ACH_OK then Some (take (unat fs) buf, w) else None
      | _ \<Rightarrow> None)"

definition cpp_opened ::
  "os_state \<Rightarrow> string \<Rightarrow> size_t \<Rightarrow> size_t \<Rightarrow> byte list \<Rightarrow> cpp_world \<Rightarrow> ach_channel_t \<Rightarrow> ach_header_t \<Rightarrow> cpp_world \<Rightarrow> bool" where
  "cpp_opened os name n s buf w0 chan shm w \<longleftrightarrow>
     cpp_channel w = chan \<and> opened_on os name n s chan shm (cpp_os w) \<and> length buf < 2 ^ 64 \<and>
     cpp_cerr w = cpp_cerr w0 \<and> cpp_syslog w = cpp_syslog w0"

lemma ok_allowed: "cpp_check_status ACH_OK ACH_MASK_OK warn_mask = STATUS_OK"
  by (simp add: cpp_check_status_bits ACH_MASK_OK_def mask_of_status del: ach_status_code.simps)

lemma cpp_put_stores:
  assumes "cpp_opened os name n s buf w0 chan shm w"
    and "m \<noteq> []" "length m \<le> dsize shm" "lseq shm + 1 < 2 ^ 64"
  shows "\<exists>w' shm'. cpp_put cls m w = Some w' \<and> stores shm m shm' \<and> cpp_opened os name n s buf w0 chan shm' w'"
proof -
  have a: "cpp_channel w = chan" "opened_on os name n s chan shm (cpp_os w)" using assms(1) by (simp_all add: cpp_opened_def)
  have "at_rest shm" "ch_shm chan \<noteq> None" using a(2) by (simp_all add: opened_on_def)
  then obtain shm' where p: "ach_put 0 chan shm (Some m) (of_nat (length m)) = Ret (ACH_OK, shm')" "stores shm m shm'"
    using put_stores assms(2-4) by blast
  have "cpp_put cls m w = Some (keep_block (os_fresh_id os) chan shm' w)"
    using a(1) chan_put_block [OF opened_on_block [OF a(2)] p(1)]
    by (auto simp: cpp_put_def Channel_put_def keep_block_def p_of_def switch_allowed ok_allowed)
  moreover have "cpp_opened os name n s buf w0 chan shm' (keep_block (os_fresh_id os) chan shm' w)"
    using assms(1) opened_on_stores [OF a(2) p(2)] by (simp add: cpp_opened_def keep_block_def)
  ultimately show ?thesis using p(2) by blast
qed

lemma cpp_get_unread:
  assumes "cpp_opened os name n s buf w0 chan shm w" "one_unread chan shm m" "length m \<le> length buf"
  shows "\<exists>w' chan'. cpp_get cls buf w = Some (m, w') \<and> cseq chan' = lseq shm \<and> cpp_opened os name n s buf w0 chan' shm w'"
proof -
  have a: "cpp_channel w = chan" "opened_on os name n s chan shm (cpp_os w)" "length buf < 2 ^ 64"
    using assms(1) by (simp_all add: cpp_opened_def)
  have o: "at_rest shm" "chan_ok chan shm" "\<not> ch_cancel chan" "\<not> o_last 0"
    using a(2) by (simp_all add: opened_on_def o_last_def)
  note g = get_unread [OF o assms(2,3) a(3)]
  have m: "unat (of_nat (length m) :: size_t) = length m"
    using assms(3) a(3) by (simp add: unsigned_of_nat take_bit_nat_eq_self)
  let ?w = "keep_block (os_fresh_id os) (read_on chan shm) shm w"
  have "cpp_get cls buf w = Some (m, ?w)"
    using a(1) opened_on_block [OF a(2)] g(1) [of 0 0 None "[]"] m
    by (simp add: cpp_get_def Channel_get_def p_of_def switch_allowed ok_allowed)
  moreover have "cpp_opened os name n s buf w0 (read_on chan shm) shm ?w"
    using assms(1) g(2) by (simp add: cpp_opened_def keep_block_def opened_on_read)
  ultimately show ?thesis using g(3) by blast
qed

interpretation cpp: channel_binding "cpp_opened os name n s buf w0" "length buf" "cpp_put cls" "cpp_get cls buf"
  for os name n s buf w0 cls
proof unfold_locales
  show "cpp_opened os name n s buf w0 chan shm w \<Longrightarrow> at_rest shm" for chan shm w
    by (simp add: cpp_opened_def opened_on_def)
qed (fact cpp_put_stores, fact cpp_get_unread)

lemmas log_classes = CerrChannel_class_def SyslogChannel_class_def

section \<open>Properties\<close>

text \<open>
  C25. Reading into a vector comes to an end.  For each of the classes of the library, any allocator
  that gives the storage it is asked for, and any sequence of states the block is in from round to
  round, all at rest and none with more than \<open>D\<close> bytes of data: within \<open>D + 1\<close> rounds the method ends
  as one read of the library from one of these blocks, with the status, the bytes and the handle of
  \<open>spec_get\<close>, and never with an overflow, even though the vector may have been too short for every
  frame.  Only a status that neither mask names can end the program.
\<close>

theorem cpp_vector_get:
  assumes "cls \<in> {Channel_class, CerrChannel_class, SyslogChannel_class}" "allocates alloc"
    and "\<forall>t\<in>set turns. good_turn D (cpp_channel w) options (fst t)" "\<not> ch_cancel (cpp_channel w)"
    and "ch_shm (cpp_channel w) = Some k" "block_at (cpp_os w) k \<noteq> None"
    and "v_size v \<le> length (v_mem v)" "length (v_mem v) < 2 ^ 64"
    and "unat offset + D < 2 ^ 64" "D < length turns"
  shows "\<exists>shm\<in>fst ` set turns.
           vector_read (\<lambda>r. cpp_check_status r (a OR ACH_MASK_OVERFLOW) m = STATUS_ERR) (cpp_channel w) options k offset v
             (\<lambda>fs. map_option (\<lambda>_. fs) frame_size) shm
             (Channel_get_vector cls alloc v offset frame_size abstime options a m turns w)"
  using assms(1) base.get_vector_ends [OF assms(3,2,4) refl assms(5-10)]
    cerr.get_vector_ends [OF assms(3,2,4) refl assms(5-10)] sys.get_vector_ends [OF assms(3,2,4) refl assms(5-10)]
  by (auto simp only: insert_iff empty_iff log_classes)

text \<open>A program with a handle on the block of one frame, and an allocator.\<close>

definition cpp_demo :: cpp_world where
  "cpp_demo = \<lparr>cpp_os = empty_os\<lparr>os_objects := (\<lambda>_. None)(0 := Some \<lparr>o_len = 400, o_block = written_block, o_mode = 438\<rparr>)\<rparr>,
     cpp_channel = fresh_handle 0 400 3 ach_attr_init, cpp_cerr = [], cpp_syslog = []\<rparr>"

definition demo_alloc :: "nat \<Rightarrow> byte list option" where
  "demo_alloc n = Some (replicate n 0)"

lemma cpp_demo_ok:
  "ch_shm (cpp_channel cpp_demo) = Some 0" "\<not> ch_cancel (cpp_channel cpp_demo)"
  "block_at (cpp_os cpp_demo) 0 = Some written_block" "allocates demo_alloc"
  "good_turn 8 (cpp_channel cpp_demo) ACH_O_WAIT written_block"
  by (simp_all add: cpp_demo_def fresh_handle_def block_at_def allocates_def demo_alloc_def)
    (use fresh_handle_ok [of written_block 0 400 3 ach_attr_init] in
      \<open>simp add: good_turn_def written_block_at_rest written_block_fields fresh_handle_def\<close>)

theorem cpp_vector_get_witness:
  "vector_read (\<lambda>r. cpp_check_status r (ACH_MASK_OK OR ACH_MASK_OVERFLOW) 0 = STATUS_ERR) (cpp_channel cpp_demo) ACH_O_WAIT 0 0
     \<lparr>v_size = 0, v_mem = []\<rparr> (\<lambda>fs. Some fs) written_block
     (Channel_get_vector CerrChannel_class demo_alloc \<lparr>v_size = 0, v_mem = []\<rparr> 0 (Some 0) None ACH_O_WAIT ACH_MASK_OK 0
        (replicate 9 (written_block, [])) cpp_demo)"
proof -
  have t: "\<forall>t\<in>set (replicate 9 (written_block, [])). good_turn 8 (cpp_channel cpp_demo) ACH_O_WAIT (fst t)"
    using cpp_demo_ok(5) by simp
  have b: "block_at (cpp_os cpp_demo) 0 \<noteq> None" using cpp_demo_ok(3) by simp
  have c: "CerrChannel_class \<in> {Channel_class, CerrChannel_class, SyslogChannel_class}" by simp
  show ?thesis
    using cpp_vector_get [OF c cpp_demo_ok(4) t cpp_demo_ok(2,1) b, of "\<lparr>v_size = 0, v_mem = []\<rparr>" 0 ACH_MASK_OK 0 "Some 0" None]
    by simp
qed

text \<open>
  C33. What a \<open>CerrChannel\<close> does with the outcome of a read.  On a block at rest the status is that of
  \<open>spec_get\<close>.  When its bit is set in the mask of allowed statuses, the method returns and prints nothing;
  when it is set in the mask of warnings only, the method prints one line that names the call, the status
  and its number, and returns; otherwise it prints such a line and ends the program with a failure.  In
  all cases the handle and the block are as the library leaves them.
\<close>

theorem cpp_get_reports:
  fixes fs :: size_t
  assumes "chan_block (cpp_channel w) (cpp_os w) = Ret (k, shm)" "at_rest shm" "chan_ok (cpp_channel w) shm"
    and "lseq shm + 1 < 2 ^ 64" "unat n \<le> length buf" "\<not> ch_cancel (cpp_channel w)"
    and "\<not> o_wait options \<or> cseq (cpp_channel w) \<noteq> lseq shm"
  defines "g \<equiv> spec_get (cpp_channel w) shm buf n fs options"
  defines "code \<equiv> ach_status_code (g_status g)"
  defines "line \<equiv> \<lambda>kind. kind @ '': ach_get '' @ ach_result_to_string code @ '' ('' @ show_int code @ '')'' @ newline"
  defines "w' \<equiv> w\<lparr>cpp_channel := g_chan g, cpp_os := set_block k shm (cpp_os w)\<rparr>"
  shows "Channel_get CerrChannel_class buf n fs abstime options a m wakes w =
           (if bit a (nat code) then P_go (g_status g, g_buf g, g_frame_size g) w'
            else if bit m (nat code)
            then P_go (g_status g, g_buf g, g_frame_size g) (w'\<lparr>cpp_cerr := cpp_cerr w @ [line ''warning'']\<rparr>)
            else P_exit 1 (w'\<lparr>cpp_cerr := cpp_cerr w @ [line ''error'']\<rparr>))"
proof -
  have get: "ach_get 0 (cpp_channel w) shm buf n fs abstime options wakes = Ret g"
    unfolding g_def by (rule ach_get_correct [OF assms(2-7)])
  have "g_shm g = shm" by (simp add: g_def spec_get_def split_def Let_def)
  then show ?thesis using assms(1) get
    by (simp add: Channel_get_def p_of_def status_switch_def cpp_check_status_bits keep_block_def CerrChannel_class_def
        LogChannel_class_def CerrChannel_warn_def CerrChannel_error_def cerr_line_def line_def code_def w'_def)
qed

theorem cpp_get_reports_witness:
  "\<exists>w'. Channel_get CerrChannel_class [0, 0, 0] 2 0 None ACH_O_WAIT ACH_MASK_OK ACH_MASK_NONE [] cpp_demo = P_exit 1 w' \<and>
     cpp_cerr w' = [''error: ach_get ACH_OVERFLOW (1)'' @ newline]"
proof -
  have "chan_block (cpp_channel cpp_demo) (cpp_os cpp_demo) = Ret (0, written_block)"
    using cpp_demo_ok(1,3) by (simp add: chan_block_def)
  moreover have "cpp_channel cpp_demo = fresh_handle 0 400 3 ach_attr_init" "cpp_cerr cpp_demo = []" by (simp_all add: cpp_demo_def)
  moreover have "g_status (spec_get (fresh_handle 0 400 3 ach_attr_init) written_block [0, 0, 0] 2 0 ACH_O_WAIT) = ACH_OVERFLOW"
    by (simp add: spec_get_def written_block_frames written_block_fields option_flags pick_frame_def) (simp add: fresh_handle_def)
  moreover have "show_int 1 = ''1''" by code_simp
  ultimately show ?thesis
    using cpp_get_reports [of cpp_demo 0 written_block 2 "[0, 0, 0]" ACH_O_WAIT 0 None ACH_MASK_OK ACH_MASK_NONE "[]"]
      cpp_demo_ok(2,5)
    by (simp add: good_turn_def ACH_MASK_OK_def ACH_MASK_NONE_def ACH_MASK_FROM_STATUS_def ach_result_to_string_def
        bit_simps)
qed

text \<open>
  C24. An object from its opening to its end.  For every subclass, whatever its handlers do: opening a
  channel that was created, putting any messages and getting each back into a buffer that is large
  enough, and destroying the object.  Every message comes back byte for byte, no handler logs anything,
  and descriptor and mapping are given back by the destructor; the channel keeps the newest messages.
\<close>

theorem cpp_session:
  assumes "quiet os" "channel_name_ok name" "sizes_ok n s" "1 < unat n" "full_len n s \<le> page_round (body_len n s)"
    and "os_fds os (os_fresh_fd os + 1) = None" "cpp_os w = after_create os name n s"
    and "\<forall>m\<in>set ms. m \<noteq> [] \<and> length m \<le> unat n * unat s \<and> length m \<le> length buf"
    and "length buf < 2 ^ 64" "length ms + 1 < 2 ^ 64"
  shows "\<exists>w1 w2 w3 shm. Channel_open cls name None ACH_MASK_OK ACH_MASK_NONE w = P_go ACH_OK w1 \<and>
           exchange (cpp_put cls) (cpp_get cls buf) ms w1 = Some (ms, w2) \<and> Channel_delete w2 = P_go () w3 \<and>
           cpp_cerr w3 = cpp_cerr w \<and> cpp_syslog w3 = cpp_syslog w \<and>
           os_fds (cpp_os w3) = os_fds os \<and> os_maps (cpp_os w3) = os_maps os \<and>
           block_at (cpp_os w3) (os_fresh_id os) = Some shm \<and> frames shm = keep (unat n) (unat n * unat s) (number 0 ms)"
proof -
  let ?b = "fresh_block name n s"
  have rest: "frames ?b = []" "icnt ?b = unat n" "lseq ?b = 0" "dsize ?b = unat n * unat s"
    using fresh_block_at_rest [OF assms(3), of name] by simp_all
  obtain chan now where o: "ach_open (cpp_channel w) name None (cpp_os w) = Ret (ACH_OK, chan, now)"
      "opened_on os name n s chan ?b now" "cseq chan = 0"
    using opened_on_open [OF assms(1-5), of "cpp_channel w"] assms(7) by auto
  define w1 where "w1 = w\<lparr>cpp_channel := chan, cpp_os := now\<rparr>"
  have w1: "Channel_open cls name None ACH_MASK_OK ACH_MASK_NONE w = P_go ACH_OK w1"
    using o(1) by (simp add: Channel_open_def p_of_def switch_allowed ok_allowed w1_def)
  have "cpp_opened os name n s buf w chan ?b w1" using o(2) assms(9) by (simp add: cpp_opened_def w1_def)
  then obtain w2 chan2 shm where e: "exchange (cpp_put cls) (cpp_get cls buf) ms w1 = Some (ms, w2)"
      "cpp_opened os name n s buf w chan2 shm w2" "frames shm = keep (unat n) (unat n * unat s) (number 0 ms)"
    using cpp.exchange_all [of os name n s buf w chan ?b w1 ms cls] o(3) rest assms(8,10) by auto
  have c: "cpp_channel w2 = chan2" "opened_on os name n s chan2 shm (cpp_os w2)" using e(2) by (simp_all add: cpp_opened_def)
  obtain os' where "ach_close chan2 (cpp_os w2) = Ret (ACH_OK, chan2\<lparr>ch_shm := None\<rparr>, os')" "os_fds os' = os_fds os"
      "os_maps os' = os_maps os" "block_at os' (os_fresh_id os) = Some shm"
    using opened_on_close [OF assms(1,3,6) c(2)] by blast
  moreover have "ch_shm chan2 = Some (os_fresh_id os)" using c(2) by (simp add: opened_on_def)
  ultimately show ?thesis using w1 e c(1)
    by (simp add: Channel_delete_def Channel_close_def p_of_def switch_allowed ok_allowed cpp_opened_def)
qed

theorem cpp_session_witness:
  "\<exists>w1 w2 w3 shm. Channel_open CerrChannel_class ''imu'' None ACH_MASK_OK ACH_MASK_NONE
       (cpp_demo\<lparr>cpp_os := after_create empty_os ''imu'' 16 512\<rparr>) = P_go ACH_OK w1 \<and>
     exchange (cpp_put CerrChannel_class) (cpp_get CerrChannel_class [0, 0, 0]) [[1, 2, 3], [4]] w1 = Some ([[1, 2, 3], [4]], w2) \<and>
     Channel_delete w2 = P_go () w3 \<and> os_maps (cpp_os w3) = [] \<and>
     block_at (cpp_os w3) 0 = Some shm \<and> frames shm = [(1, [1, 2, 3]), (2, [4])]"
proof -
  have sz: "sizes_ok 16 512" "1 < unat (16 :: size_t)" "full_len 16 512 \<le> page_round (body_len 16 512)"
    by (simp_all add: sizes_ok_def full_len_def body_len_def page_round_def page_size_def)
  have o: "os_fds empty_os (os_fresh_fd empty_os + 1) = None" "os_fresh_id empty_os = 0" "os_maps empty_os = []"
    by (simp_all add: empty_os_def)
  have m: "cpp_os (cpp_demo\<lparr>cpp_os := after_create empty_os ''imu'' 16 512\<rparr>) = after_create empty_os ''imu'' 16 512"
    "\<forall>m\<in>set [[1, 2, 3], [4 :: byte]]. m \<noteq> [] \<and> length m \<le> unat (16 :: size_t) * unat (512 :: size_t) \<and>
      length m \<le> length [0, 0, 0 :: byte]" "length [0, 0, 0 :: byte] < 2 ^ 64" "length [[1, 2, 3], [4 :: byte]] + 1 < 2 ^ 64"
    by simp_all
  have k: "keep (unat (16 :: size_t)) (unat (16 :: size_t) * unat (512 :: size_t)) (number 0 [[1, 2, 3], [4]]) = [(1, [1, 2, 3]), (2, [4])]"
    by simp
  from cpp_session [OF quiet_empty_os(1) name_imu sz o(1) m, unfolded k o(2,3)] show ?thesis by blast
qed

section \<open>What the class does not do\<close>

text \<open>
  The frame goes to the start of the storage whatever the offset, over the elements in front of it, and
  the number of elements does not change.
\<close>

lemma vector_offset_ignored:
  assumes "good_turn D (cpp_channel w) options shm" "\<not> ch_cancel (cpp_channel w)" "ch_shm (cpp_channel w) = Some k"
    and "block_at (cpp_os w) k = Some shm" "frames shm \<noteq> []" "cseq (cpp_channel w) \<noteq> lseq shm"
    and "pick_frame (o_last options) (cseq (cpp_channel w)) (frames shm) = (q, x)"
    and "unat offset + length x \<le> length (v_mem v)" "length (v_mem v) < 2 ^ 64"
  shows "\<exists>st w'. Channel_get_vector Channel_class alloc v offset (Some fs) abstime options a m [(shm, wakes)] w =
           P_go (st, v\<lparr>v_mem := x @ drop (length x) (v_mem v)\<rparr>, Some (of_nat (length x))) w' \<and>
           st \<in> {ACH_OK, ACH_MISSED_FRAME}"
proof -
  let ?n = "v_capacity v - offset" and ?w = "find_block shm w"
  have n: "\<not> v_capacity v < ?n" "unat ?n = length (v_mem v) - unat offset"
    using room_size [of offset "v_mem v"] assms(8,9) by (simp_all add: v_capacity_def)
  have r: "v_reserve alloc (offset + 0) v = Some v" using assms(8) by (simp add: v_reserve_def)
  have blk: "chan_block (cpp_channel ?w) (cpp_os ?w) = Ret (k, shm)" "cpp_channel ?w = cpp_channel w"
    using assms(3,4) by (auto simp: find_block_def chan_block_def block_at_set_block)
  have "ach_get 0 (cpp_channel w) shm (v_mem v) ?n 0 abstime options wakes = Ret (spec_get (cpp_channel w) shm (v_mem v) ?n 0 options)"
    using assms(1,2) n(2) by (intro ach_get_correct) (auto simp: good_turn_def)
  with blk r n assms(5-8) show ?thesis
    by (auto simp: Channel_get_vector_def Channel_get_def p_of_def status_switch_def Channel_class_def spec_get_def Let_def
        split: status_check_result.splits)
qed

text \<open>An object that is destroyed before it was opened reads a handle that was never written.\<close>

lemma delete_unopened:
  assumes "ch_shm garbage = Some k" "block_at (cpp_os w) k = None"
  shows "p_then (Channel_new garbage w) (\<lambda>_. Channel_delete) = P_crash Unmapped (w\<lparr>cpp_channel := garbage\<rparr>)"
  using assms by (simp add: Channel_new_def Channel_delete_def Channel_close_def ach_close_def p_of_def)

text \<open>A failure to close in the destructor is silent in every class, also in those that report errors.\<close>

lemma delete_silent:
  assumes "ch_shm (cpp_channel w) = Some k" "ach_close (cpp_channel w) (cpp_os w) = Ret (r, chan, os)"
  shows "Channel_delete w = P_go () (w\<lparr>cpp_channel := chan, cpp_os := os\<rparr>)"
  using assms
  by (simp add: Channel_delete_def Channel_close_def p_of_def status_switch_def Channel_class_def split: status_check_result.splits)

end
