(* ===== verification/Achchand.thy ===== *)
theory Achchand
  imports Ach_Tool Ach_Util
begin

text \<open>
  The channel daemon of \<^verbatim>\<open>src/achchand.c\<close>, as far as it was written: a server on a local socket
  whose clients send commands in lines and get replies.  The functions of the library it is written
  against, which is not part of the repository, are parameters.
\<close>

section \<open>State\<close>

datatype achd_fdtype = ACHD_FD_CTRL_BAD | ACHD_FD_CTRL_SRV | ACHD_FD_CTRL_CONN

type_synonym poll_bits = "16 word"

definition POLLIN :: poll_bits where "POLLIN = 1"
definition POLLOUT :: poll_bits where "POLLOUT = 4"
definition POLLERR :: poll_bits where "POLLERR = 8"
definition POLLHUP :: poll_bits where "POLLHUP = 16"
definition POLLNVAL :: poll_bits where "POLLNVAL = 32"

text \<open>
  What the two arrays of the daemon hold at one index: the entry for \<open>poll\<close> and the buffers.  The
  storage of a buffer is as long as its \<^verbatim>\<open>max_\<close> field says.
\<close>

record chand_fd =
  cf_fd :: int
  cf_events :: poll_bits
  cf_revents :: poll_bits
  cf_type :: achd_fdtype
  cf_in :: "byte list"
  cf_n_in :: nat
  cf_out :: "byte list"
  cf_n_out :: nat

text \<open>
  The daemon and its sockets: what arrives on a descriptor and what it takes, what \<open>accept\<close> returns next,
  and how calls of \<open>close\<close> end (\<open>True\<close> is an interruption, \<open>False\<close> another error; it succeeds when the list
  is used up).
\<close>

record chand =
  cd_fds :: "chand_fd list"
  cd_quit :: bool
  cd_log :: "(int \<times> string) list"
  cd_input :: "int \<Rightarrow> in_stream"
  cd_output :: "int \<Rightarrow> out_stream"
  cd_accepts :: "int list"
  cd_closes :: "bool list"
  cd_closed :: "int list"

type_synonym 'a chand_act = "('a, chand) tool"

text \<open>
  What the daemon uses of the other library: reading behind the first bytes of a buffer, which may move
  to a longer one, with the result and whether it was interrupted; and the contents of new storage.
\<close>

record chand_env =
  aa_read_realloc :: "byte list \<Rightarrow> nat \<Rightarrow> in_stream \<Rightarrow> int \<times> bool \<times> byte list \<times> in_stream"
  new_storage :: "nat \<Rightarrow> byte list"

definition chand_log :: "int \<Rightarrow> string \<Rightarrow> chand \<Rightarrow> chand" where
  "chand_log priority msg w = w\<lparr>cd_log := cd_log w @ [(priority, msg)]\<rparr>"

definition LOG_EMERG :: int where "LOG_EMERG = 0"

text \<open>
  An element of the arrays.  The index is an integer: one below zero is the largest \<open>size_t\<close>, which is
  outside as well.
\<close>

definition fd_slot :: "int \<Rightarrow> chand \<Rightarrow> chand_fd outcome" where
  "fd_slot i w =
     (if 0 \<le> i \<and> i < int (length (cd_fds w)) then Ret (cd_fds w ! nat i) else Fault Out_of_bounds)"

definition set_slot :: "int \<Rightarrow> chand_fd \<Rightarrow> chand \<Rightarrow> chand" where
  "set_slot i f w = w\<lparr>cd_fds := (cd_fds w)[nat i := f]\<rparr>"

section \<open>Connections\<close>

definition chand_new_fd :: "chand_env \<Rightarrow> int \<Rightarrow> achd_fdtype \<Rightarrow> chand \<Rightarrow> chand" where
  "chand_new_fd env fd type w =
     (let fd_max = 3 + 1 + int (length (cd_fds w));
          w = (if fd > fd_max
               then chand_log LOG_WARNING
                      (''possible unbounded fd growth, fd '' @ show_int fd @ '' > '' @ show_int fd_max) w
               else w)
      in w\<lparr>cd_fds := cd_fds w @
              [\<lparr>cf_fd = fd, cf_events = POLLIN, cf_revents = 0, cf_type = type,
                cf_in = new_storage env 4000, cf_n_in = 0, cf_out = new_storage env 4000, cf_n_out = 0\<rparr>]\<rparr>)"

text \<open>Closing goes on as long as it is interrupted.\<close>

fun close_retry :: "bool list \<Rightarrow> bool \<times> bool list" where
  "close_retry [] = (True, [])"
| "close_retry (True # rs) = close_retry rs"
| "close_retry (False # rs) = (False, rs)"

definition rm_fd :: "int \<Rightarrow> chand \<Rightarrow> unit chand_act" where
  "rm_fd i w =
     p_of (fd_slot i w) (\<lambda>f w.
       let (ok, rs) = close_retry (cd_closes w);
           w = w\<lparr>cd_closes := rs, cd_closed := cd_closed w @ [cf_fd f]\<rparr>;
           w = (if ok then w else chand_log LOG_ERR ''close failed'' w)
       in P_go () (w\<lparr>cd_fds := take (nat i) (cd_fds w) @ drop (nat i + 1) (cd_fds w)\<rparr>)) w"

section \<open>Commands\<close>

text \<open>
  Replies are queued behind those that wait.  What does not fit is not copied, but it is counted; once
  more is counted than fits, the room that is left wraps around and everything is copied.
\<close>

definition queue_output :: "byte list \<Rightarrow> chand_fd \<Rightarrow> chand_fd outcome" where
  "queue_output str f =
     (let len = length str; max_out = length (cf_out f);
          k = (if cf_n_out f \<le> max_out then min (max_out - cf_n_out f) len else len)
      in and_then (memcpy (cf_out f) (cf_n_out f) str 0 k) (\<lambda>out.
         Ret (f\<lparr>cf_out := out, cf_n_out := cf_n_out f + len, cf_events := cf_events f OR POLLOUT\<rparr>)))"

definition help_string :: "byte list" where
  "help_string =
     ascii (''COMMANDS: '' @ newline @
            ''  help:  print this message'' @ newline @
            ''  helo:  server responds with `elho'' @ [CHR 0x27] @ newline @
            ''  quit:  server closes connection'' @ newline @
            ''  achnotify CHANNEL:  send notification messages to CHANNEL'' @ newline)"

definition to_lower :: "byte \<Rightarrow> byte" where
  "to_lower c = (if 65 \<le> c \<and> c \<le> 90 then c + 32 else c)"

text \<open>Whether \<open>strcasecmp\<close> finds two strings equal.\<close>

definition same_word :: "byte list \<Rightarrow> string \<Rightarrow> bool" where
  "same_word tok word = (map to_lower tok = map to_lower (ascii word))"

text \<open>The first token of \<open>strtok\<close>; a line of separators has none.\<close>

definition first_token :: "byte list \<Rightarrow> byte list option" where
  "first_token line =
     (let sep = (\<lambda>c. c = 32 \<or> c = 9); s = dropWhile sep line
      in if s = [] then None else Some (takeWhile (\<lambda>c. \<not> sep c) s))"

text \<open>
  A command: the line is at the start of the input, up to the null byte.  What \<open>strtok\<close> writes into the
  line is lost with the line.
\<close>

definition process_ctrl :: "chand_fd \<Rightarrow> (int \<times> chand_fd) outcome" where
  "process_ctrl f =
     (let buf = takeWhile (\<lambda>c. c \<noteq> 0) (cf_in f)
      in and_then (c_assert 331 (10 \<notin> set buf)) (\<lambda>_.
         case first_token buf of
           None \<Rightarrow> Fault Unmapped
         | Some tok \<Rightarrow>
             if same_word tok ''helo'' then and_then (queue_output (ascii (''elho'' @ newline)) f) (\<lambda>f. Ret (0, f))
             else if same_word tok ''help'' then and_then (queue_output help_string f) (\<lambda>f. Ret (0, f))
             else if same_word tok ''achnotify'' then Ret (0, f)
             else if same_word tok ''quit'' then Ret (-1, f)
             else and_then (queue_output (ascii (''bad command'' @ newline)) f) (\<lambda>f. Ret (0, f))))"

text \<open>How the look at new input ends: nothing more to do, the client quits, or a bad character.\<close>

datatype scan_end = Scan_more | Scan_quit | Scan_bad byte

definition printable :: "byte \<Rightarrow> bool" where
  "printable c = (32 \<le> c \<and> c \<le> 126)"

text \<open>The line up to position \<open>j\<close> has been taken out.\<close>

definition drop_line :: "nat \<Rightarrow> chand_fd \<Rightarrow> chand_fd" where
  "drop_line j f =
     (let n = cf_n_in f - j - 1
      in f\<lparr>cf_n_in := n, cf_in := take n (drop (j + 1) (cf_in f)) @ drop n (cf_in f)\<rparr>)"

lemma queue_output_in:
  "queue_output str f = Ret f' \<Longrightarrow> cf_n_in f' = cf_n_in f \<and> cf_in f' = cf_in f"
  by (auto simp: queue_output_def Let_def outcome_simps)

lemma process_ctrl_in:
  "process_ctrl f = Ret (r, f') \<Longrightarrow> cf_n_in f' = cf_n_in f \<and> cf_in f' = cf_in f"
  by (auto simp: process_ctrl_def Let_def outcome_simps dest: queue_output_in split: option.splits if_splits)

function ctrl_scan :: "nat \<Rightarrow> chand_fd \<Rightarrow> (scan_end \<times> chand_fd) outcome" where
  "ctrl_scan j f =
     (if j < cf_n_in f
      then let c = cf_in f ! j
           in if c = 10 \<or> c = 13
              then and_then (process_ctrl (f\<lparr>cf_in := (cf_in f)[j := 0]\<rparr>)) (\<lambda>x.
                   if fst x = 0 then ctrl_scan 0 (drop_line j (snd x)) else Ret (Scan_quit, snd x))
              else if \<not> printable c then Ret (Scan_bad c, f)
              else ctrl_scan (j + 1) f
      else Ret (Scan_more, f))"
  by pat_completeness auto
termination
  by (relation "measure (\<lambda>(j, f). cf_n_in f - j)") (auto simp: drop_line_def Let_def dest: process_ctrl_in)

declare ctrl_scan.simps [simp del]

section \<open>The poll loop\<close>

text \<open>Input of a connection; a connection that is removed moves the index back by one.\<close>

definition conn_input :: "chand_env \<Rightarrow> int \<Rightarrow> chand \<Rightarrow> int chand_act" where
  "conn_input env i w =
     p_of (fd_slot i w) (\<lambda>f w.
       if cf_revents f AND POLLIN = 0 then P_go i w
       else case aa_read_realloc env (cf_in f) (cf_n_in f) (cd_input w (cf_fd f)) of
              (s, intr, storage, rest) \<Rightarrow>
                let w = w\<lparr>cd_input := (cd_input w)(cf_fd f := rest)\<rparr>; f = f\<lparr>cf_in := storage\<rparr>
                in if s < 0 \<and> \<not> intr then P_go i (chand_log LOG_ERR ''read failed'' (set_slot i f w))
                   else if s > 0
                   then p_of (ctrl_scan (cf_n_in f) (f\<lparr>cf_n_in := cf_n_in f + nat s\<rparr>)) (\<lambda>x w.
                        let w = set_slot i (snd x) w
                        in case fst x of
                             Scan_more \<Rightarrow> P_go i w
                           | Scan_quit \<Rightarrow> p_then (rm_fd i w) (\<lambda>_. P_go (i - 1))
                           | Scan_bad c \<Rightarrow>
                               p_then (rm_fd i (chand_log LOG_NOTICE (''bad char from client: '' @ show_int (sint c)) w))
                                 (\<lambda>_. P_go (i - 1))) w
                   else P_go i (set_slot i f w)) w"

text \<open>Sending what waits, and the connection after it.\<close>

definition conn_send :: "chand_fd \<Rightarrow> chand \<Rightarrow> chand_fd chand_act" where
  "conn_send f w =
     (let (s, out) = sys_write (take (cf_n_out f) (cf_out f)) (cd_output w (cf_fd f));
          interrupted = (case out_events (cd_output w (cf_fd f)) of Out_err e # _ \<Rightarrow> e | _ \<Rightarrow> False);
          w = w\<lparr>cd_output := (cd_output w)(cf_fd f := out)\<rparr>
      in if s < 0 then P_go f (if interrupted then w else chand_log LOG_ERR ''write failed'' w)
         else if s > 0
         then p_then (p_assert 433 (nat s \<le> cf_n_out f) w) (\<lambda>_.
              let n = cf_n_out f - nat s
              in P_go (f\<lparr>cf_out := take n (drop (nat s) (cf_out f)) @ drop n (cf_out f), cf_n_out := n\<rparr>))
         else P_go f w)"

definition conn_output :: "int \<Rightarrow> chand \<Rightarrow> unit chand_act" where
  "conn_output i w =
     p_of (fd_slot i w) (\<lambda>f w.
       if cf_revents f AND POLLOUT = 0 then P_go () w
       else p_then (if cf_n_out f \<noteq> 0 then conn_send f w else P_go f w) (\<lambda>f w.
            let f = (if cf_n_out f = 0 then f\<lparr>cf_events := cf_events f AND NOT POLLOUT\<rparr> else f)
            in P_go () (set_slot i f w))) w"

definition conn_hangup :: "int \<Rightarrow> chand \<Rightarrow> int chand_act" where
  "conn_hangup i w =
     p_of (fd_slot i w) (\<lambda>f w.
       if cf_revents f AND (POLLHUP OR POLLERR OR POLLNVAL) = 0 then P_go i w
       else p_then (rm_fd i w) (\<lambda>_. P_go (i - 1))) w"

text \<open>
  The server socket.  The test for an interrupted \<open>accept\<close> compares the descriptor with the number of the
  error, so that there is never a second try.
\<close>

definition srv_input :: "chand_env \<Rightarrow> int \<Rightarrow> chand \<Rightarrow> int chand_act" where
  "srv_input env i w =
     p_of (fd_slot i w) (\<lambda>f w.
       p_then
         (if cf_revents f AND POLLIN = 0 then P_go () w
          else case cd_accepts w of
                 [] \<Rightarrow> P_block w
               | newconn # rest \<Rightarrow>
                   let w = w\<lparr>cd_accepts := rest\<rparr>
                   in if newconn < 0 then P_go () (chand_log LOG_ERR ''failed accept'' w)
                      else P_go () (chand_new_fd env newconn ACHD_FD_CTRL_CONN w))
         (\<lambda>_ w. P_go i
            (if cf_revents f AND (POLLERR OR POLLHUP OR POLLNVAL OR POLLOUT) = 0 then w
             else chand_log LOG_ERR ''unknown event on srv sock'' w))) w"

definition buffers_ok :: "nat \<Rightarrow> int \<Rightarrow> chand \<Rightarrow> unit chand_act" where
  "buffers_ok line i w =
     p_of (fd_slot i w) (\<lambda>f w.
       p_then (p_assert line (cf_n_in f \<le> length (cf_in f)) w) (\<lambda>_.
       p_assert (line + 1) (cf_n_out f \<le> length (cf_out f)))) w"

text \<open>The body of the loop over the descriptors; it gives the index of the next.\<close>

definition serve_fd :: "chand_env \<Rightarrow> int \<Rightarrow> chand \<Rightarrow> int chand_act" where
  "serve_fd env i w =
     p_then (buffers_ok 359 i w) (\<lambda>_ w.
     p_of (fd_slot i w) (\<lambda>f w.
     p_then
       (case cf_type f of
          ACHD_FD_CTRL_SRV \<Rightarrow> srv_input env i w
        | ACHD_FD_CTRL_CONN \<Rightarrow>
            p_then (conn_input env i w) (\<lambda>i w.
            p_then (conn_output i w) (\<lambda>_. conn_hangup i))
        | ACHD_FD_CTRL_BAD \<Rightarrow> P_go i (chand_log LOG_ERR (''bad fd type at index '' @ show_int i) w))
       (\<lambda>i w. p_then (buffers_ok 455 i w) (\<lambda>_. P_go (i + 1)))) w)"

text \<open>Every round of the loop uses up a descriptor, or a connection that waits to be accepted.\<close>

definition fds_left :: "int \<Rightarrow> chand \<Rightarrow> int" where
  "fds_left i w = int (length (cd_accepts w)) + int (length (cd_fds w)) - i"

lemma left_simps [simp]:
  "fds_left i (set_slot j f w) = fds_left i w" "fds_left i (chand_log p msg w) = fds_left i w"
  by (simp_all add: fds_left_def set_slot_def chand_log_def)

lemma rm_fd_left:
  assumes "rm_fd i w = P_go u w'"
  shows "fds_left (i - 1) w' = fds_left i w"
proof -
  obtain f where f: "fd_slot i w = Ret f" using assms by (auto simp: rm_fd_def go_simps)
  then have i: "0 \<le> i" "i < int (length (cd_fds w))" by (auto simp: fd_slot_def split: if_splits)
  obtain ok rs where "close_retry (cd_closes w) = (ok, rs)" by force
  then show ?thesis using assms f i by (auto simp: rm_fd_def p_of_def fds_left_def chand_log_def Let_def)
qed

lemma conn_input_left:
  assumes "conn_input env i w = P_go i' w'"
  shows "fds_left i' w' = fds_left i w"
proof -
  obtain f where f: "fd_slot i w = Ret f" using assms by (auto simp: conn_input_def go_simps)
  obtain s intr st rest where r: "aa_read_realloc env (cf_in f) (cf_n_in f) (cd_input w (cf_fd f)) = (s, intr, st, rest)"
    by (cases "aa_read_realloc env (cf_in f) (cf_n_in f) (cd_input w (cf_fd f))")
  have u: "fds_left k (w\<lparr>cd_input := x\<rparr>) = fds_left k w" for k x by (simp add: fds_left_def)
  show ?thesis
  proof (cases "cf_revents f AND POLLIN = 0 \<or> s < 0 \<and> \<not> intr \<or> \<not> 0 < s")
    case True
    then show ?thesis using assms f r by (auto simp: conn_input_def p_of_def u Let_def split: if_splits)
  next
    case False
    obtain x where x: "ctrl_scan (cf_n_in f) (f\<lparr>cf_in := st, cf_n_in := cf_n_in f + nat s\<rparr>) = Ret x"
      using assms f r False by (auto simp: conn_input_def go_simps)
    with assms f r False show ?thesis
      by (cases "fst x") (auto simp: conn_input_def p_of_def p_then_go u Let_def dest!: rm_fd_left)
  qed
qed

lemma conn_send_left: "conn_send f w = P_go f' w' \<Longrightarrow> fds_left i w' = fds_left i w"
  by (cases "sys_write (take (cf_n_out f) (cf_out f)) (cd_output w (cf_fd f))")
    (auto simp: conn_send_def p_then_go p_assert_def fds_left_def chand_log_def Let_def split: if_splits)

lemma conn_output_left: "conn_output i w = P_go u w' \<Longrightarrow> fds_left i w' = fds_left i w"
  by (auto simp: conn_output_def go_simps split: if_split_asm dest!: conn_send_left [where i = i])

lemma conn_hangup_left: "conn_hangup i w = P_go i' w' \<Longrightarrow> fds_left i' w' = fds_left i w"
  by (auto simp: conn_hangup_def go_simps split: if_splits dest: rm_fd_left)

lemma srv_input_left: "srv_input env i w = P_go i' w' \<Longrightarrow> fds_left i' w' \<le> fds_left i w"
  by (auto simp: srv_input_def go_simps chand_new_fd_def split: if_splits list.splits)
    (auto simp: fds_left_def chand_log_def)

lemma buffers_ok_go: "buffers_ok line i w = P_go u w' \<Longrightarrow> w' = w"
  by (auto simp: buffers_ok_def go_simps p_assert_def split: if_splits)

lemma serve_fd_left:
  assumes "serve_fd env i w = P_go i' w'"
  shows "fds_left i' w' < fds_left i w"
proof -
  have step: "fds_left (i + 1) w < fds_left i w" for i w by (simp add: fds_left_def)
  obtain f where f: "fd_slot i w = Ret f" using assms by (auto simp: serve_fd_def go_simps dest: buffers_ok_go)
  define body where "body = (case cf_type f of
          ACHD_FD_CTRL_SRV \<Rightarrow> srv_input env i w
        | ACHD_FD_CTRL_CONN \<Rightarrow> p_then (conn_input env i w) (\<lambda>i w. p_then (conn_output i w) (\<lambda>_. conn_hangup i))
        | ACHD_FD_CTRL_BAD \<Rightarrow> P_go i (chand_log LOG_ERR (''bad fd type at index '' @ show_int i) w))"
  obtain k where k: "body = P_go k w'" "i' = k + 1"
    using assms f by (auto simp: serve_fd_def go_simps body_def dest!: buffers_ok_go)
  have "fds_left k w' \<le> fds_left i w"
    using k(1) unfolding body_def
    by (cases "cf_type f") (auto simp: p_then_go dest!: srv_input_left conn_input_left conn_output_left conn_hangup_left)
  then show ?thesis using step [of k w'] k(2) by simp
qed

function poll_fds :: "chand_env \<Rightarrow> int \<Rightarrow> chand \<Rightarrow> unit chand_act" where
  "poll_fds env i w =
     (if i < int (length (cd_fds w)) then p_then (serve_fd env i w) (poll_fds env) else P_go () w)"
  by pat_completeness auto
termination
  by (relation "measure (\<lambda>(env, i, w). nat (fds_left i w))")
    (auto dest!: serve_fd_left simp: fds_left_def)

declare poll_fds.simps [simp del]

section \<open>The program\<close>

definition chand_sighandler :: "int \<Rightarrow> chand \<Rightarrow> chand" where
  "chand_sighandler sig w =
     (if sig = SIGTERM \<or> sig = SIGINT then w\<lparr>cd_quit := True\<rparr>
      else chand_log LOG_ERR (''unknown singal: '' @ show_int sig) w)"

text \<open>
  A round of polling: the signals that arrive during the call, what it returns, whether its error is other
  than an interruption or a shortage, and the events it finds, for each index.
\<close>

record chand_round =
  rd_signals :: "int list"
  rd_ret :: int
  rd_failed :: bool
  rd_revents :: "nat \<Rightarrow> poll_bits"

definition set_revents :: "(nat \<Rightarrow> poll_bits) \<Rightarrow> chand \<Rightarrow> chand" where
  "set_revents revs w =
     w\<lparr>cd_fds := map (\<lambda>k. (cd_fds w ! k)\<lparr>cf_revents := revs k\<rparr>) [0..<length (cd_fds w)]\<rparr>"

fun poll_rounds :: "chand_env \<Rightarrow> chand_round list \<Rightarrow> chand \<Rightarrow> unit chand_act" where
  "poll_rounds env [] w = (if cd_quit w then P_go () w else P_block w)"
| "poll_rounds env (rd # rds) w =
     (if cd_quit w then P_go () w
      else let w = fold chand_sighandler (rd_signals rd) w
           in if rd_ret rd > 0
              then p_then (poll_fds env 0 (set_revents (rd_revents rd) w)) (\<lambda>_. poll_rounds env rds)
              else if rd_ret rd < 0 \<and> rd_failed rd
              then P_exit (-1) (chand_log LOG_EMERG ''poll failed'' w)
              else poll_rounds env rds w)"

definition run_io :: "chand_env \<Rightarrow> chand_round list \<Rightarrow> chand \<Rightarrow> unit chand_act" where
  "run_io env rds w =
     p_of (fd_slot 0 w) (\<lambda>f w. poll_rounds env rds (set_slot 0 (f\<lparr>cf_events := POLLIN\<rparr>) w)) w"

text \<open>What the calls of the initialisation return; \<open>unlink\<close> with the error it sets.\<close>

record chand_start =
  st_socket :: int
  st_unlink :: int
  st_errno :: errno
  st_bind :: int
  st_listen :: int
  st_sigterm :: int
  st_sigint :: int
  st_thread :: int

definition die :: "string \<Rightarrow> chand \<Rightarrow> 'a chand_act" where
  "die msg w = P_exit (-1) (chand_log LOG_EMERG msg w)"

definition chand_init :: "chand_start \<Rightarrow> chand \<Rightarrow> unit chand_act" where
  "chand_init st w =
     (let w = w\<lparr>cd_fds := [\<lparr>cf_fd = st_socket st, cf_events = 0, cf_revents = 0, cf_type = ACHD_FD_CTRL_SRV,
                           cf_in = [], cf_n_in = 0, cf_out = [], cf_n_out = 0\<rparr>]\<rparr>
      in if st_socket st < 0 then die ''socket failed'' w
         else if st_unlink st < 0 \<and> st_errno st \<noteq> ENOENT then die ''unlink failed'' w
         else if st_bind st < 0 then die ''bind failed'' w
         else if st_listen st < 0 then die ''listen failed'' w
         else if st_sigterm st \<noteq> 0 \<or> st_sigint st < 0 then die ''sigaction failed'' w
         else P_go () w)"

text \<open>
  The thread that \<open>main\<close> starts to wait on the channel computes a time for ever and does nothing with it;
  it ends with the program.
\<close>

definition chand_main :: "chand_env \<Rightarrow> chand_start \<Rightarrow> chand_round list \<Rightarrow> chand \<Rightarrow> int chand_act" where
  "chand_main env st rds w =
     p_then (chand_init st w) (\<lambda>_ w.
       if st_thread st \<noteq> 0 then P_exit (-1) w
       else p_then (run_io env rds w) (\<lambda>_. P_go 0))"

end
