(* ===== verification/Achchand_Replies.thy ===== *)
theory Achchand_Replies
  imports Achchand
begin

text \<open>
  What a client of \<^verbatim>\<open>achchand\<close> gets: the lines it sends are taken apart and answered one by one,
  however they arrive; and the clients the daemon does not survive.
\<close>

section \<open>Lines and replies\<close>

text \<open>The reply to a line, and the lines that keep a connection going.\<close>

definition reply :: "byte list \<Rightarrow> byte list" where
  "reply line =
     (case first_token line of
        None \<Rightarrow> []
      | Some tok \<Rightarrow>
          if same_word tok ''helo'' then ascii (''elho'' @ newline)
          else if same_word tok ''help'' then help_string
          else if same_word tok ''achnotify'' then []
          else ascii (''bad command'' @ newline))"

definition good_line :: "byte list \<Rightarrow> bool" where
  "good_line line \<longleftrightarrow>
     list_all printable line \<and>
     (case first_token line of None \<Rightarrow> False | Some tok \<Rightarrow> \<not> same_word tok ''quit'')"

definition end_line :: "byte list \<Rightarrow> byte list" where
  "end_line line = line @ [10]"

text \<open>What waits in the buffers of a connection.\<close>

definition waiting_in :: "chand_fd \<Rightarrow> byte list" where
  "waiting_in f = take (cf_n_in f) (cf_in f)"

definition waiting_out :: "chand_fd \<Rightarrow> byte list" where
  "waiting_out f = take (cf_n_out f) (cf_out f)"

definition conn_ok :: "chand_fd \<Rightarrow> bool" where
  "conn_ok f \<longleftrightarrow> cf_n_in f \<le> length (cf_in f) \<and> cf_n_out f \<le> length (cf_out f)"

text \<open>What stays the same of a connection while its input is looked at.\<close>

definition same_conn :: "chand_fd \<Rightarrow> chand_fd \<Rightarrow> bool" where
  "same_conn f f' \<longleftrightarrow> cf_fd f' = cf_fd f \<and> cf_type f' = cf_type f \<and> cf_revents f' = cf_revents f \<and>
     length (cf_out f') = length (cf_out f)"

lemma queue_fits:
  assumes "conn_ok f" "cf_n_out f + length str \<le> length (cf_out f)"
  shows "\<exists>f'. queue_output str f = Ret f' \<and> conn_ok f' \<and> same_conn f f' \<and> cf_in f' = cf_in f \<and> cf_n_in f' = cf_n_in f \<and>
           waiting_out f' = waiting_out f @ str"
  using assms by (simp add: queue_output_def outcome_simps conn_ok_def same_conn_def waiting_out_def Let_def)

text \<open>A line that is at the start of the input.\<close>

lemma process_line:
  assumes "conn_ok f" "good_line line" "take (length line + 1) (cf_in f) = line @ [0]"
    and "cf_n_out f + length (reply line) \<le> length (cf_out f)"
  shows "\<exists>f'. process_ctrl f = Ret (0, f') \<and> conn_ok f' \<and> same_conn f f' \<and> cf_in f' = cf_in f \<and> cf_n_in f' = cf_n_in f \<and>
           waiting_out f' = waiting_out f @ reply line"
proof -
  have p: "\<forall>c\<in>set line. printable c" and t: "first_token line \<noteq> None" using assms(2)
    by (auto simp: good_line_def list_all_iff split: option.splits)
  then obtain tok where tok: "first_token line = Some tok" "\<not> same_word tok ''quit''"
    using assms(2) by (auto simp: good_line_def split: option.splits)
  have "cf_in f = line @ 0 # drop (length line + 1) (cf_in f)"
    using assms(3) by (metis append.assoc append_Cons append_Nil append_take_drop_id)
  moreover have n: "c \<noteq> 0" "c \<noteq> 10" if "c \<in> set line" for c using p that by (auto simp: printable_def)
  ultimately have buf: "takeWhile (\<lambda>c. c \<noteq> 0) (cf_in f) = line"
    by (metis (mono_tags, lifting) takeWhile.simps(2) takeWhile_append2 append_Nil2)
  have "10 \<notin> set line" using n by auto
  moreover have "\<exists>f'. queue_output (reply line) f = Ret f' \<and> conn_ok f' \<and> same_conn f f' \<and> cf_in f' = cf_in f \<and>
      cf_n_in f' = cf_n_in f \<and> waiting_out f' = waiting_out f @ reply line"
    using queue_fits [OF assms(1,4)] .
  moreover have "same_conn f f" by (simp add: same_conn_def)
  ultimately show ?thesis using tok assms(1)
    by (auto simp: process_ctrl_def buf reply_def waiting_out_def Let_def outcome_simps)
qed

section \<open>Looking at the input\<close>

lemma scan_skip:
  assumes "j \<le> k" "k \<le> cf_n_in f" "\<forall>x. j \<le> x \<longrightarrow> x < k \<longrightarrow> printable (cf_in f ! x)"
  shows "ctrl_scan j f = ctrl_scan k f"
  using assms
proof (induction "k - j" arbitrary: j)
  case (Suc d)
  have p: "printable (cf_in f ! j)" "j < cf_n_in f" using Suc.hyps(2) Suc.prems by auto
  then have "ctrl_scan j f = ctrl_scan (j + 1) f"
    by (subst ctrl_scan.simps) (auto simp: printable_def Let_def)
  also have "\<dots> = ctrl_scan k f" using Suc by (intro Suc.hyps(1)) auto
  finally show ?case .
qed simp

lemma scan_end:
  assumes "conn_ok f" "list_all printable (waiting_in f)" "j \<le> cf_n_in f"
  shows "ctrl_scan j f = Ret (Scan_more, f)"
proof -
  have "printable (cf_in f ! x)" if "x < cf_n_in f" for x
    using assms(1,2) that by (auto simp: list_all_length waiting_in_def conn_ok_def)
  then have "ctrl_scan j f = ctrl_scan (cf_n_in f) f" using assms(3) by (intro scan_skip) auto
  then show ?thesis by (simp add: ctrl_scan.simps [of "cf_n_in f"])
qed

text \<open>The first line of the input: the scan goes on with what follows it.\<close>

lemma scan_line:
  assumes "conn_ok f" "good_line l" "waiting_in f = l @ 10 # rest" "j \<le> length l"
    and "cf_n_out f + length (reply l) \<le> length (cf_out f)"
  shows "\<exists>f'. ctrl_scan j f = ctrl_scan 0 f' \<and> conn_ok f' \<and> same_conn f f' \<and> waiting_in f' = rest \<and>
           waiting_out f' = waiting_out f @ reply l"
proof -
  let ?k = "length l"
  have n: "cf_n_in f \<le> length (cf_in f)" "cf_n_in f = ?k + 1 + length rest"
    using assms(1) arg_cong [OF assms(3), of length] by (simp_all add: conn_ok_def waiting_in_def)
  have w: "cf_in f ! x = (l @ 10 # rest) ! x" if "x < cf_n_in f" for x
    using assms(3) that by (metis nth_take waiting_in_def)
  have l: "list_all printable l" using assms(2) by (simp add: good_line_def)
  have at: "cf_in f ! ?k = 10" using w [of ?k] n(2) by simp
  let ?f1 = "f\<lparr>cf_in := (cf_in f)[?k := 0]\<rparr>"
  have "take (?k + 1) ((cf_in f)[?k := 0]) = l @ [0]"
    using n w by (intro nth_equalityI) (auto simp: nth_append nth_list_update)
  moreover have "conn_ok ?f1" using assms(1) by (simp add: conn_ok_def)
  ultimately obtain f2 where f2: "process_ctrl ?f1 = Ret (0, f2)" "conn_ok f2" "same_conn ?f1 f2"
      "cf_in f2 = (cf_in f)[?k := 0]" "cf_n_in f2 = cf_n_in f" "waiting_out f2 = waiting_out f @ reply l"
    using process_line [of ?f1 l] assms(2,5) by (auto simp: waiting_out_def)
  have "ctrl_scan j f = ctrl_scan ?k f"
    using assms(4) n l w by (intro scan_skip) (auto simp: nth_append list_all_length)
  also have "\<dots> = ctrl_scan 0 (drop_line ?k f2)"
    using n at f2(1) by (subst ctrl_scan.simps) (simp add: Let_def)
  finally have "ctrl_scan j f = ctrl_scan 0 (drop_line ?k f2)" .
  moreover have "waiting_in (drop_line ?k f2) = rest"
  proof -
    have "drop (?k + 1) (take (cf_n_in f) (cf_in f)) = rest" using assms(3) by (simp add: waiting_in_def)
    then have "take (length rest) (drop (?k + 1) (cf_in f)) = rest" using n(2) by (simp add: drop_take)
    then show ?thesis using n f2(4,5) by (simp add: waiting_in_def drop_line_def Let_def)
  qed
  moreover have "conn_ok (drop_line ?k f2)" using f2(2,4,5) n by (simp add: conn_ok_def drop_line_def Let_def)
  moreover have "same_conn f (drop_line ?k f2)" using f2(3) by (simp add: same_conn_def drop_line_def Let_def)
  moreover have "waiting_out (drop_line ?k f2) = waiting_out f @ reply l"
    using f2(6) by (simp add: waiting_out_def drop_line_def Let_def)
  ultimately show ?thesis by blast
qed

lemma same_conn_trans: "same_conn a b \<Longrightarrow> same_conn b c \<Longrightarrow> same_conn a c"
  by (simp add: same_conn_def)

lemma scan_lines:
  assumes "conn_ok f" "waiting_in f = concat (map end_line ls) @ rest" "\<forall>l\<in>set ls. good_line l" "list_all printable rest"
    and "j \<le> length (case ls of [] \<Rightarrow> rest | l # _ \<Rightarrow> l)"
    and "cf_n_out f + length (concat (map reply ls)) \<le> length (cf_out f)"
  shows "\<exists>f'. ctrl_scan j f = Ret (Scan_more, f') \<and> conn_ok f' \<and> same_conn f f' \<and> waiting_in f' = rest \<and>
           waiting_out f' = waiting_out f @ concat (map reply ls)"
  using assms
proof (induction ls arbitrary: f j)
  case Nil
  then have "j \<le> cf_n_in f" by (auto simp: waiting_in_def)
  with Nil scan_end [of f j] show ?case by (simp add: same_conn_def)
next
  case (Cons l ls)
  obtain f1 where f1: "ctrl_scan j f = ctrl_scan 0 f1" "conn_ok f1" "same_conn f f1"
      "waiting_in f1 = concat (map end_line ls) @ rest" "waiting_out f1 = waiting_out f @ reply l"
    using scan_line [of f l "concat (map end_line ls) @ rest" j] Cons.prems by (auto simp: end_line_def [of l])
  have "cf_n_out f1 = cf_n_out f + length (reply l)" "length (cf_out f1) = length (cf_out f)"
    using arg_cong [OF f1(5), of length] f1(2,3) Cons.prems(1) by (auto simp: waiting_out_def conn_ok_def same_conn_def)
  then obtain f2 where "ctrl_scan 0 f1 = Ret (Scan_more, f2)" "conn_ok f2" "same_conn f1 f2" "waiting_in f2 = rest"
      "waiting_out f2 = waiting_out f1 @ concat (map reply ls)"
    using Cons.IH [of f1 0] f1(2,4) Cons.prems(3,4,6) by (auto split: list.splits)
  with f1 same_conn_trans show ?case by fastforce
qed

section \<open>A client that sends lines\<close>

text \<open>
  What is promised of the function that reads: it keeps the bytes in front, reads at least one byte when
  it reports one, and puts what it read behind.
\<close>

primrec event_bytes :: "in_event \<Rightarrow> byte list" where
  "event_bytes (In_data bs) = bs"
| "event_bytes (In_err e) = []"

definition arriving :: "in_stream \<Rightarrow> byte list" where
  "arriving s = concat (map event_bytes s)"

definition reads_behind :: "chand_env \<Rightarrow> bool" where
  "reads_behind env \<longleftrightarrow>
     (\<forall>st n s r intr st' s'. aa_read_realloc env st n s = (r, intr, st', s') \<longrightarrow> n \<le> length st \<longrightarrow>
        n \<le> length st' \<and> take n st' = take n st \<and>
        (0 < r \<longrightarrow> n + nat r \<le> length st' \<and> arriving s = take (nat r) (drop n st') @ arriving s') \<and>
        (r \<le> 0 \<longrightarrow> arriving s' = arriving s))"

lemma good_line_no_newline: "good_line l \<Longrightarrow> list_all printable l"
  by (simp add: good_line_def)

lemma printable_10: "\<not> printable 10"
  by (simp add: printable_def)

text \<open>The beginning of lines: whole lines and the beginning of another.\<close>

lemma cut_lines:
  assumes "p @ q = concat (map end_line ls)" "\<forall>l\<in>set ls. good_line l"
  shows "\<exists>m rest. m \<le> length ls \<and> p = concat (map end_line (take m ls)) @ rest \<and>
           rest @ q = concat (map end_line (drop m ls)) \<and> list_all printable rest"
  using assms
proof (induction ls arbitrary: p)
  case Nil
  then show ?case by simp
next
  case (Cons l ls)
  let ?all = "concat (map end_line (l # ls))"
  show ?case
  proof (cases "length p \<le> length l")
    case True
    then have "p = take (length p) l" using Cons.prems(1) by (auto simp: append_eq_append_conv_if end_line_def)
    then have "list_all printable p"
      using Cons.prems(2) good_line_no_newline [of l] by (metis list.set_intros(1) list_all_append append_take_drop_id)
    then show ?thesis using Cons.prems(1) by (intro exI [of _ 0] exI [of _ p]) simp
  next
    case False
    have c: "p @ q = end_line l @ concat (map end_line ls)" using Cons.prems(1) by simp
    moreover have "length (end_line l) \<le> length p" using False by (simp add: end_line_def)
    ultimately have "take (length (end_line l)) p = end_line l" by (metis append_eq_append_conv_if take_all_iff append_eq_conv_conj take_append)
    then obtain p' where p: "p = end_line l @ p'" by (metis append_take_drop_id)
    with c Cons.IH [of p'] Cons.prems(2) obtain m rest where "m \<le> length ls" "p' = concat (map end_line (take m ls)) @ rest"
        "rest @ q = concat (map end_line (drop m ls))" "list_all printable rest" by auto
    with p show ?thesis by (intro exI [of _ "Suc m"] exI [of _ rest]) simp
  qed
qed

lemma first_line_length:
  assumes "p @ q = l @ 10 # r" "list_all printable p"
  shows "length p \<le> length l"
proof (rule ccontr)
  assume "\<not> length p \<le> length l"
  then have "p ! length l = 10" using arg_cong [OF assms(1), of "\<lambda>x. x ! length l"] by (simp add: nth_append)
  with \<open>\<not> length p \<le> length l\<close> assms(2) printable_10 show False by (metis list_all_length not_le)
qed

text \<open>
  The daemon with one client that has sent some of \<open>ls\<close>: \<open>k\<close> of them have been answered, the beginning of
  the next waits, and the replies have been sent or wait as well.
\<close>

definition talking :: "int \<Rightarrow> byte list list \<Rightarrow> nat \<Rightarrow> chand_fd \<Rightarrow> chand \<Rightarrow> bool" where
  "talking fd ls k f w \<longleftrightarrow>
     cf_fd f = fd \<and> cf_type f = ACHD_FD_CTRL_CONN \<and> conn_ok f \<and> 4000 \<le> length (cf_out f) \<and> k \<le> length ls \<and>
     list_all printable (waiting_in f) \<and> waiting_in f @ arriving (cd_input w fd) = concat (map end_line (drop k ls)) \<and>
     out_bytes (cd_output w fd) @ waiting_out f = concat (map reply (take k ls))"

definition with_client :: "int \<Rightarrow> byte list list \<Rightarrow> nat \<Rightarrow> chand \<Rightarrow> bool" where
  "with_client fd ls k w \<longleftrightarrow>
     (\<exists>srv f. cd_fds w = [srv, f] \<and> cf_type srv = ACHD_FD_CTRL_SRV \<and> conn_ok srv \<and> talking fd ls k f w) \<and> \<not> cd_quit w"

lemma take_replies_split:
  "k + m \<le> length ls \<Longrightarrow> concat (map reply (take (k + m) ls)) = concat (map reply (take k ls)) @ concat (map reply (take m (drop k ls)))"
  by (simp add: take_add)

lemma replies_bound: "length (concat (map reply (take k ls))) \<le> length (concat (map reply ls))"
proof -
  have "concat (map reply ls) = concat (map reply (take k ls)) @ concat (map reply (drop k ls))"
    by (metis append_take_drop_id concat_append map_append)
  then show ?thesis by simp
qed

text \<open>A read, and the look at what it brought.\<close>

lemma scan_talking:
  assumes "reads_behind env" "talking fd ls k f w" "\<forall>l\<in>set ls. good_line l" "length (concat (map reply ls)) \<le> 4000"
    and "aa_read_realloc env (cf_in f) (cf_n_in f) (cd_input w fd) = (s, intr, st, rest)" "0 < s"
  shows "\<exists>f' k'. ctrl_scan (cf_n_in f) (f\<lparr>cf_in := st, cf_n_in := cf_n_in f + nat s\<rparr>) = Ret (Scan_more, f') \<and> k \<le> k' \<and>
           cf_revents f' = cf_revents f \<and> talking fd ls k' f' (w\<lparr>cd_input := (cd_input w)(fd := rest)\<rparr>)"
proof -
  let ?f = "f\<lparr>cf_in := st, cf_n_in := cf_n_in f + nat s\<rparr>"
  have t: "conn_ok f" "4000 \<le> length (cf_out f)" "k \<le> length ls" "list_all printable (waiting_in f)"
    "waiting_in f @ arriving (cd_input w fd) = concat (map end_line (drop k ls))"
    "out_bytes (cd_output w fd) @ waiting_out f = concat (map reply (take k ls))"
    using assms(2) by (simp_all add: talking_def)
  have r: "cf_n_in f + nat s \<le> length st" "take (cf_n_in f) st = waiting_in f"
    "arriving (cd_input w fd) = take (nat s) (drop (cf_n_in f) st) @ arriving rest"
    using assms(1) [unfolded reads_behind_def, rule_format, OF assms(5)] assms(6) t(1) by (auto simp: conn_ok_def waiting_in_def)
  have f: "conn_ok ?f" using t(1) r(1) by (simp add: conn_ok_def)
  have new: "waiting_in ?f = waiting_in f @ take (nat s) (drop (cf_n_in f) st)" using r(2) by (simp add: waiting_in_def take_add)
  have good: "\<forall>l\<in>set (drop k ls). good_line l" using assms(3) by (meson in_set_dropD)
  obtain m tail where m: "m \<le> length (drop k ls)" "waiting_in ?f = concat (map end_line (take m (drop k ls))) @ tail"
      "tail @ arriving rest = concat (map end_line (drop m (drop k ls)))" "list_all printable tail"
    using cut_lines [of "waiting_in ?f" "arriving rest" "drop k ls"] good t(5) new r(3) by auto
  have "length (waiting_in f) = cf_n_in f" using t(1) by (simp add: waiting_in_def conn_ok_def)
  then have j: "cf_n_in f \<le> length (case take m (drop k ls) of [] \<Rightarrow> tail | l # _ \<Rightarrow> l)"
    using m(2) new first_line_length [of "waiting_in f" _ _ _, OF _ t(4)]
    by (cases "take m (drop k ls)") (auto simp: end_line_def dest: arg_cong [where f = length])
  have km: "k + m \<le> length ls" using m(1) t(3) by simp
  have "length (concat (map reply (take k ls))) + length (concat (map reply (take m (drop k ls)))) \<le> length (cf_out f)"
    using replies_bound [of "k + m" ls] take_replies_split [OF km] assms(4) t(2) by simp
  moreover have "cf_n_out f \<le> length (concat (map reply (take k ls)))"
    using arg_cong [OF t(6), of length] t(1) by (simp add: waiting_out_def conn_ok_def)
  ultimately have room: "cf_n_out ?f + length (concat (map reply (take m (drop k ls)))) \<le> length (cf_out ?f)" by simp
  have "\<forall>l\<in>set (take m (drop k ls)). good_line l" using good by (meson in_set_takeD)
  from scan_lines [OF f m(2) this m(4) j room]
  obtain f' where "ctrl_scan (cf_n_in f) ?f = Ret (Scan_more, f')" "conn_ok f'" "same_conn ?f f'" "waiting_in f' = tail"
      "waiting_out f' = waiting_out ?f @ concat (map reply (take m (drop k ls)))" by blast
  moreover have "waiting_out ?f = waiting_out f" by (simp add: waiting_out_def)
  ultimately show ?thesis using assms(2) m(3,4) km t(6) take_replies_split [OF km]
    by (intro exI [of _ f'] exI [of _ "k + m"]) (auto simp: talking_def same_conn_def add.commute)
qed

lemma conn_input_talking:
  assumes "reads_behind env" "talking fd ls k f w" "\<forall>l\<in>set ls. good_line l" "length (concat (map reply ls)) \<le> 4000"
    and "cd_fds w = [srv, f]"
  shows "\<exists>f' k' w'. conn_input env 1 w = P_go 1 w' \<and> cd_fds w' = [srv, f'] \<and> cd_quit w' = cd_quit w \<and> k \<le> k' \<and>
           cf_revents f' = cf_revents f \<and> talking fd ls k' f' w'"
proof -
  have sl: "fd_slot 1 w = Ret f" using assms(5) by (simp add: fd_slot_def)
  have fd: "cf_fd f = fd" "cf_n_in f \<le> length (cf_in f)" using assms(2) by (simp_all add: talking_def conn_ok_def)
  obtain s intr st rest where r: "aa_read_realloc env (cf_in f) (cf_n_in f) (cd_input w fd) = (s, intr, st, rest)"
    by (cases "aa_read_realloc env (cf_in f) (cf_n_in f) (cd_input w fd)")
  let ?w = "w\<lparr>cd_input := (cd_input w)(fd := rest)\<rparr>"
  consider "cf_revents f AND POLLIN = 0" | "cf_revents f AND POLLIN \<noteq> 0" "0 < s" | "cf_revents f AND POLLIN \<noteq> 0" "s \<le> 0"
    by linarith
  then show ?thesis
  proof cases
    case 1
    then show ?thesis using sl assms(2,5) by (intro exI [of _ f] exI [of _ k] exI [of _ w]) (simp add: conn_input_def p_of_def)
  next
    case 2
    obtain f' k' where c: "ctrl_scan (cf_n_in f) (f\<lparr>cf_in := st, cf_n_in := cf_n_in f + nat s\<rparr>) = Ret (Scan_more, f')" "k \<le> k'"
        "cf_revents f' = cf_revents f" "talking fd ls k' f' ?w"
      using scan_talking [OF assms(1-4) r 2(2)] by blast
    have "talking fd ls k' f' (set_slot 1 f' ?w)" using c(4) by (simp add: talking_def set_slot_def)
    moreover have "conn_input env 1 w = P_go 1 (set_slot 1 f' ?w)"
      using 2 sl r c(1) fd by (simp add: conn_input_def p_of_def Let_def)
    ultimately show ?thesis using c(2,3) assms(5)
      by (intro exI [of _ f'] exI [of _ k'] exI [of _ "set_slot 1 f' ?w"]) (simp add: set_slot_def)
  next
    case 3
    let ?f = "f\<lparr>cf_in := st\<rparr>"
    let ?w' = "if s < 0 \<and> \<not> intr then chand_log LOG_ERR ''read failed'' (set_slot 1 ?f ?w) else set_slot 1 ?f ?w"
    have b: "cf_n_in f \<le> length st" "take (cf_n_in f) st = take (cf_n_in f) (cf_in f)" "arriving rest = arriving (cd_input w fd)"
      using assms(1) [unfolded reads_behind_def, rule_format, OF r] fd(2) 3(2) by auto
    have "conn_input env 1 w = P_go 1 ?w'" using 3 sl r fd by (simp add: conn_input_def p_of_def Let_def)
    moreover have "talking fd ls k ?f ?w'"
      using assms(2) b by (simp add: talking_def conn_ok_def waiting_in_def waiting_out_def set_slot_def chand_log_def)
    ultimately show ?thesis using assms(5)
      by (intro exI [of _ ?f] exI [of _ k] exI [of _ ?w']) (simp add: set_slot_def chand_log_def)
  qed
qed

text \<open>Sending moves bytes from those that wait to those that were sent.\<close>

lemma conn_send_talking:
  assumes "talking fd ls k f w" "cf_n_out f \<noteq> 0"
  shows "\<exists>f' w'. conn_send f w = P_go f' w' \<and> talking fd ls k f' w' \<and> cd_fds w' = cd_fds w \<and> cd_quit w' = cd_quit w \<and>
           cf_revents f' = cf_revents f"
proof -
  have fd: "cf_fd f = fd" "cf_n_out f \<le> length (cf_out f)" using assms(1) by (simp_all add: talking_def conn_ok_def)
  obtain s out where s: "sys_write (waiting_out f) (cd_output w fd) = (s, out)" by force
  have out: "s < 0 \<and> out_bytes out = out_bytes (cd_output w fd) \<or>
      0 < s \<and> nat s \<le> cf_n_out f \<and> out_bytes out = out_bytes (cd_output w fd) @ take (nat s) (waiting_out f)"
    using s fd(2) assms(2) by (auto simp: sys_write_def waiting_out_def Let_def split: list.splits out_event.splits)
  let ?w = "w\<lparr>cd_output := (cd_output w)(fd := out)\<rparr>"
  let ?n = "cf_n_out f - nat s"
  let ?f = "f\<lparr>cf_out := take ?n (drop (nat s) (cf_out f)) @ drop ?n (cf_out f), cf_n_out := ?n\<rparr>"
  show ?thesis
  proof (cases "0 < s")
    case True
    then have o: "nat s \<le> cf_n_out f" "out_bytes out = out_bytes (cd_output w fd) @ take (nat s) (waiting_out f)" using out by auto
    have "conn_send f w = P_go ?f ?w"
      using s True o(1) fd(1) by (simp add: conn_send_def waiting_out_def p_assert_def Let_def)
    moreover have "waiting_out ?f = drop (nat s) (waiting_out f)" using fd(2) o(1) by (simp add: waiting_out_def drop_take)
    then have "talking fd ls k ?f ?w"
      using assms(1) o fd(2) by (simp add: talking_def conn_ok_def waiting_in_def)
    ultimately show ?thesis by (intro exI [of _ ?f] exI [of _ ?w]) simp
  next
    case False
    then have o: "s < 0" "out_bytes out = out_bytes (cd_output w fd)" using out by auto
    then show ?thesis using s fd(1) assms(1)
      by (simp add: conn_send_def waiting_out_def Let_def) (simp add: talking_def chand_log_def waiting_out_def)
  qed
qed

lemma conn_output_talking:
  assumes "talking fd ls k f w" "cd_fds w = [srv, f]"
  shows "\<exists>f' w'. conn_output 1 w = P_go () w' \<and> talking fd ls k f' w' \<and> cd_fds w' = [srv, f'] \<and> cd_quit w' = cd_quit w \<and>
           cf_revents f' = cf_revents f"
proof -
  have sl: "fd_slot 1 w = Ret f" using assms(2) by (simp add: fd_slot_def)
  show ?thesis
  proof (cases "cf_revents f AND POLLOUT = 0")
    case True
    then show ?thesis using sl assms by (intro exI [of _ f] exI [of _ w]) (simp add: conn_output_def p_of_def)
  next
    case False
    obtain f1 w1 where 1: "(if cf_n_out f \<noteq> 0 then conn_send f w else P_go f w) = P_go f1 w1" "talking fd ls k f1 w1"
        "cd_fds w1 = cd_fds w" "cd_quit w1 = cd_quit w" "cf_revents f1 = cf_revents f"
      using conn_send_talking [OF assms(1)] assms(1) by (cases "cf_n_out f = 0") auto
    let ?f = "if cf_n_out f1 = 0 then f1\<lparr>cf_events := cf_events f1 AND NOT POLLOUT\<rparr> else f1"
    have "conn_output 1 w = P_go () (set_slot 1 ?f w1)" using sl False 1(1) by (simp add: conn_output_def p_of_def Let_def)
    moreover have "talking fd ls k ?f (set_slot 1 ?f w1)"
      using 1(2) by (auto simp: talking_def set_slot_def conn_ok_def waiting_in_def waiting_out_def)
    ultimately show ?thesis using 1(3-5) assms(2)
      by (intro exI [of _ ?f] exI [of _ "set_slot 1 ?f w1"]) (simp add: set_slot_def)
  qed
qed

lemma buffers_ok_conn: "fd_slot i w = Ret f \<Longrightarrow> conn_ok f \<Longrightarrow> buffers_ok line i w = P_go () w"
  by (simp add: buffers_ok_def p_of_def p_assert_def conn_ok_def)

lemma serve_conn:
  assumes "reads_behind env" "talking fd ls k f w" "\<forall>l\<in>set ls. good_line l" "length (concat (map reply ls)) \<le> 4000"
    and "cd_fds w = [srv, f]" "cf_revents f AND (POLLHUP OR POLLERR OR POLLNVAL) = 0"
  shows "\<exists>f' k' w'. serve_fd env 1 w = P_go 2 w' \<and> cd_fds w' = [srv, f'] \<and> cd_quit w' = cd_quit w \<and> k \<le> k' \<and> talking fd ls k' f' w'"
proof -
  obtain f1 k1 w1 where 1: "conn_input env 1 w = P_go 1 w1" "cd_fds w1 = [srv, f1]" "cd_quit w1 = cd_quit w" "k \<le> k1"
      "cf_revents f1 = cf_revents f" "talking fd ls k1 f1 w1"
    using conn_input_talking [OF assms(1-5)] by blast
  obtain f2 w2 where 2: "conn_output 1 w1 = P_go () w2" "talking fd ls k1 f2 w2" "cd_fds w2 = [srv, f2]" "cd_quit w2 = cd_quit w1"
      "cf_revents f2 = cf_revents f1"
    using conn_output_talking [OF 1(6,2)] by blast
  have sl: "fd_slot 1 w = Ret f" "fd_slot 1 w2 = Ret f2" using assms(5) 2(3) by (simp_all add: fd_slot_def)
  have ok: "conn_ok f" "cf_type f = ACHD_FD_CTRL_CONN" "conn_ok f2" using assms(2) 2(2) by (simp_all add: talking_def)
  have "conn_hangup 1 w2 = P_go 1 w2" using sl(2) assms(6) 1(5) 2(5) by (simp add: conn_hangup_def p_of_def)
  then have "serve_fd env 1 w = P_go 2 w2"
    using sl ok 1(1) 2(1) by (simp add: serve_fd_def buffers_ok_conn p_of_def)
  then show ?thesis using 1(3,4) 2(2-4) by auto
qed

lemma serve_server:
  assumes "fd_slot 0 w = Ret srv" "cf_type srv = ACHD_FD_CTRL_SRV" "conn_ok srv" "cf_revents srv = 0"
  shows "serve_fd env 0 w = P_go 1 w"
  using assms by (simp add: serve_fd_def srv_input_def buffers_ok_conn p_of_def)

definition client_round :: "chand_round \<Rightarrow> bool" where
  "client_round rd \<longleftrightarrow>
     rd_signals rd = [] \<and> (rd_ret rd < 0 \<longrightarrow> \<not> rd_failed rd) \<and> rd_revents rd 0 = 0 \<and>
     rd_revents rd 1 AND (POLLHUP OR POLLERR OR POLLNVAL) = 0"

lemma poll_round_talking:
  assumes "reads_behind env" "with_client fd ls k w" "\<forall>l\<in>set ls. good_line l" "length (concat (map reply ls)) \<le> 4000"
    and "client_round rd"
  shows "\<exists>k' w'. poll_fds env 0 (set_revents (rd_revents rd) w) = P_go () w' \<and> with_client fd ls k' w' \<and> k \<le> k'"
proof -
  obtain srv f where w: "cd_fds w = [srv, f]" "cf_type srv = ACHD_FD_CTRL_SRV" "conn_ok srv" "talking fd ls k f w" "\<not> cd_quit w"
    using assms(2) by (auto simp: with_client_def)
  let ?srv = "srv\<lparr>cf_revents := rd_revents rd 0\<rparr>" and ?f = "f\<lparr>cf_revents := rd_revents rd 1\<rparr>"
  define w0 where "w0 = set_revents (rd_revents rd) w"
  have w0: "cd_fds w0 = [?srv, ?f]" "cd_quit w0 = cd_quit w" by (simp_all add: w0_def set_revents_def w(1) upt_rec)
  have h: "cf_revents ?f AND (POLLHUP OR POLLERR OR POLLNVAL) = 0" using assms(5) by (simp add: client_round_def)
  have t: "talking fd ls k ?f w0" using w(4) by (simp add: talking_def conn_ok_def waiting_in_def waiting_out_def w0_def set_revents_def)
  obtain f' k' w' where c: "serve_fd env 1 w0 = P_go 2 w'" "cd_fds w' = [?srv, f']" "cd_quit w' = cd_quit w0" "k \<le> k'"
      "talking fd ls k' f' w'"
    using serve_conn [OF assms(1) t assms(3,4) w0(1) h] by blast
  have "fd_slot 0 w0 = Ret ?srv" using w0(1) by (simp add: fd_slot_def)
  then have "serve_fd env 0 w0 = P_go 1 w0"
    using w(2,3) assms(5) serve_server [of w0 ?srv env] by (simp add: conn_ok_def client_round_def)
  then have "poll_fds env 0 w0 = P_go () w'"
    using c(1,2) w0(1) poll_fds.simps [of env 0 w0] poll_fds.simps [of env 1 w0] poll_fds.simps [of env 2 w'] by simp
  moreover have "with_client fd ls k' w'" using c(2,3,5) w(2,3,5) w0(2) by (simp add: with_client_def conn_ok_def)
  ultimately show ?thesis using c(4) by (auto simp: w0_def)
qed

lemma poll_rounds_talking:
  assumes "reads_behind env" "with_client fd ls k w" "\<forall>l\<in>set ls. good_line l" "length (concat (map reply ls)) \<le> 4000"
    and "list_all client_round rds"
  shows "\<exists>k' w'. poll_rounds env (rds @ later) w = poll_rounds env later w' \<and> with_client fd ls k' w' \<and> k \<le> k'"
  using assms(2,5)
proof (induction rds arbitrary: k w)
  case Nil
  then show ?case by auto
next
  case (Cons rd rds)
  have q: "\<not> cd_quit w" using Cons.prems(1) by (simp add: with_client_def)
  have rd: "client_round rd" "rd_signals rd = []" "rd_ret rd < 0 \<longrightarrow> \<not> rd_failed rd"
    using Cons.prems(2) by (simp_all add: client_round_def)
  obtain k1 w1 where 1: "poll_fds env 0 (set_revents (rd_revents rd) w) = P_go () w1" "with_client fd ls k1 w1" "k \<le> k1"
    using poll_round_talking [OF assms(1) Cons.prems(1) assms(3,4) rd(1)] by blast
  show ?case
  proof (cases "0 < rd_ret rd")
    case True
    then have "poll_rounds env ((rd # rds) @ later) w = poll_rounds env (rds @ later) w1" using q rd(2) 1(1) by simp
    then show ?thesis using Cons.IH [OF 1(2)] Cons.prems(2) 1(3) by (auto intro: le_trans)
  next
    case False
    then have "poll_rounds env ((rd # rds) @ later) w = poll_rounds env (rds @ later) w" using q rd(2,3) by auto
    then show ?thesis using Cons.IH [OF Cons.prems(1)] Cons.prems(2) by auto
  qed
qed

text \<open>The start, with the round in which the client is accepted.\<close>

definition start_ok :: "chand_start \<Rightarrow> bool" where
  "start_ok st \<longleftrightarrow>
     0 \<le> st_socket st \<and> (0 \<le> st_unlink st \<or> st_errno st = ENOENT) \<and> 0 \<le> st_bind st \<and> 0 \<le> st_listen st \<and>
     st_sigterm st = 0 \<and> 0 \<le> st_sigint st \<and> st_thread st = 0"

definition accept_round :: "chand_round \<Rightarrow> bool" where
  "accept_round rd \<longleftrightarrow> rd_signals rd = [] \<and> 0 < rd_ret rd \<and> rd_revents rd 0 = POLLIN"

lemma poll_bits_in: "POLLIN AND POLLIN \<noteq> 0" "POLLIN AND (POLLERR OR POLLHUP OR POLLNVAL OR POLLOUT) = 0"
  by (simp_all add: POLLIN_def POLLERR_def POLLHUP_def POLLNVAL_def POLLOUT_def)

lemma accept_client:
  assumes "cd_fds w = [srv]" "cf_type srv = ACHD_FD_CTRL_SRV" "conn_ok srv" "\<not> cd_quit w"
    and "accept_round rd" "cd_accepts w = fd # fds" "0 \<le> fd" "length (new_storage env 4000) = 4000"
    and "arriving (cd_input w fd) = concat (map end_line ls)" "out_bytes (cd_output w fd) = []"
  shows "\<exists>w'. poll_rounds env (rd # rds) w = poll_rounds env rds w' \<and> with_client fd ls 0 w'"
proof -
  let ?srv = "srv\<lparr>cf_revents := POLLIN\<rparr>"
  let ?f = "\<lparr>cf_fd = fd, cf_events = POLLIN, cf_revents = 0, cf_type = ACHD_FD_CTRL_CONN, cf_in = new_storage env 4000,
     cf_n_in = 0, cf_out = new_storage env 4000, cf_n_out = 0\<rparr>"
  define w0 where "w0 = set_revents (rd_revents rd) w"
  define w1 where "w1 = chand_new_fd env fd ACHD_FD_CTRL_CONN (w0\<lparr>cd_accepts := fds\<rparr>)"
  have w0: "w0 = w\<lparr>cd_fds := [?srv]\<rparr>" using assms(1,5) by (simp add: w0_def set_revents_def accept_round_def)
  have w1: "cd_fds w1 = [?srv, ?f]" "cd_input w1 = cd_input w" "cd_output w1 = cd_output w" "cd_quit w1 = cd_quit w"
    by (simp_all add: w1_def w0 chand_new_fd_def chand_log_def Let_def)
  have sl: "fd_slot 0 w0 = Ret ?srv" "fd_slot 0 w1 = Ret ?srv" "fd_slot 1 w1 = Ret ?f"
    using w1(1) by (simp_all add: fd_slot_def w0)
  have ok: "conn_ok ?srv" "conn_ok ?f" using assms(3) by (simp_all add: conn_ok_def)
  have "srv_input env 0 w0 = P_go 0 w1"
    using sl(1) assms(6,7) w0 poll_bits_in by (simp add: srv_input_def p_of_def w1_def)
  then have "serve_fd env 0 w0 = P_go 1 w1" using sl(1,2) ok(1) assms(2) by (simp add: serve_fd_def buffers_ok_conn p_of_def)
  moreover have "serve_fd env 1 w1 = P_go 2 w1"
    using sl(3) ok(2) by (simp add: serve_fd_def buffers_ok_conn conn_input_def conn_output_def conn_hangup_def p_of_def)
  ultimately have "poll_fds env 0 w0 = P_go () w1"
    using poll_fds.simps [of env 0 w0] poll_fds.simps [of env 1 w1] poll_fds.simps [of env 2 w1] w1(1) by (simp add: w0)
  then have "poll_rounds env (rd # rds) w = poll_rounds env rds w1"
    using assms(4,5) by (simp add: w0_def accept_round_def)
  moreover have "talking fd ls 0 ?f w1"
    using w1(2,3) ok(2) assms(8-10) by (simp add: talking_def waiting_in_def waiting_out_def)
  then have "with_client fd ls 0 w1" using w1(1,4) assms(2-4) by (simp add: with_client_def conn_ok_def)
  ultimately show ?thesis by blast
qed

section \<open>Properties\<close>

text \<open>
  C19. A client of the control socket.  The daemon starts, accepts a client, and runs for any number of
  rounds, whichever of input and output each of them finds possible, until it is told to terminate; the
  client sends lines of printable characters, each with a command other than \<^verbatim>\<open>quit\<close>, which arrive
  in pieces of any size, and whose replies fit the buffer.  Then the daemon returns zero, and for some
  number \<open>k\<close> of lines: what it has sent, with what waits to be sent, is the replies to the first \<open>k\<close> lines in
  order; what waits in its input, with what is still to arrive, is the other lines.  So no line is
  answered twice or cut, whatever function of the other library reads, as long as it puts the bytes it
  reports behind those that are there.
\<close>

theorem chand_replies:
  assumes "reads_behind env" "length (new_storage env 4000) = 4000" "start_ok st" "accept_round acc"
    and "list_all client_round rds" "SIGTERM \<in> set (rd_signals stop)" "rd_ret stop \<le> 0" "\<not> rd_failed stop"
    and "\<not> cd_quit w" "cd_accepts w = fd # fds" "0 \<le> fd"
    and "arriving (cd_input w fd) = concat (map end_line ls)" "out_bytes (cd_output w fd) = []"
    and "\<forall>l\<in>set ls. good_line l" "length (concat (map reply ls)) \<le> 4000"
  shows "\<exists>w' srv f k. chand_main env st (acc # rds @ [stop]) w = P_go 0 w' \<and> cd_fds w' = [srv, f] \<and> k \<le> length ls \<and>
           out_bytes (cd_output w' fd) @ waiting_out f = concat (map reply (take k ls)) \<and>
           waiting_in f @ arriving (cd_input w' fd) = concat (map end_line (drop k ls)) \<and> list_all printable (waiting_in f)"
proof -
  let ?srv = "\<lparr>cf_fd = st_socket st, cf_events = 0, cf_revents = 0, cf_type = ACHD_FD_CTRL_SRV,
     cf_in = [], cf_n_in = 0, cf_out = [], cf_n_out = 0\<rparr>"
  let ?w = "w\<lparr>cd_fds := [?srv\<lparr>cf_events := POLLIN\<rparr>]\<rparr>"
  have init: "chand_init st w = P_go () (w\<lparr>cd_fds := [?srv]\<rparr>)" using assms(3) by (auto simp: chand_init_def start_ok_def Let_def)
  have io: "run_io env rs (w\<lparr>cd_fds := [?srv]\<rparr>) = poll_rounds env rs ?w" for rs
    by (simp add: run_io_def p_of_def fd_slot_def set_slot_def)
  obtain w1 where 1: "poll_rounds env (acc # rds @ [stop]) ?w = poll_rounds env (rds @ [stop]) w1" "with_client fd ls 0 w1"
    using accept_client [of ?w "?srv\<lparr>cf_events := POLLIN\<rparr>" acc fd fds env ls "rds @ [stop]"] assms(2,4,9-13)
    by (auto simp: conn_ok_def)
  obtain k w2 where 2: "poll_rounds env (rds @ [stop]) w1 = poll_rounds env [stop] w2" "with_client fd ls k w2"
    using poll_rounds_talking [OF assms(1) 1(2) assms(14,15,5), of "[stop]"] by blast
  have same: "cd_fds (fold chand_sighandler ss v) = cd_fds v" "cd_input (fold chand_sighandler ss v) = cd_input v"
    "cd_output (fold chand_sighandler ss v) = cd_output v" "cd_quit (fold chand_sighandler ss v) = (cd_quit v \<or> SIGTERM \<in> set ss \<or> SIGINT \<in> set ss)"
    for ss v by (induction ss arbitrary: v) (auto simp: chand_sighandler_def chand_log_def)
  let ?w3 = "fold chand_sighandler (rd_signals stop) w2"
  have "poll_rounds env [stop] w2 = P_go () ?w3" using assms(6-8) 2(2) same(4) by (simp add: with_client_def)
  then have "chand_main env st (acc # rds @ [stop]) w = P_go 0 ?w3"
    using init io 1(1) 2(1) assms(3) by (simp add: chand_main_def start_ok_def)
  moreover obtain srv f where "cd_fds w2 = [srv, f]" "talking fd ls k f w2" using 2(2) by (auto simp: with_client_def)
  ultimately show ?thesis using same(1-3)
    by (intro exI [of _ ?w3] exI [of _ srv] exI [of _ f] exI [of _ k]) (simp add: talking_def)
qed

text \<open>
  A function that reads as \<open>read\<close> does, into storage that is made longer by what arrives; a client that
  says helo, in two pieces.
\<close>

definition demo_read :: "byte list \<Rightarrow> nat \<Rightarrow> in_stream \<Rightarrow> int \<times> bool \<times> byte list \<times> in_stream" where
  "demo_read st n s =
     (case s of
        [] \<Rightarrow> (0, False, st, [])
      | In_err e # s \<Rightarrow> (-1, e, st, s)
      | In_data bs # s \<Rightarrow> (int (length bs), False, take n st @ bs @ drop n st, s))"

definition demo_chand_env :: chand_env where
  "demo_chand_env = \<lparr>aa_read_realloc = demo_read, new_storage = (\<lambda>n. replicate n 0)\<rparr>"

definition demo_chand :: chand where
  "demo_chand = \<lparr>cd_fds = [], cd_quit = False, cd_log = [],
     cd_input = (\<lambda>_. [In_data [104, 101], In_data [108, 111, 10]]),
     cd_output = (\<lambda>_. \<lparr>out_events = [Out_accept 1], out_bytes = []\<rparr>),
     cd_accepts = [5], cd_closes = [], cd_closed = []\<rparr>"

definition demo_round :: "int list \<Rightarrow> int \<Rightarrow> poll_bits \<Rightarrow> poll_bits \<Rightarrow> chand_round" where
  "demo_round sigs r srv conn =
     \<lparr>rd_signals = sigs, rd_ret = r, rd_failed = False, rd_revents = (\<lambda>k. if k = 0 then srv else conn)\<rparr>"

definition demo_start :: chand_start where
  "demo_start = \<lparr>st_socket = 4, st_unlink = -1, st_errno = ENOENT, st_bind = 0, st_listen = 0,
     st_sigterm = 0, st_sigint = 0, st_thread = 0\<rparr>"

lemma demo_read_ok: "reads_behind demo_chand_env"
  by (auto simp: reads_behind_def demo_chand_env_def demo_read_def arriving_def split: list.splits in_event.splits)

theorem chand_replies_witness:
  "\<exists>w' srv f k. chand_main demo_chand_env demo_start
       (demo_round [] 1 POLLIN 0 # [demo_round [] 1 0 POLLIN, demo_round [] 1 0 POLLIN, demo_round [] 1 0 POLLOUT] @
        [demo_round [SIGTERM] (-1) 0 0]) demo_chand = P_go 0 w' \<and>
     cd_fds w' = [srv, f] \<and> k \<le> 1 \<and>
     out_bytes (cd_output w' 5) @ waiting_out f = concat (map reply (take k [[104, 101, 108, 111]]))"
proof -
  have e: "length (new_storage demo_chand_env 4000) = 4000" by (simp add: demo_chand_env_def)
  have s: "start_ok demo_start" by (simp add: start_ok_def demo_start_def)
  have r: "accept_round (demo_round [] 1 POLLIN 0)"
    "list_all client_round [demo_round [] 1 0 POLLIN, demo_round [] 1 0 POLLIN, demo_round [] 1 0 POLLOUT]"
    "SIGTERM \<in> set (rd_signals (demo_round [SIGTERM] (-1) 0 0))" "rd_ret (demo_round [SIGTERM] (-1) 0 0) \<le> 0"
    "\<not> rd_failed (demo_round [SIGTERM] (-1) 0 0)"
    by (simp_all add: accept_round_def client_round_def demo_round_def POLLIN_def POLLOUT_def POLLERR_def POLLHUP_def POLLNVAL_def)
  have w: "\<not> cd_quit demo_chand" "cd_accepts demo_chand = 5 # []" "0 \<le> (5 :: int)"
    "arriving (cd_input demo_chand 5) = concat (map end_line [[104, 101, 108, 111]])" "out_bytes (cd_output demo_chand 5) = []"
    by (simp_all add: demo_chand_def arriving_def end_line_def)
  have l: "\<forall>l\<in>set [[104, 101, 108, 111]]. good_line l" "length (concat (map reply [[104, 101, 108, 111]])) \<le> 4000"
    by (simp_all add: good_line_def reply_def first_token_def same_word_def to_lower_def ascii_def printable_def newline_def)
  have n: "length [[104, 101, 108, 111 :: byte]] = 1" by simp
  from chand_replies [OF demo_read_ok e s r w l, unfolded n] show ?thesis by blast
qed

section \<open>What the daemon does not survive\<close>

text \<open>
  An empty line: \<open>strtok\<close> finds no token, and its null pointer is compared with the commands.  A client
  that ends its lines with a carriage return and a newline sends one after every command.
\<close>

lemma empty_line_crashes:
  assumes "waiting_in f = c # rest" "c = 10 \<or> c = 13" "conn_ok f"
  shows "ctrl_scan 0 f = Fault Unmapped"
proof -
  have n: "0 < cf_n_in f" "0 < length (cf_in f)" using assms(1) by (cases "cf_n_in f"; cases "cf_in f"; simp add: waiting_in_def)+
  moreover from this obtain d where "cf_in f = c # d" using assms(1) by (cases "cf_in f") (auto simp: waiting_in_def take_Cons')
  ultimately show ?thesis using assms(2)
    by (subst ctrl_scan.simps) (auto simp: process_ctrl_def first_token_def outcome_simps Let_def)
qed

text \<open>A client that does not read: replies are counted although they do not fit, and the daemon aborts.\<close>

lemma unread_replies_abort:
  assumes "fd_slot i w = Ret f" "cf_n_in f \<le> length (cf_in f)" "length (cf_out f) < cf_n_out f"
  shows "serve_fd env i w = P_crash (Assert_failed 360) w"
  using assms by (simp add: serve_fd_def buffers_ok_def p_of_def p_assert_def)

lemma queue_overflows:
  assumes "cf_n_out f \<le> length (cf_out f)" "length (cf_out f) < cf_n_out f + length str"
  shows "\<exists>f'. queue_output str f = Ret f' \<and> length (cf_out f') < cf_n_out f'"
  using assms by (simp add: queue_output_def outcome_simps Let_def)

text \<open>The first client quits: the index is moved back and what follows is done to the server's socket.\<close>

lemma quit_then_server:
  assumes "cd_fds w = [srv, f]" "cf_revents srv AND POLLOUT = 0" "cf_revents srv AND (POLLHUP OR POLLERR OR POLLNVAL) \<noteq> 0"
    and "conn_input env 1 w = P_go 0 w1" "cd_fds w1 = [srv]" "conn_ok f" "cf_type f = ACHD_FD_CTRL_CONN"
  shows "\<exists>w'. serve_fd env 1 w = P_crash Out_of_bounds w'"
proof -
  have sl: "fd_slot 1 w = Ret f" "fd_slot 0 w1 = Ret srv" using assms(1,5) by (simp_all add: fd_slot_def)
  have "conn_output 0 w1 = P_go () w1" using sl(2) assms(2) by (simp add: conn_output_def p_of_def)
  moreover obtain w2 where "rm_fd 0 w1 = P_go () w2" "cd_fds w2 = []"
    using sl(2) assms(5) by (cases "close_retry (cd_closes w1)") (auto simp: rm_fd_def p_of_def chand_log_def Let_def)
  then have "conn_hangup 0 w1 = P_go (-1) w2" "buffers_ok 455 (-1) w2 = P_crash Out_of_bounds w2"
    using sl(2) assms(3) by (simp_all add: conn_hangup_def buffers_ok_def p_of_def fd_slot_def)
  ultimately show ?thesis using sl(1) assms(4,6,7) by (simp add: serve_fd_def buffers_ok_conn p_of_def)
qed

end
