(* ===== verification/Achbench.thy ===== *)
theory Achbench
  imports Ach_Tool Ach_Getopt Ach_CLib Ach_Binding
begin

text \<open>
  The benchmark \<^verbatim>\<open>src/ach-bench.c\<close>: processes that put the time into a channel or a pipe,
  processes that take it out and put the difference to the time of now into a second channel, and one
  that prints these.  The arithmetic on floating-point numbers is a parameter.
\<close>

section \<open>State\<close>

text \<open>
  Numbers of type \<open>double\<close>: arithmetic, comparison, the number that a string begins with, the conversion
  to \<open>size_t\<close> and to the four bytes of a \<open>float\<close>, and how such a \<open>float\<close> is printed in microseconds.
\<close>

record 'd fpu =
  fp_int :: "int \<Rightarrow> 'd"
  fp_add :: "'d \<Rightarrow> 'd \<Rightarrow> 'd"
  fp_sub :: "'d \<Rightarrow> 'd \<Rightarrow> 'd"
  fp_mul :: "'d \<Rightarrow> 'd \<Rightarrow> 'd"
  fp_div :: "'d \<Rightarrow> 'd \<Rightarrow> 'd"
  fp_less :: "'d \<Rightarrow> 'd \<Rightarrow> bool"
  fp_strtod :: "string \<Rightarrow> 'd"
  fp_size :: "'d \<Rightarrow> size_t"
  fp_float :: "'d \<Rightarrow> byte list"
  fp_show_us :: "byte list \<Rightarrow> string"

type_synonym ticks_t = "int \<times> int"

text \<open>
  The options, the handles, and what the process meets: the readings of its clock, how the calls that make
  it a real-time process end (they succeed when the list is used up), what \<open>fork\<close> returns, the pipe.  A
  list of readings or of results of \<open>fork\<close> that is used up is the end of what is known of the run, and the
  process counts as waiting.
\<close>

record 'd bench =
  FREQUENCY :: 'd
  SECS :: 'd
  RECV_RT :: size_t
  RECV_NRT :: size_t
  SEND_RT :: size_t
  PASS_NO_RT :: bool
  bn_overhead :: 'd
  bn_os :: os_state
  bn_build :: build_config
  bn_time_chan :: ach_channel_t
  bn_chan :: ach_channel_t
  bn_clock :: "ticks_t list"
  bn_rt :: "bool list"
  bn_forks :: "int list"
  bn_pipe :: int
  bn_pipe_in :: in_stream
  bn_pipe_out :: out_stream
  bn_err :: "string list"
  bn_out :: "string list"
  bn_signalled :: "int list"
  bn_waited :: "int list"

type_synonym ('a, 'd) bench_act = "('a, 'd bench) tool"

definition bn_say :: "string \<Rightarrow> 'd bench \<Rightarrow> 'd bench" where
  "bn_say msg w = w\<lparr>bn_err := bn_err w @ [msg]\<rparr>"

text \<open>A struct \<open>timespec\<close> in memory: two numbers of eight bytes, the lowest first.\<close>

definition le64 :: "int \<Rightarrow> byte list" where
  "le64 x = map (\<lambda>i. ucast (drop_bit (8 * i) (word_of_int x :: uint64))) [0..<8]"

definition of_le64 :: "byte list \<Rightarrow> int" where
  "of_le64 bs = sint (foldr (\<lambda>b x. push_bit 8 x OR ucast b) bs (0 :: uint64))"

definition ticks_bytes :: "ticks_t \<Rightarrow> byte list" where
  "ticks_bytes t = le64 (fst t) @ le64 (snd t)"

definition ticks_of :: "byte list \<Rightarrow> ticks_t" where
  "ticks_of bs = (of_le64 (take 8 bs), of_le64 (take 8 (drop 8 bs)))"

section \<open>Timing\<close>

definition get_ticks :: "'d bench \<Rightarrow> (ticks_t, 'd) bench_act" where
  "get_ticks w = (case bn_clock w of [] \<Rightarrow> P_block w | t # ts \<Rightarrow> P_go t (w\<lparr>bn_clock := ts\<rparr>))"

definition ticks_delta :: "'d fpu \<Rightarrow> ticks_t \<Rightarrow> ticks_t \<Rightarrow> 'd bench \<Rightarrow> 'd" where
  "ticks_delta fpu t0 t1 w =
     (let dsec = fp_sub fpu (fp_int fpu (fst t1)) (fp_int fpu (fst t0));
          dnsec = fp_div fpu (fp_sub fpu (fp_int fpu (snd t1)) (fp_int fpu (snd t0))) (fp_int fpu 1000000000)
      in fp_sub fpu (fp_add fpu dsec dnsec) (bn_overhead w))"

text \<open>A put into the channel behind a handle.\<close>

definition bn_put :: "ach_channel_t \<Rightarrow> byte list \<Rightarrow> 'd bench \<Rightarrow> (ach_status_t, 'd) bench_act" where
  "bn_put chan m w =
     p_of (chan_put 0 chan (Some m) (of_nat (length m)) (bn_os w)) (\<lambda>(r, os) w. P_go r (w\<lparr>bn_os := os\<rparr>)) w"

definition send_time :: "byte list \<Rightarrow> 'd bench \<Rightarrow> (unit, 'd) bench_act" where
  "send_time t w = p_then (bn_put (bn_time_chan w) t w) (\<lambda>r. p_assert 100 (ACH_OK = r))"

text \<open>Both calls may fail; without leave to go on the process ends.\<close>

definition rt_call :: "string \<Rightarrow> 'd bench \<Rightarrow> (unit, 'd) bench_act" where
  "rt_call msg w =
     (case bn_rt w of
        [] \<Rightarrow> P_go () w
      | ok # oks \<Rightarrow>
          let w = w\<lparr>bn_rt := oks\<rparr>
          in if ok then P_go () w
             else if PASS_NO_RT w then P_go () (bn_say msg w) else P_exit 1 (bn_say msg w))"

definition make_realtime :: "'d bench \<Rightarrow> (unit, 'd) bench_act" where
  "make_realtime w =
     p_then (rt_call ''Couldn't lock pages in memory'' w) (\<lambda>_. rt_call ''Couldn't set scheduling priority'')"

fun calibrate_loop :: "'d fpu \<Rightarrow> nat \<Rightarrow> 'd \<Rightarrow> 'd bench \<Rightarrow> ('d, 'd) bench_act" where
  "calibrate_loop fpu 0 a w = P_go a w"
| "calibrate_loop fpu (Suc n) a w =
     p_then (get_ticks w) (\<lambda>r0 w.
     p_then (get_ticks w) (\<lambda>r1 w.
     calibrate_loop fpu n (fp_add fpu a (ticks_delta fpu r0 r1 w)) w))"

definition calibrate :: "'d fpu \<Rightarrow> 'd bench \<Rightarrow> (unit, 'd) bench_act" where
  "calibrate fpu w =
     p_then (make_realtime w) (\<lambda>_ w.
     p_then (calibrate_loop fpu 1000 (fp_int fpu 0) (w\<lparr>bn_overhead := fp_int fpu 0\<rparr>)) (\<lambda>a w.
     P_go () (w\<lparr>bn_overhead := fp_div fpu a (fp_int fpu 1000)\<rparr>)))"

text \<open>Removing, creating and opening a channel, each with its assertion; the handle.\<close>

definition remake :: "nat \<times> nat \<times> nat \<Rightarrow> string \<Rightarrow> size_t \<Rightarrow> size_t \<Rightarrow> ach_channel_t \<Rightarrow> 'd bench \<Rightarrow> (ach_channel_t, 'd) bench_act" where
  "remake lines name n s chan w =
     (let (r, os) = ach_unlink name (bn_os w); w = w\<lparr>bn_os := os\<rparr>
      in p_then (p_assert (fst lines) (ACH_OK = r \<or> ACH_ENOENT = r) w) (\<lambda>_ w.
         p_of (ach_create (bn_build w) name n s None (bn_os w)) (\<lambda>(r, _, os) w.
         p_then (p_assert (fst (snd lines)) (ACH_OK = r) (w\<lparr>bn_os := os\<rparr>)) (\<lambda>_ w.
         p_of (ach_open chan name None (bn_os w)) (\<lambda>(r, chan, os) w.
         p_then (p_assert (snd (snd lines)) (ACH_OK = r) (w\<lparr>bn_os := os\<rparr>)) (\<lambda>_. P_go chan)) w)) w))"

definition init_time_chan :: "'d fpu \<Rightarrow> 'd bench \<Rightarrow> (unit, 'd) bench_act" where
  "init_time_chan fpu w =
     p_then (remake (138, 141, 145) ''time'' (fp_size fpu (FREQUENCY w) * fp_size fpu (SECS w) * RECV_RT w) 4 (bn_time_chan w) w)
       (\<lambda>chan w. P_go () (w\<lparr>bn_time_chan := chan\<rparr>))"

text \<open>
  The printing process.  Each round takes a turn: the block as it finds it, and what happens while it
  waits.  \<open>junk\<close> is what a variable holds that was not written.
\<close>

fun print_times :: "'d fpu \<Rightarrow> byte list \<times> size_t \<Rightarrow> (ach_header_t \<times> wake list) list \<Rightarrow> 'd bench \<Rightarrow> (unit, 'd) bench_act" where
  "print_times fpu junk [] w = P_block w"
| "print_times fpu junk ((shm, wakes) # turns) w =
     p_then (get_ticks w) (\<lambda>t w.
     p_of (ach_get 0 (bn_time_chan w) shm (fst junk) 4 (snd junk) (Some (fst t + 3, snd t)) ACH_O_WAIT wakes) (\<lambda>g w.
     let w = w\<lparr>bn_time_chan := g_chan g\<rparr>
     in if ACH_TIMEOUT = g_status g then P_go () w
        else p_then (p_assert 157 (ACH_OK = g_status g) w) (\<lambda>_ w.
             p_then (p_assert 158 (g_frame_size g = 4) w) (\<lambda>_ w.
             print_times fpu junk turns (w\<lparr>bn_out := bn_out w @ [fp_show_us fpu (take 4 (g_buf g))]\<rparr>)))) w)"

section \<open>Channels\<close>

text \<open>
  One time is put in each round, as long as the number of the round is below the product of the options.
  The pauses between the rounds only change what the clock shows.
\<close>

definition more_rounds :: "'d fpu \<Rightarrow> nat \<Rightarrow> 'd bench \<Rightarrow> bool" where
  "more_rounds fpu i w = fp_less fpu (fp_int fpu (int i)) (fp_mul fpu (SECS w) (FREQUENCY w))"

definition send_round :: "'d bench \<Rightarrow> (unit, 'd) bench_act" where
  "send_round w =
     p_then (get_ticks w) (\<lambda>t w.
     p_then (bn_put (bn_chan w) (ticks_bytes t) w) (\<lambda>r. p_assert 175 (ACH_OK = r)))"

lemma get_ticks_go: "get_ticks w = P_go t w' \<longleftrightarrow> (\<exists>ts. bn_clock w = t # ts \<and> w' = w\<lparr>bn_clock := ts\<rparr>)"
  by (cases "bn_clock w") (auto simp: get_ticks_def)

lemma bn_put_clock: "bn_put chan m w = P_go r w' \<Longrightarrow> bn_clock w' = bn_clock w"
  by (auto simp: bn_put_def go_simps)

lemma send_round_clock: "send_round w = P_go u w' \<Longrightarrow> length (bn_clock w') < length (bn_clock w)"
  by (auto simp: send_round_def go_simps get_ticks_go dest!: bn_put_clock)

function send_loop_ach :: "'d fpu \<Rightarrow> nat \<Rightarrow> 'd bench \<Rightarrow> (unit, 'd) bench_act" where
  "send_loop_ach fpu i w =
     (if more_rounds fpu i w then p_then (send_round w) (\<lambda>_. send_loop_ach fpu (i + 1)) else P_go () w)"
  by pat_completeness auto
termination
  by (relation "measure (\<lambda>(fpu, i, w). length (bn_clock w))") (auto dest: send_round_clock)

declare send_loop_ach.simps [simp del]

definition sender_ach :: "'d fpu \<Rightarrow> 'd bench \<Rightarrow> (unit, 'd) bench_act" where
  "sender_ach fpu w = p_then (make_realtime (bn_say ''sender'' w)) (\<lambda>_. send_loop_ach fpu 0)"

text \<open>The first five reads are not looked at.\<close>

fun skip_ach :: "nat \<Rightarrow> byte list \<times> size_t \<Rightarrow> (ach_header_t \<times> wake list) list \<Rightarrow> 'd bench \<Rightarrow>
   ((ach_header_t \<times> wake list) list, 'd) bench_act" where
  "skip_ach 0 junk turns w = P_go turns w"
| "skip_ach (Suc n) junk [] w = P_block w"
| "skip_ach (Suc n) junk ((shm, wakes) # turns) w =
     p_of (ach_get 0 (bn_chan w) shm (fst junk) 16 (snd junk) None (ACH_O_LAST OR ACH_O_WAIT) wakes)
       (\<lambda>g w. skip_ach n junk turns (w\<lparr>bn_chan := g_chan g\<rparr>)) w"

fun receive_loop_ach ::
  "'d fpu \<Rightarrow> bool \<Rightarrow> byte list \<times> size_t \<Rightarrow> (ach_header_t \<times> wake list) list \<Rightarrow> ticks_t \<Rightarrow> 'd bench \<Rightarrow> (unit, 'd) bench_act"
  where
  "receive_loop_ach fpu rt junk [] ticks w = P_block w"
| "receive_loop_ach fpu rt junk ((shm, wakes) # turns) ticks w =
     p_of (ach_get 0 (bn_chan w) shm (ticks_bytes ticks) 16 (snd junk) (Some (fst ticks + 1, snd ticks))
             (ACH_O_LAST OR ACH_O_WAIT) wakes) (\<lambda>g w.
     p_then (get_ticks (w\<lparr>bn_chan := g_chan g\<rparr>)) (\<lambda>now w.
     if ACH_TIMEOUT = g_status g then P_go () w
     else p_then (p_assert 202 (ACH_OK = g_status g \<or> 16 = g_frame_size g) w) (\<lambda>_ w.
          let ticks = ticks_of (g_buf g)
          in p_then (if rt then send_time (fp_float fpu (ticks_delta fpu ticks now w)) w else P_go () w) (\<lambda>_.
             receive_loop_ach fpu rt junk turns ticks)))) w"

definition receiver_ach ::
  "'d fpu \<Rightarrow> bool \<Rightarrow> byte list \<times> size_t \<Rightarrow> (ach_header_t \<times> wake list) list \<Rightarrow> 'd bench \<Rightarrow> (unit, 'd) bench_act" where
  "receiver_ach fpu rt junk turns w =
     p_then (make_realtime (bn_say ''receiver'' w)) (\<lambda>_ w.
     p_then (skip_ach 5 junk turns w) (\<lambda>turns w.
     p_then (get_ticks w) (receive_loop_ach fpu rt junk turns)))"

definition setup_ach :: "'d bench \<Rightarrow> (unit, 'd) bench_act" where
  "setup_ach w = p_then (remake (214, 216, 220) ''bench'' 10 256 (bn_chan w) w) (\<lambda>chan w. P_go () (w\<lparr>bn_chan := chan\<rparr>))"

definition destroy_ach :: "'d bench \<Rightarrow> (unit, 'd) bench_act" where
  "destroy_ach w =
     (let (r, os) = ach_unlink ''bench'' (bn_os w) in p_assert 225 (ACH_OK = r) (w\<lparr>bn_os := os\<rparr>))"

section \<open>Pipes\<close>

definition send_round_pipe :: "'d bench \<Rightarrow> (unit, 'd) bench_act" where
  "send_round_pipe w =
     p_then (get_ticks w) (\<lambda>t w.
     let (r, out) = sys_write (ticks_bytes t) (bn_pipe_out w)
     in p_assert 239 (16 = r) (w\<lparr>bn_pipe_out := out\<rparr>))"

lemma send_round_pipe_clock: "send_round_pipe w = P_go u w' \<Longrightarrow> length (bn_clock w') < length (bn_clock w)"
  by (auto simp: send_round_pipe_def go_simps get_ticks_go split_def)

function send_loop_pipe :: "'d fpu \<Rightarrow> nat \<Rightarrow> 'd bench \<Rightarrow> (unit, 'd) bench_act" where
  "send_loop_pipe fpu i w =
     (if more_rounds fpu i w then p_then (send_round_pipe w) (\<lambda>_. send_loop_pipe fpu (i + 1)) else P_go () w)"
  by pat_completeness auto
termination
  by (relation "measure (\<lambda>(fpu, i, w). length (bn_clock w))")
    (auto dest: send_round_pipe_clock)

declare send_loop_pipe.simps [simp del]

definition sender_pipe :: "'d fpu \<Rightarrow> 'd bench \<Rightarrow> (unit, 'd) bench_act" where
  "sender_pipe fpu w = p_then (make_realtime (bn_say ''sender'' w)) (\<lambda>_. send_loop_pipe fpu 0)"

definition read_ticks :: "'d bench \<Rightarrow> (ticks_t \<times> int, 'd) bench_act" where
  "read_ticks w =
     (case sys_read 16 (bn_pipe_in w) of (r, bs, s) \<Rightarrow> P_go (ticks_of bs, r) (w\<lparr>bn_pipe_in := s\<rparr>))"

fun skip_pipe :: "nat \<Rightarrow> 'd bench \<Rightarrow> (unit, 'd) bench_act" where
  "skip_pipe 0 w = P_go () w"
| "skip_pipe (Suc n) w =
     p_then (read_ticks w) (\<lambda>(_, r) w. p_then (p_assert 253 (16 = r) w) (\<lambda>_. skip_pipe n))"

definition receive_round_pipe :: "'d fpu \<Rightarrow> 'd bench \<Rightarrow> (unit, 'd) bench_act" where
  "receive_round_pipe fpu w =
     p_then (read_ticks w) (\<lambda>(ticks, r) w.
     p_then (get_ticks w) (\<lambda>now w.
     p_then (p_assert 260 (16 = r) w) (\<lambda>_ w.
     send_time (fp_float fpu (ticks_delta fpu ticks now w)) w)))"

lemma receive_round_pipe_clock: "receive_round_pipe fpu w = P_go u w' \<Longrightarrow> length (bn_clock w') < length (bn_clock w)"
  by (cases "sys_read 16 (bn_pipe_in w)")
    (auto simp: receive_round_pipe_def read_ticks_def send_time_def go_simps get_ticks_go dest!: bn_put_clock)

text \<open>The loop has no end of its own: the process is killed.\<close>

function receive_loop_pipe :: "'d fpu \<Rightarrow> 'd bench \<Rightarrow> (unit, 'd) bench_act" where
  "receive_loop_pipe fpu w = p_then (receive_round_pipe fpu w) (\<lambda>_. receive_loop_pipe fpu)"
  by pat_completeness auto
termination
  by (relation "measure (\<lambda>(fpu, w). length (bn_clock w))") (auto dest: receive_round_pipe_clock)

declare receive_loop_pipe.simps [simp del]

definition receiver_pipe :: "'d fpu \<Rightarrow> bool \<Rightarrow> 'd bench \<Rightarrow> (unit, 'd) bench_act" where
  "receiver_pipe fpu rt w =
     p_then (make_realtime (bn_say ''receiver'' w)) (\<lambda>_ w.
     p_then (skip_pipe 5 w) (\<lambda>_. receive_loop_pipe fpu))"

definition setup_pipe :: "'d bench \<Rightarrow> (unit, 'd) bench_act" where
  "setup_pipe w = p_assert 268 (bn_pipe w = 0) w"

section \<open>The program\<close>

datatype vtab = Vtab_ach | Vtab_pipe

text \<open>What the processes find while they run: for the channel of times and for the other.\<close>

record bench_turns =
  tn_junk :: "byte list \<times> size_t"
  tn_times :: "(ach_header_t \<times> wake list) list"
  tn_bench :: "(ach_header_t \<times> wake list) list"

definition vt_sender :: "vtab \<Rightarrow> 'd fpu \<Rightarrow> 'd bench \<Rightarrow> (unit, 'd) bench_act" where
  "vt_sender vt fpu = (case vt of Vtab_ach \<Rightarrow> sender_ach fpu | Vtab_pipe \<Rightarrow> sender_pipe fpu)"

definition vt_receiver :: "vtab \<Rightarrow> 'd fpu \<Rightarrow> bench_turns \<Rightarrow> bool \<Rightarrow> 'd bench \<Rightarrow> (unit, 'd) bench_act" where
  "vt_receiver vt fpu tn rt =
     (case vt of Vtab_ach \<Rightarrow> receiver_ach fpu rt (tn_junk tn) (tn_bench tn) | Vtab_pipe \<Rightarrow> receiver_pipe fpu rt)"

definition vt_setup :: "vtab \<Rightarrow> 'd bench \<Rightarrow> (unit, 'd) bench_act" where
  "vt_setup vt = (case vt of Vtab_ach \<Rightarrow> setup_ach | Vtab_pipe \<Rightarrow> setup_pipe)"

definition vt_destroy :: "vtab \<Rightarrow> 'd bench \<Rightarrow> (unit, 'd) bench_act" where
  "vt_destroy vt = (case vt of Vtab_ach \<Rightarrow> destroy_ach | Vtab_pipe \<Rightarrow> P_go ())"

text \<open>A \<open>fork\<close> with its assertion; the child does its work and exits, the parent goes on with the pid.\<close>

definition bn_fork :: "nat \<Rightarrow> ('d bench \<Rightarrow> (unit, 'd) bench_act) \<Rightarrow> 'd bench \<Rightarrow> (int, 'd) bench_act" where
  "bn_fork line child w =
     (case bn_forks w of
        [] \<Rightarrow> P_block w
      | pid # pids \<Rightarrow>
          let w = w\<lparr>bn_forks := pids\<rparr>
          in p_then (p_assert line (0 \<le> pid) w) (\<lambda>_ w.
             if 0 = pid then p_then (child w) (\<lambda>_. P_exit 0) else P_go pid w))"

fun bn_forks_n :: "nat \<Rightarrow> nat \<Rightarrow> ('d bench \<Rightarrow> (unit, 'd) bench_act) \<Rightarrow> 'd bench \<Rightarrow> (int list, 'd) bench_act" where
  "bn_forks_n line 0 child w = P_go [] w"
| "bn_forks_n line (Suc n) child w =
     p_then (bn_fork line child w) (\<lambda>pid w.
     p_then (bn_forks_n line n child w) (\<lambda>pids. P_go (pid # pids)))"

definition bn_wait :: "int \<Rightarrow> 'd bench \<Rightarrow> 'd bench" where
  "bn_wait pid w = w\<lparr>bn_waited := bn_waited w @ [pid]\<rparr>"

definition bn_wait_receiver :: "vtab \<Rightarrow> int \<Rightarrow> 'd bench \<Rightarrow> 'd bench" where
  "bn_wait_receiver vt pid w =
     bn_wait pid (if vt = Vtab_pipe then w\<lparr>bn_signalled := bn_signalled w @ [pid]\<rparr> else w)"

fun warm_up :: "nat \<Rightarrow> 'd bench \<Rightarrow> (unit, 'd) bench_act" where
  "warm_up 0 w = P_go () w"
| "warm_up (Suc n) w = p_then (get_ticks w) (\<lambda>_. warm_up n)"

definition bench_optstring :: string where "bench_optstring = ''f:s:p:r:l:gPhH?V''"

text \<open>An option; \<open>endptr\<close> is set whatever the argument is, so that its assertion says nothing.\<close>

definition bench_option :: "'d fpu \<Rightarrow> opt_call \<Rightarrow> vtab \<Rightarrow> 'd bench \<Rightarrow> (vtab, 'd) bench_act" where
  "bench_option fpu oc vt w =
     (case oc of
        (x, Some arg) \<Rightarrow>
          if x = CHR ''f'' then P_go vt (w\<lparr>FREQUENCY := fp_strtod fpu arg\<rparr>)
          else if x = CHR ''s'' then P_go vt (w\<lparr>SECS := fp_strtod fpu arg\<rparr>)
          else if x = CHR ''p''
          then let n = word_of_int (atoi arg)
               in p_then (p_assert 316 (n \<noteq> 0) (w\<lparr>SEND_RT := n\<rparr>)) (\<lambda>_. P_go vt)
          else if x = CHR ''r'' then P_go vt (w\<lparr>RECV_RT := word_of_int (atoi arg)\<rparr>)
          else if x = CHR ''l'' then P_go vt (w\<lparr>RECV_NRT := word_of_int (atoi arg)\<rparr>)
          else P_exit EXIT_SUCCESS w
      | (x, None) \<Rightarrow>
          if x = CHR ''g'' then P_go vt (w\<lparr>PASS_NO_RT := True\<rparr>)
          else if x = CHR ''P'' then P_go Vtab_pipe w
          else P_exit EXIT_SUCCESS w)"

fun bench_options :: "'d fpu \<Rightarrow> opt_call list \<Rightarrow> vtab \<Rightarrow> 'd bench \<Rightarrow> (vtab, 'd) bench_act" where
  "bench_options fpu [] vt w = P_go vt w"
| "bench_options fpu (oc # ocs) vt w = p_then (bench_option fpu oc vt w) (bench_options fpu ocs)"

text \<open>
  The whole program.  The messages about the options and the overhead are left out, and the list of
  \<open>bn_forks\<close> decides whether this is the first process or one of its children.
\<close>

definition bench_main :: "'d fpu \<Rightarrow> bench_turns \<Rightarrow> string list \<Rightarrow> 'd bench \<Rightarrow> (unit, 'd) bench_act" where
  "bench_main fpu tn args w =
     p_then (bench_options fpu (fst (getopt_all bench_optstring args)) Vtab_ach w) (\<lambda>vt w.
     p_then (init_time_chan fpu w) (\<lambda>_ w.
     p_then (vt_setup vt w) (\<lambda>_ w.
     p_then (bn_fork 370 (print_times fpu (tn_junk tn) (tn_times tn)) w) (\<lambda>pid_print w.
     p_then (warm_up 10 w) (\<lambda>_ w.
     p_then (calibrate fpu w) (\<lambda>_ w.
     p_then (bn_forks_n 389 (unat (RECV_NRT w)) (vt_receiver vt fpu tn False) w) (\<lambda>nrt w.
     p_then (bn_forks_n 398 (unat (RECV_NRT w + RECV_RT w) - unat (RECV_NRT w)) (vt_receiver vt fpu tn True) w) (\<lambda>rt w.
     p_then (bn_forks_n 409 (unat (SEND_RT w)) (vt_sender vt fpu) w) (\<lambda>senders w.
     let w = fold bn_wait senders w; w = bn_wait pid_print w;
         w = fold (bn_wait_receiver vt) (take (unat (RECV_RT w + RECV_NRT w)) (nrt @ rt)) w
     in p_then (vt_destroy vt w) (\<lambda>_. P_exit 0))))))))))"

section \<open>Facts\<close>

text \<open>A system in which no call fails and whatever is new is unused.\<close>

definition roomy :: "os_state \<Rightarrow> bool" where
  "roomy os \<longleftrightarrow>
     os_script os = [] \<and> 0 \<le> os_fresh_fd os \<and> (\<forall>d\<ge>os_fresh_fd os. os_fds os d = None) \<and>
     (\<forall>k\<ge>os_fresh_id os. os_objects os k = None)"

lemma roomy_quiet: "roomy os \<Longrightarrow> quiet os"
  by (simp add: roomy_def quiet_def)

text \<open>A handle that may be written to, and one that may also be read from.\<close>

definition on_block :: "ach_channel_t \<Rightarrow> nat \<Rightarrow> ach_header_t \<Rightarrow> os_state \<Rightarrow> bool" where
  "on_block chan k shm os \<longleftrightarrow> ch_shm chan = Some k \<and> block_at os k = Some shm \<and> at_rest shm"

lemma unlink_first:
  assumes "roomy os" "channel_name_ok name"
  shows "\<exists>r os'. ach_unlink name os = (r, os') \<and> (ACH_OK = r \<or> ACH_ENOENT = r) \<and> roomy os' \<and>
           os_dir os' = (os_dir os)(shm_file name := None) \<and> os_objects os' = os_objects os \<and>
           os_fresh_id os' = os_fresh_id os"
proof (cases "os_dir os (shm_file name)")
  case None
  then have "(os_dir os)(shm_file name := None) = os_dir os" by (simp add: fun_upd_idem)
  with None assms show ?thesis
    by (simp add: roomy_def ach_unlink_def shmfile_ok shm_unlink_def sys_fail_def check_errno_def)
next
  case (Some k)
  with assms ach_unlink_exists [of os name k] show ?thesis by (simp add: roomy_def)
qed

lemma remake_ok:
  assumes "roomy (bn_os w)" "channel_name_ok name" "sizes_ok n s" "1 < unat n" "full_len n s \<le> page_round (body_len n s)"
  defines "k \<equiv> os_fresh_id (bn_os w)"
  shows "\<exists>chan' os'. remake lines name n s chan w = P_go chan' (w\<lparr>bn_os := os'\<rparr>) \<and> roomy os' \<and>
           on_block chan' k (fresh_block name n s) os' \<and> chan_ok chan' (fresh_block name n s) \<and>
           cseq chan' = 0 \<and> \<not> ch_cancel chan' \<and> os_dir os' = (os_dir (bn_os w))(shm_file name := Some k) \<and>
           k < os_fresh_id os' \<and> (\<forall>j<k. os_objects os' j = os_objects (bn_os w) j)"
proof -
  obtain r os where u: "ach_unlink name (bn_os w) = (r, os)" "ACH_OK = r \<or> ACH_ENOENT = r" "roomy os"
      "os_dir os = (os_dir (bn_os w))(shm_file name := None)" "os_objects os = os_objects (bn_os w)" "os_fresh_id os = k"
    using unlink_first [OF assms(1,2)] by (auto simp: k_def)
  let ?b = "fresh_block name n s"
  have c: "ach_create (bn_build w) name n s None os = Ret (ACH_OK, None, after_create os name n s)"
    using u(4) by (intro ach_create_quiet roomy_quiet u(3) assms(2,3)) (simp_all add: plain_None)
  obtain chan' now where o: "ach_open chan name None (after_create os name n s) = Ret (ACH_OK, chan', now)"
      "opened_on os name n s chan' ?b now" "cseq chan' = 0"
    using opened_on_open [OF roomy_quiet [OF u(3)] assms(2-5)] by blast
  have now: "now = reopened os name n s"
    using o(1) ach_open_created [OF roomy_quiet [OF u(3)] assms(2,3), of chan] assms(5) by (simp add: reopened_def)
  have "remake lines name n s chan w = P_go chan' (w\<lparr>bn_os := now\<rparr>)"
    using u(1,2) c o(1) by (auto simp: remake_def p_of_def p_assert_def)
  moreover have "roomy now" using u(3) by (simp add: now reopened_def after_create_def roomy_def)
  moreover have "on_block chan' k ?b now" "chan_ok chan' ?b" "\<not> ch_cancel chan'"
    using o(2) u(6) by (simp_all add: on_block_def opened_on_def)
  moreover have "os_dir now = (os_dir (bn_os w))(shm_file name := Some k)" "k < os_fresh_id now"
    "\<forall>j<k. os_objects now j = os_objects (bn_os w) j"
    using u(4-6) by (simp_all add: now reopened_def after_create_def)
  ultimately show ?thesis using o(3) by blast
qed

text \<open>A put through such a handle; other blocks stay as they are.\<close>

lemma bn_put_stores:
  assumes "on_block chan k shm (bn_os w)" "m \<noteq> []" "length m \<le> dsize shm" "lseq shm + 1 < 2 ^ 64"
  shows "\<exists>shm' os'. bn_put chan m w = P_go ACH_OK (w\<lparr>bn_os := os'\<rparr>) \<and> stores shm m shm' \<and> on_block chan k shm' os' \<and>
           (\<forall>j. j \<noteq> k \<longrightarrow> block_at os' j = block_at (bn_os w) j) \<and> os_dir os' = os_dir (bn_os w) \<and> os_script os' = os_script (bn_os w)"
proof -
  have a: "ch_shm chan = Some k" "block_at (bn_os w) k = Some shm" "at_rest shm" using assms(1) by (simp_all add: on_block_def)
  obtain shm' where p: "ach_put 0 chan shm (Some m) (of_nat (length m)) = Ret (ACH_OK, shm')" "stores shm m shm'"
    using put_stores [OF a(3) assms(2-4), of chan 0] a(1) by auto
  let ?os = "set_block k shm' (bn_os w)"
  have "bn_put chan m w = P_go ACH_OK (w\<lparr>bn_os := ?os\<rparr>)" using a p(1) chan_put_block [of chan "bn_os w" k shm]
    by (simp add: bn_put_def p_of_def chan_block_def)
  moreover have "on_block chan k shm' ?os" using a p(2) by (simp add: on_block_def block_at_set_block stores_def)
  moreover have "\<forall>j. j \<noteq> k \<longrightarrow> block_at ?os j = block_at (bn_os w) j" "os_dir ?os = os_dir (bn_os w)"
    "os_script ?os = os_script (bn_os w)"
    by (auto simp: set_block_def block_at_def split: option.splits)
  ultimately show ?thesis using p(2) by blast
qed

text \<open>The bytes of a time, and back.\<close>

lemma byte_split: "push_bit 8 (drop_bit 8 x) OR ucast (ucast x :: byte) = (x :: uint64)"
proof (rule bit_word_eqI)
  fix n :: nat
  assume "n < LENGTH(64)"
  then show "bit (push_bit 8 (drop_bit 8 x) OR ucast (ucast x :: byte)) n = bit x n"
    by (cases "n < 8") (auto simp: bit_simps)
qed

lemma join_bytes:
  "foldr (\<lambda>b x. push_bit 8 x OR ucast b) (map (\<lambda>i. ucast (drop_bit (8 * i) w) :: byte) [m..<m + n]) (0 :: uint64) =
     drop_bit (8 * m) (take_bit (8 * (m + n)) w)"
proof (induction n arbitrary: m)
  case 0
  then show ?case by (simp add: drop_bit_take_bit)
next
  case (Suc n)
  have "[m..<m + Suc n] = m # [Suc m..<Suc m + n]" by (simp add: upt_rec)
  moreover have "drop_bit 8 (drop_bit (8 * m) v) = drop_bit (8 * Suc m) v" for v :: uint64
    by (simp add: drop_bit_drop_bit add.commute)
  moreover have "ucast (drop_bit (8 * m) (take_bit (8 * (m + Suc n)) w)) = (ucast (drop_bit (8 * m) w) :: byte)"
    by (rule bit_word_eqI) (auto simp: bit_simps)
  ultimately show ?case
    using Suc.IH [of "Suc m"] byte_split [of "drop_bit (8 * m) (take_bit (8 * (m + Suc n)) w)"] by (simp add: add.commute)
qed

lemma of_le64_le64: "- (2 ^ 63) \<le> x \<Longrightarrow> x < 2 ^ 63 \<Longrightarrow> of_le64 (le64 x) = x"
proof -
  assume x: "- (2 ^ 63) \<le> x" "x < 2 ^ 63"
  have "foldr (\<lambda>b v. push_bit 8 v OR ucast b) (le64 x) (0 :: uint64) = word_of_int x"
    using join_bytes [of "word_of_int x" 0 8] take_bit_length_eq [of "word_of_int x :: uint64"] by (simp add: le64_def)
  then show ?thesis using x by (simp add: of_le64_def sint_sbintrunc' signed_take_bit_int_eq_self)
qed

definition real_time :: "ticks_t \<Rightarrow> bool" where
  "real_time t \<longleftrightarrow> - (2 ^ 63) \<le> fst t \<and> fst t < 2 ^ 63 \<and> - (2 ^ 63) \<le> snd t \<and> snd t < 2 ^ 63"

lemma length_ticks [simp]: "length (ticks_bytes t) = 16"
  by (simp add: ticks_bytes_def le64_def)

lemma ticks_of_bytes: "real_time t \<Longrightarrow> ticks_of (ticks_bytes t) = t"
  by (cases t) (simp add: real_time_def ticks_of_def ticks_bytes_def of_le64_le64 le64_def [THEN arg_cong, of length])

text \<open>
  The rounds of a sender, a number of them, and the block that they leave: the block of the channel
  after the first \<open>c\<close> rounds of \<open>sender_ach\<close>, which is what another process finds there at that moment.
\<close>

fun send_rounds :: "nat \<Rightarrow> 'd bench \<Rightarrow> (unit, 'd) bench_act" where
  "send_rounds 0 w = P_go () w"
| "send_rounds (Suc c) w = p_then (send_round w) (\<lambda>_. send_rounds c)"

definition sent_block :: "nat \<Rightarrow> 'd bench \<Rightarrow> nat \<Rightarrow> ach_header_t option" where
  "sent_block k w c =
     (case p_then (make_realtime (bn_say ''sender'' w)) (\<lambda>_. send_rounds c) of
        P_go _ w' \<Rightarrow> block_at (bn_os w') k
      | _ \<Rightarrow> None)"

text \<open>
  What a receiver meets when its reads see the first \<open>c\<close> rounds of the sender for each \<open>c\<close> of a list in
  turn: a block with news, or the block it has seen and a wake-up that brings the news.  After them a read
  finds nothing new and runs out of time.
\<close>

definition finds :: "(nat \<Rightarrow> ach_header_t option) \<Rightarrow> nat \<Rightarrow> nat \<Rightarrow> ach_header_t \<Rightarrow> wake list \<Rightarrow> bool" where
  "finds blk p c shm wakes \<longleftrightarrow>
     p < c \<and> (case wakes of
       [] \<Rightarrow> blk c = Some shm
     | v # vs \<Rightarrow> blk p = Some shm \<and> blk c = Some (wake_shm v) \<and> wake_ret v = EOK \<and> \<not> wake_cancel v)"

fun schedule :: "(nat \<Rightarrow> ach_header_t option) \<Rightarrow> nat \<Rightarrow> nat list \<Rightarrow> (ach_header_t \<times> wake list) list \<Rightarrow> bool" where
  "schedule blk p cs [] = False"
| "schedule blk p [] ((shm, wakes) # turns) =
     (blk p = Some shm \<and> (case wakes of [] \<Rightarrow> False | v # vs \<Rightarrow> wake_ret v = ETIMEDOUT \<and> \<not> wake_cancel v))"
| "schedule blk p (c # cs) ((shm, wakes) # turns) = (finds blk p c shm wakes \<and> schedule blk c cs turns)"

lemma schedule_length:
  "schedule blk p cs turns \<Longrightarrow> \<forall>c\<in>set cs. c \<le> N \<Longrightarrow> p \<le> N \<Longrightarrow> p + length cs \<le> N"
  by (induction blk p cs turns rule: schedule.induct) (auto simp: finds_def)

lemma send_round_puts:
  assumes "bn_clock w = t # rest" "on_block (bn_chan w) k shm (bn_os w)" "16 \<le> dsize shm" "lseq shm + 1 < 2 ^ 64"
  shows "\<exists>shm' os'. send_round w = P_go () (w\<lparr>bn_clock := rest, bn_os := os'\<rparr>) \<and> stores shm (ticks_bytes t) shm' \<and>
           on_block (bn_chan w) k shm' os' \<and> (\<forall>j. j \<noteq> k \<longrightarrow> block_at os' j = block_at (bn_os w) j) \<and>
           os_dir os' = os_dir (bn_os w) \<and> os_script os' = os_script (bn_os w)"
proof -
  have "ticks_bytes t \<noteq> []" using length_ticks [of t] by (metis list.size(3) zero_neq_numeral)
  then obtain shm' os' where p: "bn_put (bn_chan w) (ticks_bytes t) (w\<lparr>bn_clock := rest\<rparr>) = P_go ACH_OK (w\<lparr>bn_clock := rest, bn_os := os'\<rparr>)"
      "stores shm (ticks_bytes t) shm'" "on_block (bn_chan w) k shm' os'" "\<forall>j. j \<noteq> k \<longrightarrow> block_at os' j = block_at (bn_os w) j"
      "os_dir os' = os_dir (bn_os w)" "os_script os' = os_script (bn_os w)"
    using bn_put_stores [of "bn_chan w" k shm "w\<lparr>bn_clock := rest\<rparr>" "ticks_bytes t"] assms by auto
  have "send_round w = P_go () (w\<lparr>bn_clock := rest, bn_os := os'\<rparr>)" using assms(1) p(1) by (simp add: send_round_def get_ticks_def p_assert_def)
  then show ?thesis using p by blast
qed

lemma send_rounds_put:
  assumes "bn_clock w = ts @ rest"
    and "on_block (bn_chan w) k shm (bn_os w)" "16 \<le> dsize shm" "lseq shm + length ts < 2 ^ 64"
  shows "\<exists>shm' os'. send_rounds (length ts) w = P_go () (w\<lparr>bn_clock := rest, bn_os := os'\<rparr>) \<and> on_block (bn_chan w) k shm' os' \<and>
           frames shm' = keep (icnt shm) (dsize shm) (frames shm @ number (lseq shm) (map ticks_bytes ts)) \<and>
           index_cnt shm' = index_cnt shm \<and> lseq shm' = lseq shm + length ts \<and>
           (\<forall>j. j \<noteq> k \<longrightarrow> block_at os' j = block_at (bn_os w) j) \<and> os_dir os' = os_dir (bn_os w) \<and> os_script os' = os_script (bn_os w)"
  using assms
proof (induction ts arbitrary: w shm)
  case Nil
  have "ring_inv shm" using Nil.prems(2) by (simp add: on_block_def at_rest_def shm_inv_def)
  then have "keep (icnt shm) (dsize shm) (frames shm) = frames shm" by (intro keep_id frames_fits)
  moreover have "w\<lparr>bn_clock := rest, bn_os := bn_os w\<rparr> = w" using Nil.prems(1) by simp
  ultimately show ?case using Nil.prems by (intro exI [of _ shm] exI [of _ "bn_os w"]) simp
next
  case (Cons t ts)
  obtain shm1 os1 where p: "send_round w = P_go () (w\<lparr>bn_clock := ts @ rest, bn_os := os1\<rparr>)" "stores shm (ticks_bytes t) shm1"
      "on_block (bn_chan w) k shm1 os1" "\<forall>j. j \<noteq> k \<longrightarrow> block_at os1 j = block_at (bn_os w) j" "os_dir os1 = os_dir (bn_os w)"
      "os_script os1 = os_script (bn_os w)"
    using send_round_puts [of w t "ts @ rest" k shm] Cons.prems by auto
  let ?w1 = "w\<lparr>bn_clock := ts @ rest, bn_os := os1\<rparr>"
  have s: "index_cnt shm1 = index_cnt shm" "data_size shm1 = data_size shm" "lseq shm1 = lseq shm + 1"
    "frames shm1 = keep (icnt shm) (dsize shm) (frames shm @ [(lseq shm + 1, ticks_bytes t)])"
    using p(2) by (simp_all add: stores_def)
  from Cons.IH [of ?w1 shm1] obtain shm' os' where
      r: "send_rounds (length ts) ?w1 = P_go () (?w1\<lparr>bn_clock := rest, bn_os := os'\<rparr>)" "on_block (bn_chan w) k shm' os'"
      "frames shm' = keep (icnt shm1) (dsize shm1) (frames shm1 @ number (lseq shm1) (map ticks_bytes ts))"
      "index_cnt shm' = index_cnt shm1" "lseq shm' = lseq shm1 + length ts"
      "\<forall>j. j \<noteq> k \<longrightarrow> block_at os' j = block_at os1 j" "os_dir os' = os_dir os1" "os_script os' = os_script os1"
    using p(3) s Cons.prems(3,4) by auto
  have "frames shm' = keep (icnt shm) (dsize shm) (frames shm @ number (lseq shm) (map ticks_bytes (t # ts)))"
    using r(3) s by (simp add: keep_append)
  then show ?case using p(1,4-6) r s by (intro exI [of _ shm'] exI [of _ os']) simp
qed

lemma bn_put_options: "bn_put chan m w = P_go r w' \<Longrightarrow> SECS w' = SECS w \<and> FREQUENCY w' = FREQUENCY w"
  by (auto simp: bn_put_def go_simps)

lemma send_loop_rounds:
  assumes "\<forall>j\<ge>i. more_rounds fpu j w \<longleftrightarrow> j < i + n" "send_rounds n w = P_go () w'"
  shows "send_loop_ach fpu i w = P_go () w'"
  using assms
proof (induction n arbitrary: i w)
  case 0
  then have "\<not> more_rounds fpu i w" "w' = w" by simp_all
  then show ?case by (simp add: send_loop_ach.simps [of fpu i w])
next
  case (Suc n)
  then obtain w1 where w1: "send_round w = P_go () w1" "send_rounds n w1 = P_go () w'" by (auto simp: go_simps)
  have "SECS w1 = SECS w" "FREQUENCY w1 = FREQUENCY w"
    using w1(1) by (auto simp: send_round_def go_simps get_ticks_go dest!: bn_put_options)
  then have "more_rounds fpu j w1 = more_rounds fpu j w" for j by (simp add: more_rounds_def)
  with Suc.prems(1) have "\<forall>j\<ge>i + 1. more_rounds fpu j w1 \<longleftrightarrow> j < i + 1 + n" by simp
  from Suc.IH [OF this w1(2)] show ?case using Suc.prems(1) w1(1) by (simp add: send_loop_ach.simps [of fpu i w])
qed

text \<open>The frame of the last time that was sent is the newest, however many have been dropped before it.\<close>

lemma newest_sent:
  assumes "ts \<noteq> []" "0 < n" "16 \<le> d"
  shows "\<exists>pre. keep n d (number 0 (map ticks_bytes ts)) = pre @ [(length ts, ticks_bytes (last ts))]"
proof -
  obtain us t where ts: "ts = us @ [t]" using assms(1) by (cases ts rule: rev_cases) simp_all
  have "number 0 (map ticks_bytes ts) = number 0 (map ticks_bytes us) @ [(length ts, ticks_bytes (last ts))]"
    using number_append [of 0 "map ticks_bytes us" "ticks_bytes t"] by (simp add: ts)
  moreover have "fits n d [(length ts, ticks_bytes (last ts))]" using assms(2,3) by (simp add: fits_def)
  ultimately show ?thesis using keep_new by metis
qed

text \<open>Blocks that hold the times sent so far, and a handle that has read up to one of them.\<close>

definition bench_feed :: "ticks_t list \<Rightarrow> (nat \<Rightarrow> ach_header_t option) \<Rightarrow> bool" where
  "bench_feed ts blk \<longleftrightarrow>
     (\<forall>c\<le>length ts. \<exists>shm. blk c = Some shm \<and> at_rest shm \<and> index_cnt shm = 10 \<and> lseq shm = c \<and>
        frames shm = keep 10 2560 (number 0 (map ticks_bytes (take c ts))))"

lemma bench_feedD: "bench_feed ts blk \<Longrightarrow> c \<le> length ts \<Longrightarrow> blk c = Some shm \<Longrightarrow> at_rest shm \<and> index_cnt shm = 10 \<and> lseq shm = c"
  by (auto simp: bench_feed_def)

definition has_read :: "(nat \<Rightarrow> ach_header_t option) \<Rightarrow> nat \<Rightarrow> ach_channel_t \<Rightarrow> bool" where
  "has_read blk p chan \<longleftrightarrow> (\<exists>shm. blk p = Some shm \<and> chan_ok chan shm) \<and> cseq chan = p \<and> \<not> ch_cancel chan"

lemma last_options: "o_last (ACH_O_LAST OR ACH_O_WAIT)" "\<not> o_copy (ACH_O_LAST OR ACH_O_WAIT)" "o_wait (ACH_O_LAST OR ACH_O_WAIT)"
  by (simp_all add: o_last_def o_copy_def o_wait_def ACH_O_WAIT_def ACH_O_LAST_def ACH_O_COPY_def)

lemma spec_newest:
  assumes "cseq chan < lseq shm" "frames shm = pre @ [(q, m)]" "length m = 16" "length buf = 16"
  shows "spec_get chan shm buf 16 fsz (ACH_O_LAST OR ACH_O_WAIT) =
      \<lparr>g_status = (if cseq chan + 1 < q then ACH_MISSED_FRAME else ACH_OK),
       g_chan = chan\<lparr>ch_seq_num := of_nat q, ch_next_index := of_nat (q mod icnt shm)\<rparr>,
       g_shm = shm, g_buf = m, g_frame_size = 16\<rparr>"
proof -
  have "pick_frame True (cseq chan) (frames shm) = (q, m)" by (simp add: pick_frame_def assms(2) split: list.split)
  then show ?thesis using assms by (simp add: spec_get_def last_options)
qed

text \<open>A read with news takes the newest time, whether it has to wait for it or not.\<close>

lemma get_found:
  assumes "bench_feed ts blk" "length ts + 1 < 2 ^ 64" "finds blk p c shm wakes" "c \<le> length ts"
    and "has_read blk p chan" "length buf = 16"
  shows "\<exists>g. ach_get 0 chan shm buf 16 fsz abstime (ACH_O_LAST OR ACH_O_WAIT) wakes = Ret g \<and>
           g_buf g = ticks_bytes (ts ! (c - 1)) \<and> g_frame_size g = 16 \<and> g_status g \<noteq> ACH_TIMEOUT \<and> has_read blk c (g_chan g)"
proof -
  have p: "p < c" using assms(3) by (simp add: finds_def)
  obtain b where b: "blk p = Some b" "chan_ok chan b" "cseq chan = p" "\<not> ch_cancel chan" using assms(5) by (auto simp: has_read_def)
  then have old: "at_rest b \<and> lseq b = p \<and> index_cnt b = 10" using bench_feedD [OF assms(1), of p b] assms(4) p by simp
  obtain n where n: "blk c = Some n" "at_rest n" "index_cnt n = 10" "lseq n = c"
      "frames n = keep 10 2560 (number 0 (map ticks_bytes (take c ts)))"
    using assms(1,4) by (auto simp: bench_feed_def)
  have "c \<noteq> 0" "ts \<noteq> []" using p assms(4) by auto
  then have "take c ts \<noteq> []" "last (take c ts) = ts ! (c - 1)" "length (take c ts) = c"
    using assms(4) by (simp_all add: last_conv_nth)
  then obtain pre where f: "frames n = pre @ [(c, ticks_bytes (ts ! (c - 1)))]"
    using newest_sent [of "take c ts" 10 2560] n(5) by auto
  have ok: "chan_ok chan n" using chan_ok_mono [OF b(2), of n] n(3,4) old p by simp
  let ?g = "spec_get chan n buf 16 fsz (ACH_O_LAST OR ACH_O_WAIT)"
  have "ach_get 0 chan shm buf 16 fsz abstime (ACH_O_LAST OR ACH_O_WAIT) wakes = Ret ?g"
  proof (cases wakes)
    case Nil
    then have "shm = n" using assms(3) n(1) by (simp add: finds_def)
    then show ?thesis using n p b assms(2,4,6) ok by (auto intro!: ach_get_correct)
  next
    case (Cons v vs)
    then have v: "shm = b" "wake_shm v = n" "wake_ret v = EOK" "\<not> wake_cancel v" using assms(3) n(1) b(1) by (simp_all add: finds_def)
    have "ch_seq_num chan = last_seq b" "last_seq n \<noteq> ch_seq_num chan" using b(3) old n(4) p by (auto simp flip: word_unat_eq_iff)
    moreover have "dirty n = 0" using n(2) by (simp add: at_rest_def sync_ready_def)
    ultimately show ?thesis
      using ach_get_wait_correct [of b chan "[]" v 16 buf _ 0 fsz abstime vs] v n old b(4) ok assms(2,4,6) last_options(3) Cons
      by (simp add: news_wake_def)
  qed
  moreover have g: "?g = \<lparr>g_status = (if cseq chan + 1 < c then ACH_MISSED_FRAME else ACH_OK),
       g_chan = chan\<lparr>ch_seq_num := of_nat c, ch_next_index := of_nat (c mod icnt n)\<rparr>,
       g_shm = n, g_buf = ticks_bytes (ts ! (c - 1)), g_frame_size = 16\<rparr>"
    using spec_newest [OF _ f, of chan buf] b(3) n(4) p assms(6) by simp
  moreover have "chan_ok (g_chan ?g) n" using n(2) ok by (intro spec_get_chan_ok) (simp_all add: at_rest_def)
  moreover have "unat (of_nat c :: size_t) = c" using assms(2,4) by (simp add: unsigned_of_nat take_bit_nat_eq_self)
  ultimately show ?thesis using n(1) b(4) by (simp add: has_read_def)
qed

lemma get_times_out:
  assumes "at_rest shm" "\<not> ch_cancel chan" "ch_seq_num chan = last_seq shm" "wake_ret v = ETIMEDOUT" "\<not> wake_cancel v"
  shows "\<exists>g. ach_get 0 chan shm buf n fsz (Some t) (ACH_O_LAST OR ACH_O_WAIT) (v # vs) = Ret g \<and> g_status g = ACH_TIMEOUT"
proof -
  have s: "sync_ready shm" "check_guards shm = ACH_OK" using assms(1) by (simp_all add: at_rest_def shm_inv_def)
  show ?thesis using assms(2-5) s chan_lock_ready [OF s(1), of 0]
    by (simp add: ach_get_def rdlock_def rdlock_loop.simps last_options cond_wait_result_def check_lock_def Let_def
        split: prod.split)
qed

text \<open>The reads that are not looked at, and those that are measured.\<close>

lemma skip_reads:
  assumes "bench_feed ts blk" "length ts + 1 < 2 ^ 64" "length (fst junk) = 16"
  shows "\<lbrakk>schedule blk p (cs @ ds) turns; \<forall>c\<in>set cs. c \<le> length ts; has_read blk p (bn_chan w)\<rbrakk> \<Longrightarrow>
    \<exists>turns' chan. skip_ach (length cs) junk turns w = P_go turns' (w\<lparr>bn_chan := chan\<rparr>) \<and>
      schedule blk (last (p # cs)) ds turns' \<and> has_read blk (last (p # cs)) chan"
proof (induction cs arbitrary: p turns w)
  case Nil
  then show ?case by (intro exI [of _ turns] exI [of _ "bn_chan w"]) simp
next
  case (Cons c cs)
  obtain shm wakes turns2 where t: "turns = (shm, wakes) # turns2" "finds blk p c shm wakes" "schedule blk c (cs @ ds) turns2"
    using Cons.prems(1) by (cases turns) auto
  obtain g where g: "ach_get 0 (bn_chan w) shm (fst junk) 16 (snd junk) None (ACH_O_LAST OR ACH_O_WAIT) wakes = Ret g"
      "has_read blk c (g_chan g)"
    using get_found [OF assms(1,2) t(2) _ Cons.prems(3) assms(3)] Cons.prems(2) by force
  from Cons.IH [OF t(3), of "w\<lparr>bn_chan := g_chan g\<rparr>"] Cons.prems(2) g t(1) show ?case by (auto simp: p_of_def)
qed

definition measured :: "'d fpu \<Rightarrow> 'd bench \<Rightarrow> ticks_t list \<Rightarrow> nat list \<Rightarrow> ticks_t list \<Rightarrow> byte list list" where
  "measured fpu w ts cs nows = map (\<lambda>(c, now). fp_float fpu (ticks_delta fpu (ts ! (c - 1)) now w)) (zip cs nows)"

lemma measured_overhead: "bn_overhead w' = bn_overhead w \<Longrightarrow> measured fpu w' ts cs nows = measured fpu w ts cs nows"
  by (simp add: measured_def ticks_delta_def cong: map_cong)

lemma measured_Cons [simp]:
  "measured fpu w ts (c # cs) (now # nows) = fp_float fpu (ticks_delta fpu (ts ! (c - 1)) now w) # measured fpu w ts cs nows"
  by (simp add: measured_def)

lemma receive_turn:
  assumes "bench_feed ts blk" "length ts + 1 < 2 ^ 64" "list_all real_time ts" "\<And>x. length (fp_float fpu x) = 4"
    and "finds blk p c shm wakes" "c \<le> length ts" "has_read blk p (bn_chan w)" "bn_clock w = now # nows"
    and "on_block (bn_time_chan w) j tm (bn_os w)" "4 \<le> dsize tm" "lseq tm + 1 < 2 ^ 64"
  defines "x \<equiv> fp_float fpu (ticks_delta fpu (ts ! (c - 1)) now w)"
  shows "\<exists>os' chan tm'. receive_loop_ach fpu True junk ((shm, wakes) # turns) t0 w =
             receive_loop_ach fpu True junk turns (ts ! (c - 1)) (w\<lparr>bn_chan := chan, bn_clock := nows, bn_os := os'\<rparr>) \<and>
           has_read blk c chan \<and> on_block (bn_time_chan w) j tm' os' \<and> stores tm x tm' \<and>
           os_dir os' = os_dir (bn_os w) \<and> os_script os' = os_script (bn_os w)"
proof -
  obtain g where g: "ach_get 0 (bn_chan w) shm (ticks_bytes t0) 16 (snd junk) (Some (fst t0 + 1, snd t0)) (ACH_O_LAST OR ACH_O_WAIT) wakes = Ret g"
      "g_buf g = ticks_bytes (ts ! (c - 1))" "g_frame_size g = 16" "g_status g \<noteq> ACH_TIMEOUT" "has_read blk c (g_chan g)"
    using get_found [OF assms(1,2,5-7), of "ticks_bytes t0"] by auto
  let ?w = "w\<lparr>bn_chan := g_chan g, bn_clock := nows\<rparr>"
  have "x \<noteq> []" using assms(4) by (auto simp: x_def simp flip: length_0_conv)
  then obtain tm' os' where p: "bn_put (bn_time_chan w) x ?w = P_go ACH_OK (?w\<lparr>bn_os := os'\<rparr>)" "stores tm x tm'"
      "on_block (bn_time_chan w) j tm' os'" "os_dir os' = os_dir (bn_os w)" "os_script os' = os_script (bn_os w)"
    using bn_put_stores [of "bn_time_chan w" j tm ?w x] assms(4,9-11) by (auto simp: x_def)
  have "c - 1 < length ts" using assms(5,6) by (auto simp: finds_def)
  then have "ticks_of (g_buf g) = ts ! (c - 1)" using g(2) assms(3) by (simp add: ticks_of_bytes list_all_length)
  moreover have "ticks_delta fpu (ts ! (c - 1)) now ?w = ticks_delta fpu (ts ! (c - 1)) now w" by (simp add: ticks_delta_def)
  ultimately have "receive_loop_ach fpu True junk ((shm, wakes) # turns) t0 w =
      receive_loop_ach fpu True junk turns (ts ! (c - 1)) (?w\<lparr>bn_os := os'\<rparr>)"
    using g assms(8) p(1) by (auto simp: p_of_def get_ticks_def p_assert_def send_time_def Let_def x_def)
  then show ?thesis using p(2-5) g(5) by (intro exI [of _ os'] exI [of _ "g_chan g"] exI [of _ tm']) simp
qed

lemma receive_all:
  assumes "bench_feed ts blk" "length ts + 1 < 2 ^ 64" "list_all real_time ts" "\<And>x. length (fp_float fpu x) = 4"
  shows "\<lbrakk>schedule blk p cs turns; \<forall>c\<in>set cs. c \<le> length ts; p \<le> length ts; has_read blk p (bn_chan w);
      length nows = length cs; bn_clock w = nows @ [stop]; on_block (bn_time_chan w) j tm (bn_os w); 4 \<le> dsize tm;
      lseq tm + length cs < 2 ^ 64\<rbrakk> \<Longrightarrow>
    \<exists>w' tm'. receive_loop_ach fpu True junk turns t0 w = P_go () w' \<and> on_block (bn_time_chan w) j tm' (bn_os w') \<and>
      frames tm' = keep (icnt tm) (dsize tm) (frames tm @ number (lseq tm) (measured fpu w ts cs nows)) \<and>
      os_dir (bn_os w') = os_dir (bn_os w) \<and> os_script (bn_os w') = os_script (bn_os w)"
proof (induction cs arbitrary: p turns w nows tm t0)
  case Nil
  obtain shm v vs turns2 where t: "turns = (shm, v # vs) # turns2" "blk p = Some shm" "wake_ret v = ETIMEDOUT" "\<not> wake_cancel v"
    using Nil.prems(1) by (cases turns) (auto split: list.splits)
  have "at_rest shm" "ch_seq_num (bn_chan w) = last_seq shm" "\<not> ch_cancel (bn_chan w)"
    using bench_feedD [OF assms(1) Nil.prems(3) t(2)] Nil.prems(4) by (auto simp: has_read_def simp flip: word_unat_eq_iff)
  then obtain g where "ach_get 0 (bn_chan w) shm (ticks_bytes t0) 16 (snd junk) (Some (fst t0 + 1, snd t0)) (ACH_O_LAST OR ACH_O_WAIT) (v # vs) = Ret g"
      "g_status g = ACH_TIMEOUT"
    using get_times_out [of shm "bn_chan w" v] t(3,4) by blast
  then have r: "receive_loop_ach fpu True junk turns t0 w = P_go () (w\<lparr>bn_chan := g_chan g, bn_clock := []\<rparr>)"
    using Nil.prems(5,6) by (simp add: t(1) p_of_def get_ticks_def)
  have "ring_inv tm" using Nil.prems(7) by (simp add: on_block_def at_rest_def shm_inv_def)
  then have "keep (icnt tm) (dsize tm) (frames tm) = frames tm" by (intro keep_id frames_fits)
  then show ?case using r Nil.prems(7) by (intro exI [of _ "w\<lparr>bn_chan := g_chan g, bn_clock := []\<rparr>"] exI [of _ tm]) (simp add: measured_def)
next
  case (Cons c cs)
  obtain shm wakes turns2 where t: "turns = (shm, wakes) # turns2" "finds blk p c shm wakes" "schedule blk c cs turns2"
    using Cons.prems(1) by (cases turns) auto
  obtain now nows2 where n: "nows = now # nows2" "length nows2 = length cs" using Cons.prems(5) by (cases nows) auto
  obtain os1 chan tm1 where s: "receive_loop_ach fpu True junk turns t0 w =
        receive_loop_ach fpu True junk turns2 (ts ! (c - 1)) (w\<lparr>bn_chan := chan, bn_clock := nows2 @ [stop], bn_os := os1\<rparr>)"
      "has_read blk c chan" "on_block (bn_time_chan w) j tm1 os1" "stores tm (fp_float fpu (ticks_delta fpu (ts ! (c - 1)) now w)) tm1"
      "os_dir os1 = os_dir (bn_os w)" "os_script os1 = os_script (bn_os w)"
    using receive_turn [OF assms t(2) _ Cons.prems(4) _ Cons.prems(7,8), of now "nows2 @ [stop]" junk turns2 t0] Cons.prems(2,6,9) n(1) t(1)
    by auto
  let ?w = "w\<lparr>bn_chan := chan, bn_clock := nows2 @ [stop], bn_os := os1\<rparr>"
  have m: "measured fpu ?w ts cs nows2 = measured fpu w ts cs nows2" by (rule measured_overhead) simp
  have tm1: "icnt tm1 = icnt tm" "dsize tm1 = dsize tm" "lseq tm1 = lseq tm + 1"
      "frames tm1 = keep (icnt tm) (dsize tm) (frames tm @ [(lseq tm + 1, fp_float fpu (ticks_delta fpu (ts ! (c - 1)) now w))])"
    using s(4) by (simp_all add: stores_def)
  have "\<exists>w' tm'. receive_loop_ach fpu True junk turns2 (ts ! (c - 1)) ?w = P_go () w' \<and> on_block (bn_time_chan ?w) j tm' (bn_os w') \<and>
      frames tm' = keep (icnt tm1) (dsize tm1) (frames tm1 @ number (lseq tm1) (measured fpu ?w ts cs nows2)) \<and>
      os_dir (bn_os w') = os_dir (bn_os ?w) \<and> os_script (bn_os w') = os_script (bn_os ?w)"
    using Cons.prems(2,8,9) s(2,3) n(2) tm1(2,3) by (intro Cons.IH [OF t(3)]) auto
  then show ?case using s(1,5,6) m by (simp add: n(1) tm1 keep_append)
qed

lemma realtime_granted: "bn_rt w = [] \<Longrightarrow> make_realtime w = P_go () w"
  by (simp add: make_realtime_def rt_call_def)

lemma bench_names: "channel_name_ok ''time''" "channel_name_ok ''bench''" "shm_file ''time'' \<noteq> shm_file ''bench''"
  by code_simp+

lemma bench_sizes: "sizes_ok 10 256" "1 < unat (10 :: size_t)" "full_len 10 256 \<le> page_round (body_len 10 256)"
  by (simp_all add: sizes_ok_def full_len_def body_len_def page_round_def page_size_def)

text \<open>Receivers that need not be real-time processes still end when they may not be one.\<close>

lemma nrt_receiver_exits:
  assumes "bn_rt w = False # oks" "\<not> PASS_NO_RT w"
  shows "\<exists>w'. receiver_ach fpu False junk turns w = P_exit 1 w' \<and> bn_os w' = bn_os w"
  using assms by (simp add: receiver_ach_def make_realtime_def rt_call_def bn_say_def)

section \<open>A measurement\<close>

lemma destroy_removes:
  assumes "os_dir (bn_os w) (shm_file ''bench'') = Some k" "os_script (bn_os w) = []"
  shows "\<exists>w'. destroy_ach w = P_go () w' \<and> os_dir (bn_os w') = (os_dir (bn_os w))(shm_file ''bench'' := None) \<and>
           os_objects (bn_os w') = os_objects (bn_os w)"
proof -
  have "ach_unlink ''bench'' (bn_os w) = (ACH_OK, (bn_os w)\<lparr>os_dir := (os_dir (bn_os w))(shm_file ''bench'' := None)\<rparr>)"
    using assms by (intro ach_unlink_exists bench_names) simp_all
  then show ?thesis by (simp add: destroy_ach_def p_assert_def)
qed

lemma sender_sends:
  assumes "bn_rt w = []" "\<And>j. more_rounds fpu j w \<longleftrightarrow> j < length ts" "bn_clock w = ts @ rest"
    and "on_block (bn_chan w) k (fresh_block ''bench'' 10 256) (bn_os w)" "length ts < 2 ^ 64"
  shows "bench_feed ts (sent_block k w)"
    and "\<exists>os'. sender_ach fpu w = P_go () ((bn_say ''sender'' w)\<lparr>bn_clock := rest, bn_os := os'\<rparr>) \<and>
           block_at os' k = sent_block k w (length ts) \<and>
           (\<forall>j. j \<noteq> k \<longrightarrow> block_at os' j = block_at (bn_os w) j) \<and> os_dir os' = os_dir (bn_os w) \<and> os_script os' = os_script (bn_os w)"
proof -
  let ?w = "bn_say ''sender'' w" and ?b = "fresh_block ''bench'' 10 256"
  have b: "frames ?b = []" "lseq ?b = 0" "icnt ?b = 10" "dsize ?b = 2560" "index_cnt ?b = 10"
    using fresh_block_at_rest [OF bench_sizes(1), of "''bench''"] by (simp_all add: fresh_block_def)
  have rt: "make_realtime ?w = P_go () ?w" using assms(1) by (simp add: realtime_granted bn_say_def)
  have rounds: "\<exists>shm os'. send_rounds c ?w = P_go () (?w\<lparr>bn_clock := drop c ts @ rest, bn_os := os'\<rparr>) \<and> on_block (bn_chan w) k shm os' \<and>
      frames shm = keep 10 2560 (number 0 (map ticks_bytes (take c ts))) \<and> index_cnt shm = 10 \<and> lseq shm = c \<and>
      (\<forall>j. j \<noteq> k \<longrightarrow> block_at os' j = block_at (bn_os w) j) \<and> os_dir os' = os_dir (bn_os w) \<and> os_script os' = os_script (bn_os w)"
    if "c \<le> length ts" for c
    using send_rounds_put [of ?w "take c ts" "drop c ts @ rest" k ?b] assms(3-5) b that by (simp add: bn_say_def min_absorb2)
  show "bench_feed ts (sent_block k w)"
    using rounds by (force simp: bench_feed_def sent_block_def rt on_block_def)
  obtain os' where o: "send_rounds (length ts) ?w = P_go () (?w\<lparr>bn_clock := rest, bn_os := os'\<rparr>)"
      "\<forall>j. j \<noteq> k \<longrightarrow> block_at os' j = block_at (bn_os w) j" "os_dir os' = os_dir (bn_os w)" "os_script os' = os_script (bn_os w)"
    using rounds [of "length ts"] by auto
  have "\<forall>j\<ge>0. more_rounds fpu j ?w \<longleftrightarrow> j < 0 + length ts" using assms(2) by (simp add: more_rounds_def bn_say_def)
  from send_loop_rounds [OF this o(1)] show "\<exists>os'. sender_ach fpu w = P_go () (?w\<lparr>bn_clock := rest, bn_os := os'\<rparr>) \<and>
      block_at os' k = sent_block k w (length ts) \<and>
      (\<forall>j. j \<noteq> k \<longrightarrow> block_at os' j = block_at (bn_os w) j) \<and> os_dir os' = os_dir (bn_os w) \<and> os_script os' = os_script (bn_os w)"
    using o by (intro exI [of _ os']) (simp add: sender_ach_def sent_block_def rt)
qed

text \<open>The whole receiver: it is granted what it asks for, drops its first five reads and measures the others.\<close>

lemma receiver_measures:
  assumes "bench_feed ts blk" "length ts + 1 < 2 ^ 64" "list_all real_time ts" "\<And>x. length (fp_float fpu x) = 4" "length (fst junk) = 16"
    and "schedule blk 0 cs turns" "\<forall>c\<in>set cs. c \<le> length ts" "length cs = 5 + length nows"
    and "bn_rt w = []" "has_read blk 0 (bn_chan w)" "bn_clock w = start # nows @ [stop]"
    and "on_block (bn_time_chan w) j (fresh_block ''time'' n 4) (bn_os w)" "sizes_ok n 4" "1 < unat n"
  shows "\<exists>w' tm. receiver_ach fpu True junk turns w = P_go () w' \<and> on_block (bn_time_chan w) j tm (bn_os w') \<and>
           frames tm = keep (unat n) (unat n * 4) (number 0 (measured fpu w ts (drop 5 cs) nows)) \<and>
           os_dir (bn_os w') = os_dir (bn_os w) \<and> os_script (bn_os w') = os_script (bn_os w)"
proof -
  let ?w = "bn_say ''receiver'' w" and ?t = "fresh_block ''time'' n 4"
  have t: "frames ?t = []" "lseq ?t = 0" "icnt ?t = unat n" "dsize ?t = unat n * 4"
    using fresh_block_at_rest [OF assms(13), of "''time''"] by simp_all
  have cs: "schedule blk 0 (take 5 cs @ drop 5 cs) turns" "length (take 5 cs) = 5" "\<forall>c\<in>set (take 5 cs). c \<le> length ts"
    "\<forall>c\<in>set (drop 5 cs). c \<le> length ts" "length cs \<le> length ts"
    using assms(6-8) schedule_length [OF assms(6,7)] by (auto dest: in_set_takeD in_set_dropD)
  obtain turns' chan where k: "skip_ach 5 junk turns ?w = P_go turns' (?w\<lparr>bn_chan := chan\<rparr>)"
      "schedule blk (last (0 # take 5 cs)) (drop 5 cs) turns'" "has_read blk (last (0 # take 5 cs)) chan"
    using skip_reads [OF assms(1,2,5) cs(1,3), of ?w] cs(2) assms(10) by (auto simp: bn_say_def)
  let ?w1 = "?w\<lparr>bn_chan := chan, bn_clock := nows @ [stop]\<rparr>"
  have p: "last (0 # take 5 cs) \<le> length ts" using cs(2,3) by (auto simp: last_in_set)
  have w1: "has_read blk (last (0 # take 5 cs)) (bn_chan ?w1)" "length nows = length (drop 5 cs)" "bn_clock ?w1 = nows @ [stop]"
    "on_block (bn_time_chan ?w1) j ?t (bn_os ?w1)" "4 \<le> dsize ?t" "lseq ?t + length (drop 5 cs) < 2 ^ 64"
    using k(3) assms(2,8,12,14) cs(5) t by (simp_all add: bn_say_def)
  have w1': "bn_time_chan ?w1 = bn_time_chan w" "bn_os ?w1 = bn_os w" by (simp_all add: bn_say_def)
  have m: "measured fpu ?w1 ts (drop 5 cs) nows = measured fpu w ts (drop 5 cs) nows" by (rule measured_overhead) (simp add: bn_say_def)
  obtain w' tm where r: "receive_loop_ach fpu True junk turns' start ?w1 = P_go () w'" "on_block (bn_time_chan w) j tm (bn_os w')"
      "frames tm = keep (unat n) (unat n * 4) (number 0 (measured fpu w ts (drop 5 cs) nows))"
      "os_dir (bn_os w') = os_dir (bn_os w)" "os_script (bn_os w') = os_script (bn_os w)"
    using receive_all [OF assms(1-4) k(2) cs(4) p w1, of junk start] unfolding t m w1' by auto
  have "receiver_ach fpu True junk turns w = P_go () w'"
    using k(1) r(1) assms(9,11) by (simp add: receiver_ach_def realtime_granted bn_say_def get_ticks_def)
  then show ?thesis using r by blast
qed

text \<open>Both channels, empty, under their names, with a handle for each.\<close>

lemma channels_made:
  assumes "roomy (bn_os w)" "sizes_ok n 4" "1 < unat n" "full_len n 4 \<le> page_round (body_len n 4)"
    and "n = fp_size fpu (FREQUENCY w) * fp_size fpu (SECS w) * RECV_RT w"
  shows "\<exists>w1 tc bc os j k. init_time_chan fpu w = P_go () w1 \<and> setup_ach w1 = P_go () (w\<lparr>bn_time_chan := tc, bn_os := os, bn_chan := bc\<rparr>) \<and>
           on_block tc j (fresh_block ''time'' n 4) os \<and> on_block bc k (fresh_block ''bench'' 10 256) os \<and> j \<noteq> k \<and>
           chan_ok bc (fresh_block ''bench'' 10 256) \<and> cseq bc = 0 \<and> \<not> ch_cancel bc \<and>
           os_dir os (shm_file ''time'') = Some j \<and> os_dir os (shm_file ''bench'') = Some k \<and> os_script os = []"
proof -
  let ?t = "fresh_block ''time'' n 4" and ?b = "fresh_block ''bench'' 10 256"
  obtain tc os1 j where t: "init_time_chan fpu w = P_go () (w\<lparr>bn_os := os1, bn_time_chan := tc\<rparr>)" "roomy os1"
      "on_block tc j ?t os1" "os_dir os1 (shm_file ''time'') = Some j" "j < os_fresh_id os1"
    using remake_ok [OF assms(1) bench_names(1) assms(2-4), of "(138, 141, 145)" "bn_time_chan w"] assms(5)
    by (auto simp: init_time_chan_def)
  let ?w1 = "w\<lparr>bn_os := os1, bn_time_chan := tc\<rparr>"
  obtain bc os2 k where b: "setup_ach ?w1 = P_go () (?w1\<lparr>bn_os := os2, bn_chan := bc\<rparr>)"
      "on_block bc k ?b os2" "chan_ok bc ?b" "cseq bc = 0" "\<not> ch_cancel bc"
      "os_dir os2 = (os_dir os1)(shm_file ''bench'' := Some k)" "j < k" "block_at os2 j = block_at os1 j" "os_script os2 = []"
    using remake_ok [of ?w1, OF _ bench_names(2) bench_sizes, of "(214, 216, 220)" "bn_chan w"] t(2,5)
    by (auto simp: setup_ach_def block_at_def roomy_def)
  have "on_block tc j ?t os2" using t(3) b(8) by (simp add: on_block_def)
  moreover have "os_dir os2 (shm_file ''time'') = Some j" "os_dir os2 (shm_file ''bench'') = Some k"
    using t(4) b(6) bench_names(3) by simp_all
  moreover have "setup_ach ?w1 = P_go () (w\<lparr>bn_time_chan := tc, bn_os := os2, bn_chan := bc\<rparr>)" using b(1) by simp
  moreover have "j \<noteq> k" using b(7) by simp
  ultimately show ?thesis using t(1) b(2-5,9) by blast
qed

text \<open>
  C20.  A measurement with one sender and one receiver on a system where no call fails.  The channels are
  made anew, whatever was there under their names.  The sender puts as many times as the options ask for;
  after each round its channel holds the times so far, in order, as far as the ring of ten frames has room.
  The receiver runs beside it: each of its reads either finds rounds it has not seen or waits for them, any
  number at a time, until a last read runs out of time; since the two processes share nothing but the channel,
  its run is written behind that of the sender, with the blocks of the moments of its reads as its turns.
  It throws away what the first five reads bring.
  From each further read it takes the newest time and puts, in order, the difference between it and its
  own clock after that read, less the overhead, into the channel of the measurements, which holds exactly
  these differences as far as it has room.  Then the receiver ends; afterwards the channel of the benchmark
  is removed and that of the measurements is still there.
\<close>

theorem bench_measures:
  fixes w :: "'d bench"
  assumes "roomy (bn_os w)" "sizes_ok n 4" "1 < unat n" "full_len n 4 \<le> page_round (body_len n 4)"
    and "n = fp_size fpu (FREQUENCY w) * fp_size fpu (SECS w) * RECV_RT w"
    and "bn_rt w = []" "\<And>j. more_rounds fpu j w \<longleftrightarrow> j < length ts" "length ts + 1 < 2 ^ 64" "list_all real_time ts"
    and "bn_clock w = ts @ start # nows @ [stop]" "\<And>x. length (fp_float fpu x) = 4" "length (fst junk) = 16"
  shows "\<exists>w1 w2 w3 k j.
    init_time_chan fpu w = P_go () w1 \<and> setup_ach w1 = P_go () w2 \<and> sender_ach fpu w2 = P_go () w3 \<and>
    os_dir (bn_os w3) (shm_file ''bench'') = Some k \<and> block_at (bn_os w3) k = sent_block k w2 (length ts) \<and>
    (\<forall>c\<le>length ts. \<exists>shm. sent_block k w2 c = Some shm \<and> frames shm = keep 10 2560 (number 0 (map ticks_bytes (take c ts)))) \<and>
    (\<forall>cs turns. schedule (sent_block k w2) 0 cs turns \<and> (\<forall>c\<in>set cs. c \<le> length ts) \<and> length cs = 5 + length nows \<longrightarrow>
       (\<exists>w4 w5 tm. receiver_ach fpu True junk turns w3 = P_go () w4 \<and> destroy_ach w4 = P_go () w5 \<and>
          os_dir (bn_os w5) (shm_file ''bench'') = None \<and>
          os_dir (bn_os w5) (shm_file ''time'') = Some j \<and> block_at (bn_os w5) j = Some tm \<and>
          frames tm = keep (unat n) (unat n * 4) (number 0
            (map (\<lambda>(c, now). fp_float fpu (ticks_delta fpu (ts ! (c - 1)) now w)) (zip (drop 5 cs) nows)))))"
proof -
  let ?t = "fresh_block ''time'' n 4" and ?b = "fresh_block ''bench'' 10 256"
  obtain w1 tc bc os2 j k where t: "init_time_chan fpu w = P_go () w1"
      "setup_ach w1 = P_go () (w\<lparr>bn_time_chan := tc, bn_os := os2, bn_chan := bc\<rparr>)"
      "on_block tc j ?t os2" "on_block bc k ?b os2" "j \<noteq> k" "chan_ok bc ?b" "cseq bc = 0" "\<not> ch_cancel bc"
      "os_dir os2 (shm_file ''time'') = Some j" "os_dir os2 (shm_file ''bench'') = Some k" "os_script os2 = []"
    using channels_made [OF assms(1-5)] by blast
  define w2 where "w2 = w\<lparr>bn_time_chan := tc, bn_os := os2, bn_chan := bc\<rparr>"
  have w2: "bn_rt w2 = []" "bn_clock w2 = ts @ start # nows @ [stop]" "on_block (bn_chan w2) k ?b (bn_os w2)"
    "\<And>j. more_rounds fpu j w2 \<longleftrightarrow> j < length ts" "bn_os w2 = os2" "bn_chan w2 = bc" "bn_time_chan w2 = tc" "bn_overhead w2 = bn_overhead w"
    using assms(6,7,10) t(4) by (simp_all add: w2_def more_rounds_def)
  have len: "length ts < 2 ^ 64" using assms(8) by simp
  note feed = sender_sends(1) [OF w2(1,4,2,3) len]
  obtain os3 where s: "sender_ach fpu w2 = P_go () ((bn_say ''sender'' w2)\<lparr>bn_clock := start # nows @ [stop], bn_os := os3\<rparr>)"
      "block_at os3 k = sent_block k w2 (length ts)" "\<forall>j. j \<noteq> k \<longrightarrow> block_at os3 j = block_at os2 j"
      "os_dir os3 = os_dir os2" "os_script os3 = os_script os2"
    using sender_sends(2) [OF w2(1,4,2,3) len] w2(5) by auto
  define w3 where "w3 = (bn_say ''sender'' w2)\<lparr>bn_clock := start # nows @ [stop], bn_os := os3\<rparr>"
  have w3: "bn_rt w3 = []" "bn_clock w3 = start # nows @ [stop]" "on_block (bn_time_chan w3) j ?t (bn_os w3)"
    "bn_os w3 = os3" "bn_chan w3 = bc" "bn_overhead w3 = bn_overhead w"
    using w2 s(3) t(3,5) by (simp_all add: w3_def bn_say_def on_block_def)
  obtain b0 where "sent_block k w2 0 = Some b0" "index_cnt b0 = 10" "lseq b0 = 0" using feed by (auto simp: bench_feed_def)
  then have read: "has_read (sent_block k w2) 0 (bn_chan w3)"
    using chan_ok_mono [OF t(6), of b0] t(7,8) w3(5) fresh_block_at_rest(3) [OF bench_sizes(1), of "''bench''"]
    by (simp add: has_read_def fresh_block_def)
  have m: "measured fpu w3 ts cs nows = map (\<lambda>(c, now). fp_float fpu (ticks_delta fpu (ts ! (c - 1)) now w)) (zip cs nows)" for cs
    using measured_overhead [OF w3(6)] by (simp add: measured_def)
  have "\<exists>w4 w5 tm. receiver_ach fpu True junk turns w3 = P_go () w4 \<and> destroy_ach w4 = P_go () w5 \<and>
          os_dir (bn_os w5) (shm_file ''bench'') = None \<and>
          os_dir (bn_os w5) (shm_file ''time'') = Some j \<and> block_at (bn_os w5) j = Some tm \<and>
          frames tm = keep (unat n) (unat n * 4) (number 0
            (map (\<lambda>(c, now). fp_float fpu (ticks_delta fpu (ts ! (c - 1)) now w)) (zip (drop 5 cs) nows)))"
    if sch: "schedule (sent_block k w2) 0 cs turns" "\<forall>c\<in>set cs. c \<le> length ts" "length cs = 5 + length nows" for cs turns
  proof -
    obtain w4 tm where r: "receiver_ach fpu True junk turns w3 = P_go () w4" "on_block (bn_time_chan w3) j tm (bn_os w4)"
        "frames tm = keep (unat n) (unat n * 4) (number 0 (measured fpu w3 ts (drop 5 cs) nows))"
        "os_dir (bn_os w4) = os_dir os3" "os_script (bn_os w4) = os_script os3"
      using receiver_measures [OF feed assms(8,9,11,12) sch w3(1) read w3(2,3) assms(2,3)] w3(4) by auto
    obtain w5 where "destroy_ach w4 = P_go () w5" "os_dir (bn_os w5) = (os_dir os3)(shm_file ''bench'' := None)"
        "os_objects (bn_os w5) = os_objects (bn_os w4)"
      using destroy_removes [of w4 k] r(4,5) s(4,5) t(10,11) by auto
    then show ?thesis using r s(4) t(9) bench_names(3) m by (auto simp: on_block_def block_at_def)
  qed
  moreover have "os_dir (bn_os w3) (shm_file ''bench'') = Some k" "block_at (bn_os w3) k = sent_block k w2 (length ts)"
    using w3(4) s(2,4) t(10) by simp_all
  moreover have "\<forall>c\<le>length ts. \<exists>shm. sent_block k w2 c = Some shm \<and> frames shm = keep 10 2560 (number 0 (map ticks_bytes (take c ts)))"
    using feed by (auto simp: bench_feed_def)
  ultimately show ?thesis using t(1,2) s(1) unfolding w2_def [symmetric] w3_def [symmetric] by blast
qed

text \<open>Eight times, one each second, with numbers of type \<open>int\<close> for seconds.\<close>

definition demo_fpu :: "int fpu" where
  "demo_fpu = \<lparr>fp_int = (\<lambda>x. x), fp_add = (+), fp_sub = (-), fp_mul = (*), fp_div = (div), fp_less = (<),
     fp_strtod = atoi, fp_size = word_of_int, fp_float = (\<lambda>x. take 4 (le64 x)), fp_show_us = (\<lambda>_. [])\<rparr>"

definition demo_times :: "ticks_t list" where
  "demo_times = [(1, 0), (2, 0), (3, 0), (4, 0), (5, 0), (6, 0), (7, 0), (8, 0)]"

definition demo_bench :: "int bench" where
  "demo_bench = \<lparr>FREQUENCY = 1, SECS = 8, RECV_RT = 1, RECV_NRT = 0, SEND_RT = 1, PASS_NO_RT = False, bn_overhead = 0,
     bn_os = empty_os, bn_build = debug_build, bn_time_chan = no_handle, bn_chan = no_handle,
     bn_clock = demo_times @ [(6, 0), (9, 0), (11, 0), (12, 0)], bn_rt = [], bn_forks = [], bn_pipe = 0, bn_pipe_in = [],
     bn_pipe_out = \<lparr>out_events = [], out_bytes = []\<rparr>,
     bn_err = [], bn_out = [], bn_signalled = [], bn_waited = []\<rparr>"

lemma demo_ready:
  "roomy (bn_os demo_bench)" "sizes_ok 8 4" "1 < unat (8 :: size_t)" "full_len 8 4 \<le> page_round (body_len 8 4)"
  "8 = fp_size demo_fpu (FREQUENCY demo_bench) * fp_size demo_fpu (SECS demo_bench) * RECV_RT demo_bench"
  "bn_rt demo_bench = []" "more_rounds demo_fpu j demo_bench \<longleftrightarrow> j < length demo_times" "length demo_times + 1 < 2 ^ 64"
  "list_all real_time demo_times" "bn_clock demo_bench = demo_times @ (6, 0) # [(9, 0), (11, 0)] @ [(12, 0)]"
  "length (fp_float demo_fpu x) = 4"
  by (simp_all add: demo_bench_def demo_fpu_def demo_times_def roomy_def empty_os_def sizes_ok_def full_len_def body_len_def
      page_round_def page_size_def more_rounds_def real_time_def le64_def) auto

theorem bench_measures_witness:
  "\<exists>w1 w2 w3 w4 w5 k j tm turns.
    init_time_chan demo_fpu demo_bench = P_go () w1 \<and> setup_ach w1 = P_go () w2 \<and> sender_ach demo_fpu w2 = P_go () w3 \<and>
    schedule (sent_block k w2) 0 [1, 2, 3, 4, 5, 7, 8] turns \<and>
    receiver_ach demo_fpu True (replicate 16 0, 0) turns w3 = P_go () w4 \<and> destroy_ach w4 = P_go () w5 \<and>
    os_dir (bn_os w5) (shm_file ''bench'') = None \<and>
    os_dir (bn_os w5) (shm_file ''time'') = Some j \<and> block_at (bn_os w5) j = Some tm \<and>
    frames tm = [(1, [2, 0, 0, 0]), (2, [3, 0, 0, 0])]"
proof -
  let ?cs = "[1, 2, 3, 4, 5, 7, 8]" and ?nows = "[(9, 0), (11, 0)]"
  let ?d = "\<lambda>c now. fp_float demo_fpu (ticks_delta demo_fpu (demo_times ! (c - 1)) now demo_bench)"
  have d: "?d 7 (9, 0) = [2, 0, 0, 0]" "?d 8 (11, 0) = [3, 0, 0, 0]"
    by (simp_all add: demo_fpu_def demo_bench_def demo_times_def ticks_delta_def) code_simp+
  have "keep (unat (8 :: size_t)) (unat (8 :: size_t) * 4)
      (number 0 (map (\<lambda>(c, now). ?d c now) (zip (drop 5 ?cs) ?nows))) = [(1, [2, 0, 0, 0]), (2, [3, 0, 0, 0])]"
    using d by simp
  note kept = this
  obtain w1 w2 w3 k j where r: "init_time_chan demo_fpu demo_bench = P_go () w1" "setup_ach w1 = P_go () w2" "sender_ach demo_fpu w2 = P_go () w3"
      "\<forall>c\<le>length demo_times. \<exists>shm. sent_block k w2 c = Some shm \<and> frames shm = keep 10 2560 (number 0 (map ticks_bytes (take c demo_times)))"
      "\<forall>cs turns. schedule (sent_block k w2) 0 cs turns \<and> (\<forall>c\<in>set cs. c \<le> length demo_times) \<and> length cs = 5 + length ?nows \<longrightarrow>
         (\<exists>w4 w5 tm. receiver_ach demo_fpu True (replicate 16 0, 0) turns w3 = P_go () w4 \<and> destroy_ach w4 = P_go () w5 \<and>
            os_dir (bn_os w5) (shm_file ''bench'') = None \<and>
            os_dir (bn_os w5) (shm_file ''time'') = Some j \<and> block_at (bn_os w5) j = Some tm \<and>
            frames tm = keep (unat (8 :: size_t)) (unat (8 :: size_t) * 4) (number 0 (map (\<lambda>(c, now). ?d c now) (zip (drop 5 cs) ?nows))))"
    using bench_measures [of demo_bench 8 demo_fpu demo_times "(6, 0)" ?nows "(12, 0)" "(replicate 16 0, 0)"] demo_ready by fastforce
  define b where "b c = the (sent_block k w2 c)" for c
  have b: "sent_block k w2 c = Some (b c)" if "c \<le> 8" for c
  proof -
    have "c \<le> length demo_times" using that by (simp add: demo_times_def)
    then show ?thesis using r(4) by (auto simp: b_def)
  qed
  let ?wake = "\<lambda>e c. \<lparr>wake_ret = e, wake_shm = b c, wake_cancel = False\<rparr>"
  let ?turns = "(b 0, [?wake EOK 1]) # map (\<lambda>c. (b c, [])) [2, 3, 4, 5, 7, 8] @ [(b 8, [?wake ETIMEDOUT 8])]"
  have sch: "schedule (sent_block k w2) 0 ?cs ?turns" by (simp add: finds_def b)
  then show ?thesis using r(1-3) r(5) [rule_format, of ?cs ?turns] kept by (fastforce simp: demo_times_def)
qed

end
