(* ===== verification/Spec2Isabelle.thy ===== *)
theory Spec2Isabelle
  imports Ach_Loud Ach_Wellformed Achd_Forward Achd_Main Achcop_Spec Achlog_Replay Achtool Achcat Ach_Python Ach_Java Ach_Cpp Achchand_Replies Achbench
begin

text \<open>
  \<^bold>\<open>A verification of the Ach inter-process communication library.\<close>

  Ach moves the latest messages between processes over shared memory.  A \<^emph>\<open>channel\<close> is a block of
  shared memory with a ring of index entries and a ring of data bytes, guarded by a robust mutex and a
  condition variable; writers never wait for readers, and the oldest frames are overwritten.  Around
  the library are a daemon \<^verbatim>\<open>achd\<close> that forwards a channel over TCP or UDP, a program
  \<^verbatim>\<open>achpipe\<close> that turns a channel into a byte stream and back, a logger \<^verbatim>\<open>achlog\<close>, a program
  \<^verbatim>\<open>achcat\<close> for lines of text, the command \<^verbatim>\<open>ach\<close> that makes and removes channels, a
  watchdog \<^verbatim>\<open>achcop\<close> that keeps a child process running, and a benchmark \<^verbatim>\<open>achbench\<close>.  All paths below are relative to
  \<^verbatim>\<open>src/\<close>.

  \<^bold>\<open>Theories and the code they model.\<close>

  \<^item> \<open>Ach_Prelude\<close>: the outcome of a C call (a result, blocking for ever, or a fault), checked memory
  copies, facts on \<open>size_t\<close> as 64-bit words, decimal numbers.
  \<^item> \<open>Ach_Types\<close> (\<^verbatim>\<open>include/ach.h\<close>): status codes, flags, structs, the layout of the block.
  \<^item> \<open>Ach_Sync\<close> (\<^verbatim>\<open>src/ach.c\<close>, the lock layer): \<open>check_lock\<close>, \<open>chan_lock\<close>, \<open>rdlock\<close>,
  \<open>wrlock\<close> and their counterparts, with the states of the mutex explicit.
  \<^item> \<open>Ach_Channel\<close> (\<^verbatim>\<open>src/ach.c\<close>): \<open>ach_get\<close>, \<open>ach_put\<close>, \<open>ach_flush\<close> with every assertion,
  division, array access and copy checked.
  \<^item> \<open>Ach_Ring\<close>, \<open>Ach_Put\<close>, \<open>Ach_Get\<close>, \<open>Ach_Session\<close>: the meaning of a block as a queue of numbered
  frames, its invariant, and the correctness of the operations against that queue.
  \<^item> \<open>Ach_OS\<close>, \<open>Ach_Lifecycle\<close> (\<^verbatim>\<open>src/ach.c\<close>): names, \<open>ach_create\<close>, \<open>ach_open\<close>,
  \<open>ach_close\<close>, \<open>ach_unlink\<close>, \<open>ach_chmod\<close>, \<open>ach_cancel\<close>, \<open>ach_dump\<close> over a small operating system.
  \<open>Ach_Wellformed\<close> shows that the calls keep the block in order whatever their arguments.
  \<^item> \<open>Ach_Loud\<close> (\<^verbatim>\<open>src/ach.c\<close>): the tracing variants of reading and writing.
  \<^item> \<open>Ach_Stream\<close> (\<^verbatim>\<open>src/ach_stream.c\<close>), \<open>Ach_Pipe\<close> (\<^verbatim>\<open>src/pipe.c\<close>,
  \<^verbatim>\<open>src/libach_private.c\<close>): messages, lines and frames on byte streams.
  \<^item> \<open>Ach_Frames\<close>: messages between a channel and a stream, shared by the programs that carry them, with
  the interfaces they meet.
  \<^item> \<open>Ach_Util\<close> (\<^verbatim>\<open>src/achutil.c\<close>): logging, signals, notification, detaching.
  \<^item> \<open>Ach_Getopt\<close>, \<open>Ach_CLib\<close>, \<open>Ach_Tool\<close>: the parts of the C library that the programs use (options,
  numbers, buffered files) and the ways a part of a command-line program can end.
  \<^item> \<open>Achd_Base\<close>, \<open>Achd_IO\<close>, \<open>Achd_Headers\<close>, \<open>Achd_Connect\<close>, \<open>Achd_Transport\<close>, \<open>Achd_Main\<close>
  (\<^verbatim>\<open>src/achd/\<close>): the daemon's state and error handlers, its input and output, the header
  protocol, connecting and reconnecting, the four transports, and the command line with the server
  and client procedures.  \<open>Achd_Forward\<close> holds what the transports guarantee.
  \<^item> \<open>Achpipe\<close> (\<^verbatim>\<open>src/achpipe-bin.c\<close>): publishing, subscribing and the main program;
  \<open>Achpipe_Forward\<close> joins the two by a pipe.
  \<^item> \<open>Achlog\<close> (\<^verbatim>\<open>src/achlog.c\<close>): the thread that logs a channel and the main thread;
  \<open>Achlog_Replay\<close> reads a log back with \<^verbatim>\<open>achpipe\<close>.
  \<^item> \<open>Achcat\<close> (\<^verbatim>\<open>src/achcat.c\<close>): publishing and subscribing text, one way or both ways.
  \<^item> \<open>Achtool\<close> (\<^verbatim>\<open>src/achtool.c\<close>): the command \<^verbatim>\<open>ach\<close> with its options and commands.
  \<^item> \<open>Ach_Binding\<close>: what the bindings for other languages share, with their interface; \<open>Ach_Python\<close>
  (\<^verbatim>\<open>python/ach_py.c\<close>): the extension module for Python, over an interpreter that is a parameter;
  \<open>Ach_Java\<close> (\<^verbatim>\<open>java/achj.c\<close>): the native methods for Java, over a virtual machine that is a
  parameter; \<open>Ach_Cpp\<close> (\<^verbatim>\<open>cpp/achcpp.cpp\<close>, \<^verbatim>\<open>include/Ach.hpp\<close>): the C++ classes, with
  their virtual functions as records.
  \<^item> \<open>Achcop\<close> (\<^verbatim>\<open>src/achcop.c\<close>): the watchdog.  \<open>Achcop_Watch\<close> and \<open>Achcop_Spec\<close> hold its
  safety property and the supervisor it refines.
  \<^item> \<open>Achchand\<close> (\<^verbatim>\<open>src/achchand.c\<close>): a channel daemon as far as it was written, which is its
  control socket; no build file names it, and the library it uses is a parameter.  \<open>Achchand_Replies\<close>
  shows what its clients get.
  \<^item> \<open>Achbench\<close> (\<^verbatim>\<open>src/ach-bench.c\<close>): the benchmark on channels and on pipes, over
  floating-point numbers that are a parameter.
  \<^item> This theory: what the command \<^verbatim>\<open>ach\<close> and \<^verbatim>\<open>achcat\<close> do together.

  \<^bold>\<open>State and environment.\<close>  Each struct is a record with the source's fields, and each stateful
  function takes the state and returns it updated.  The shared block is one record; the library's calls
  on it are atomic steps because of the lock, and while a reader sleeps in a condition wait the block it
  wakes up to is given by a list of wake-ups.  Everything else that the code does not decide itself is a
  script in the state or an argument: which system calls fail and with what error, how a read or write
  is cut into pieces, when a signal arrives, what a fork returns, what \<open>waitpid\<close> answers, what \<open>strerror\<close>
  says.  The theorems quantify over the scripts.  \<^verbatim>\<open>achd\<close> and \<^verbatim>\<open>achcop\<close> share the process record of \<open>Ach_Util\<close>;
  \<^verbatim>\<open>achd\<close> calls the library's \<open>ach_open\<close>, \<open>ach_create\<close>, \<open>ach_get\<close>, \<open>ach_put\<close> and \<open>ach_flush\<close> as
  they are modelled here.

  \<^bold>\<open>Interfaces.\<close>  The locale \<open>frame_log\<close> states what a writer may rely on, and is interpreted on
  \<open>ach_put\<close>; the locale \<open>framing\<close> states what a decoder of messages promises, and is interpreted on the
  stream functions.  Their clients (histories of writes, sequences of messages) are proved inside them.
  The locale \<open>frame_sink\<close> states what a program that puts the messages of a stream into a channel
  promises for one message, and \<open>frame_source\<close> what one that takes them out promises; that whole streams
  are carried is proved inside them.  The sinks are the receiving TCP transport of \<^verbatim>\<open>achd\<close> and the
  publishers of \<^verbatim>\<open>achpipe\<close> and \<^verbatim>\<open>achcat\<close>; the sources are the sending transport, their
  subscribers and the thread of \<^verbatim>\<open>achlog\<close>.  The locale \<open>channel_binding\<close> states what a binding
  promises for one put and one get, and is interpreted on the Python module, the native methods for Java
  and the C++ class; that programs get back every message they put is proved inside it.  The locale
  \<open>channel_handlers\<close> states what the methods of the C++ class ask of the virtual functions, \<open>log_handlers\<close>
  gives it for the classes that log, and both are interpreted on the classes of the library.

  \<^bold>\<open>What is shown.\<close>
  \<^item> Channels: writing and reading refine the queue of frames, never fault on a block at rest, and a
  session of writers and a reader delivers messages in order and none twice; waiting readers are woken
  by writes and by cancelling; the mutex is always released; invalid arguments leave the block alone,
  and no call that returns leaves it other than well-formed.
  \<^item> Life cycle: creating, opening and unlinking fit together, and a new channel has the sizes asked for; bad names are refused; interrupted calls
  are retried within the limit.
  \<^item> Streams and frames: what is written reads back, however the stream is cut into pieces; the tracing
  variants agree with the plain ones.
  \<^item> \<^verbatim>\<open>achd\<close>: requests parse to what they were made of; errors without a separator in their text reach
  the client, which logs them and fails, and those with a colon are lost; the TCP transports
  forward every frame in order; the UDP receiver takes frames from its peer only.
  \<^item> \<^verbatim>\<open>achpipe\<close>: two of them joined by a pipe carry the messages of one channel into another.
  \<^item> \<^verbatim>\<open>achlog\<close>: a log holds every message the thread found, of any size, and replays to the same
  messages; the main thread leaves the files of all its channels complete.
  \<^item> \<^verbatim>\<open>achcat\<close>, \<^verbatim>\<open>ach\<close>: lines of text go through a channel unchanged; channels are made,
  protected and removed as documented, with the right exit statuses; a channel made with one program is
  opened and filled by the other.
  \<^item> The bindings: every message that is put is got, from Python, Java and C++.  The Python module creates
  a missing channel and gives views of buffers back, but not when a write fails, and a cancelled read
  raises nothing.  The methods for Java free what they allocate.  The C++ class reports a status as its
  masks say, and its read into a vector ends whatever writers do.
  \<^item> \<^verbatim>\<open>achcop\<close>: at most one child is alive and only it is signalled; the run loop refines a
  supervisor with five kinds of events; pid files hold the pid.
  \<^item> \<^verbatim>\<open>achchand\<close>: the lines of a client are answered in order and once, however they arrive.
  \<^item> \<^verbatim>\<open>achbench\<close>: a receiver beside a sender drops its first five reads and stores for each further one
  the difference of the newest time to its clock, whatever rounds of the sender its reads find.
  \<^item> Where the code does not do what it means to, a theorem shows what it does: writing on a dirty
  channel, the short mapping, the handle on a channel of one frame, the wrap-around of sizes, leaked
  descriptors, lost errors and sizes, offsets and handlers that are ignored, a write loop that spins, the option that crashes, lost messages
  and lost termination requests, lines that \<^verbatim>\<open>achcat\<close> never
  prints, clients that crash \<^verbatim>\<open>achchand\<close>, receivers of \<^verbatim>\<open>achbench\<close>
  that insist on being real-time processes.

  \<^bold>\<open>Bounds and termination.\<close>  Sizes are 64-bit words and sequence numbers wrap where the code's do, and so
  do the positions of the guard words in a block and the sizes that are allocated; a guard word that
  falls outside the block, or on one that was written before, is a fault;
  theorems on histories ask for fewer than \<open>2 ^ 64\<close> writes.  Loops are recursive functions with
  termination proofs: the loop that clears overlapping frames uses up index entries, loops over input and
  output use up their scripts.  A loop that really does not end has the outcome \<open>Hang\<close>, and waiting for
  events that do not come is the outcome \<open>Blocked\<close>, \<open>P_block\<close> or \<open>Cop_waits\<close>.  No fuel is used.

  \<^bold>\<open>Not modelled.\<close>  The example and test programs; the code in Python, Java and Lisp over
  the native modules; usage texts
  and version messages; in the daemons, messages for debugging only; what \<^verbatim>\<open>gzip\<close> does with a log.
  Memory for small buffers does not run out except where a definition says so.  The threads of
  \<^verbatim>\<open>achcat\<close> take turns a round of their loops at a time, and those of \<^verbatim>\<open>achlog\<close> meet only in
  the channel and in the cancelled handle.  What the hardware's memory model adds to the lock's guarantees
  is outside the model.
\<close>

section \<open>From the shell\<close>

text \<open>A channel that \<^verbatim>\<open>ach mk\<close> left, opened and filled by \<^verbatim>\<open>achcat\<close>.\<close>

lemma open_default: "ach_open chan name (Some ach_attr_init) os = ach_open chan name None os"
  by (simp add: ach_open_def)

lemma publish_created:
  assumes q: "quiet os" and name: "channel_name_ok name" and fd: "os_fds os (os_fresh_fd os + 1) = None"
    and inp: "pending (cw_fin v) = concat ls" "\<forall>l\<in>set ls. text_line l" "length ls < 2 ^ 64"
    and v: "cw_os v = after_create os name 16 512"
  shows "\<exists>v' shm. achcat_main [''-p'', name] shms turns v = P_go 0 v' \<and>
           block_at (cw_os v') (os_fresh_id os) = Some shm \<and> at_rest shm \<and> frames shm = keep 16 8192 (number 0 ls) \<and>
           os_dir (cw_os v') = os_dir (cw_os v) \<and> os_fds (cw_os v') = os_fds os \<and> os_maps (cw_os v') = os_maps os"
proof -
  let ?b = "fresh_block name 16 512" and ?k = "os_fresh_id os"
  let ?h = "fresh_handle ?k (open_len ?b) (os_fresh_fd os + 1) ach_attr_init"
  let ?v = "v\<lparr>cw_os := reopened os name 16 512\<rparr>"
  have rest: "at_rest ?b" "frames ?b = []" "icnt ?b = 16" "dsize ?b = 8192" "lseq ?b = 0"
    using fresh_block_at_rest [OF default_sizes(1), of name] by simp_all
  have o: "cat_open name ach_attr_init v = P_go (ACH_OK, ?h) ?v"
    using ach_open_created [OF q name default_sizes(1), of no_handle] default_sizes(2) v
    by (simp add: cat_open_def open_default p_of_def reopened_def)
  have "block_at (cw_os ?v) ?k = Some ?b" by (simp add: block_at_def reopened_def after_create_def)
  then have "cat_publishing ?h ?k (ACH_OK, ?v) ?b" using rest(1) by (simp add: cat_publishing_def fresh_handle_def)
  moreover have "list_all (line_ok (dsize ?b)) ls" using inp(2) by (auto simp: list_all_iff line_ok_def text_line_def rest)
  ultimately obtain v1 shm where p: "cat_publish_loop ACH_OK ?h ?v = P_go ACH_OK v1" "block_at (cw_os v1) ?k = Some shm"
      "at_rest shm" "frames shm = keep 16 8192 (number 0 ls)"
    using cat_publisher.sink_all [of ?h ?k "(ACH_OK, ?v)" ?b ls] inp(1,3) rest by (auto simp: cat_published_def)
  have same: "same_but_objects (reopened os name 16 512) (cw_os v1)" using cat_publish_loop_os [OF p(1)] by simp
  obtain os2 where c: "ach_close ?h (cw_os v1) = Ret (ACH_OK, ?h\<lparr>ch_shm := None\<rparr>, os2)" "os_fds os2 = os_fds os" "os_maps os2 = os_maps os"
      "os_dir os2 = os_dir (cw_os v1)" "os_objects os2 = os_objects (cw_os v1)"
    using close_reopened [OF q default_sizes(1) fd same p(2,3), of ?h] by (auto simp: fresh_handle_def)
  have "os_dir (cw_os v1) = os_dir (cw_os v)"
    using arg_cong [OF same [unfolded same_but_objects_def], of os_dir] v by (simp add: reopened_def)
  moreover have "achcat_main [''-p'', name] shms turns v = P_go 0 (v1\<lparr>cw_os := os2\<rparr>)"
    using o p(1) c(1)
    by (simp add: achcat_main_def achcat_optstring_def is_option_def cat_option_def p_assert_def cat_publish_def
        cat_close_def p_of_def)
  ultimately show ?thesis using p(2-4) c by (intro exI [of _ "v1\<lparr>cw_os := os2\<rparr>"] exI [of _ shm]) (simp add: block_at_def)
qed

section \<open>Properties across programs\<close>

text \<open>
  C11. A session in the shell.  When no system call fails, \<^verbatim>\<open>ach mk\<close> of a valid, unused name followed
  by \<^verbatim>\<open>achcat -p\<close> on that name, with any text of lines that fit its buffer as input, both return
  zero; the channel under that name then is at rest and holds, in order, the longest run of newest lines
  that fits sixteen frames and 8192 bytes; and no descriptor and no mapping is left over.
\<close>

theorem shell_session:
  assumes "quiet (tl_os w)" "channel_name_ok name" "\<not> is_option name" "os_dir (tl_os w) (shm_file name) = None"
    and "os_fds (tl_os w) (os_fresh_fd (tl_os w) + 1) = None"
    and "pending (cw_fin v) = concat ls" "\<forall>l\<in>set ls. text_line l" "length ls < 2 ^ 64"
  shows "\<exists>w' v' k shm. achtool_main [''mk'', name] w = P_go 0 w' \<and>
           achcat_main [''-p'', name] shms turns (v\<lparr>cw_os := tl_os w'\<rparr>) = P_go 0 v' \<and>
           os_dir (cw_os v') (shm_file name) = Some k \<and> block_at (cw_os v') k = Some shm \<and>
           at_rest shm \<and> frames shm = keep 16 8192 (number 0 ls) \<and>
           os_fds (cw_os v') = os_fds (tl_os w) \<and> os_maps (cw_os v') = os_maps (tl_os w)"
proof -
  define os where "os = tl_os (clear_errno w)"
  have f: "quiet os" "os_dir os (shm_file name) = None" "os_fds os (os_fresh_fd os + 1) = None"
    "os_fds os = os_fds (tl_os w)" "os_maps os = os_maps (tl_os w)"
    using assms(1,4,5) by (simp_all add: os_def clear_errno_def quiet_def)
  obtain w' where w': "achtool_main [''mk'', name] w = P_go 0 w'" "tl_os w' = after_create os name 16 512"
    using main_mk [OF assms(1-4)] by (auto simp: os_def)
  let ?v = "v\<lparr>cw_os := tl_os w'\<rparr>"
  obtain v' shm where p: "achcat_main [''-p'', name] shms turns ?v = P_go 0 v'"
      "block_at (cw_os v') (os_fresh_id os) = Some shm" "at_rest shm" "frames shm = keep 16 8192 (number 0 ls)"
      "os_dir (cw_os v') = os_dir (cw_os ?v)" "os_fds (cw_os v') = os_fds os" "os_maps (cw_os v') = os_maps os"
    using publish_created [OF f(1) assms(2) f(3), of ?v ls shms turns] assms(6-8) w'(2) by auto
  moreover have "os_dir (cw_os ?v) (shm_file name) = Some (os_fresh_id os)" by (simp add: w'(2) after_create_def)
  ultimately show ?thesis using w'(1) f(4,5) by fastforce
qed

theorem shell_session_witness:
  "\<exists>w' v' k shm. achtool_main [''mk'', ''imu''] \<lparr>tl_os = empty_os, tl_build = debug_build, tl_err = [], tl_out = []\<rparr> = P_go 0 w' \<and>
     achcat_main [''-p'', ''imu''] [] [] (cat_demo\<lparr>cw_os := tl_os w'\<rparr>) = P_go 0 v' \<and>
     os_dir (cw_os v') (shm_file ''imu'') = Some k \<and> block_at (cw_os v') k = Some shm \<and>
     frames shm = [(1, [97, 10]), (2, [98, 99, 10])]"
proof -
  have t: "\<forall>l\<in>set [[97, 10], [98, 99, 10]]. text_line l" using text_line_demo by simp
  have k: "keep 16 8192 (number 0 [[97, 10], [98, 99, 10]]) = [(1, [97, 10]), (2, [98, 99, 10])]" by simp
  show ?thesis
    using shell_session [of "\<lparr>tl_os = empty_os, tl_build = debug_build, tl_err = [], tl_out = []\<rparr>" "''imu''" cat_demo
        "[[97, 10], [98, 99, 10]]" "[]" "[]", OF _ name_imu _ _ _ _ t, unfolded k]
      quiet_empty_os cat_demo_ok(2) by (simp add: is_option_def empty_os_def [THEN arg_cong, of os_fds] del: getopt_all.simps) blast
qed

end
